(* ===== verification/Prelude.thy ===== *)
theory Prelude
  imports Main "HOL-Library.Word" "HOL-Library.Code_Target_Nat"
begin

text \<open>
  What the components share: the workspace error type (\<open>crates/solo-core/src/error.rs\<close>),
  results as sums, the saturating integer operations of Rust, and Rust's \<open>str\<close> as the byte
  sequence it is. A \<^typ>\<open>string\<close> is a list of 8-bit characters, so a Rust string is the
  list of its UTF-8 bytes: \<open>len()\<close> is the length of the list, a character boundary is an
  offset whose byte is not a continuation byte.
  The texts of error messages are not modelled; the variant of the error is.
\<close>

named_theorems result_simps \<open>evaluation and inversion of sums used as results\<close>
named_theorems frame_simps \<open>what an operation leaves unchanged\<close>

section \<open>Errors and results\<close>

datatype error =
    Storage | VectorIndex | Embedder | EmbedderProtocol | Llm | Steward
  | InvalidInput | NotFound | Conflict | Forbidden | Io | Serde | UuidErr | Other

type_synonym 'a result = "error + 'a"

definition is_ok :: "'e + 'a \<Rightarrow> bool" where
  "is_ok r = (case r of Inl _ \<Rightarrow> False | Inr _ \<Rightarrow> True)"

definition bind_r :: "'e + 'a \<Rightarrow> ('a \<Rightarrow> 'e + 'b) \<Rightarrow> 'e + 'b" where
  "bind_r m f = (case m of Inl e \<Rightarrow> Inl e | Inr x \<Rightarrow> f x)"

definition require :: "bool \<Rightarrow> 'e \<Rightarrow> 'e + unit" where
  "require b e = (if b then Inr () else Inl e)"

definition ok_or :: "'a option \<Rightarrow> 'e \<Rightarrow> 'e + 'a" where
  "ok_or x e = (case x of None \<Rightarrow> Inl e | Some v \<Rightarrow> Inr v)"

definition ok_opt :: "'e + 'a \<Rightarrow> 'a option" where
  "ok_opt r = (case r of Inl _ \<Rightarrow> None | Inr v \<Rightarrow> Some v)"

lemma is_ok_simps [simp]: "is_ok (Inr x)" "\<not> is_ok (Inl e)"
  by (simp_all add: is_ok_def)

lemma is_ok_iff: "is_ok r \<longleftrightarrow> (\<exists>x. r = Inr x)"
  by (cases r) auto

lemma bind_r_simps [simp]:
  "bind_r (Inl e) f = Inl e"
  "bind_r (Inr x) f = f x"
  by (simp_all add: bind_r_def)

lemma bind_r_Inr_iff [result_simps]: "bind_r m f = Inr y \<longleftrightarrow> (\<exists>x. m = Inr x \<and> f x = Inr y)"
  by (cases m) auto

lemma bind_r_Inl_iff [result_simps]:
  "bind_r m f = Inl e \<longleftrightarrow> m = Inl e \<or> (\<exists>x. m = Inr x \<and> f x = Inl e)"
  by (cases m) auto

lemma require_iff [simp]:
  "require b e = Inr u \<longleftrightarrow> b"
  "require b e = Inl e' \<longleftrightarrow> \<not> b \<and> e' = e"
  by (auto simp: require_def)

lemma require_simps [simp]: "require True e = Inr ()" "require False e = Inl e"
  by (simp_all add: require_def)

lemma ok_or_iff [simp]:
  "ok_or x e = Inr v \<longleftrightarrow> x = Some v"
  "ok_or x e = Inl e' \<longleftrightarrow> x = None \<and> e' = e"
  by (auto simp: ok_or_def split: option.splits)

lemma ok_or_simps [simp]: "ok_or None e = Inl e" "ok_or (Some v) e = Inr v"
  by (simp_all add: ok_or_def)

lemma ok_opt_simps [simp]: "ok_opt (Inl e) = None" "ok_opt (Inr v) = Some v"
  by (simp_all add: ok_opt_def)

section \<open>Saturating integers\<close>

text \<open>
  An \<open>i64\<close> that is only added to and compared is an \<^typ>\<open>int\<close> with the saturation written
  out; an unsigned quantity is a \<^typ>\<open>nat\<close> with its maximum written out.
\<close>

definition i64_max :: int where "i64_max = 2 ^ 63 - 1"
definition i64_min :: int where "i64_min = - (2 ^ 63)"
definition u64_max :: nat where "u64_max = 2 ^ 64 - 1"
definition u32_max :: nat where "u32_max = 2 ^ 32 - 1"

definition sat_add_i64 :: "int \<Rightarrow> int \<Rightarrow> int" where
  "sat_add_i64 a b = max i64_min (min i64_max (a + b))"

definition sat_add_u64 :: "nat \<Rightarrow> nat \<Rightarrow> nat" where
  "sat_add_u64 a b = min u64_max (a + b)"

definition sat_mul_u64 :: "nat \<Rightarrow> nat \<Rightarrow> nat" where
  "sat_mul_u64 a b = min u64_max (a * b)"

definition sat_mul_u32 :: "nat \<Rightarrow> nat \<Rightarrow> nat" where
  "sat_mul_u32 a b = min u32_max (a * b)"

definition to_u32_sat :: "nat \<Rightarrow> nat" where
  "to_u32_sat n = min u32_max n"

lemma sat_add_i64_exact:
  "i64_min \<le> a + b \<Longrightarrow> a + b \<le> i64_max \<Longrightarrow> sat_add_i64 a b = a + b"
  by (simp add: sat_add_i64_def)

lemma sat_add_i64_mono: "a \<le> a' \<Longrightarrow> sat_add_i64 a b \<le> sat_add_i64 a' b"
  by (auto simp: sat_add_i64_def)

lemma sat_add_u64_ge: "a \<le> u64_max \<Longrightarrow> a \<le> sat_add_u64 a b"
  by (simp add: sat_add_u64_def)

section \<open>Strings as UTF-8 bytes\<close>

definition byte :: "char \<Rightarrow> nat" where
  "byte c = of_char c"

text \<open>A continuation byte has the form \<open>10xxxxxx\<close>; \<open>is_char_boundary\<close> of \<open>str\<close>.\<close>

definition is_cont :: "char \<Rightarrow> bool" where
  "is_cont c = (128 \<le> byte c \<and> byte c < 192)"

definition is_char_boundary :: "string \<Rightarrow> nat \<Rightarrow> bool" where
  "is_char_boundary s i = (i = 0 \<or> i = length s \<or> (i < length s \<and> \<not> is_cont (s ! i)))"

definition chars_count :: "string \<Rightarrow> nat" where
  "chars_count s = length (filter (\<lambda>c. \<not> is_cont c) s)"

definition slice :: "string \<Rightarrow> nat \<Rightarrow> nat \<Rightarrow> string" where
  "slice s a b = take (b - a) (drop a s)"

lemma length_slice: "a \<le> b \<Longrightarrow> b \<le> length s \<Longrightarrow> length (slice s a b) = b - a"
  by (simp add: slice_def)

lemma chars_count_le: "chars_count s \<le> length s"
  by (simp add: chars_count_def)

subsection \<open>Case folding, trimming, parsing\<close>

definition is_ascii_upper :: "char \<Rightarrow> bool" where
  "is_ascii_upper c = (65 \<le> byte c \<and> byte c \<le> 90)"

definition is_ascii_lower :: "char \<Rightarrow> bool" where
  "is_ascii_lower c = (97 \<le> byte c \<and> byte c \<le> 122)"

definition is_ascii_digit :: "char \<Rightarrow> bool" where
  "is_ascii_digit c = (48 \<le> byte c \<and> byte c \<le> 57)"

definition is_ascii_alphanumeric :: "char \<Rightarrow> bool" where
  "is_ascii_alphanumeric c = (is_ascii_upper c \<or> is_ascii_lower c \<or> is_ascii_digit c)"

definition is_ascii_hexdigit :: "char \<Rightarrow> bool" where
  "is_ascii_hexdigit c =
     (is_ascii_digit c \<or> (65 \<le> byte c \<and> byte c \<le> 70) \<or> (97 \<le> byte c \<and> byte c \<le> 102))"

definition ascii_lower_char :: "char \<Rightarrow> char" where
  "ascii_lower_char c = (if is_ascii_upper c then char_of (byte c + 32) else c)"

definition to_ascii_lowercase :: "string \<Rightarrow> string" where
  "to_ascii_lowercase s = map ascii_lower_char s"

text \<open>
  The UTF-8 encodings of the characters with the Unicode property \<open>White_Space\<close>, which
  \<open>str::trim\<close> removes at both ends.
\<close>

definition ws_seqs :: "string list" where
  "ws_seqs =
     [[CHR 0x09], [CHR 0x0A], [CHR 0x0B], [CHR 0x0C], [CHR 0x0D], [CHR 0x20],
      [CHR 0xC2, CHR 0x85], [CHR 0xC2, CHR 0xA0], [CHR 0xE1, CHR 0x9A, CHR 0x80],
      [CHR 0xE2, CHR 0x80, CHR 0x80], [CHR 0xE2, CHR 0x80, CHR 0x81],
      [CHR 0xE2, CHR 0x80, CHR 0x82], [CHR 0xE2, CHR 0x80, CHR 0x83],
      [CHR 0xE2, CHR 0x80, CHR 0x84], [CHR 0xE2, CHR 0x80, CHR 0x85],
      [CHR 0xE2, CHR 0x80, CHR 0x86], [CHR 0xE2, CHR 0x80, CHR 0x87],
      [CHR 0xE2, CHR 0x80, CHR 0x88], [CHR 0xE2, CHR 0x80, CHR 0x89],
      [CHR 0xE2, CHR 0x80, CHR 0x8A], [CHR 0xE2, CHR 0x80, CHR 0xA8],
      [CHR 0xE2, CHR 0x80, CHR 0xA9], [CHR 0xE2, CHR 0x80, CHR 0xAF],
      [CHR 0xE2, CHR 0x81, CHR 0x9F], [CHR 0xE3, CHR 0x80, CHR 0x80]]"

definition starts_with :: "string \<Rightarrow> string \<Rightarrow> bool" where
  "starts_with p s = (take (length p) s = p)"

definition ends_with :: "string \<Rightarrow> string \<Rightarrow> bool" where
  "ends_with p s = (length p \<le> length s \<and> drop (length s - length p) s = p)"

definition ws_prefix_len :: "string \<Rightarrow> nat" where
  "ws_prefix_len s =
     (case find (\<lambda>w. starts_with w s) ws_seqs of None \<Rightarrow> 0 | Some w \<Rightarrow> length w)"

definition ws_suffix_len :: "string \<Rightarrow> nat" where
  "ws_suffix_len s =
     (case find (\<lambda>w. ends_with w s) ws_seqs of None \<Rightarrow> 0 | Some w \<Rightarrow> length w)"

function trim_start :: "string \<Rightarrow> string" where
  "trim_start s =
     (if s = [] \<or> ws_prefix_len s = 0 then s else trim_start (drop (ws_prefix_len s) s))"
  by pat_completeness auto
termination
  by (relation "measure length") auto

function trim_end :: "string \<Rightarrow> string" where
  "trim_end s =
     (if s = [] \<or> ws_suffix_len s = 0 then s
      else trim_end (take (length s - ws_suffix_len s) s))"
  by pat_completeness auto
termination
  by (relation "measure length") auto

declare trim_start.simps [simp del] trim_end.simps [simp del]

definition trim :: "string \<Rightarrow> string" where
  "trim s = trim_end (trim_start s)"

text \<open>\<open>str::parse::<u64>\<close> and \<open>::<u32>\<close>: an optional \<open>+\<close>, then at least one decimal digit, no overflow.\<close>

fun parse_digits :: "nat \<Rightarrow> nat \<Rightarrow> string \<Rightarrow> nat option" where
  "parse_digits limit acc [] = Some acc"
| "parse_digits limit acc (c # cs) =
     (if is_ascii_digit c \<and> acc * 10 + (byte c - 48) \<le> limit
      then parse_digits limit (acc * 10 + (byte c - 48)) cs
      else None)"

definition parse_unsigned :: "nat \<Rightarrow> string \<Rightarrow> nat option" where
  "parse_unsigned limit s =
     (let t = (case s of [] \<Rightarrow> [] | c # cs \<Rightarrow> if c = CHR ''+'' then cs else s)
      in if t = [] then None else parse_digits limit 0 t)"

lemma parse_digits_bound: "acc \<le> limit \<Longrightarrow> parse_digits limit acc s = Some n \<Longrightarrow> n \<le> limit"
  by (induction limit acc s rule: parse_digits.induct) (auto split: if_splits)

lemma parse_unsigned_bound: "parse_unsigned limit s = Some n \<Longrightarrow> n \<le> limit"
  by (auto simp: parse_unsigned_def Let_def split: if_splits list.splits dest: parse_digits_bound [rotated])

text \<open>\<open>str::contains\<close> and \<open>str::find\<close> of a substring.\<close>

fun find_sub :: "string \<Rightarrow> string \<Rightarrow> nat option" where
  "find_sub p [] = (if p = [] then Some 0 else None)"
| "find_sub p (c # s) =
     (if starts_with p (c # s) then Some 0 else map_option Suc (find_sub p s))"

definition contains_sub :: "string \<Rightarrow> string \<Rightarrow> bool" where
  "contains_sub p s = (find_sub p s \<noteq> None)"

subsection \<open>Splitting, lines, paths\<close>

fun split_on :: "char \<Rightarrow> string \<Rightarrow> string list" where
  "split_on c [] = [[]]"
| "split_on c (x # xs) =
     (if x = c then [] # split_on c xs
      else (case split_on c xs of [] \<Rightarrow> [[x]] | l # ls \<Rightarrow> (x # l) # ls))"

text \<open>\<open>str::lines\<close>: the final empty line and a \<open>CR\<close> before the line feed are dropped.\<close>

definition strip_cr :: "string \<Rightarrow> string" where
  "strip_cr l = (if l \<noteq> [] \<and> last l = CHR 0x0D then butlast l else l)"

definition str_lines :: "string \<Rightarrow> string list" where
  "str_lines s =
     (let ls = split_on (CHR 0x0A) s
      in map strip_cr (butlast ls) @ (if last ls = [] then [] else [last ls]))"

definition trim_start_char :: "char \<Rightarrow> string \<Rightarrow> string" where
  "trim_start_char c s = dropWhile (\<lambda>x. x = c) s"

definition trim_end_char :: "char \<Rightarrow> string \<Rightarrow> string" where
  "trim_end_char c s = rev (dropWhile (\<lambda>x. x = c) (rev s))"

text \<open>\<open>Path::file_name\<close>, \<open>file_stem\<close> and \<open>extension\<close> on a \<open>/\<close>-separated path.\<close>

definition file_name :: "string \<Rightarrow> string option" where
  "file_name path =
     (case rev (filter (\<lambda>c. c \<noteq> [] \<and> c \<noteq> ''.'') (split_on (CHR ''/'') path)) of
        [] \<Rightarrow> None
      | c # _ \<Rightarrow> if c = ''..'' then None else Some c)"

definition rsplit_dot :: "string \<Rightarrow> (string \<times> string) option" where
  "rsplit_dot s =
     (let tail = takeWhile (\<lambda>c. c \<noteq> CHR ''.'') (rev s)
      in if length tail = length s then None
         else Some (take (length s - length tail - 1) s, rev tail))"

definition file_stem :: "string \<Rightarrow> string option" where
  "file_stem path =
     (case file_name path of
        None \<Rightarrow> None
      | Some n \<Rightarrow> Some (case rsplit_dot n of None \<Rightarrow> n | Some (b, _) \<Rightarrow> if b = [] then n else b))"

definition file_extension :: "string \<Rightarrow> string option" where
  "file_extension path =
     (case file_name path of
        None \<Rightarrow> None
      | Some n \<Rightarrow> (case rsplit_dot n of None \<Rightarrow> None | Some (b, e) \<Rightarrow> if b = [] then None else Some e))"

section \<open>Lists\<close>

lemma filter_id_conv_all: "(\<forall>x \<in> set xs. P x) \<Longrightarrow> filter P xs = xs"
  by (simp add: filter_id_conv)

lemma find_Some_in: "find P xs = Some x \<Longrightarrow> x \<in> set xs \<and> P x"
  by (induction xs) (auto split: if_splits)

lemma find_None_all: "find P xs = None \<longleftrightarrow> (\<forall>x \<in> set xs. \<not> P x)"
  by (induction xs) auto

end
