(* ===== verification/HnswId.thy ===== *)
theory HnswId
  imports Prelude
begin

text \<open>
  \<open>crates/solo-storage/src/hnsw_id.rs\<close>: the encoding of SQL rowids into the one id space of
  the vector index that episodes and document chunks share. An \<open>i64\<close> is a \<^typ>\<open>64 word\<close>
  read with \<^const>\<open>sint\<close>. The \<open>debug_assert!\<close>s are compiled out of release builds, so
  they are not branches of the encoders; the theorems state the range they check.
\<close>

unbundle bit_operations_syntax

type_synonym i64 = "64 word"

definition HNSW_CHUNK_BIT :: i64 where
  "HNSW_CHUNK_BIT = push_bit 62 1"

datatype HnswIdKind = Episode | Chunk

definition episode_hnsw_id :: "i64 \<Rightarrow> i64" where
  "episode_hnsw_id episode_rowid = episode_rowid"

definition chunk_hnsw_id :: "i64 \<Rightarrow> i64" where
  "chunk_hnsw_id chunk_rowid = chunk_rowid OR HNSW_CHUNK_BIT"

definition decode_hnsw_id :: "i64 \<Rightarrow> HnswIdKind \<times> i64" where
  "decode_hnsw_id hnsw_id =
     (if hnsw_id AND HNSW_CHUNK_BIT \<noteq> 0
      then (Chunk, hnsw_id AND NOT HNSW_CHUNK_BIT)
      else (Episode, hnsw_id))"

text \<open>The range the debug assertions of the encoders check.\<close>

definition rowid_in_range :: "i64 \<Rightarrow> bool" where
  "rowid_in_range r = (0 \<le> sint r \<and> r AND HNSW_CHUNK_BIT = 0)"

lemma chunk_bit_bit: "bit HNSW_CHUNK_BIT n \<longleftrightarrow> n = 62"
proof -
  have "bit (push_bit 62 (1 :: i64)) n \<longleftrightarrow> n = 62"
    by (auto simp only: bit_push_bit_iff bit_1_iff) (auto simp: not_le)
  then show ?thesis by (simp only: HNSW_CHUNK_BIT_def)
qed

lemma and_chunk_bit_zero_iff: "r AND HNSW_CHUNK_BIT = 0 \<longleftrightarrow> \<not> bit r 62"
proof
  assume "r AND HNSW_CHUNK_BIT = 0"
  then have "\<not> bit (r AND HNSW_CHUNK_BIT) 62" by simp
  then show "\<not> bit r 62" by (simp add: bit_and_iff chunk_bit_bit)
next
  assume "\<not> bit r 62"
  then show "r AND HNSW_CHUNK_BIT = 0"
    by (intro bit_word_eqI) (auto simp: bit_and_iff chunk_bit_bit)
qed

lemma bit_chunk_id: "bit (chunk_hnsw_id r) n \<longleftrightarrow> bit r n \<or> n = 62"
  by (auto simp: chunk_hnsw_id_def bit_or_iff chunk_bit_bit)

lemma clear_chunk_bit: "\<not> bit r 62 \<Longrightarrow> chunk_hnsw_id r AND NOT HNSW_CHUNK_BIT = r"
  by (intro bit_word_eqI) (auto simp: bit_and_iff bit_not_iff chunk_bit_bit bit_chunk_id)

lemma decode_chunk: "\<not> bit r 62 \<Longrightarrow> decode_hnsw_id (chunk_hnsw_id r) = (Chunk, r)"
  using and_chunk_bit_zero_iff [of "chunk_hnsw_id r"]
  by (simp add: decode_hnsw_id_def bit_chunk_id clear_chunk_bit)

lemma decode_episode: "\<not> bit r 62 \<Longrightarrow> decode_hnsw_id (episode_hnsw_id r) = (Episode, r)"
  by (simp add: decode_hnsw_id_def episode_hnsw_id_def and_chunk_bit_zero_iff)

text \<open>A rowid below \<open>2 ^ 62\<close> is non-negative and leaves the flag bit clear.\<close>

lemma of_nat_bit62: "n < 2 ^ 62 \<Longrightarrow> \<not> bit (of_nat n :: i64) 62"
proof -
  assume "n < 2 ^ 62"
  then have "\<not> bit n 62" by (simp add: bit_iff_odd [where 'a = nat])
  then show ?thesis by (simp add: bit_of_nat_iff)
qed

lemma of_nat_bit63: "n < 2 ^ 62 \<Longrightarrow> \<not> bit (of_nat n :: i64) 63"
proof -
  assume "n < 2 ^ 62"
  then have "\<not> bit n 63" by (simp add: bit_iff_odd [where 'a = nat])
  then show ?thesis by (simp add: bit_of_nat_iff)
qed

lemma of_nat_rowid_inj:
  assumes "m < 2 ^ 62" and "n < 2 ^ 62"
  shows "(of_nat m :: i64) = of_nat n \<longleftrightarrow> m = n"
proof -
  have "take_bit 64 m = m" and "take_bit 64 n = n"
    using assms by (simp_all add: take_bit_nat_eq_self_iff)
  then show ?thesis by (simp add: word_of_nat_eq_iff)
qed

lemma sint_of_nat_rowid:
  assumes "n < 2 ^ 62"
  shows "sint (of_nat n :: i64) = int n"
proof -
  have "sint (of_nat n :: i64) = signed_take_bit 63 (int n)" by (simp add: signed_of_nat)
  also have "\<dots> = int n"
    using assms by (intro signed_take_bit_int_eq_self) auto
  finally show ?thesis .
qed

lemma rowid_in_range_of_nat: "n < 2 ^ 62 \<Longrightarrow> rowid_in_range (of_nat n)"
  by (simp add: rowid_in_range_def sint_of_nat_rowid and_chunk_bit_zero_iff of_nat_bit62)

text \<open>The two kinds never share an id, and within a kind an id stands for one rowid.\<close>

lemma chunk_ne_episode: "n < 2 ^ 62 \<Longrightarrow> episode_hnsw_id (of_nat n) \<noteq> chunk_hnsw_id m"
  using of_nat_bit62 [of n] bit_chunk_id [of m 62] by (auto simp: episode_hnsw_id_def)

lemma chunk_id_inj:
  "m < 2 ^ 62 \<Longrightarrow> n < 2 ^ 62 \<Longrightarrow>
   chunk_hnsw_id (of_nat m) = chunk_hnsw_id (of_nat n) \<longleftrightarrow> m = n"
  using decode_chunk [OF of_nat_bit62 [of m]] decode_chunk [OF of_nat_bit62 [of n]]
    of_nat_rowid_inj [of m n]
  by auto

lemma episode_id_inj:
  "m < 2 ^ 62 \<Longrightarrow> n < 2 ^ 62 \<Longrightarrow>
   episode_hnsw_id (of_nat m) = episode_hnsw_id (of_nat n) \<longleftrightarrow> m = n"
  by (simp add: episode_hnsw_id_def of_nat_rowid_inj)

lemma sint_nonneg_iff: "0 \<le> sint (w :: i64) \<longleftrightarrow> \<not> bit w 63"
  using bit_last_iff [of w] by (auto simp: not_less)

lemma sint_chunk_id_nonneg: "n < 2 ^ 62 \<Longrightarrow> 0 \<le> sint (chunk_hnsw_id (of_nat n))"
  by (simp add: sint_nonneg_iff bit_chunk_id of_nat_bit63)

text \<open>
  C28: decoding an encoded rowid gives back its kind and the rowid, and the ids of episodes and
  chunks never meet, for every rowid the debug assertions admit.
\<close>

theorem hnsw_id_roundtrip:
  assumes "rowid_in_range r" "rowid_in_range r'"
  shows "decode_hnsw_id (episode_hnsw_id r) = (Episode, r) \<and> decode_hnsw_id (chunk_hnsw_id r) = (Chunk, r) \<and>
         episode_hnsw_id r \<noteq> chunk_hnsw_id r' \<and> 0 \<le> sint (chunk_hnsw_id r)"
proof -
  have bits: "\<not> bit r 62" "\<not> bit r' 62" "\<not> bit r 63"
    using assms by (simp_all add: rowid_in_range_def and_chunk_bit_zero_iff sint_nonneg_iff)
  have "episode_hnsw_id r \<noteq> chunk_hnsw_id r'"
    using decode_episode [OF bits(1)] decode_chunk [OF bits(2)] by auto
  with bits show ?thesis
    using decode_episode [OF bits(1)] decode_chunk [OF bits(1)] by (simp add: sint_nonneg_iff bit_chunk_id)
qed

theorem hnsw_id_roundtrip_witness:
  "decode_hnsw_id (chunk_hnsw_id 7) = (Chunk, 7) \<and> episode_hnsw_id 7 \<noteq> chunk_hnsw_id 7"
proof -
  have "rowid_in_range 7" using rowid_in_range_of_nat [of 7] by simp
  from hnsw_id_roundtrip [OF this this] show ?thesis by blast
qed

end
