(* ===== verification/CoreTypes.thy ===== *)
theory CoreTypes
  imports Prelude
begin

text \<open>
  \<open>crates/solo-core/src/types.rs\<close>: the data the storage components exchange. Identifiers
  are UUIDs (128 bits), modelled as natural numbers; fresh ones are inputs of the operations
  that draw them. An \<open>f32\<close> is its 32-bit pattern: the storage layer moves vectors, it does
  not compute with them. JSON values are held in serialised form.
\<close>

type_synonym uuid = nat
type_synonym memory_id = uuid
type_synonym document_id = uuid
type_synonym chunk_id = uuid
type_synonym json = string
type_synonym f32 = "32 word"
type_synonym bytes = string

datatype EmbeddingDtype = F32 | F16 | I8 | Binary

definition bytes_per_element :: "EmbeddingDtype \<Rightarrow> nat" where
  "bytes_per_element d = (case d of F32 \<Rightarrow> 4 | F16 \<Rightarrow> 2 | I8 \<Rightarrow> 1 | Binary \<Rightarrow> 0)"

definition div_ceil :: "nat \<Rightarrow> nat \<Rightarrow> nat" where
  "div_ceil a b = (a + b - 1) div b"

definition bytes_for_dim :: "EmbeddingDtype \<Rightarrow> nat \<Rightarrow> nat" where
  "bytes_for_dim d n =
     (case d of Binary \<Rightarrow> div_ceil n 8 | _ \<Rightarrow> bytes_per_element d * n)"

record Embedding =
  dtype :: EmbeddingDtype
  dim :: nat
  data :: bytes

definition validate :: "Embedding \<Rightarrow> unit result" where
  "validate e = require (length (data e) = bytes_for_dim (dtype e) (dim e)) EmbedderProtocol"

text \<open>
  \<open>bytemuck::try_cast_slice\<close> from bytes to \<open>f32\<close>: it refuses a length that is no multiple
  of four and a buffer that is not aligned; the alignment of an allocation is the parameter
  \<open>aligned\<close>. The bytes of one float are in little-endian order.
\<close>

definition f32_of_bytes :: "char \<Rightarrow> char \<Rightarrow> char \<Rightarrow> char \<Rightarrow> f32" where
  "f32_of_bytes a b c d =
     of_nat (byte a + 256 * byte b + 256 ^ 2 * byte c + 256 ^ 3 * byte d)"

fun f32s_of_bytes :: "bytes \<Rightarrow> f32 list" where
  "f32s_of_bytes (a # b # c # d # bs) = f32_of_bytes a b c d # f32s_of_bytes bs"
| "f32s_of_bytes _ = []"

definition cast_f32 :: "(bytes \<Rightarrow> bool) \<Rightarrow> bytes \<Rightarrow> f32 list option" where
  "cast_f32 aligned bs =
     (if aligned bs \<and> length bs mod 4 = 0 then Some (f32s_of_bytes bs) else None)"

definition as_f32_slice :: "(bytes \<Rightarrow> bool) \<Rightarrow> Embedding \<Rightarrow> f32 list option" where
  "as_f32_slice aligned e = (if dtype e \<noteq> F32 then None else cast_f32 aligned (data e))"

datatype Tier = Hot | Warm | Cold

record Provenance =
  derived_from :: "memory_id list"
  derivation :: string
  prov_by :: string
  at_ms :: int

record Episode =
  memory_id :: memory_id
  ts_ms :: int
  source_type :: string
  source_id :: "string option"
  content :: string
  encoding_context :: json
  provenance :: "Provenance option"
  confidence :: f32
  strength :: f32
  salience :: f32
  tier :: Tier

text \<open>The soft-delete status of an episode or a document (\<open>DocumentStatus\<close>).\<close>

datatype status = Active | Forgotten

lemma length_f32s: "length (f32s_of_bytes bs) = length bs div 4"
  by (induction bs rule: f32s_of_bytes.induct) auto

lemma validate_f32_len:
  "validate e = Inr u \<Longrightarrow> dtype e = F32 \<Longrightarrow> length (data e) = 4 * dim e"
  by (simp add: validate_def bytes_for_dim_def bytes_per_element_def)

lemma cast_f32_len: "cast_f32 al bs = Some v \<Longrightarrow> length v = length bs div 4"
  by (auto simp: cast_f32_def length_f32s split: if_splits)

lemma as_f32_slice_len:
  "validate e = Inr u \<Longrightarrow> as_f32_slice al e = Some v \<Longrightarrow> length v = dim e"
  by (auto simp: as_f32_slice_def validate_f32_len dest!: cast_f32_len split: if_splits)

lemma as_f32_slice_Some:
  "validate e = Inr u \<Longrightarrow> dtype e = F32 \<Longrightarrow> al (data e) \<Longrightarrow>
   as_f32_slice al e = Some (f32s_of_bytes (data e))"
  by (simp add: as_f32_slice_def cast_f32_def validate_f32_len)

end
