(* ===== verification/Db.thy ===== *)
theory Db
  imports HnswId CoreTypes
begin

text \<open>
  The tables of the per-tenant SQLite database that the writer, the replay and the rebuild
  share (\<open>crates/solo-storage/src/migrations\<close>), as lists of rows in insertion order, and
  the SQL statements the code runs on them. A statement that breaks a \<open>UNIQUE\<close> or
  \<open>PRIMARY KEY\<close> constraint is an error; every other way a statement may fail (a full disk, a
  lock, a value that a \<open>CHECK\<close> or \<open>NOT NULL\<close> refuses) is a fault the environment
  chooses, statement by statement.
\<close>

section \<open>Rows\<close>

text \<open>An \<open>AUTOINCREMENT\<close> rowid is a natural number, one more than the largest ever used.\<close>

record episode_row =
  er_rowid :: nat
  er_memory_id :: memory_id
  er_ts_ms :: int
  er_source_type :: string
  er_source_id :: "string option"
  er_content :: string
  er_context :: json
  er_provenance :: "Provenance option"
  er_confidence :: f32
  er_strength :: f32
  er_salience :: f32
  er_tier :: Tier
  er_status :: status
  er_created_at_ms :: int
  er_updated_at_ms :: int
  er_principal :: "string option"

record embedding_row =
  em_memory_id :: memory_id
  em_embedder_id :: nat
  em_dtype :: EmbeddingDtype
  em_dim :: nat
  em_vector :: bytes
  em_created_at_ms :: int

record document_row =
  dr_doc_id :: document_id
  dr_source :: string
  dr_title :: string
  dr_mime_type :: string
  dr_ingested_at_ms :: int
  dr_modified_at_ms :: "int option"
  dr_status :: status
  dr_chunk_count :: nat
  dr_content_hash :: string
  dr_byte_size :: nat

record chunk_row =
  cr_rowid :: nat
  cr_chunk_id :: chunk_id
  cr_doc_id :: document_id
  cr_chunk_index :: nat
  cr_content :: string
  cr_token_count :: nat
  cr_start_offset :: nat
  cr_end_offset :: nat
  cr_created_at_ms :: int
  cr_principal :: "string option"

record chunk_embedding_row =
  ce_chunk_id :: chunk_id
  ce_embedder_id :: nat
  ce_dtype :: EmbeddingDtype
  ce_dim :: nat
  ce_vector :: bytes
  ce_created_at_ms :: int

text \<open>
  A row of \<open>pending_index\<close> names an episode or a chunk, never both (its \<open>CHECK\<close>), and
  each at most once (its two \<open>UNIQUE\<close> columns).
\<close>

datatype ptarget = PEpisode memory_id | PChunk chunk_id

record pending_row =
  pe_target :: ptarget
  pe_embedding :: bytes
  pe_dim :: nat
  pe_enqueued_at :: int

datatype AuditOperation =
    MemoryRemember | MemoryRememberBatch | MemoryUpdate | MemoryForget | MemoryReview
  | MemoryConsolidate | MemoryDerivedRepair | MemoryQualityReview | MemoryReembed
  | MemoryIngestDocument | MemoryForgetDocument | MemoryNormalizeSubjects | MemoryBackup
  | MemorySaveSnapshot | MemoryTriplesExtract | LlmSamplingCall | MemoryRecall
  | MemoryContext | MemoryInspect | MemoryThemes | MemoryFactsAbout | MemoryEntities
  | MemoryQualityAudit | MemoryContradictions | MemoryContradictionResolve
  | MemoryInspectCluster | MemorySearchDocs | MemoryInspectDocument | MemoryListDocuments
  | MemoryInspectAsset | MemoryListAssets | MemoryListDocumentAssets
  | MemoryListMemoryAttachments | MemoryPrepareAssetDownload | MemoryDownloadAsset
  | MemoryInbox | MemoryStoreAsset | MemoryRecordAssetExtraction
  | MemoryLinkDocumentAsset | MemoryAttach | MemoryForgetAsset | RedactionApplied
  | TenantCreate | TenantDelete | LibraryBackup | LibraryRestore | TenantSetQuota
  | GdprForgetUser

datatype AuditResult = AuditOk | AuditError | AuditForbidden

datatype audit_target = TMemory memory_id | TDocument document_id | TPath string

text \<open>The payloads of \<open>details_json\<close>, one constructor per shape the writer builds.\<close>

datatype audit_details =
    DError error
  | DBatchError error nat
  | DReason string
  | DMatches "(string \<times> nat) list"
  | DQuota nat nat nat
  | DItemCount nat
  | DDeduped
  | DIngested nat nat
  | DReview "string option" bool
  | DReembedded nat nat nat nat bool
  | DConsolidated nat nat nat nat nat

record AuditEvent =
  au_ts_ms :: int
  au_principal :: "string option"
  au_operation :: AuditOperation
  au_target :: "audit_target option"
  au_result :: AuditResult
  au_details :: "audit_details option"

datatype MemoryReviewState = Approved | Dismissed

record review_row =
  rv_memory_id :: memory_id
  rv_state :: MemoryReviewState
  rv_reviewed_at_ms :: int
  rv_note :: "string option"
  rv_created_at_ms :: int
  rv_updated_at_ms :: int

record db =
  episodes :: "episode_row list"
  ep_seq :: nat
  embeddings :: "embedding_row list"
  documents :: "document_row list"
  chunks :: "chunk_row list"
  chunk_seq :: nat
  chunk_embeddings :: "chunk_embedding_row list"
  pending :: "pending_row list"
  reviews :: "review_row list"
  audit :: "AuditEvent list"

section \<open>Statements\<close>

definition find_episode :: "db \<Rightarrow> memory_id \<Rightarrow> episode_row option" where
  "find_episode d mid = find (\<lambda>r. er_memory_id r = mid) (episodes d)"

definition find_document :: "db \<Rightarrow> document_id \<Rightarrow> document_row option" where
  "find_document d did = find (\<lambda>r. dr_doc_id r = did) (documents d)"

text \<open>\<open>INSERT INTO episodes\<close>; the new rowid is what \<open>last_insert_rowid\<close> returns.\<close>

definition insert_episode :: "(nat \<Rightarrow> episode_row) \<Rightarrow> db \<Rightarrow> (db \<times> nat) result" where
  "insert_episode mk d =
     (let rowid = Suc (ep_seq d); row = mk rowid
      in if er_memory_id row \<in> er_memory_id ` set (episodes d) then Inl Storage
         else Inr (d\<lparr>episodes := episodes d @ [row], ep_seq := rowid\<rparr>, rowid))"

definition insert_embedding :: "embedding_row \<Rightarrow> db \<Rightarrow> db result" where
  "insert_embedding row d =
     (if (em_memory_id row, em_embedder_id row)
           \<in> (\<lambda>r. (em_memory_id r, em_embedder_id r)) ` set (embeddings d)
      then Inl Storage
      else Inr (d\<lparr>embeddings := embeddings d @ [row]\<rparr>))"

definition upsert_embedding :: "embedding_row \<Rightarrow> db \<Rightarrow> db" where
  "upsert_embedding row d =
     (let same = (\<lambda>r. em_memory_id r = em_memory_id row \<and> em_embedder_id r = em_embedder_id row)
      in if (\<exists>r \<in> set (embeddings d). same r)
         then d\<lparr>embeddings := map (\<lambda>r. if same r then row else r) (embeddings d)\<rparr>
         else d\<lparr>embeddings := embeddings d @ [row]\<rparr>)"

definition insert_pending :: "pending_row \<Rightarrow> db \<Rightarrow> db result" where
  "insert_pending row d =
     (if pe_target row \<in> pe_target ` set (pending d) then Inl Storage
      else Inr (d\<lparr>pending := pending d @ [row]\<rparr>))"

definition upsert_pending :: "pending_row \<Rightarrow> db \<Rightarrow> db" where
  "upsert_pending row d =
     (if pe_target row \<in> pe_target ` set (pending d)
      then d\<lparr>pending := map (\<lambda>r. if pe_target r = pe_target row then row else r) (pending d)\<rparr>
      else d\<lparr>pending := pending d @ [row]\<rparr>)"

definition delete_pending :: "ptarget \<Rightarrow> db \<Rightarrow> db" where
  "delete_pending t d = d\<lparr>pending := filter (\<lambda>r. pe_target r \<noteq> t) (pending d)\<rparr>"

definition insert_document :: "document_row \<Rightarrow> db \<Rightarrow> db result" where
  "insert_document row d =
     (if dr_doc_id row \<in> dr_doc_id ` set (documents d) then Inl Storage
      else Inr (d\<lparr>documents := documents d @ [row]\<rparr>))"

definition insert_chunk :: "(nat \<Rightarrow> chunk_row) \<Rightarrow> db \<Rightarrow> (db \<times> nat) result" where
  "insert_chunk mk d =
     (let rowid = Suc (chunk_seq d); row = mk rowid
      in if cr_chunk_id row \<in> cr_chunk_id ` set (chunks d)
            \<or> (cr_doc_id row, cr_chunk_index row)
                 \<in> (\<lambda>r. (cr_doc_id r, cr_chunk_index r)) ` set (chunks d)
         then Inl Storage
         else Inr (d\<lparr>chunks := chunks d @ [row], chunk_seq := rowid\<rparr>, rowid))"

definition insert_chunk_embedding :: "chunk_embedding_row \<Rightarrow> db \<Rightarrow> db result" where
  "insert_chunk_embedding row d =
     (if (ce_chunk_id row, ce_embedder_id row)
           \<in> (\<lambda>r. (ce_chunk_id r, ce_embedder_id r)) ` set (chunk_embeddings d)
      then Inl Storage
      else Inr (d\<lparr>chunk_embeddings := chunk_embeddings d @ [row]\<rparr>))"

definition upsert_review :: "review_row \<Rightarrow> db \<Rightarrow> db" where
  "upsert_review row d =
     (if rv_memory_id row \<in> rv_memory_id ` set (reviews d)
      then d\<lparr>reviews := map (\<lambda>r. if rv_memory_id r = rv_memory_id row
                then row\<lparr>rv_created_at_ms := rv_created_at_ms r\<rparr> else r) (reviews d)\<rparr>
      else d\<lparr>reviews := reviews d @ [row]\<rparr>)"

definition delete_review :: "memory_id \<Rightarrow> db \<Rightarrow> db" where
  "delete_review mid d = d\<lparr>reviews := filter (\<lambda>r. rv_memory_id r \<noteq> mid) (reviews d)\<rparr>"

text \<open>\<open>UPDATE episodes SET ...\<close> of the row with this \<open>memory_id\<close>.\<close>

definition update_episode :: "memory_id \<Rightarrow> (episode_row \<Rightarrow> episode_row) \<Rightarrow> db \<Rightarrow> db" where
  "update_episode mid f d =
     d\<lparr>episodes := map (\<lambda>r. if er_memory_id r = mid then f r else r) (episodes d)\<rparr>"

definition update_document :: "document_id \<Rightarrow> (document_row \<Rightarrow> document_row) \<Rightarrow> db \<Rightarrow> db" where
  "update_document did f d =
     d\<lparr>documents := map (\<lambda>r. if dr_doc_id r = did then f r else r) (documents d)\<rparr>"

definition insert_audit :: "AuditEvent \<Rightarrow> db \<Rightarrow> db" where
  "insert_audit e d = d\<lparr>audit := audit d @ [e]\<rparr>"

section \<open>What the index should hold\<close>

definition doc_active :: "db \<Rightarrow> document_id \<Rightarrow> bool" where
  "doc_active d did = (\<exists>r \<in> set (documents d). dr_doc_id r = did \<and> dr_status r = Active)"

definition ep_id :: "episode_row \<Rightarrow> i64" where
  "ep_id r = episode_hnsw_id (of_nat (er_rowid r))"

definition ch_id :: "chunk_row \<Rightarrow> i64" where
  "ch_id c = chunk_hnsw_id (of_nat (cr_rowid c))"

definition active_ids :: "db \<Rightarrow> i64 set" where
  "active_ids d =
     ep_id ` {r \<in> set (episodes d). er_status r = Active} \<union>
     ch_id ` {c \<in> set (chunks d). doc_active d (cr_doc_id c)}"

definition pending_targets :: "db \<Rightarrow> ptarget set" where
  "pending_targets d = pe_target ` set (pending d)"

definition pending_ids :: "db \<Rightarrow> i64 set" where
  "pending_ids d =
     ep_id ` {r \<in> set (episodes d). PEpisode (er_memory_id r) \<in> pending_targets d} \<union>
     ch_id ` {c \<in> set (chunks d). PChunk (cr_chunk_id c) \<in> pending_targets d}"

text \<open>
  The constraints of the schema that the statements keep: the keys are unique, the rowids are
  distinct and below the sequence counters, and every chunk belongs to a document.
\<close>

definition wf_db :: "db \<Rightarrow> bool" where
  "wf_db d =
     (distinct (map er_memory_id (episodes d)) \<and> distinct (map er_rowid (episodes d)) \<and>
      (\<forall>r \<in> set (episodes d). er_rowid r \<le> ep_seq d) \<and>
      distinct (map cr_chunk_id (chunks d)) \<and> distinct (map cr_rowid (chunks d)) \<and>
      (\<forall>c \<in> set (chunks d). cr_rowid c \<le> chunk_seq d) \<and>
      (\<forall>c \<in> set (chunks d). cr_doc_id c \<in> dr_doc_id ` set (documents d)) \<and>
      distinct (map dr_doc_id (documents d)) \<and>
      distinct (map pe_target (pending d)))"

definition rowids_fit :: "db \<Rightarrow> bool" where
  "rowids_fit d = (ep_seq d < 2 ^ 62 \<and> chunk_seq d < 2 ^ 62)"

end
