(* ===== verification/VectorIndexModel.thy ===== *)
theory VectorIndexModel
  imports HnswId CoreTypes
begin

text \<open>
  \<open>crates/solo-storage/src/vector_index.rs\<close> and the trait \<open>VectorIndex\<close> of
  \<open>crates/solo-core/src/vector_index.rs\<close>. The graph \<open>hnsw_rs::Hnsw\<close> is third-party code:
  the object is represented by the sequence of insertions made into it, and what it answers
  (the point count, the neighbours of a query) are parameters that see that sequence. The
  tombstone set, the guards and the filtering are the code of this repository.
\<close>

section \<open>The trait object\<close>

text \<open>A \<open>dyn VectorIndex\<close> is its table of methods; \<open>'d\<close> is the type of distances.\<close>

record ('i, 'd) vindex =
  vi_add :: "'i \<Rightarrow> i64 \<Rightarrow> f32 list \<Rightarrow> 'i result"
  vi_remove :: "'i \<Rightarrow> i64 \<Rightarrow> 'i result"
  vi_search :: "'i \<Rightarrow> f32 list \<Rightarrow> nat \<Rightarrow> (i64 \<times> 'd) list result"
  vi_len :: "'i \<Rightarrow> nat"
  vi_dim :: "'i \<Rightarrow> nat"

text \<open>
  The contract its clients (the writer, the replay, the rebuild) rely on: which ids a search
  may return after an addition and after a removal, and that neither changes the dimension.
\<close>

locale vector_index =
  fixes ops :: "('i, 'd) vindex" and live :: "'i \<Rightarrow> i64 set"
  assumes live_add: "vi_add ops i r v = Inr i' \<Longrightarrow> live i' = insert r (live i)"
    and live_remove: "vi_remove ops i r = Inr i' \<Longrightarrow> live i' = live i - {r}"
    and dim_add: "vi_add ops i r v = Inr i' \<Longrightarrow> vi_dim ops i' = vi_dim ops i"
    and dim_remove: "vi_remove ops i r = Inr i' \<Longrightarrow> vi_dim ops i' = vi_dim ops i"
begin

lemma live_add_other: "vi_add ops i r v = Inr i' \<Longrightarrow> x \<noteq> r \<Longrightarrow> x \<in> live i' \<longleftrightarrow> x \<in> live i"
  by (simp add: live_add)

lemma live_add_self: "vi_add ops i r v = Inr i' \<Longrightarrow> r \<in> live i'"
  by (simp add: live_add)

lemma live_remove_self: "vi_remove ops i r = Inr i' \<Longrightarrow> r \<notin> live i'"
  by (simp add: live_remove)

end

text \<open>An index whose removal cannot fail: what the handlers that ignore its error rely on.\<close>

locale total_remove_index = vector_index ops live
  for ops :: "('i, 'd) vindex" and live :: "'i \<Rightarrow> i64 set" +
  assumes remove_total: "\<exists>i'. vi_remove ops i r = Inr i'"
begin

lemma remove_obtain: obtains i' where "vi_remove ops i r = Inr i'" and "live i' = live i - {r}"
  using remove_total live_remove by metis

end

text \<open>An index that accepts every vector of its dimension under a non-negative id.\<close>

locale full_index = total_remove_index ops live
  for ops :: "('i, 'd) vindex" and live :: "'i \<Rightarrow> i64 set" +
  assumes add_total: "0 \<le> sint r \<Longrightarrow> length v = vi_dim ops i \<Longrightarrow> \<exists>i'. vi_add ops i r v = Inr i'"
begin

lemma add_obtain:
  assumes "0 \<le> sint r" "length v = vi_dim ops i"
  obtains i' where "vi_add ops i r v = Inr i'" "live i' = insert r (live i)" "vi_dim ops i' = vi_dim ops i"
  using add_total [OF assms] live_add dim_add by metis

end

section \<open>The index over hnsw_rs\<close>

definition ef_for_search :: "nat \<Rightarrow> nat" where
  "ef_for_search knbn = max 16 (min 200 (knbn * 4))"

record HnswParams =
  max_nb_connection :: nat
  ef_construction :: nat
  max_layer :: nat
  max_elements_hint :: nat

definition default_params :: HnswParams where
  "default_params =
     \<lparr>max_nb_connection = 16, ef_construction = 200, max_layer = 16, max_elements_hint = 10000\<rparr>"

text \<open>The graph as its insertions, oldest first: the external id and the vector.\<close>

type_synonym graph = "(i64 \<times> f32 list) list"

record HnswIndex =
  inner :: graph
  hdim :: nat
  tombstones :: "i64 set"

text \<open>What \<open>hnsw_rs\<close> answers: \<open>get_nb_point\<close> and \<open>search graph query knbn ef\<close>.\<close>

record 'd hnsw_rs =
  get_nb_point :: "graph \<Rightarrow> nat"
  graph_search :: "graph \<Rightarrow> f32 list \<Rightarrow> nat \<Rightarrow> nat \<Rightarrow> (i64 \<times> 'd) list"

definition hnsw_new :: "nat \<Rightarrow> HnswParams \<Rightarrow> HnswIndex" where
  "hnsw_new d params = \<lparr>inner = [], hdim = d, tombstones = {}\<rparr>"

definition from_inner :: "graph \<Rightarrow> nat \<Rightarrow> HnswIndex" where
  "from_inner g d = \<lparr>inner = g, hdim = d, tombstones = {}\<rparr>"

definition raw_len :: "'d hnsw_rs \<Rightarrow> HnswIndex \<Rightarrow> nat" where
  "raw_len lib idx = get_nb_point lib (inner idx)"

definition hnsw_add :: "HnswIndex \<Rightarrow> i64 \<Rightarrow> f32 list \<Rightarrow> HnswIndex result" where
  "hnsw_add idx rowid embedding =
     (if sint rowid < 0 then Inl VectorIndex
      else if length embedding \<noteq> hdim idx then Inl VectorIndex
      else Inr (idx\<lparr>inner := inner idx @ [(rowid, embedding)],
                    tombstones := tombstones idx - {rowid}\<rparr>))"

definition hnsw_remove :: "HnswIndex \<Rightarrow> i64 \<Rightarrow> HnswIndex result" where
  "hnsw_remove idx rowid = Inr (idx\<lparr>tombstones := insert rowid (tombstones idx)\<rparr>)"

text \<open>
  The distances are of an ordered type (the library returns no NaN), so the final
  \<open>sort_by(partial_cmp)\<close> is the stable sort on the distance.
\<close>

definition hnsw_search ::
  "('d::linorder) hnsw_rs \<Rightarrow> HnswIndex \<Rightarrow> f32 list \<Rightarrow> nat \<Rightarrow> (i64 \<times> 'd) list result" where
  "hnsw_search lib idx query k =
     (if length query \<noteq> hdim idx then Inl VectorIndex
      else if k = 0 then Inr []
      else
        let ef = ef_for_search k;
            widened = min (k * 2) (k + 32);
            neighbours = graph_search lib (inner idx) query widened ef;
            out = take k (filter (\<lambda>(rowid, _). rowid \<notin> tombstones idx) neighbours)
        in Inr (sort_key snd out))"

definition hnsw_len :: "'d hnsw_rs \<Rightarrow> HnswIndex \<Rightarrow> nat" where
  "hnsw_len lib idx = get_nb_point lib (inner idx) - card (tombstones idx)"

definition hnsw_vindex :: "('d::linorder) hnsw_rs \<Rightarrow> (HnswIndex, 'd) vindex" where
  "hnsw_vindex lib =
     \<lparr>vi_add = hnsw_add, vi_remove = hnsw_remove, vi_search = hnsw_search lib,
      vi_len = hnsw_len lib, vi_dim = hdim\<rparr>"

text \<open>The ids a search may return: inserted at some time, and not tombstoned now.\<close>

definition hnsw_live :: "HnswIndex \<Rightarrow> i64 set" where
  "hnsw_live idx = fst ` set (inner idx) - tombstones idx"

lemma hnsw_vindex_sel [simp]:
  "vi_add (hnsw_vindex lib) = hnsw_add"
  "vi_remove (hnsw_vindex lib) = hnsw_remove"
  "vi_search (hnsw_vindex lib) = hnsw_search lib"
  "vi_len (hnsw_vindex lib) = hnsw_len lib"
  "vi_dim (hnsw_vindex lib) = hdim"
  by (simp_all add: hnsw_vindex_def)

lemma hnsw_add_Inr_iff:
  "hnsw_add idx r v = Inr idx' \<longleftrightarrow>
     0 \<le> sint r \<and> length v = hdim idx \<and>
     idx' = idx\<lparr>inner := inner idx @ [(r, v)], tombstones := tombstones idx - {r}\<rparr>"
  by (auto simp: hnsw_add_def)

interpretation hnsw: vector_index "hnsw_vindex lib" hnsw_live for lib
  by unfold_locales (auto simp: hnsw_add_Inr_iff hnsw_remove_def hnsw_live_def)

interpretation hnsw_total: total_remove_index "hnsw_vindex lib" hnsw_live for lib
  by unfold_locales (simp add: hnsw_remove_def)

interpretation hnsw_full: full_index "hnsw_vindex lib" hnsw_live for lib
  by unfold_locales (simp add: hnsw_add_Inr_iff)

lemma hnsw_live_new [simp]: "hnsw_live (hnsw_new d params) = {}"
  by (simp add: hnsw_live_def hnsw_new_def)

lemma hnsw_remove_total [simp]: "hnsw_remove idx r \<noteq> Inl e"
  by (simp add: hnsw_remove_def)

text \<open>A search returns live ids only, at most \<open>k\<close> of them, nearest first.\<close>

lemma hnsw_search_live:
  assumes lib: "\<And>g q n ef. fst ` set (graph_search lib g q n ef) \<subseteq> fst ` set g"
    and res: "hnsw_search lib idx q k = Inr out" and hit: "(r, d) \<in> set out"
  shows "r \<in> hnsw_live idx"
proof -
  from res hit obtain n ef where "(r, d) \<in> set (graph_search lib (inner idx) q n ef)"
    and "r \<notin> tombstones idx"
    by (auto simp: hnsw_search_def Let_def split: if_splits dest!: in_set_takeD)
  then have "r \<in> fst ` set (graph_search lib (inner idx) q n ef)" and "r \<notin> tombstones idx"
    by (auto intro: rev_image_eqI)
  with lib [of "inner idx" q n ef] show ?thesis by (auto simp only: hnsw_live_def)
qed

lemma hnsw_search_shape:
  assumes "hnsw_search lib idx q k = Inr out"
  shows "length out \<le> k \<and> sorted (map snd out)"
  using assms by (auto simp: hnsw_search_def Let_def split: if_splits)

text \<open>
  A search returns live ids only, at most \<open>k\<close> of them, nearest first, and it rejects a query
  of another dimension; the library is only relied on to return ids it was given.
\<close>

theorem search_contract:
  assumes "\<And>g q n ef. fst ` set (graph_search lib g q n ef) \<subseteq> fst ` set g"
  shows "(length q \<noteq> hdim idx \<longrightarrow> hnsw_search lib idx q k = Inl VectorIndex) \<and>
         (\<forall>out. hnsw_search lib idx q k = Inr out \<longrightarrow>
            length out \<le> k \<and> sorted (map snd out) \<and> fst ` set out \<subseteq> hnsw_live idx)"
proof (intro conjI impI allI)
  show "hnsw_search lib idx q k = Inl VectorIndex" if "length q \<noteq> hdim idx"
    using that by (simp add: hnsw_search_def)
  fix out assume run: "hnsw_search lib idx q k = Inr out"
  show "length out \<le> k" "sorted (map snd out)" using hnsw_search_shape [OF run] by simp_all
  show "fst ` set out \<subseteq> hnsw_live idx"
  proof
    fix r assume "r \<in> fst ` set out"
    then obtain d where "(r, d) \<in> set out" by auto
    then show "r \<in> hnsw_live idx" by (rule hnsw_search_live [OF assms run])
  qed
qed

theorem search_contract_witness:
  "fst ` set [(1::i64, 3::nat)] \<subseteq>
     hnsw_live \<lparr>inner = [(1, [7]), (2, [9])], hdim = 1, tombstones = {2}\<rparr>"
proof -
  let ?lib = "\<lparr>get_nb_point = length, graph_search = (\<lambda>g q n ef. map (\<lambda>(r, v). (r, 3::nat)) g)\<rparr>"
  let ?idx = "\<lparr>inner = [(1, [7]), (2, [9])], hdim = 1, tombstones = {2}\<rparr>"
  have "hnsw_search ?lib ?idx [5] 3 = Inr [(1, 3)]" by (simp add: hnsw_search_def Let_def)
  moreover have "fst ` set (graph_search ?lib g q n ef) \<subseteq> fst ` set g" for g q n ef by force
  ultimately show ?thesis using search_contract [of ?lib "[5]" ?idx 3] by auto
qed

end
