(* ===== verification/ChunkText.thy ===== *)
theory ChunkText
  imports Prelude
begin

text \<open>
  \<open>crates/solo-storage/src/document/chunk.rs\<close>: the splitting of a document's text into
  overlapping chunks. The functions index the text by bytes and slice it; a slice that is out
  of order or not on character boundaries panics, which is \<^const>\<open>None\<close> here. The
  \<open>debug_assert!\<close>s are not in release builds. \<open>usize\<close> products of a \<open>u32\<close> and 4 do not
  overflow and are unbounded; \<open>u32\<close> arithmetic is saturated or wrapped as written.
\<close>

section \<open>Slices\<close>

definition str_slice :: "string \<Rightarrow> nat \<Rightarrow> nat \<Rightarrow> string option" where
  "str_slice s a b =
     (if a \<le> b \<and> b \<le> length s \<and> is_char_boundary s a \<and> is_char_boundary s b
      then Some (slice s a b) else None)"

text \<open>The byte offsets \<open>char_indices\<close> yields.\<close>

definition char_indices :: "string \<Rightarrow> nat list" where
  "char_indices s = filter (\<lambda>i. \<not> is_cont (s ! i)) [0..<length s]"

text \<open>What of UTF-8 validity the code relies on: a text does not start inside a character.\<close>

definition starts_on_char :: "string \<Rightarrow> bool" where
  "starts_on_char s = (s = [] \<or> \<not> is_cont (hd s))"

text \<open>And a continuation byte never follows an ASCII byte.\<close>

definition valid_text :: "string \<Rightarrow> bool" where
  "valid_text s =
     (starts_on_char s \<and>
      (\<forall>i \<in> set [0..<length s - 1]. is_cont (s ! Suc i) \<longrightarrow> 128 \<le> byte (s ! i)))"

section \<open>Configuration and chunks\<close>

record ChunkConfig =
  target_tokens :: nat
  overlap_tokens :: nat

definition default_config :: ChunkConfig where
  "default_config = \<lparr>target_tokens = 500, overlap_tokens = 50\<rparr>"

record ChunkSpec =
  cs_content :: string
  start_offset :: nat
  end_offset :: nat
  token_count :: nat

definition approx_token_count :: "string \<Rightarrow> nat" where
  "approx_token_count text = to_u32_sat (chars_count text div 4)"

section \<open>Paragraphs\<close>

type_synonym Paragraph = "nat \<times> nat"

definition newline :: char where
  "newline = CHR 0x0A"

text \<open>The inner loop: the offset just past the run of newlines at \<open>j\<close>.\<close>

definition newline_run :: "string \<Rightarrow> nat \<Rightarrow> nat" where
  "newline_run bytes j = j + length (takeWhile (\<lambda>c. c = newline) (drop j bytes))"

function split_loop :: "string \<Rightarrow> nat \<Rightarrow> nat \<Rightarrow> Paragraph list" where
  "split_loop bytes start i =
     (let n = length bytes in
      if i < n then
        (if i + 1 < n \<and> bytes ! i = newline \<and> bytes ! (i + 1) = newline
         then let j = newline_run bytes (i + 2) in (start, j) # split_loop bytes j j
         else split_loop bytes start (i + 1))
      else (if start < n then [(start, n)] else []))"
  by pat_completeness auto
termination
  by (relation "measure (\<lambda>(bytes, _, i). length bytes - i)") (auto simp: newline_run_def)

declare split_loop.simps [simp del]

definition split_paragraphs :: "string \<Rightarrow> Paragraph list" where
  "split_paragraphs text = split_loop text 0 0"

section \<open>Windows\<close>

text \<open>The loops over \<open>char_indices().rev()\<close> and \<open>char_indices()\<close>, with their counters.\<close>

fun overlap_scan :: "nat \<Rightarrow> nat \<Rightarrow> nat list \<Rightarrow> nat" where
  "overlap_scan target_chars count [] = 0"
| "overlap_scan target_chars count (idx # rest) =
     (if count + 1 > target_chars then idx else overlap_scan target_chars (count + 1) rest)"

definition window_overlap_start :: "string \<Rightarrow> nat \<Rightarrow> nat \<Rightarrow> nat option" where
  "window_overlap_start text e overlap =
     (if overlap = 0 \<or> e = 0 then Some e
      else case str_slice text 0 e of
        None \<Rightarrow> None
      | Some pre \<Rightarrow> Some (overlap_scan (overlap * 4) 0 (rev (char_indices pre))))"

definition push_chunk :: "ChunkSpec list \<Rightarrow> string \<Rightarrow> nat \<Rightarrow> nat \<Rightarrow> ChunkSpec list option" where
  "push_chunk out text a b =
     (case str_slice text a b of
        None \<Rightarrow> None
      | Some s \<Rightarrow> Some (out @ [\<lparr>cs_content = s, start_offset = to_u32_sat a,
                              end_offset = to_u32_sat b, token_count = approx_token_count s\<rparr>]))"

fun lookback_scan :: "nat \<Rightarrow> nat \<Rightarrow> nat \<Rightarrow> nat list \<Rightarrow> nat" where
  "lookback_scan lookback window_start count [] =
     (if count < lookback then window_start else 0)"
| "lookback_scan lookback window_start count (idx # rest) =
     (if count + 1 \<ge> lookback then window_start + idx
      else lookback_scan lookback window_start (count + 1) rest)"

definition is_terminal :: "char \<Rightarrow> bool" where
  "is_terminal c = (c = CHR ''.'' \<or> c = CHR ''!'' \<or> c = CHR ''?'' \<or> c = newline)"

text \<open>The walk back from \<open>window_end\<close>; the list holds the character starts before \<open>i\<close>, last first.\<close>

fun break_scan :: "string \<Rightarrow> nat \<Rightarrow> nat \<Rightarrow> nat \<Rightarrow> nat list \<Rightarrow> nat" where
  "break_scan text look_start window_end i [] = window_end"
| "break_scan text look_start window_end i (prev # rest) =
     (if i > look_start
      then (if is_terminal (text ! prev) then i
            else break_scan text look_start window_end prev rest)
      else window_end)"

definition find_sentence_break :: "string \<Rightarrow> nat \<Rightarrow> nat \<Rightarrow> nat \<Rightarrow> nat option" where
  "find_sentence_break text window_start window_end lookback_chars =
     (case str_slice text window_start window_end of
        None \<Rightarrow> None
      | Some pre \<Rightarrow>
          let look_start = lookback_scan lookback_chars window_start 0 (rev (char_indices pre))
          in case str_slice text 0 window_end of
               None \<Rightarrow> None
             | Some whole \<Rightarrow>
                 Some (break_scan text look_start window_end window_end
                         (rev (char_indices whole))))"

fun forward_scan :: "nat \<Rightarrow> nat \<Rightarrow> nat \<Rightarrow> nat \<Rightarrow> nat list \<Rightarrow> nat" where
  "forward_scan target_chars window_start range_end seen [] = range_end"
| "forward_scan target_chars window_start range_end seen (idx # rest) =
     (if seen + 1 \<ge> target_chars then window_start + idx
      else forward_scan target_chars window_start range_end (seen + 1) rest)"

text \<open>\<open>while window_start < range_end && !is_char_boundary(window_start)\<close>.\<close>

function realign :: "string \<Rightarrow> nat \<Rightarrow> nat \<Rightarrow> nat" where
  "realign text range_end w =
     (if w < range_end \<and> \<not> is_char_boundary text w then realign text range_end (w + 1) else w)"
  by pat_completeness auto
termination
  by (relation "measure (\<lambda>(_, e, w). e - w)") auto

declare realign.simps [simp del]

text \<open>The end of the window that starts at \<open>window_start\<close>, with the defensive branch.\<close>

definition window_end_from :: "string \<Rightarrow> nat \<Rightarrow> nat \<Rightarrow> nat \<Rightarrow> nat option" where
  "window_end_from text window_start range_end target_chars =
     (case str_slice text window_start range_end of
        None \<Rightarrow> None
      | Some suf \<Rightarrow>
          let e0 = forward_scan target_chars window_start range_end 0 (char_indices suf) in
          case (if e0 < range_end
                then find_sentence_break text window_start e0 (target_chars div 10)
                else Some e0) of
            None \<Rightarrow> None
          | Some e1 \<Rightarrow>
              if e1 \<le> window_start
              then Some (case filter (\<lambda>i. 0 < i) (char_indices suf) of
                           [] \<Rightarrow> range_end | i # _ \<Rightarrow> window_start + i)
              else Some e1)"

lemma realign_ge: "w \<le> realign text e w"
  by (induction "text" e w rule: realign.induct) (subst realign.simps, auto)

function slide_loop ::
  "ChunkSpec list \<Rightarrow> string \<Rightarrow> nat \<Rightarrow> nat \<Rightarrow> nat \<Rightarrow> nat \<Rightarrow> ChunkSpec list option" where
  "slide_loop out text window_start range_end target_chars overlap =
     (if window_start < range_end then
        (case window_end_from text window_start range_end target_chars of
           None \<Rightarrow> None
         | Some window_end \<Rightarrow>
             (case push_chunk out text window_start window_end of
                None \<Rightarrow> None
              | Some out' \<Rightarrow>
                  if window_end \<ge> range_end then Some out'
                  else (case window_overlap_start text window_end overlap of
                          None \<Rightarrow> None
                        | Some next_start \<Rightarrow>
                            slide_loop out' text
                              (realign text range_end (max next_start (window_start + 1)))
                              range_end target_chars overlap)))
      else Some out)"
  by pat_completeness auto
termination
  by (relation "measure (\<lambda>(_, _, w, e, _, _). e - w)")
    (auto intro!: diff_less_mono2 less_le_trans [OF _ realign_ge])

declare slide_loop.simps [simp del]

definition slide_window ::
  "ChunkSpec list \<Rightarrow> string \<Rightarrow> nat \<Rightarrow> nat \<Rightarrow> nat \<Rightarrow> nat \<Rightarrow> ChunkSpec list option" where
  "slide_window out text range_start range_end target overlap =
     slide_loop out text range_start range_end (target * 4) overlap"

section \<open>Chunking\<close>

record cursor =
  cur_chunks :: "ChunkSpec list"
  cur_start :: nat
  cur_end :: nat
  cur_tokens :: nat

definition flush :: "string \<Rightarrow> cursor \<Rightarrow> ChunkSpec list option" where
  "flush text c =
     (if cur_end c > cur_start c then push_chunk (cur_chunks c) text (cur_start c) (cur_end c)
      else Some (cur_chunks c))"

text \<open>The branch of an oversized paragraph.\<close>

definition oversized_step :: "string \<Rightarrow> nat \<Rightarrow> nat \<Rightarrow> nat \<Rightarrow> nat \<Rightarrow> cursor \<Rightarrow> cursor option" where
  "oversized_step text target overlap p_start p_end c =
     (case flush text c of
        None \<Rightarrow> None
      | Some out \<Rightarrow>
          (case slide_window out text p_start p_end target overlap of
             None \<Rightarrow> None
           | Some out' \<Rightarrow>
               (case window_overlap_start text p_end overlap of
                  None \<Rightarrow> None
                | Some s \<Rightarrow>
                    Some \<lparr>cur_chunks = out', cur_start = s, cur_end = s, cur_tokens = 0\<rparr>)))"

text \<open>The other branch: flush before an overshoot, append, flush at the target.\<close>

definition restart_step :: "string \<Rightarrow> nat \<Rightarrow> nat \<Rightarrow> nat \<Rightarrow> cursor \<Rightarrow> cursor option" where
  "restart_step text oversize overlap p_tokens c =
     (if cur_end c > cur_start c \<and> (cur_tokens c + p_tokens) mod 2 ^ 32 > oversize
      then (case push_chunk (cur_chunks c) text (cur_start c) (cur_end c) of
              None \<Rightarrow> None
            | Some out \<Rightarrow>
                (case window_overlap_start text (cur_end c) overlap of
                   None \<Rightarrow> None
                 | Some s \<Rightarrow> Some (c\<lparr>cur_chunks := out, cur_start := s\<rparr>)))
      else Some c)"

definition append_step :: "string \<Rightarrow> nat \<Rightarrow> nat \<Rightarrow> nat \<Rightarrow> cursor \<Rightarrow> cursor option" where
  "append_step text target overlap p_end c =
     (case str_slice text (cur_start c) p_end of
        None \<Rightarrow> None
      | Some s \<Rightarrow>
          let c1 = c\<lparr>cur_end := p_end, cur_tokens := approx_token_count s\<rparr> in
          if cur_tokens c1 \<ge> target
          then (case push_chunk (cur_chunks c1) text (cur_start c1) (cur_end c1) of
                  None \<Rightarrow> None
                | Some out \<Rightarrow>
                    (case window_overlap_start text (cur_end c1) overlap of
                       None \<Rightarrow> None
                     | Some st \<Rightarrow> Some (c1\<lparr>cur_chunks := out, cur_start := st, cur_end := st\<rparr>)))
          else Some c1)"

definition paragraph_step ::
  "string \<Rightarrow> nat \<Rightarrow> nat \<Rightarrow> nat \<Rightarrow> Paragraph \<Rightarrow> cursor \<Rightarrow> cursor option" where
  "paragraph_step text target overlap oversize p c =
     (case str_slice text (fst p) (snd p) of
        None \<Rightarrow> None
      | Some s \<Rightarrow>
          let p_tokens = approx_token_count s in
          if p_tokens \<ge> oversize
          then oversized_step text target overlap (fst p) (snd p) c
          else (case restart_step text oversize overlap p_tokens c of
                  None \<Rightarrow> None
                | Some c' \<Rightarrow> append_step text target overlap (snd p) c'))"

fun chunk_loop ::
  "string \<Rightarrow> nat \<Rightarrow> nat \<Rightarrow> nat \<Rightarrow> Paragraph list \<Rightarrow> cursor \<Rightarrow> cursor option" where
  "chunk_loop text target overlap oversize [] c = Some c"
| "chunk_loop text target overlap oversize (p # ps) c =
     (case paragraph_step text target overlap oversize p c of
        None \<Rightarrow> None
      | Some c' \<Rightarrow> chunk_loop text target overlap oversize ps c')"

definition chunk_text :: "string \<Rightarrow> ChunkConfig \<Rightarrow> ChunkSpec list option" where
  "chunk_text text config =
     (if text = [] then Some []
      else
        let target = max (target_tokens config) 1;
            overlap = min (overlap_tokens config) (target - 1);
            total_tokens = approx_token_count text;
            oversize = sat_mul_u32 target 3 div 2
        in if total_tokens \<le> oversize
           then Some [\<lparr>cs_content = text, start_offset = 0,
                       end_offset = to_u32_sat (length text), token_count = total_tokens\<rparr>]
           else (case chunk_loop text target overlap oversize (split_paragraphs text)
                        \<lparr>cur_chunks = [], cur_start = 0, cur_end = 0, cur_tokens = 0\<rparr> of
                   None \<Rightarrow> None
                 | Some c \<Rightarrow> flush text c))"

section \<open>Boundaries\<close>

lemma boundary_iff:
  "starts_on_char s \<Longrightarrow> b < length s \<Longrightarrow> is_char_boundary s b \<longleftrightarrow> \<not> is_cont (s ! b)"
  by (cases s) (auto simp: is_char_boundary_def starts_on_char_def)

lemma boundary_ends [simp]: "is_char_boundary s 0" "is_char_boundary s (length s)"
  by (simp_all add: is_char_boundary_def)

lemma str_slice_Some:
  "a \<le> b \<Longrightarrow> b \<le> length s \<Longrightarrow> is_char_boundary s a \<Longrightarrow> is_char_boundary s b \<Longrightarrow>
   str_slice s a b = Some (slice s a b)"
  by (simp add: str_slice_def)

lemma slice_nth: "i < b - a \<Longrightarrow> b \<le> length s \<Longrightarrow> slice s a b ! i = s ! (a + i)"
  by (simp add: slice_def)

lemma char_indices_slice:
  "a \<le> b \<Longrightarrow> b \<le> length s \<Longrightarrow>
   char_indices (slice s a b) = filter (\<lambda>i. \<not> is_cont (s ! (a + i))) [0..<b - a]"
  by (auto simp: char_indices_def length_slice slice_nth intro!: filter_cong)

lemma char_indices_boundary:
  assumes "starts_on_char s" "a \<le> b" "b \<le> length s" "i \<in> set (char_indices (slice s a b))"
  shows "is_char_boundary s (a + i) \<and> a + i < b"
  using assms by (auto simp: char_indices_slice boundary_iff)

text \<open>A non-empty slice at a boundary starts with a character at offset 0.\<close>

lemma char_indices_Cons:
  assumes "starts_on_char s" "a < b" "b \<le> length s" "is_char_boundary s a"
  obtains rest where "char_indices (slice s a b) = 0 # rest" "\<forall>i \<in> set rest. 0 < i"
proof -
  have "\<not> is_cont (s ! a)" using assms by (simp add: boundary_iff)
  moreover have "[0..<b - a] = 0 # [1..<b - a]" using assms by (simp add: upt_conv_Cons)
  ultimately have "char_indices (slice s a b) = 0 # filter (\<lambda>i. \<not> is_cont (s ! (a + i))) [1..<b - a]"
    using assms by (simp add: char_indices_slice)
  then show thesis by (rule that) auto
qed

section \<open>The scans\<close>

lemma overlap_scan_in: "overlap_scan tc n is \<in> insert 0 (set is)"
  by (induction tc n "is" rule: overlap_scan.induct) auto

lemma forward_scan_cases:
  "forward_scan tc w e n is = e \<or> (\<exists>i \<in> set is. forward_scan tc w e n is = w + i)"
  by (induction tc w e n "is" rule: forward_scan.induct) auto

lemma break_scan_in: "break_scan t l e i ps \<in> insert e (insert i (set ps))"
  by (induction t l e i ps rule: break_scan.induct) auto

lemma break_scan_gt: "l < e \<Longrightarrow> break_scan t l e i ps > l"
  by (induction t l e i ps rule: break_scan.induct) auto

lemma lookback_scan_ge: "is \<noteq> [] \<or> n < lb \<Longrightarrow> w \<le> lookback_scan lb w n is"
  by (induction lb w n "is" rule: lookback_scan.induct) auto

lemma lookback_scan_lt:
  "\<forall>i \<in> set is. w + i < e \<Longrightarrow> w < e \<Longrightarrow> lookback_scan lb w n is < e"
  by (induction lb w n "is" rule: lookback_scan.induct) auto

lemma realign_props:
  "w \<le> b \<Longrightarrow> b \<le> e \<Longrightarrow> is_char_boundary t b \<Longrightarrow> is_char_boundary t e \<Longrightarrow>
   is_char_boundary t (realign t e w) \<and> realign t e w \<le> b"
proof (induction t e w rule: realign.induct)
  case (1 t e w)
  show ?case
  proof (cases "w < e \<and> \<not> is_char_boundary t w")
    case True
    then have "w \<noteq> b" using 1 by auto
    then show ?thesis using 1 True by (subst (1 2) realign.simps) auto
  next
    case False
    then have "realign t e w = w" by (subst realign.simps) auto
    moreover have "w < e \<or> w = b" using 1 by auto
    then have "is_char_boundary t w" using False 1 by auto
    ultimately show ?thesis using 1 by simp
  qed
qed

lemma rev_char_indices_boundary:
  assumes "starts_on_char s" "a \<le> b" "b \<le> length s"
    and "i \<in> set (rev (char_indices (slice s a b)))"
  shows "is_char_boundary s (a + i)" and "a + i < b"
  using char_indices_boundary [of s a b i] assms by simp_all

lemma window_overlap_start_ok:
  assumes "starts_on_char s" "e \<le> length s" "is_char_boundary s e"
  shows "\<exists>r. window_overlap_start s e ov = Some r \<and> r \<le> e \<and> is_char_boundary s r"
proof (cases "ov = 0 \<or> e = 0")
  case True
  then show ?thesis using assms by (simp add: window_overlap_start_def)
next
  case False
  define ps where "ps = rev (char_indices (slice s 0 e))"
  define r where "r = overlap_scan (ov * 4) 0 ps"
  have "r \<in> insert 0 (set ps)" unfolding r_def by (rule overlap_scan_in)
  then have "r \<le> e \<and> is_char_boundary s r"
    using rev_char_indices_boundary [of s 0 e r] assms by (auto simp: ps_def)
  moreover have "window_overlap_start s e ov = Some r"
    using False assms by (simp add: window_overlap_start_def str_slice_Some r_def ps_def)
  ultimately show ?thesis by blast
qed

lemma find_sentence_break_ok:
  assumes "starts_on_char s" "w < e" "e \<le> length s" "is_char_boundary s w" "is_char_boundary s e"
  shows "\<exists>r. find_sentence_break s w e lb = Some r \<and> w < r \<and> r \<le> e \<and> is_char_boundary s r"
proof -
  define ms where "ms = rev (char_indices (slice s w e))"
  define ps where "ps = rev (char_indices (slice s 0 e))"
  define l where "l = lookback_scan lb w 0 ms"
  define r where "r = break_scan s l e e ps"
  have "ms \<noteq> []" using char_indices_Cons [of s w e] assms unfolding ms_def by (metis list.discI rev_is_Nil_conv)
  then have "w \<le> l" unfolding l_def by (intro lookback_scan_ge) simp
  have "\<forall>i \<in> set ms. w + i < e"
    using rev_char_indices_boundary (2) [of s w e] assms unfolding ms_def
    by (intro ballI) (simp only: less_imp_le)
  then have "l < e" unfolding l_def using assms by (intro lookback_scan_lt)
  have "w < r" using break_scan_gt [OF \<open>l < e\<close>, of s e ps] \<open>w \<le> l\<close> by (simp add: r_def)
  have "r \<in> insert e (insert e (set ps))" unfolding r_def by (rule break_scan_in)
  then have "r \<le> e \<and> is_char_boundary s r"
    using rev_char_indices_boundary [of s 0 e r] assms unfolding ps_def by auto
  moreover have "find_sentence_break s w e lb = Some r"
    using assms
    by (simp add: find_sentence_break_def str_slice_Some Let_def l_def r_def ms_def ps_def)
  ultimately show ?thesis using \<open>w < r\<close> by blast
qed

text \<open>
  A window is never empty, so the defensive branch of \<open>slide_window\<close> is never taken, and it
  ends on a boundary.
\<close>

lemma window_end_from_ok:
  assumes "starts_on_char s" "w < e" "e \<le> length s" "is_char_boundary s w" "is_char_boundary s e"
    and "2 \<le> tc"
  shows "\<exists>r. window_end_from s w e tc = Some r \<and> w < r \<and> r \<le> e \<and> is_char_boundary s r"
proof -
  obtain rest where ci: "char_indices (slice s w e) = 0 # rest" and pos: "\<forall>i \<in> set rest. 0 < i"
    using char_indices_Cons assms by blast
  define e0 where "e0 = forward_scan tc w e 0 (char_indices (slice s w e))"
  have "e0 = forward_scan tc w e 1 rest" using \<open>2 \<le> tc\<close> by (simp add: e0_def ci)
  then have "e0 = e \<or> (\<exists>i \<in> set rest. e0 = w + i)" using forward_scan_cases by simp
  moreover have "is_char_boundary s (w + i) \<and> w + i < e" if "i \<in> set rest" for i
    using char_indices_boundary [of s w e i] assms that by (simp add: ci)
  ultimately have e0: "w < e0" "e0 \<le> e" "is_char_boundary s e0"
    using assms pos by (auto intro: less_imp_le)
  have "\<exists>r. (if e0 < e then find_sentence_break s w e0 (tc div 10) else Some e0) = Some r \<and>
            w < r \<and> r \<le> e \<and> is_char_boundary s r"
  proof (cases "e0 < e")
    case True
    then show ?thesis
      using find_sentence_break_ok [of s w e0 "tc div 10"] e0 assms by fastforce
  next
    case False
    then show ?thesis using e0 by simp
  qed
  then obtain r where r: "(if e0 < e then find_sentence_break s w e0 (tc div 10) else Some e0) = Some r"
    and "w < r" "r \<le> e" "is_char_boundary s r" by blast
  moreover have "window_end_from s w e tc = Some r"
    using assms r \<open>w < r\<close>
    by (simp add: window_end_from_def str_slice_Some Let_def e0_def [symmetric] del: if_split)
  ultimately show ?thesis by blast
qed

section \<open>What a chunk is, and what the chunks cover\<close>

definition spec_of :: "string \<Rightarrow> nat \<Rightarrow> nat \<Rightarrow> ChunkSpec" where
  "spec_of s a b =
     \<lparr>cs_content = slice s a b, start_offset = to_u32_sat a, end_offset = to_u32_sat b,
      token_count = approx_token_count (slice s a b)\<rparr>"

definition spec_ok :: "string \<Rightarrow> ChunkSpec \<Rightarrow> bool" where
  "spec_ok s c =
     (\<exists>a b. a < b \<and> b \<le> length s \<and> is_char_boundary s a \<and> is_char_boundary s b \<and>
            c = spec_of s a b)"

text \<open>Every chunk is sound, and together they cover the first \<open>k\<close> bytes.\<close>

definition chunks_cover :: "string \<Rightarrow> nat \<Rightarrow> ChunkSpec list \<Rightarrow> bool" where
  "chunks_cover s k out =
     ((\<forall>c \<in> set out. spec_ok s c) \<and>
      (\<forall>i < k. \<exists>a b. spec_of s a b \<in> set out \<and> a \<le> i \<and> i < b \<and> b \<le> length s))"

lemma chunks_cover_mono: "chunks_cover s k out \<Longrightarrow> k' \<le> k \<Longrightarrow> chunks_cover s k' out"
  by (auto simp: chunks_cover_def)

lemma push_chunk_ok:
  assumes "a < b" "b \<le> length s" "is_char_boundary s a" "is_char_boundary s b"
    and "chunks_cover s k out" "a \<le> k"
  shows "\<exists>out'. push_chunk out s a b = Some out' \<and> chunks_cover s (max k b) out'"
proof -
  have push: "push_chunk out s a b = Some (out @ [spec_of s a b])"
    using assms by (simp add: push_chunk_def str_slice_Some spec_of_def)
  moreover have "spec_ok s (spec_of s a b)" using assms by (auto simp: spec_ok_def)
  moreover have "\<exists>a' b'. spec_of s a' b' \<in> set (out @ [spec_of s a b]) \<and> a' \<le> i \<and> i < b' \<and> b' \<le> length s"
    if "i < max k b" for i
  proof (cases "i < k")
    case True
    then show ?thesis using assms(5) by (fastforce simp: chunks_cover_def)
  next
    case False
    then have "a \<le> i \<and> i < b" using that assms(6) by auto
    then show ?thesis using assms(2) by auto
  qed
  ultimately show ?thesis using assms(5) by (auto simp: chunks_cover_def)
qed

lemma slide_loop_ok:
  assumes "starts_on_char s" "e \<le> length s" "is_char_boundary s e" "2 \<le> tc"
  shows "w \<le> e \<Longrightarrow> is_char_boundary s w \<Longrightarrow> w \<le> k \<Longrightarrow> chunks_cover s k out \<Longrightarrow>
         \<exists>out'. slide_loop out s w e tc ov = Some out' \<and> chunks_cover s (max k e) out'"
proof (induction "e - w" arbitrary: out w k rule: less_induct)
  case less
  show ?case
  proof (cases "w < e")
    case False
    then show ?thesis using less by (subst slide_loop.simps) (auto simp: max_def)
  next
    case True
    obtain r where r: "window_end_from s w e tc = Some r" "w < r" "r \<le> e" "is_char_boundary s r"
      using window_end_from_ok True less assms by blast
    obtain out1 where out1: "push_chunk out s w r = Some out1" "chunks_cover s (max k r) out1"
      using push_chunk_ok [of w r s k out] r less assms by auto
    show ?thesis
    proof (cases "r < e")
      case False
      then show ?thesis using True r out1 by (subst slide_loop.simps) simp
    next
      case r_lt: True
      obtain n where n: "window_overlap_start s r ov = Some n" "n \<le> r"
        using window_overlap_start_ok [of s r ov] r assms by auto
      define w' where "w' = realign s e (max n (w + 1))"
      have w': "is_char_boundary s w' \<and> w' \<le> r"
        unfolding w'_def using n r r_lt assms by (intro realign_props) auto
      have "w < w'" using realign_ge [of "max n (w + 1)" s e] by (simp add: w'_def)
      then have "\<exists>out'. slide_loop out1 s w' e tc ov = Some out' \<and>
                        chunks_cover s (max (max k r) e) out'"
        using less.hyps [of w' "max k r" out1] w' out1 r r_lt by auto
      moreover have "max (max k r) e = max k e" using r by auto
      ultimately show ?thesis
        using True r out1 n r_lt by (subst slide_loop.simps) (simp add: w'_def)
    qed
  qed
qed

section \<open>Paragraphs tile the text\<close>

fun tiles :: "string \<Rightarrow> nat \<Rightarrow> Paragraph list \<Rightarrow> bool" where
  "tiles s a [] = (a = length s)"
| "tiles s a (p # ps) =
     (fst p = a \<and> a < snd p \<and> snd p \<le> length s \<and> is_char_boundary s (snd p) \<and>
      tiles s (snd p) ps)"

lemma byte_newline: "byte newline = 10"
  by (simp add: newline_def byte_def)

lemma newline_run_ge: "j \<le> newline_run s j"
  by (simp add: newline_run_def)

lemma newline_run_le: "j \<le> length s \<Longrightarrow> newline_run s j \<le> length s"
  using length_takeWhile_le [of "\<lambda>c. c = newline" "drop j s"] by (simp add: newline_run_def)

lemma newline_run_last:
  assumes "0 < j" "s ! (j - 1) = newline" "j \<le> length s"
  shows "s ! (newline_run s j - 1) = newline"
proof -
  let ?t = "takeWhile (\<lambda>c. c = newline) (drop j s)"
  show ?thesis
  proof (cases "?t = []")
    case True
    then show ?thesis using assms by (simp add: newline_run_def)
  next
    case False
    define m where "m = length ?t - 1"
    have m: "m < length ?t" using False by (cases ?t) (auto simp: m_def)
    have "?t ! m \<in> set ?t" using m by (rule nth_mem)
    then have "?t ! m = newline" by (auto dest: set_takeWhileD)
    moreover have "?t ! m = s ! (j + m)"
      using m assms by (simp add: takeWhile_nth)
    moreover have "newline_run s j - 1 = j + m" using m by (simp add: newline_run_def m_def)
    ultimately show ?thesis by simp
  qed
qed

lemma boundary_after_newline:
  assumes "valid_text s" "0 < j" "j \<le> length s" "s ! (j - 1) = newline"
  shows "is_char_boundary s j"
proof (cases "j = length s")
  case False
  then have "j - 1 \<in> set [0..<length s - 1]" using assms by auto
  then have "is_cont (s ! Suc (j - 1)) \<longrightarrow> 128 \<le> byte (s ! (j - 1))"
    using assms(1) unfolding valid_text_def by blast
  then have "\<not> is_cont (s ! j)" using assms by (simp add: byte_newline)
  then show ?thesis using False assms by (simp add: is_char_boundary_def)
qed simp

lemma split_loop_tiles:
  "valid_text s \<Longrightarrow> st \<le> i \<Longrightarrow> i \<le> length s \<Longrightarrow> tiles s st (split_loop s st i)"
proof (induction s st i rule: split_loop.induct)
  case (1 s st i)
  show ?case
  proof (cases "i < length s")
    case False
    then show ?thesis using 1(4,5) by (subst split_loop.simps) (auto simp: Let_def)
  next
    case True
    show ?thesis
    proof (cases "i + 1 < length s \<and> s ! i = newline \<and> s ! (i + 1) = newline")
      case brk: True
      define j where "j = newline_run s (i + 2)"
      have j: "i + 2 \<le> j" "j \<le> length s"
        using brk newline_run_ge newline_run_le by (auto simp: j_def)
      have "s ! (j - 1) = newline"
        unfolding j_def using brk by (intro newline_run_last) auto
      then have "is_char_boundary s j"
        using boundary_after_newline [OF 1(3)] j by auto
      moreover have "tiles s j (split_loop s j j)"
        using 1(1) [OF refl True brk j_def] 1(3) j by simp
      moreover have "split_loop s st i = (st, j) # split_loop s j j"
        using True brk by (subst split_loop.simps) (simp add: Let_def j_def)
      ultimately show ?thesis using j 1(4) by simp
    next
      case False
      then have "split_loop s st i = split_loop s st (i + 1)"
        using True by (subst split_loop.simps) (auto simp: Let_def)
      then show ?thesis using 1(2) [OF refl True False] 1(3-5) True by simp
    qed
  qed
qed

lemma split_paragraphs_tiles: "valid_text s \<Longrightarrow> tiles s 0 (split_paragraphs s)"
  by (simp add: split_paragraphs_def split_loop_tiles)

section \<open>The paragraph loop\<close>

text \<open>
  The cursor before the paragraph that starts at \<open>pos\<close>: either it holds the text up to
  \<open>pos\<close> and what lies before its start is covered, or it is empty and everything is.
\<close>

definition cursor_ok :: "string \<Rightarrow> nat \<Rightarrow> cursor \<Rightarrow> bool" where
  "cursor_ok s pos c =
     (is_char_boundary s (cur_start c) \<and> cur_start c \<le> cur_end c \<and> cur_end c \<le> pos \<and>
      (if cur_start c < cur_end c
       then cur_end c = pos \<and> chunks_cover s (cur_start c) (cur_chunks c)
       else chunks_cover s pos (cur_chunks c)))"

lemma flush_ok:
  assumes "cursor_ok s pos c" "pos \<le> length s" "is_char_boundary s pos"
  shows "\<exists>out. flush s c = Some out \<and> chunks_cover s pos out"
proof (cases "cur_start c < cur_end c")
  case True
  then show ?thesis
    using push_chunk_ok [of "cur_start c" pos s "cur_start c" "cur_chunks c"] assms
    by (auto simp: flush_def cursor_ok_def max_def)
next
  case False
  then show ?thesis using assms by (auto simp: flush_def cursor_ok_def)
qed

lemma oversized_step_ok:
  assumes "starts_on_char s" "cursor_ok s a c" "a < b" "b \<le> length s"
    and "is_char_boundary s a" "is_char_boundary s b" "0 < target"
  shows "\<exists>c'. oversized_step s target ov a b c = Some c' \<and> cursor_ok s b c'"
proof -
  obtain out where out: "flush s c = Some out" "chunks_cover s a out"
    using flush_ok assms by (meson less_imp_le order_trans)
  obtain out' where out': "slide_window out s a b target ov = Some out'" "chunks_cover s b out'"
    using slide_loop_ok [of s b "target * 4" a a out ov] assms out
    by (auto simp: slide_window_def max_def)
  obtain r where r: "window_overlap_start s b ov = Some r" "r \<le> b" "is_char_boundary s r"
    using window_overlap_start_ok assms by blast
  show ?thesis using out out' r by (simp add: oversized_step_def cursor_ok_def)
qed

lemma restart_step_ok:
  assumes "starts_on_char s" "cursor_ok s a c" "a \<le> length s" "is_char_boundary s a"
  shows "\<exists>c'. restart_step s over ov p c = Some c' \<and> is_char_boundary s (cur_start c') \<and>
           cur_start c' \<le> a \<and> chunks_cover s (cur_start c') (cur_chunks c')"
proof (cases "cur_end c > cur_start c \<and> (cur_tokens c + p) mod 2 ^ 32 > over")
  case True
  then have ce: "cur_end c = a" using assms by (simp add: cursor_ok_def)
  obtain out where out: "push_chunk (cur_chunks c) s (cur_start c) a = Some out"
    "chunks_cover s (max (cur_start c) a) out"
    using push_chunk_ok [of "cur_start c" a s "cur_start c" "cur_chunks c"] True assms ce
    by (auto simp: cursor_ok_def)
  obtain r where r: "window_overlap_start s a ov = Some r" "r \<le> a" "is_char_boundary s r"
    using window_overlap_start_ok assms by blast
  have "chunks_cover s r out" using r by (intro chunks_cover_mono [OF out(2)]) auto
  then show ?thesis using True ce out r by (simp add: restart_step_def)
next
  case False
  then have "restart_step s over ov p c = Some c" unfolding restart_step_def by (simp only: if_False)
  moreover have "cur_start c \<le> a \<and> chunks_cover s (cur_start c) (cur_chunks c)"
    using assms(2) by (auto simp: cursor_ok_def split: if_splits intro: chunks_cover_mono)
  ultimately show ?thesis using assms by (simp add: cursor_ok_def)
qed

lemma append_step_ok:
  assumes "starts_on_char s" "cur_start c < b" "b \<le> length s" "is_char_boundary s b"
    and "is_char_boundary s (cur_start c)" "chunks_cover s (cur_start c) (cur_chunks c)"
  shows "\<exists>c'. append_step s target ov b c = Some c' \<and> cursor_ok s b c'"
proof -
  obtain out where out: "push_chunk (cur_chunks c) s (cur_start c) b = Some out"
    "chunks_cover s (max (cur_start c) b) out"
    using push_chunk_ok [of "cur_start c" b s "cur_start c" "cur_chunks c"] assms by auto
  then have "chunks_cover s b out" using assms by (simp add: max_def)
  moreover obtain r where "window_overlap_start s b ov = Some r" "r \<le> b" "is_char_boundary s r"
    using window_overlap_start_ok assms by blast
  ultimately show ?thesis
    using assms out by (auto simp: append_step_def str_slice_Some Let_def cursor_ok_def)
qed

lemma paragraph_step_ok:
  assumes "starts_on_char s" "cursor_ok s a c" "a < b" "b \<le> length s"
    and "is_char_boundary s a" "is_char_boundary s b" "0 < target"
  shows "\<exists>c'. paragraph_step s target ov over (a, b) c = Some c' \<and> cursor_ok s b c'"
proof (cases "approx_token_count (slice s a b) \<ge> over")
  case True
  then show ?thesis
    using oversized_step_ok [of s a c b target ov] assms
    by (simp add: paragraph_step_def str_slice_Some)
next
  case False
  let ?p = "approx_token_count (slice s a b)"
  obtain c1 where c1: "restart_step s over ov ?p c = Some c1" "is_char_boundary s (cur_start c1)"
    "cur_start c1 \<le> a" "chunks_cover s (cur_start c1) (cur_chunks c1)"
    using restart_step_ok [of s a c over ov ?p] assms by auto
  then show ?thesis
    using append_step_ok [of s c1 b target ov] False assms
    by (simp add: paragraph_step_def str_slice_Some)
qed

lemma chunk_loop_ok:
  assumes "starts_on_char s" "0 < target"
  shows "tiles s a ps \<Longrightarrow> is_char_boundary s a \<Longrightarrow> cursor_ok s a c \<Longrightarrow>
         \<exists>c'. chunk_loop s target ov over ps c = Some c' \<and> cursor_ok s (length s) c'"
proof (induction ps arbitrary: a c)
  case Nil
  then show ?case by simp
next
  case (Cons p ps)
  obtain b where p: "p = (a, b)" using Cons.prems by (cases p) auto
  then obtain c1 where "paragraph_step s target ov over p c = Some c1" "cursor_ok s b c1"
    using paragraph_step_ok [of s a c b target ov over] Cons.prems assms by auto
  then show ?case using Cons.IH [of b c1] Cons.prems p by simp
qed

lemma chunk_text_ok:
  assumes "valid_text s"
  shows "\<exists>out. chunk_text s cfg = Some out \<and> chunks_cover s (length s) out"
proof -
  have sc: "starts_on_char s" using assms by (simp add: valid_text_def)
  let ?t = "max (target_tokens cfg) 1"
  let ?ov = "min (overlap_tokens cfg) (?t - 1)"
  let ?over = "sat_mul_u32 ?t 3 div 2"
  let ?c0 = "\<lparr>cur_chunks = [], cur_start = 0, cur_end = 0, cur_tokens = 0\<rparr>"
  have nil: "chunks_cover s 0 []" by (simp add: chunks_cover_def)
  consider "s = []" | "s \<noteq> []" "approx_token_count s \<le> ?over" | "s \<noteq> []" "approx_token_count s > ?over"
    by linarith
  then show ?thesis
  proof cases
    case 1
    then show ?thesis using nil by (simp add: chunk_text_def)
  next
    case 2
    have "slice s 0 (length s) = s" by (simp add: slice_def)
    then have "chunk_text s cfg = push_chunk [] s 0 (length s)"
      using 2 by (simp add: chunk_text_def Let_def push_chunk_def str_slice_Some to_u32_sat_def)
    then show ?thesis using push_chunk_ok [of 0 "length s" s 0 "[]"] nil 2 by simp
  next
    case 3
    have "cursor_ok s 0 ?c0" using nil by (simp add: cursor_ok_def)
    moreover have "0 < ?t" by simp
    ultimately obtain c where c: "chunk_loop s ?t ?ov ?over (split_paragraphs s) ?c0 = Some c"
      "cursor_ok s (length s) c"
      using chunk_loop_ok [OF sc _ split_paragraphs_tiles [OF assms] boundary_ends(1)] by blast
    have "chunk_text s cfg = flush s c" using 3 c(1) by (simp add: chunk_text_def Let_def)
    then show ?thesis using flush_ok [OF c(2)] by simp
  qed
qed

lemma to_u32_sat_id: "n \<le> u32_max \<Longrightarrow> to_u32_sat n = n"
  by (simp add: to_u32_sat_def)

lemma spec_ok_exact:
  assumes "spec_ok s c" "length s \<le> u32_max"
  shows "c = spec_of s (start_offset c) (end_offset c)"
    and "start_offset c < end_offset c" "end_offset c \<le> length s"
    and "is_char_boundary s (start_offset c)" "is_char_boundary s (end_offset c)"
proof -
  obtain a b where ab: "a < b" "b \<le> length s" "is_char_boundary s a" "is_char_boundary s b"
    "c = spec_of s a b"
    using assms(1) by (auto simp: spec_ok_def)
  moreover have "start_offset c = a" "end_offset c = b"
    using ab assms(2) by (auto simp: spec_of_def to_u32_sat_id)
  ultimately show "c = spec_of s (start_offset c) (end_offset c)"
    and "start_offset c < end_offset c" "end_offset c \<le> length s"
    and "is_char_boundary s (start_offset c)" "is_char_boundary s (end_offset c)"
    by simp_all
qed

section \<open>Properties\<close>

text \<open>
  C26: chunking any text with any configuration returns: no slice is out of order, out of range
  or off a character boundary, so none of the indexing panics.
\<close>

theorem chunk_text_returns:
  assumes "valid_text s"
  shows "\<exists>out. chunk_text s cfg = Some out"
  using chunk_text_ok [OF assms] by blast

definition sample_text :: string where
  "sample_text = ''ab cd. ef'' @ [newline, newline] @ ''ghij''"

theorem chunk_text_returns_witness:
  "\<exists>out. chunk_text sample_text \<lparr>target_tokens = 1, overlap_tokens = 0\<rparr> = Some out"
  by (rule chunk_text_returns) code_simp

text \<open>
  C25: no byte of the document is lost: for a text whose offsets fit a \<open>u32\<close>, every byte lies in
  the offset range of some chunk.
\<close>

theorem chunk_text_covers:
  assumes "valid_text s" "length s \<le> u32_max" "chunk_text s cfg = Some out" "i < length s"
  shows "\<exists>c \<in> set out. start_offset c \<le> i \<and> i < end_offset c"
proof -
  have cov: "chunks_cover s (length s) out" using chunk_text_ok [OF assms(1), of cfg] assms(3) by simp
  then obtain a b where "spec_of s a b \<in> set out" "a \<le> i" "i < b" "b \<le> length s"
    using assms(4) by (auto simp: chunks_cover_def)
  then show ?thesis
    using assms(2) by (intro bexI [of _ "spec_of s a b"]) (auto simp: spec_of_def to_u32_sat_id)
qed

theorem chunk_text_covers_witness:
  "\<exists>c \<in> set (the (chunk_text sample_text \<lparr>target_tokens = 1, overlap_tokens = 0\<rparr>)).
     start_offset c \<le> 9 \<and> 9 < end_offset c"
  by (rule chunk_text_covers [where s = sample_text and cfg = "\<lparr>target_tokens = 1, overlap_tokens = 0\<rparr>"])
    code_simp+

text \<open>
  Every chunk is a non-empty contiguous slice of the document between two character
  boundaries, and its recorded offsets and token count are those of that slice.
\<close>

theorem chunk_text_slices:
  assumes "valid_text s" "length s \<le> u32_max" "chunk_text s cfg = Some out" "c \<in> set out"
  shows "start_offset c < end_offset c \<and> end_offset c \<le> length s \<and>
         is_char_boundary s (start_offset c) \<and> is_char_boundary s (end_offset c) \<and>
         cs_content c = slice s (start_offset c) (end_offset c) \<and>
         token_count c = approx_token_count (cs_content c)"
proof -
  have "spec_ok s c"
    using chunk_text_ok [OF assms(1), of cfg] assms(3,4) by (auto simp: chunks_cover_def)
  note ok = spec_ok_exact [OF this assms(2)]
  have "cs_content c = slice s (start_offset c) (end_offset c)"
    and "token_count c = approx_token_count (slice s (start_offset c) (end_offset c))"
    by (subst ok(1), simp add: spec_of_def)+
  with ok(2-5) show ?thesis by simp
qed

theorem chunk_text_slices_witness:
  "let c = hd (the (chunk_text sample_text \<lparr>target_tokens = 1, overlap_tokens = 0\<rparr>))
   in cs_content c = slice sample_text (start_offset c) (end_offset c)"
proof -
  let ?cfg = "\<lparr>target_tokens = 1, overlap_tokens = 0\<rparr>"
  let ?out = "the (chunk_text sample_text ?cfg)"
  have "valid_text sample_text" "length sample_text \<le> u32_max" by code_simp+
  moreover have "chunk_text sample_text ?cfg = Some ?out" "?out \<noteq> []" by code_simp+
  ultimately show ?thesis
    using chunk_text_slices [of sample_text ?cfg ?out "hd ?out"] by (simp add: Let_def)
qed

end
