(* ===== verification/WriterBase.thy ===== *)
theory WriterBase
  imports Db VectorIndexModel ChunkText
begin

text \<open>
  What the handlers of \<open>crates/solo-storage/src/writer.rs\<close> share: the actor's state, the
  environment of one command (clocks, fresh ids, what the file system and each SQL statement
  do), the quota check, the audit and invalidation emitters, and the pure helpers.
\<close>

section \<open>The environment of a command\<close>

text \<open>
  Each SQL statement a handler runs, and each serialisation before it, may fail. The index is
  the position of the item of a batch or of the chunk of a document.
\<close>

datatype sql_step =
    SBegin | SLookup | SSerContext nat | SSerProvenance nat | SInsertEpisode nat
  | SInsertEmbedding nat | SInsertPending nat | SRedactAudit nat | SUpdate | SUpsertEmbedding
  | SUpsertPending | SReview | SInsertDocument | SInsertChunk nat | SInsertChunkEmbedding nat
  | SAudit | SCommit | SChunkRowids | SDrain nat | SEmitBegin nat | SEmitAudit nat
  | SEmitCommit nat
  | SReembedFrom | SReembedSelect | SReembedBegin nat | SReembedInsert nat | SReembedGc nat
  | SReembedCommit nat
  | SCandidates | SEmbedderDim | SSummaries | SLinkAbsorbed nat nat | SInsertCluster nat
  | SLinkCluster nat nat | SRefreshCluster memory_id | SDropAbstraction memory_id
  | SDropTriples memory_id | SFullClusters | SMergeBegin | SMoveLinks nat nat
  | SRefreshSurvivor nat | SDeleteLoser nat nat | SMergeCommit
  | SErase nat | SEraseOpen | SEraseAdminOpen | SEraseAdmin

record parsed_document =
  pd_text :: string
  pd_mime_type :: string
  pd_byte_size :: nat
  pd_extractor_name :: string
  pd_extractor_version :: string

record env =
  now_ms :: int
  emit_ms :: int
  event_ms :: int
  fails :: "sql_step \<Rightarrow> bool"
  db_file_len :: "nat option"
  aligned :: "bytes \<Rightarrow> bool"
  fresh_doc_id :: document_id
  fresh_chunk_id :: "nat \<Rightarrow> chunk_id"
  file_len :: "string \<Rightarrow> nat option"
  file_mtime_ms :: "string \<Rightarrow> int option"
  parse_file :: "string \<Rightarrow> parsed_document option"
  sha256_hex :: "string \<Rightarrow> string"
  ingest_cap_var :: "string option"
  hash_order :: "(string \<times> nat) list \<Rightarrow> (string \<times> nat) list"

definition stmt :: "env \<Rightarrow> sql_step \<Rightarrow> 'a result \<Rightarrow> 'a result" where
  "stmt e s r = (if fails e s then Inl Storage else r)"

lemma stmt_Inr_iff [result_simps]: "stmt e s r = Inr x \<longleftrightarrow> \<not> fails e s \<and> r = Inr x"
  by (simp add: stmt_def)

section \<open>The actor's state\<close>

record TriplesBatchSignal =
  episodes_since_batch :: nat
  notify_permit :: bool
  trigger_episode_count :: nat

record InvalidateEvent =
  ev_reason :: AuditOperation
  ev_tenant_id :: string
  ev_ts_ms :: int
  ev_kind :: string

text \<open>
  \<open>redact\<close> is \<open>RedactionRegistry::redact\<close>: the text and the firing patterns with their
  counts. \<open>embedder\<close> is the embedder's \<open>embed_batch\<close> and dtype. \<open>runtime\<close> tells
  whether a runtime handle is wired, \<open>has_db_path\<close> whether \<open>db_path\<close> is, \<open>tenant\<close> the
  tenant id when the invalidation channel is; \<open>events\<close> are the events sent on it.
\<close>

record 'i writer =
  wdb :: db
  hnsw :: 'i
  embedder_id :: "nat option"
  quota_bytes :: "nat option"
  has_db_path :: bool
  redact :: "string \<Rightarrow> string \<times> (string \<times> nat) list"
  embedder :: "((string list \<Rightarrow> Embedding list result) \<times> EmbeddingDtype) option"
  runtime :: bool
  tenant :: "string option"
  events :: "InvalidateEvent list"
  batch_signal :: "TriplesBatchSignal option"

section \<open>The batch signal\<close>

definition u64_wrap :: "nat \<Rightarrow> nat" where
  "u64_wrap n = n mod 2 ^ 64"

definition note_episode_remembered :: "TriplesBatchSignal \<Rightarrow> TriplesBatchSignal" where
  "note_episode_remembered s =
     (if trigger_episode_count s = 0 then s
      else let new_count = episodes_since_batch s + 1 in
        s\<lparr>episodes_since_batch := u64_wrap new_count,
          notify_permit := (notify_permit s \<or> trigger_episode_count s \<le> new_count)\<rparr>)"

definition signal_reset :: "TriplesBatchSignal \<Rightarrow> TriplesBatchSignal" where
  "signal_reset s = s\<lparr>episodes_since_batch := 0\<rparr>"

section \<open>Quotas\<close>

datatype QuotaDecision = Unlimited | Allowed nat nat | Exceeded nat nat nat

definition check_quota :: "nat option \<Rightarrow> bool \<Rightarrow> nat option \<Rightarrow> nat \<Rightarrow> QuotaDecision" where
  "check_quota quota_opt has_path file_size estimated_growth =
     (case quota_opt of
        None \<Rightarrow> Unlimited
      | Some quota \<Rightarrow>
          if \<not> has_path then Unlimited
          else let current_size = (case file_size of None \<Rightarrow> 0 | Some n \<Rightarrow> n) in
               if sat_add_u64 current_size estimated_growth > quota
               then Exceeded current_size estimated_growth quota
               else Allowed current_size quota)"

definition DEFAULT_INGEST_MAX_BYTES :: nat where
  "DEFAULT_INGEST_MAX_BYTES = 100 * 1024 * 1024"

definition resolve_ingest_max_bytes_from_raw :: "string option \<Rightarrow> nat option" where
  "resolve_ingest_max_bytes_from_raw raw =
     (case raw of
        None \<Rightarrow> Some DEFAULT_INGEST_MAX_BYTES
      | Some r \<Rightarrow>
          (case parse_unsigned u64_max (trim r) of
             Some n \<Rightarrow> if n = 0 then None else Some n
           | None \<Rightarrow> Some DEFAULT_INGEST_MAX_BYTES))"

section \<open>Audit rows and invalidation events\<close>

definition audit_event ::
  "int \<Rightarrow> string option \<Rightarrow> AuditOperation \<Rightarrow> audit_target option \<Rightarrow> AuditResult
     \<Rightarrow> audit_details option \<Rightarrow> AuditEvent" where
  "audit_event ts p oper t r d =
     \<lparr>au_ts_ms = ts, au_principal = p, au_operation = oper, au_target = t, au_result = r,
      au_details = d\<rparr>"

definition redaction_audit_event ::
  "int \<Rightarrow> string option \<Rightarrow> audit_target option \<Rightarrow> (string \<times> nat) list \<Rightarrow> AuditEvent" where
  "redaction_audit_event ts p t ms =
     audit_event ts p RedactionApplied t AuditOk (Some (DMatches ms))"

definition redaction_audit ::
  "env \<Rightarrow> nat \<Rightarrow> string option \<Rightarrow> audit_target option \<Rightarrow> (string \<times> nat) list \<Rightarrow> db \<Rightarrow> db result"
where
  "redaction_audit e i p t ms d =
     (if ms = [] then Inr d
      else stmt e (SRedactAudit i) (Inr (insert_audit (redaction_audit_event (now_ms e) p t ms) d)))"

text \<open>
  \<open>emit_audit_best_effort\<close>: a transaction of its own; any failure drops the row. \<open>k\<close> tells
  the two emissions of one command apart.
\<close>

definition emit_audit_best_effort ::
  "env \<Rightarrow> nat \<Rightarrow> AuditOperation \<Rightarrow> audit_target option \<Rightarrow> AuditResult \<Rightarrow> string option
     \<Rightarrow> audit_details option \<Rightarrow> 'i writer \<Rightarrow> 'i writer" where
  "emit_audit_best_effort e k oper t r p d w =
     (if fails e (SEmitBegin k) then w
      else if fails e (SEmitAudit k) then w
      else if fails e (SEmitCommit k) then w
      else w\<lparr>wdb := insert_audit (audit_event (emit_ms e) p oper t r d) (wdb w)\<rparr>)"

definition emit_invalidate :: "env \<Rightarrow> AuditOperation \<Rightarrow> string \<Rightarrow> 'i writer \<Rightarrow> 'i writer" where
  "emit_invalidate e reason kind w =
     (case tenant w of
        None \<Rightarrow> w
      | Some t \<Rightarrow>
          w\<lparr>events := events w @
              [\<lparr>ev_reason = reason, ev_tenant_id = t, ev_ts_ms = event_ms e, ev_kind = kind\<rparr>]\<rparr>)"

text \<open>\<open>DELETE FROM pending_index\<close> after the reply; a failure leaves the row for the replay.\<close>

definition drain :: "env \<Rightarrow> nat \<Rightarrow> ptarget \<Rightarrow> 'i writer \<Rightarrow> 'i writer" where
  "drain e i t w =
     (if fails e (SDrain i) then w else w\<lparr>wdb := delete_pending t (wdb w)\<rparr>)"

fun drain_all :: "env \<Rightarrow> nat \<Rightarrow> ptarget list \<Rightarrow> 'i writer \<Rightarrow> 'i writer" where
  "drain_all e i [] w = w"
| "drain_all e i (t # ts) w = drain_all e (Suc i) ts (drain e i t w)"

section \<open>Titles, relations, notes\<close>

definition heading_of_line :: "string \<Rightarrow> string option" where
  "heading_of_line line =
     (case trim_start line of
        [] \<Rightarrow> None
      | c # rest \<Rightarrow>
          if c \<noteq> CHR ''#'' then None
          else let body = trim (trim_start_char (CHR ''#'') rest) in
               if body = [] then None
               else let clean = trim (trim_end_char (CHR ''#'') body) in
                    if clean = [] then None else Some clean)"

fun first_heading :: "nat \<Rightarrow> string list \<Rightarrow> string option" where
  "first_heading i [] = None"
| "first_heading i (l # ls) =
     (if i \<ge> 64 then None
      else case heading_of_line l of Some t \<Rightarrow> Some t | None \<Rightarrow> first_heading (i + 1) ls)"

definition derive_document_title :: "string \<Rightarrow> string \<Rightarrow> string" where
  "derive_document_title txt path =
     (case first_heading 0 (str_lines txt) of
        Some t \<Rightarrow> t
      | None \<Rightarrow> (case file_stem path of Some s \<Rightarrow> s | None \<Rightarrow> ''(untitled)''))"

definition normalize_optional_text :: "string \<Rightarrow> string option" where
  "normalize_optional_text v = (if trim v = [] then None else Some (trim v))"

definition normalize_relation_type :: "string \<Rightarrow> string \<Rightarrow> string result" where
  "normalize_relation_type v dflt =
     (let v1 = trim v; v2 = (if v1 = [] then dflt else v1) in
      if length v2 > 64 then Inl InvalidInput
      else if \<not> list_all (\<lambda>b. is_ascii_alphanumeric b \<or> b = CHR ''_'' \<or> b = CHR ''-'' \<or> b = CHR ''.'') v2
      then Inl InvalidInput
      else Inr v2)"

fun dedup_aliases :: "string list \<Rightarrow> string list \<Rightarrow> string list" where
  "dedup_aliases out [] = out"
| "dedup_aliases out (a # as) =
     (if trim a = [] \<or> trim a \<in> set out then dedup_aliases out as
      else dedup_aliases (out @ [trim a]) as)"

definition normalize_entity_review_aliases :: "string list \<Rightarrow> string list result" where
  "normalize_entity_review_aliases as =
     (let out = dedup_aliases [] as in if out = [] then Inl InvalidInput else Inr out)"

definition memory_review_state_str :: "MemoryReviewState \<Rightarrow> string" where
  "memory_review_state_str s = (case s of Approved \<Rightarrow> ''approved'' | Dismissed \<Rightarrow> ''dismissed'')"

definition memory_review_state_from_str :: "string \<Rightarrow> MemoryReviewState result" where
  "memory_review_state_from_str s =
     (if s = ''approved'' then Inr Approved
      else if s = ''dismissed'' then Inr Dismissed
      else Inl InvalidInput)"

section \<open>Frames\<close>

lemma emit_audit_frame [frame_simps]:
  "hnsw (emit_audit_best_effort e k oper t r p d w) = hnsw w"
  "events (emit_audit_best_effort e k oper t r p d w) = events w"
  "tenant (emit_audit_best_effort e k oper t r p d w) = tenant w"
  by (simp_all add: emit_audit_best_effort_def)

lemma emit_invalidate_frame [frame_simps]:
  "hnsw (emit_invalidate e reason kind w) = hnsw w"
  "wdb (emit_invalidate e reason kind w) = wdb w"
  by (simp_all add: emit_invalidate_def split: option.splits)

lemma drain_frame [frame_simps]: "hnsw (drain e i t w) = hnsw w" "events (drain e i t w) = events w"
  by (simp_all add: drain_def)

lemma drain_all_frame [frame_simps]:
  "hnsw (drain_all e i ts w) = hnsw w" "events (drain_all e i ts w) = events w"
  by (induction e i ts w rule: drain_all.induct) (simp_all add: frame_simps)

end
