(* ===== verification/WriterMemory.thy ===== *)
theory WriterMemory
  imports WriterBase
begin

text \<open>
  The memory commands of the writer actor (\<open>crates/solo-storage/src/writer.rs\<close>): remember,
  remember batch, update, review, forget, each with its dispatch. A handler takes the methods
  of the vector index, the environment, the actor's state and the command, and returns the
  reply with the new state. A transaction is a function from the tables to an error or the
  new tables; the state takes the new tables only after the commit, so an early return rolls
  back.
\<close>

section \<open>Remember\<close>

text \<open>The inserts of one item, the same in the single and the batched transaction.\<close>

definition remember_row :: "env \<Rightarrow> string option \<Rightarrow> string \<Rightarrow> Episode \<Rightarrow> nat \<Rightarrow> episode_row" where
  "remember_row e p txt ep rowid =
     \<lparr>er_rowid = rowid, er_memory_id = memory_id ep, er_ts_ms = ts_ms ep,
      er_source_type = source_type ep, er_source_id = source_id ep, er_content = txt,
      er_context = encoding_context ep, er_provenance = provenance ep,
      er_confidence = confidence ep, er_strength = strength ep, er_salience = salience ep,
      er_tier = tier ep, er_status = Active, er_created_at_ms = now_ms e,
      er_updated_at_ms = now_ms e, er_principal = p\<rparr>"

definition embedding_row_of :: "env \<Rightarrow> memory_id \<Rightarrow> nat \<Rightarrow> Embedding \<Rightarrow> embedding_row" where
  "embedding_row_of e mid eid emb =
     \<lparr>em_memory_id = mid, em_embedder_id = eid, em_dtype = dtype emb, em_dim = dim emb,
      em_vector = data emb, em_created_at_ms = now_ms e\<rparr>"

definition pending_row_of :: "env \<Rightarrow> ptarget \<Rightarrow> Embedding \<Rightarrow> pending_row" where
  "pending_row_of e t emb =
     \<lparr>pe_target = t, pe_embedding = data emb, pe_dim = dim emb, pe_enqueued_at = now_ms e\<rparr>"

definition remember_item ::
  "env \<Rightarrow> 'i writer \<Rightarrow> string option \<Rightarrow> nat \<Rightarrow> Episode \<Rightarrow> Embedding \<Rightarrow> db \<Rightarrow> (db \<times> nat) result"
where
  "remember_item e w p i ep emb d0 =
     (let (txt, ms) = redact w (content ep); mid = memory_id ep in
      bind_r (stmt e (SSerContext i) (Inr ())) (\<lambda>_.
      bind_r (if provenance ep = None then Inr () else stmt e (SSerProvenance i) (Inr ())) (\<lambda>_.
      bind_r (stmt e (SInsertEpisode i) (insert_episode (remember_row e p txt ep) d0)) (\<lambda>(d1, rowid).
      bind_r (case embedder_id w of
                None \<Rightarrow> Inr d1
              | Some eid \<Rightarrow> stmt e (SInsertEmbedding i)
                                (insert_embedding (embedding_row_of e mid eid emb) d1)) (\<lambda>d2.
      bind_r (stmt e (SInsertPending i)
                (insert_pending (pending_row_of e (PEpisode mid) emb) d2)) (\<lambda>d3.
      bind_r (redaction_audit e i p (Some (TMemory mid)) ms d3) (\<lambda>d4.
      Inr (d4, rowid))))))))"

definition remember_tx ::
  "env \<Rightarrow> 'i writer \<Rightarrow> string option \<Rightarrow> Episode \<Rightarrow> Embedding \<Rightarrow> db \<Rightarrow> (db \<times> nat) result" where
  "remember_tx e w p ep emb d =
     bind_r (stmt e SBegin (Inr ())) (\<lambda>_.
     bind_r (remember_item e w p 0 ep emb d) (\<lambda>(d1, rowid).
     bind_r (stmt e SAudit (Inr (insert_audit (audit_event (now_ms e) p MemoryRemember
               (Some (TMemory (memory_id ep))) AuditOk None) d1))) (\<lambda>d2.
     bind_r (stmt e SCommit (Inr d2)) (\<lambda>d3. Inr (d3, rowid)))))"

definition item_growth :: "Episode \<Rightarrow> Embedding \<Rightarrow> nat" where
  "item_growth ep emb = sat_add_u64 (sat_add_u64 (length (content ep)) (length (data emb))) 2048"

definition handle_remember_durable ::
  "('i, 'd) vindex \<Rightarrow> env \<Rightarrow> Episode \<Rightarrow> Embedding \<Rightarrow> string option \<Rightarrow> 'i writer
     \<Rightarrow> memory_id result \<times> 'i writer" where
  "handle_remember_durable ops e ep emb p w =
     (case validate emb of
        Inl er \<Rightarrow> (Inl er, w)
      | Inr _ \<Rightarrow>
          (case check_quota (quota_bytes w) (has_db_path w) (db_file_len e) (item_growth ep emb) of
             Exceeded c g q \<Rightarrow>
               (Inl Forbidden,
                emit_audit_best_effort e 0 MemoryRemember (Some (TMemory (memory_id ep)))
                  AuditForbidden p (Some (DQuota c g q)) w)
           | _ \<Rightarrow>
               (case remember_tx e w p ep emb (wdb w) of
                  Inl er \<Rightarrow> (Inl er, w)
                | Inr (d, rowid) \<Rightarrow>
                    let w1 = w\<lparr>wdb := d\<rparr> in
                    (case as_f32_slice (aligned e) emb of
                       None \<Rightarrow> (Inl Embedder, w1)
                     | Some v \<Rightarrow>
                         (case vi_add ops (hnsw w1) (episode_hnsw_id (of_nat rowid)) v of
                            Inl er \<Rightarrow> (Inl er, w1)
                          | Inr i \<Rightarrow> (Inr (memory_id ep), w1\<lparr>hnsw := i\<rparr>))))))"

definition note_remembered :: "'i writer \<Rightarrow> 'i writer" where
  "note_remembered w = w\<lparr>batch_signal := map_option note_episode_remembered (batch_signal w)\<rparr>"

definition dispatch_remember ::
  "('i, 'd) vindex \<Rightarrow> env \<Rightarrow> Episode \<Rightarrow> Embedding \<Rightarrow> string option \<Rightarrow> 'i writer
     \<Rightarrow> memory_id result \<times> 'i writer" where
  "dispatch_remember ops e ep emb p w =
     (case handle_remember_durable ops e ep emb p w of
        (Inl er, w1) \<Rightarrow>
          (Inl er, emit_audit_best_effort e 1 MemoryRemember (Some (TMemory (memory_id ep)))
                     AuditError p (Some (DError er)) w1)
      | (Inr mid, w1) \<Rightarrow>
          (Inr mid, drain e 0 (PEpisode (memory_id ep))
                      (note_remembered (emit_invalidate e MemoryRemember ''episode'' w1))))"

section \<open>Remember batch\<close>

definition MAX_REMEMBER_BATCH_SIZE :: nat where
  "MAX_REMEMBER_BATCH_SIZE = 200"

fun validate_all :: "(Episode \<times> Embedding) list \<Rightarrow> unit result" where
  "validate_all [] = Inr ()"
| "validate_all ((ep, emb) # items) = bind_r (validate emb) (\<lambda>_. validate_all items)"

definition batch_growth :: "(Episode \<times> Embedding) list \<Rightarrow> nat" where
  "batch_growth items =
     foldl (\<lambda>total (ep, emb). sat_add_u64 total (item_growth ep emb)) 0 items"

fun remember_items ::
  "env \<Rightarrow> 'i writer \<Rightarrow> string option \<Rightarrow> nat \<Rightarrow> (Episode \<times> Embedding) list \<Rightarrow> db
     \<Rightarrow> (db \<times> (memory_id \<times> nat) list) result" where
  "remember_items e w p i [] d = Inr (d, [])"
| "remember_items e w p i ((ep, emb) # items) d =
     bind_r (remember_item e w p i ep emb d) (\<lambda>(d1, rowid).
     bind_r (remember_items e w p (Suc i) items d1) (\<lambda>(d2, ids).
     Inr (d2, (memory_id ep, rowid) # ids)))"

definition remember_batch_tx ::
  "env \<Rightarrow> 'i writer \<Rightarrow> string option \<Rightarrow> (Episode \<times> Embedding) list \<Rightarrow> db
     \<Rightarrow> (db \<times> (memory_id \<times> nat) list) result" where
  "remember_batch_tx e w p items d =
     bind_r (stmt e SBegin (Inr ())) (\<lambda>_.
     bind_r (remember_items e w p 0 items d) (\<lambda>(d1, ids).
     bind_r (stmt e SAudit (Inr (insert_audit (audit_event (now_ms e) p MemoryRememberBatch None
               AuditOk (Some (DItemCount (length items)))) d1))) (\<lambda>d2.
     bind_r (stmt e SCommit (Inr d2)) (\<lambda>d3. Inr (d3, ids)))))"

text \<open>The additions after the commit: a failed one is skipped and leaves \<open>False\<close> in the mask.\<close>

fun add_batch ::
  "('i, 'd) vindex \<Rightarrow> env \<Rightarrow> ((Episode \<times> Embedding) \<times> nat) list \<Rightarrow> 'i \<Rightarrow> bool list \<times> 'i" where
  "add_batch ops e [] i = ([], i)"
| "add_batch ops e (((ep, emb), rowid) # rest) i =
     (case as_f32_slice (aligned e) emb of
        None \<Rightarrow> (let (oks, i') = add_batch ops e rest i in (False # oks, i'))
      | Some v \<Rightarrow>
          (case vi_add ops i (episode_hnsw_id (of_nat rowid)) v of
             Inl _ \<Rightarrow> (let (oks, i') = add_batch ops e rest i in (False # oks, i'))
           | Inr i1 \<Rightarrow> (let (oks, i') = add_batch ops e rest i1 in (True # oks, i'))))"

definition handle_remember_batch_durable ::
  "('i, 'd) vindex \<Rightarrow> env \<Rightarrow> (Episode \<times> Embedding) list \<Rightarrow> string option \<Rightarrow> 'i writer
     \<Rightarrow> (memory_id list \<times> bool list) result \<times> 'i writer" where
  "handle_remember_batch_durable ops e items p w =
     (if items = [] then (Inl InvalidInput, w)
      else if length items > MAX_REMEMBER_BATCH_SIZE then (Inl InvalidInput, w)
      else case validate_all items of
        Inl er \<Rightarrow> (Inl er, w)
      | Inr _ \<Rightarrow>
          (case check_quota (quota_bytes w) (has_db_path w) (db_file_len e) (batch_growth items) of
             Exceeded c g q \<Rightarrow>
               (Inl Forbidden,
                emit_audit_best_effort e 0 MemoryRememberBatch None AuditForbidden p
                  (Some (DQuota c g q)) w)
           | _ \<Rightarrow>
               (case remember_batch_tx e w p items (wdb w) of
                  Inl er \<Rightarrow> (Inl er, w)
                | Inr (d, ids) \<Rightarrow>
                    let (oks, i) = add_batch ops e (zip items (map snd ids)) (hnsw w)
                    in (Inr (map fst ids, oks), w\<lparr>wdb := d, hnsw := i\<rparr>))))"

definition drain_ids :: "memory_id list \<Rightarrow> bool list \<Rightarrow> memory_id list" where
  "drain_ids ids oks = map fst (filter snd (zip ids oks))"

definition dispatch_remember_batch ::
  "('i, 'd) vindex \<Rightarrow> env \<Rightarrow> (Episode \<times> Embedding) list \<Rightarrow> string option \<Rightarrow> 'i writer
     \<Rightarrow> memory_id list result \<times> 'i writer" where
  "dispatch_remember_batch ops e items p w =
     (case handle_remember_batch_durable ops e items p w of
        (Inl er, w1) \<Rightarrow>
          (Inl er, emit_audit_best_effort e 1 MemoryRememberBatch None AuditError p
                     (Some (DBatchError er (length items))) w1)
      | (Inr (ids, oks), w1) \<Rightarrow>
          (Inr ids,
           drain_all e 0 (map PEpisode (drain_ids ids oks))
             ((note_remembered ^^ length items)
                (emit_invalidate e MemoryRememberBatch ''episode'' w1))))"

section \<open>Update\<close>

record MemoryUpdateReport =
  ur_memory_id :: memory_id
  ur_rowid :: nat
  ur_content :: string
  ur_updated_at_ms :: int

definition update_tx ::
  "env \<Rightarrow> 'i writer \<Rightarrow> string option \<Rightarrow> memory_id \<Rightarrow> string \<Rightarrow> (string \<times> nat) list \<Rightarrow> Embedding \<Rightarrow> db
     \<Rightarrow> (db \<times> nat) result" where
  "update_tx e w p mid txt ms emb d =
     bind_r (stmt e SBegin (Inr ())) (\<lambda>_.
     bind_r (stmt e SLookup (Inr (find_episode d mid))) (\<lambda>existing.
     bind_r (ok_or existing NotFound) (\<lambda>row.
     bind_r (require (er_status row = Active) Conflict) (\<lambda>_.
     bind_r (stmt e SUpdate (Inr (update_episode mid
               (\<lambda>r. r\<lparr>er_content := txt, er_updated_at_ms := now_ms e\<rparr>) d))) (\<lambda>d1.
     bind_r (case embedder_id w of
               None \<Rightarrow> Inr d1
             | Some eid \<Rightarrow> stmt e SUpsertEmbedding
                               (Inr (upsert_embedding (embedding_row_of e mid eid emb) d1))) (\<lambda>d2.
     bind_r (stmt e SUpsertPending
               (Inr (upsert_pending (pending_row_of e (PEpisode mid) emb) d2))) (\<lambda>d3.
     bind_r (redaction_audit e 0 p (Some (TMemory mid)) ms d3) (\<lambda>d4.
     bind_r (stmt e SAudit (Inr (insert_audit (audit_event (now_ms e) p MemoryUpdate
               (Some (TMemory mid)) AuditOk None) d4))) (\<lambda>d5.
     bind_r (stmt e SCommit (Inr d5)) (\<lambda>d6. Inr (d6, er_rowid row)))))))))))"

definition handle_update_durable ::
  "('i, 'd) vindex \<Rightarrow> env \<Rightarrow> memory_id \<Rightarrow> string \<Rightarrow> Embedding \<Rightarrow> string option \<Rightarrow> 'i writer
     \<Rightarrow> MemoryUpdateReport result \<times> 'i writer" where
  "handle_update_durable ops e mid raw emb p w =
     (case validate emb of
        Inl er \<Rightarrow> (Inl er, w)
      | Inr _ \<Rightarrow>
          (case as_f32_slice (aligned e) emb of
             None \<Rightarrow> (Inl Embedder, w)
           | Some v \<Rightarrow>
               if trim raw = [] then (Inl InvalidInput, w)
               else
                 let (txt, ms) = redact w (trim raw) in
                 (case update_tx e w p mid txt ms emb (wdb w) of
                    Inl er \<Rightarrow> (Inl er, w)
                  | Inr (d, rowid) \<Rightarrow>
                      let w1 = w\<lparr>wdb := d\<rparr> in
                      (case vi_add ops (hnsw w1) (episode_hnsw_id (of_nat rowid)) v of
                         Inl er \<Rightarrow> (Inl er, w1)
                       | Inr i \<Rightarrow>
                           (Inr \<lparr>ur_memory_id = mid, ur_rowid = rowid, ur_content = txt,
                                 ur_updated_at_ms = now_ms e\<rparr>,
                            w1\<lparr>hnsw := i\<rparr>)))))"

definition dispatch_update ::
  "('i, 'd) vindex \<Rightarrow> env \<Rightarrow> memory_id \<Rightarrow> string \<Rightarrow> Embedding \<Rightarrow> string option \<Rightarrow> 'i writer
     \<Rightarrow> MemoryUpdateReport result \<times> 'i writer" where
  "dispatch_update ops e mid raw emb p w =
     (case handle_update_durable ops e mid raw emb p w of
        (Inl er, w1) \<Rightarrow>
          (Inl er, emit_audit_best_effort e 1 MemoryUpdate (Some (TMemory mid)) AuditError p
                     (Some (DError er)) w1)
      | (Inr rep, w1) \<Rightarrow>
          (Inr rep, drain e 0 (PEpisode (ur_memory_id rep))
                      (emit_invalidate e MemoryUpdate ''episode'' w1)))"

section \<open>Review\<close>

record MemoryReviewReport =
  rr_memory_id :: memory_id
  rr_state :: "MemoryReviewState option"
  rr_reviewed_at_ms :: "int option"

definition review_tx ::
  "env \<Rightarrow> string option \<Rightarrow> memory_id \<Rightarrow> MemoryReviewState option \<Rightarrow> string option \<Rightarrow> db
     \<Rightarrow> (db \<times> int option) result" where
  "review_tx e p mid state note d =
     bind_r (stmt e SBegin (Inr ())) (\<lambda>_.
     bind_r (stmt e SLookup (Inr (find_episode d mid))) (\<lambda>existing.
     bind_r (ok_or existing NotFound) (\<lambda>row.
     bind_r (require (er_status row = Active) Conflict) (\<lambda>_.
     bind_r (stmt e SReview (Inr (case state of
               Some s \<Rightarrow> (upsert_review \<lparr>rv_memory_id = mid, rv_state = s,
                            rv_reviewed_at_ms = now_ms e, rv_note = note,
                            rv_created_at_ms = now_ms e, rv_updated_at_ms = now_ms e\<rparr> d,
                          Some (now_ms e))
             | None \<Rightarrow> (delete_review mid d, None)))) (\<lambda>(d1, at).
     bind_r (stmt e SAudit (Inr (insert_audit (audit_event (now_ms e) p MemoryReview
               (Some (TMemory mid)) AuditOk
               (Some (DReview (map_option memory_review_state_str state) (note \<noteq> None)))) d1))) (\<lambda>d2.
     bind_r (stmt e SCommit (Inr d2)) (\<lambda>d3. Inr (d3, at))))))))"

definition handle_memory_review ::
  "env \<Rightarrow> memory_id \<Rightarrow> MemoryReviewState option \<Rightarrow> string option \<Rightarrow> string option \<Rightarrow> 'i writer
     \<Rightarrow> MemoryReviewReport result \<times> 'i writer" where
  "handle_memory_review e mid state note p w =
     (let note' = Option.bind note (\<lambda>raw. if trim raw = [] then None else Some (trim raw)) in
      case review_tx e p mid state note' (wdb w) of
        Inl er \<Rightarrow> (Inl er, w)
      | Inr (d, at) \<Rightarrow>
          (Inr \<lparr>rr_memory_id = mid, rr_state = state, rr_reviewed_at_ms = at\<rparr>, w\<lparr>wdb := d\<rparr>))"

text \<open>The dispatch arms that only audit an error and invalidate a success.\<close>

definition dispatch_simple ::
  "env \<Rightarrow> AuditOperation \<Rightarrow> audit_target option \<Rightarrow> string \<Rightarrow> string option
     \<Rightarrow> 'a result \<times> 'i writer \<Rightarrow> 'a result \<times> 'i writer" where
  "dispatch_simple e oper t kind p res =
     (case res of
        (Inl er, w1) \<Rightarrow> (Inl er, emit_audit_best_effort e 1 oper t AuditError p (Some (DError er)) w1)
      | (Inr x, w1) \<Rightarrow> (Inr x, emit_invalidate e oper kind w1))"

definition dispatch_review ::
  "env \<Rightarrow> memory_id \<Rightarrow> MemoryReviewState option \<Rightarrow> string option \<Rightarrow> string option \<Rightarrow> 'i writer
     \<Rightarrow> MemoryReviewReport result \<times> 'i writer" where
  "dispatch_review e mid state note p w =
     dispatch_simple e MemoryReview (Some (TMemory mid)) ''episode'' p
       (handle_memory_review e mid state note p w)"

section \<open>Forget\<close>

definition forget_tx ::
  "env \<Rightarrow> string option \<Rightarrow> memory_id \<Rightarrow> string \<Rightarrow> db \<Rightarrow> db result" where
  "forget_tx e p mid reason d =
     bind_r (stmt e SBegin (Inr ())) (\<lambda>_.
     bind_r (stmt e SUpdate (Inr (update_episode mid
               (\<lambda>r. if er_status r = Forgotten then r
                    else r\<lparr>er_status := Forgotten, er_updated_at_ms := now_ms e\<rparr>) d))) (\<lambda>d1.
     bind_r (stmt e SAudit (Inr (insert_audit (audit_event (now_ms e) p MemoryForget
               (Some (TMemory mid)) AuditOk (Some (DReason reason))) d1))) (\<lambda>d2.
     stmt e SCommit (Inr d2))))"

text \<open>An error of \<open>hnsw.remove\<close> is logged and leaves the index as it was.\<close>

definition remove_logged :: "('i, 'd) vindex \<Rightarrow> i64 \<Rightarrow> 'i \<Rightarrow> 'i" where
  "remove_logged ops r i = (case vi_remove ops i r of Inl _ \<Rightarrow> i | Inr i' \<Rightarrow> i')"

definition handle_forget ::
  "('i, 'd) vindex \<Rightarrow> env \<Rightarrow> memory_id \<Rightarrow> string \<Rightarrow> string option \<Rightarrow> 'i writer
     \<Rightarrow> unit result \<times> 'i writer" where
  "handle_forget ops e mid reason p w =
     (case bind_r (stmt e SLookup (Inr (find_episode (wdb w) mid))) (\<lambda>x. ok_or x NotFound) of
        Inl er \<Rightarrow> (Inl er, w)
      | Inr row \<Rightarrow>
          (case forget_tx e p mid reason (wdb w) of
             Inl er \<Rightarrow> (Inl er, w)
           | Inr d \<Rightarrow>
               (Inr (),
                w\<lparr>wdb := d,
                  hnsw := remove_logged ops (episode_hnsw_id (of_nat (er_rowid row))) (hnsw w)\<rparr>)))"

definition dispatch_forget ::
  "('i, 'd) vindex \<Rightarrow> env \<Rightarrow> memory_id \<Rightarrow> string \<Rightarrow> string option \<Rightarrow> 'i writer
     \<Rightarrow> unit result \<times> 'i writer" where
  "dispatch_forget ops e mid reason p w =
     dispatch_simple e MemoryForget (Some (TMemory mid)) ''episode'' p
       (handle_forget ops e mid reason p w)"

end
