(* ===== verification/WriterDocuments.thy ===== *)
theory WriterDocuments
  imports WriterMemory
begin

text \<open>
  The document commands of the writer actor (\<open>crates/solo-storage/src/writer.rs\<close>): ingest
  and forget. The parser of a file and the digest are parameters of the environment; the
  chunker is \<open>ChunkText.chunk_text\<close>, which returns on every UTF-8 text.
\<close>

section \<open>Ingest: before the transaction\<close>

record IngestReport =
  ir_doc_id :: document_id
  ir_chunks_persisted :: nat
  ir_bytes_ingested :: nat
  ir_text_chars :: nat
  ir_extractor_name :: string
  ir_extractor_version :: string
  ir_deduped :: bool

text \<open>Step 0: the size on disk against the cap.\<close>

definition ingest_stat :: "env \<Rightarrow> string \<Rightarrow> nat result" where
  "ingest_stat e path =
     (case file_len e path of
        None \<Rightarrow> Inl Storage
      | Some sz \<Rightarrow>
          (case resolve_ingest_max_bytes_from_raw (ingest_cap_var e) of
             None \<Rightarrow> Inr sz
           | Some cap \<Rightarrow> if sz > cap then Inl Storage else Inr sz))"

text \<open>Step 3.5: the redaction of each chunk, with the match counts added up in a map.\<close>

fun add_count :: "string \<Rightarrow> nat \<Rightarrow> (string \<times> nat) list \<Rightarrow> (string \<times> nat) list" where
  "add_count name n [] = [(name, n mod 2 ^ 32)]"
| "add_count name n ((k, m) # rest) =
     (if k = name then (k, (m + n) mod 2 ^ 32) # rest else (k, m) # add_count name n rest)"

definition add_counts :: "(string \<times> nat) list \<Rightarrow> (string \<times> nat) list \<Rightarrow> (string \<times> nat) list" where
  "add_counts ms acc = foldl (\<lambda>a (name, n). add_count name n a) acc ms"

fun redact_chunks ::
  "(string \<Rightarrow> string \<times> (string \<times> nat) list) \<Rightarrow> ChunkSpec list \<Rightarrow> (string \<times> nat) list
     \<Rightarrow> ChunkSpec list \<times> (string \<times> nat) list" where
  "redact_chunks red [] counts = ([], counts)"
| "redact_chunks red (c # cs) counts =
     (let (txt, ms) = red (cs_content c);
          (cs', counts') = redact_chunks red cs (add_counts ms counts)
      in (c\<lparr>cs_content := txt\<rparr> # cs', counts'))"

text \<open>Step 4: one embedding per chunk, each of the shape it declares.\<close>

definition embed_chunks ::
  "(string list \<Rightarrow> Embedding list result) \<Rightarrow> ChunkSpec list \<Rightarrow> Embedding list result" where
  "embed_chunks embed_batch cs =
     (case embed_batch (map cs_content cs) of
        Inl _ \<Rightarrow> Inl Storage
      | Inr embs \<Rightarrow>
          if length embs \<noteq> length cs then Inl Storage
          else if list_all (\<lambda>emb. is_ok (validate emb)) embs then Inr embs
          else Inl Storage)"

text \<open>The wiring a new document needs: the embedder, the runtime and the embedder id.\<close>

definition ingest_wiring ::
  "'i writer \<Rightarrow> ((string list \<Rightarrow> Embedding list result) \<times> EmbeddingDtype \<times> nat) result" where
  "ingest_wiring w =
     bind_r (ok_or (embedder w) Other) (\<lambda>(embed_batch, dt).
     bind_r (require (runtime w) Other) (\<lambda>_.
     bind_r (ok_or (embedder_id w) Other) (\<lambda>eid. Inr (embed_batch, dt, eid))))"

record ingest_plan =
  ip_chunks :: "ChunkSpec list"
  ip_counts :: "(string \<times> nat) list"
  ip_embeddings :: "Embedding list"
  ip_dtype :: EmbeddingDtype
  ip_embedder_id :: nat

definition ingest_prepare :: "'i writer \<Rightarrow> ChunkSpec list \<Rightarrow> ingest_plan result" where
  "ingest_prepare w cs =
     bind_r (ingest_wiring w) (\<lambda>(embed_batch, dt, eid).
     bind_r (require (cs \<noteq> []) Storage) (\<lambda>_.
     let (cs', counts) = redact_chunks (redact w) cs [] in
     bind_r (embed_chunks embed_batch cs') (\<lambda>embs.
     Inr \<lparr>ip_chunks = cs', ip_counts = counts, ip_embeddings = embs, ip_dtype = dt,
          ip_embedder_id = eid\<rparr>)))"

section \<open>Ingest: the transaction\<close>

definition chunk_row_of ::
  "env \<Rightarrow> string option \<Rightarrow> document_id \<Rightarrow> nat \<Rightarrow> ChunkSpec \<Rightarrow> nat \<Rightarrow> chunk_row" where
  "chunk_row_of e p did i c rowid =
     \<lparr>cr_rowid = rowid, cr_chunk_id = fresh_chunk_id e i, cr_doc_id = did, cr_chunk_index = i,
      cr_content = cs_content c, cr_token_count = token_count c,
      cr_start_offset = start_offset c, cr_end_offset = end_offset c,
      cr_created_at_ms = now_ms e, cr_principal = p\<rparr>"

definition insert_chunk_item ::
  "env \<Rightarrow> string option \<Rightarrow> document_id \<Rightarrow> EmbeddingDtype \<Rightarrow> nat \<Rightarrow> nat \<Rightarrow> ChunkSpec \<Rightarrow> Embedding
     \<Rightarrow> db \<Rightarrow> (db \<times> nat) result" where
  "insert_chunk_item e p did dt eid i c emb d0 =
     bind_r (stmt e (SInsertChunk i) (insert_chunk (chunk_row_of e p did i c) d0)) (\<lambda>(d1, rowid).
     bind_r (stmt e (SInsertChunkEmbedding i) (insert_chunk_embedding
               \<lparr>ce_chunk_id = fresh_chunk_id e i, ce_embedder_id = eid, ce_dtype = dt,
                ce_dim = dim emb, ce_vector = data emb, ce_created_at_ms = now_ms e\<rparr> d1)) (\<lambda>d2.
     bind_r (stmt e (SInsertPending i)
               (insert_pending (pending_row_of e (PChunk (fresh_chunk_id e i)) emb) d2)) (\<lambda>d3.
     Inr (d3, rowid))))"

text \<open>The loop over \<open>chunks.iter().zip(embeddings)\<close>; the records are for the additions after it.\<close>

fun insert_chunk_items ::
  "env \<Rightarrow> string option \<Rightarrow> document_id \<Rightarrow> EmbeddingDtype \<Rightarrow> nat \<Rightarrow> nat
     \<Rightarrow> (ChunkSpec \<times> Embedding) list \<Rightarrow> db \<Rightarrow> (db \<times> (chunk_id \<times> nat \<times> Embedding) list) result"
where
  "insert_chunk_items e p did dt eid i [] d = Inr (d, [])"
| "insert_chunk_items e p did dt eid i ((c, emb) # rest) d =
     bind_r (insert_chunk_item e p did dt eid i c emb d) (\<lambda>(d1, rowid).
     bind_r (insert_chunk_items e p did dt eid (Suc i) rest d1) (\<lambda>(d2, recs).
     Inr (d2, (fresh_chunk_id e i, rowid, emb) # recs)))"

definition document_row_of ::
  "env \<Rightarrow> string \<Rightarrow> parsed_document \<Rightarrow> nat \<Rightarrow> document_row" where
  "document_row_of e path doc chunk_count =
     \<lparr>dr_doc_id = fresh_doc_id e, dr_source = path,
      dr_title = derive_document_title (pd_text doc) path, dr_mime_type = pd_mime_type doc,
      dr_ingested_at_ms = now_ms e, dr_modified_at_ms = file_mtime_ms e path,
      dr_status = Active, dr_chunk_count = chunk_count,
      dr_content_hash = sha256_hex e (pd_text doc), dr_byte_size = pd_byte_size doc\<rparr>"

definition ingest_tx ::
  "env \<Rightarrow> string option \<Rightarrow> string \<Rightarrow> parsed_document \<Rightarrow> ingest_plan \<Rightarrow> db
     \<Rightarrow> (db \<times> (chunk_id \<times> nat \<times> Embedding) list) result" where
  "ingest_tx e p path doc plan d =
     (let did = fresh_doc_id e; n = length (ip_chunks plan) mod 2 ^ 32 in
      bind_r (stmt e SBegin (Inr ())) (\<lambda>_.
      bind_r (stmt e SInsertDocument (insert_document (document_row_of e path doc n) d)) (\<lambda>d1.
      bind_r (insert_chunk_items e p did (ip_dtype plan) (ip_embedder_id plan) 0
                (zip (ip_chunks plan) (ip_embeddings plan)) d1) (\<lambda>(d2, recs).
      bind_r (redaction_audit e 0 p (Some (TDocument did)) (hash_order e (ip_counts plan)) d2) (\<lambda>d3.
      bind_r (stmt e SAudit (Inr (insert_audit (audit_event (now_ms e) p MemoryIngestDocument
                (Some (TDocument did)) AuditOk (Some (DIngested n (pd_byte_size doc)))) d3))) (\<lambda>d4.
      bind_r (stmt e SCommit (Inr d4)) (\<lambda>d5. Inr (d5, recs))))))))"

section \<open>Ingest: after the commit\<close>

fun add_chunks ::
  "('i, 'd) vindex \<Rightarrow> env \<Rightarrow> (chunk_id \<times> nat \<times> Embedding) list \<Rightarrow> 'i \<Rightarrow> chunk_id list \<times> 'i" where
  "add_chunks ops e [] i = ([], i)"
| "add_chunks ops e ((cid, rowid, emb) # rest) i =
     (case as_f32_slice (aligned e) emb of
        None \<Rightarrow> add_chunks ops e rest i
      | Some v \<Rightarrow>
          (case vi_add ops i (chunk_hnsw_id (of_nat rowid)) v of
             Inl _ \<Rightarrow> add_chunks ops e rest i
           | Inr i1 \<Rightarrow> (let (drained, i2) = add_chunks ops e rest i1 in (cid # drained, i2))))"

definition ingest_report :: "document_id \<Rightarrow> nat \<Rightarrow> parsed_document \<Rightarrow> bool \<Rightarrow> IngestReport" where
  "ingest_report did n doc deduped =
     \<lparr>ir_doc_id = did, ir_chunks_persisted = n, ir_bytes_ingested = pd_byte_size doc,
      ir_text_chars = chars_count (pd_text doc), ir_extractor_name = pd_extractor_name doc,
      ir_extractor_version = pd_extractor_version doc, ir_deduped = deduped\<rparr>"

text \<open>A document with a new content: prepare, write, index.\<close>

definition ingest_new ::
  "('i, 'd) vindex \<Rightarrow> env \<Rightarrow> string \<Rightarrow> parsed_document \<Rightarrow> ChunkSpec list \<Rightarrow> string option
     \<Rightarrow> 'i writer \<Rightarrow> (IngestReport result \<times> chunk_id list) \<times> 'i writer" where
  "ingest_new ops e path doc cs p w =
     (case ingest_prepare w cs of
        Inl er \<Rightarrow> ((Inl er, []), w)
      | Inr plan \<Rightarrow>
          (case ingest_tx e p path doc plan (wdb w) of
             Inl er \<Rightarrow> ((Inl er, []), w)
           | Inr (d, recs) \<Rightarrow>
               let (drained, i) = add_chunks ops e recs (hnsw w) in
               ((Inr (ingest_report (fresh_doc_id e) (length (ip_chunks plan) mod 2 ^ 32) doc False),
                 drained),
                w\<lparr>wdb := d, hnsw := i\<rparr>)))"

text \<open>A content already stored: one best-effort audit row, nothing else.\<close>

definition ingest_dedup ::
  "env \<Rightarrow> document_row \<Rightarrow> parsed_document \<Rightarrow> string option \<Rightarrow> 'i writer
     \<Rightarrow> (IngestReport result \<times> chunk_id list) \<times> 'i writer" where
  "ingest_dedup e row doc p w =
     ((Inr (ingest_report (dr_doc_id row) 0 doc True), []),
      emit_audit_best_effort e 0 MemoryIngestDocument (Some (TDocument (dr_doc_id row))) AuditOk p
        (Some DDeduped) w)"

definition handle_ingest_document_durable ::
  "('i, 'd) vindex \<Rightarrow> env \<Rightarrow> string \<Rightarrow> ChunkConfig \<Rightarrow> string option \<Rightarrow> 'i writer
     \<Rightarrow> (IngestReport result \<times> chunk_id list) \<times> 'i writer" where
  "handle_ingest_document_durable ops e path cfg p w =
     (case ingest_stat e path of
        Inl er \<Rightarrow> ((Inl er, []), w)
      | Inr sz \<Rightarrow>
          (case check_quota (quota_bytes w) (has_db_path w) (db_file_len e) (sat_mul_u64 sz 2) of
             Exceeded c g q \<Rightarrow>
               ((Inl Forbidden, []),
                emit_audit_best_effort e 0 MemoryIngestDocument (Some (TPath path)) AuditForbidden p
                  (Some (DQuota c g q)) w)
           | _ \<Rightarrow>
               (case parse_file e path of
                  None \<Rightarrow> ((Inl Storage, []), w)
                | Some doc \<Rightarrow>
                    let cs = the (chunk_text (pd_text doc) cfg);
                        hash = sha256_hex e (pd_text doc) in
                    (case stmt e SLookup
                            (Inr (find (\<lambda>r. dr_content_hash r = hash) (documents (wdb w)))) of
                       Inl er \<Rightarrow> ((Inl er, []), w)
                     | Inr (Some row) \<Rightarrow> ingest_dedup e row doc p w
                     | Inr None \<Rightarrow> ingest_new ops e path doc cs p w))))"

definition dispatch_ingest_document ::
  "('i, 'd) vindex \<Rightarrow> env \<Rightarrow> string \<Rightarrow> ChunkConfig \<Rightarrow> string option \<Rightarrow> 'i writer
     \<Rightarrow> IngestReport result \<times> 'i writer" where
  "dispatch_ingest_document ops e path cfg p w =
     (case handle_ingest_document_durable ops e path cfg p w of
        ((Inl er, _), w1) \<Rightarrow>
          (Inl er, emit_audit_best_effort e 1 MemoryIngestDocument None AuditError p
                     (Some (DError er)) w1)
      | ((Inr rep, drained), w1) \<Rightarrow>
          (Inr rep,
           drain_all e 0 (map PChunk drained)
             (emit_invalidate e MemoryIngestDocument ''document'' w1)))"

section \<open>Forget document\<close>

record ForgetDocumentReport =
  fr_doc_id :: document_id
  fr_chunks_tombstoned :: nat

definition forget_document_tx :: "env \<Rightarrow> string option \<Rightarrow> document_id \<Rightarrow> db \<Rightarrow> db result" where
  "forget_document_tx e p did d =
     bind_r (stmt e SBegin (Inr ())) (\<lambda>_.
     bind_r (stmt e SUpdate (Inr (update_document did (\<lambda>r. r\<lparr>dr_status := Forgotten\<rparr>) d))) (\<lambda>d1.
     bind_r (stmt e SAudit (Inr (insert_audit (audit_event (now_ms e) p MemoryForgetDocument
               (Some (TDocument did)) AuditOk None) d1))) (\<lambda>d2.
     stmt e SCommit (Inr d2))))"

definition handle_forget_document ::
  "('i, 'd) vindex \<Rightarrow> env \<Rightarrow> document_id \<Rightarrow> string option \<Rightarrow> 'i writer
     \<Rightarrow> ForgetDocumentReport result \<times> 'i writer" where
  "handle_forget_document ops e did p w =
     (case bind_r (stmt e SLookup (Inr (find_document (wdb w) did))) (\<lambda>x. ok_or x NotFound) of
        Inl er \<Rightarrow> (Inl er, w)
      | Inr _ \<Rightarrow>
          (case forget_document_tx e p did (wdb w) of
             Inl er \<Rightarrow> (Inl er, w)
           | Inr d \<Rightarrow>
               let w1 = w\<lparr>wdb := d\<rparr> in
               (case stmt e SChunkRowids
                       (Inr (map cr_rowid (filter (\<lambda>c. cr_doc_id c = did) (chunks d)))) of
                  Inl er \<Rightarrow> (Inl er, w1)
                | Inr rowids \<Rightarrow>
                    (Inr \<lparr>fr_doc_id = did, fr_chunks_tombstoned = length rowids mod 2 ^ 32\<rparr>,
                     w1\<lparr>hnsw := foldl (\<lambda>i r. remove_logged ops (chunk_hnsw_id (of_nat r)) i)
                                  (hnsw w1) rowids\<rparr>))))"

definition dispatch_forget_document ::
  "('i, 'd) vindex \<Rightarrow> env \<Rightarrow> document_id \<Rightarrow> string option \<Rightarrow> 'i writer
     \<Rightarrow> ForgetDocumentReport result \<times> 'i writer" where
  "dispatch_forget_document ops e did p w =
     dispatch_simple e MemoryForgetDocument (Some (TDocument did)) ''document'' p
       (handle_forget_document ops e did p w)"

section \<open>Commands\<close>

datatype WriteCommand =
    Remember Episode Embedding "string option"
  | RememberBatch "(Episode \<times> Embedding) list" "string option"
  | Forget memory_id string "string option"
  | Update memory_id string Embedding "string option"
  | ReviewMemory memory_id "MemoryReviewState option" "string option" "string option"
  | IngestDocument string ChunkConfig "string option"
  | ForgetDocument document_id "string option"

datatype Reply =
    RRemember "memory_id result"
  | RRememberBatch "memory_id list result"
  | RForget "unit result"
  | RUpdate "MemoryUpdateReport result"
  | RReview "MemoryReviewReport result"
  | RIngest "IngestReport result"
  | RForgetDocument "ForgetDocumentReport result"

definition dispatch ::
  "('i, 'd) vindex \<Rightarrow> env \<Rightarrow> WriteCommand \<Rightarrow> 'i writer \<Rightarrow> Reply \<times> 'i writer" where
  "dispatch ops e cmd w =
     (case cmd of
        Remember ep emb p \<Rightarrow> map_prod RRemember id (dispatch_remember ops e ep emb p w)
      | RememberBatch items p \<Rightarrow> map_prod RRememberBatch id (dispatch_remember_batch ops e items p w)
      | Forget mid reason p \<Rightarrow> map_prod RForget id (dispatch_forget ops e mid reason p w)
      | Update mid raw emb p \<Rightarrow> map_prod RUpdate id (dispatch_update ops e mid raw emb p w)
      | ReviewMemory mid st note p \<Rightarrow> map_prod RReview id (dispatch_review e mid st note p w)
      | IngestDocument path cfg p \<Rightarrow> map_prod RIngest id (dispatch_ingest_document ops e path cfg p w)
      | ForgetDocument did p \<Rightarrow> map_prod RForgetDocument id (dispatch_forget_document ops e did p w))"

text \<open>\<open>run\<close>: the actor takes the commands of its queue one at a time.\<close>

fun run :: "('i, 'd) vindex \<Rightarrow> (env \<times> WriteCommand) list \<Rightarrow> 'i writer \<Rightarrow> Reply list \<times> 'i writer" where
  "run ops [] w = ([], w)"
| "run ops ((e, cmd) # rest) w =
     (let (r, w1) = dispatch ops e cmd w; (rs, w2) = run ops rest w1 in (r # rs, w2))"

end
