(* ===== verification/DbFacts.thy ===== *)
theory DbFacts
  imports Db
begin

text \<open>
  How the statements of \<open>Db\<close> act on what the vector index must agree with: the outbox
  property, the set of the active ids and the schema's constraints. None of them looks at the
  audit log, the reviews or the stored vectors.
\<close>

section \<open>The outbox property\<close>

text \<open>
  Every row a search should find is in the index already, or it has an entry in
  \<open>pending_index\<close> from which the next replay will put it there.
\<close>

definition outbox_ok :: "i64 set \<Rightarrow> db \<Rightarrow> bool" where
  "outbox_ok L d =
     ((\<forall>r \<in> set (episodes d). er_status r = Active \<longrightarrow>
         ep_id r \<in> L \<or> PEpisode (er_memory_id r) \<in> pending_targets d) \<and>
      (\<forall>c \<in> set (chunks d). doc_active d (cr_doc_id c) \<longrightarrow>
         ch_id c \<in> L \<or> PChunk (cr_chunk_id c) \<in> pending_targets d))"

section \<open>The part of the tables these properties depend on\<close>

definition same_core :: "db \<Rightarrow> db \<Rightarrow> bool" where
  "same_core d d' =
     (episodes d' = episodes d \<and> ep_seq d' = ep_seq d \<and> documents d' = documents d \<and>
      chunks d' = chunks d \<and> chunk_seq d' = chunk_seq d \<and> pending d' = pending d)"

lemma same_coreD:
  assumes "same_core d d'"
  shows "wf_db d' = wf_db d" "outbox_ok L d' = outbox_ok L d" "active_ids d' = active_ids d"
    "rowids_fit d' = rowids_fit d" "doc_active d' = doc_active d"
  using assms
  by (auto simp: same_core_def wf_db_def outbox_ok_def active_ids_def rowids_fit_def
      doc_active_def pending_targets_def fun_eq_iff)

lemma same_core_refl [simp]: "same_core d d"
  by (simp add: same_core_def)

lemma same_core_trans: "same_core d d' \<Longrightarrow> same_core d' d'' \<Longrightarrow> same_core d d''"
  by (simp add: same_core_def)

lemma same_core_audit [simp]: "same_core d (insert_audit ev d)"
  by (simp add: same_core_def insert_audit_def)

lemma same_core_reviews [simp]: "same_core d (upsert_review r d)" "same_core d (delete_review m d)"
  by (simp_all add: same_core_def upsert_review_def delete_review_def)

lemma insert_audit_sel [simp]:
  "episodes (insert_audit ev d) = episodes d" "ep_seq (insert_audit ev d) = ep_seq d"
  "documents (insert_audit ev d) = documents d" "chunks (insert_audit ev d) = chunks d"
  "chunk_seq (insert_audit ev d) = chunk_seq d" "pending (insert_audit ev d) = pending d"
  "embeddings (insert_audit ev d) = embeddings d" "reviews (insert_audit ev d) = reviews d"
  "chunk_embeddings (insert_audit ev d) = chunk_embeddings d"
  "audit (insert_audit ev d) = audit d @ [ev]"
  by (simp_all add: insert_audit_def)

lemma upsert_embedding_sel [simp]:
  "episodes (upsert_embedding r d) = episodes d" "ep_seq (upsert_embedding r d) = ep_seq d"
  "documents (upsert_embedding r d) = documents d" "chunks (upsert_embedding r d) = chunks d"
  "chunk_seq (upsert_embedding r d) = chunk_seq d" "pending (upsert_embedding r d) = pending d"
  "audit (upsert_embedding r d) = audit d"
  by (simp_all add: upsert_embedding_def Let_def)

lemma upsert_pending_sel [simp]:
  "episodes (upsert_pending r d) = episodes d" "ep_seq (upsert_pending r d) = ep_seq d"
  "documents (upsert_pending r d) = documents d" "chunks (upsert_pending r d) = chunks d"
  "chunk_seq (upsert_pending r d) = chunk_seq d" "audit (upsert_pending r d) = audit d"
  by (simp_all add: upsert_pending_def)

lemma delete_pending_sel [simp]:
  "episodes (delete_pending t d) = episodes d" "ep_seq (delete_pending t d) = ep_seq d"
  "documents (delete_pending t d) = documents d" "chunks (delete_pending t d) = chunks d"
  "chunk_seq (delete_pending t d) = chunk_seq d" "audit (delete_pending t d) = audit d"
  "embeddings (delete_pending t d) = embeddings d"
  by (simp_all add: delete_pending_def)

section \<open>Pending targets\<close>

lemma map_if_cong: "(\<And>x. P x \<Longrightarrow> g (f x) = g x) \<Longrightarrow> map g (map (\<lambda>x. if P x then f x else x) xs) = map g xs"
  by (induction xs) auto

lemma upsert_pending_map:
  assumes "pe_target r \<in> pe_target ` set (pending d)"
  shows "map pe_target (pending (upsert_pending r d)) = map pe_target (pending d)"
  using assms map_if_cong [of "\<lambda>x. pe_target x = pe_target r" pe_target "\<lambda>_. r" "pending d"]
  by (simp add: upsert_pending_def del: map_map)

lemma upsert_pending_targets:
  "pending_targets (upsert_pending r d) = insert (pe_target r) (pending_targets d)"
proof (cases "pe_target r \<in> pe_target ` set (pending d)")
  case True
  have "pending_targets (upsert_pending r d) = pending_targets d"
    using upsert_pending_map [OF True] unfolding pending_targets_def by (metis image_set)
  then show ?thesis using True by (simp only: pending_targets_def insert_absorb)
next
  case False
  then show ?thesis by (simp add: pending_targets_def upsert_pending_def)
qed

lemma upsert_pending_distinct:
  "distinct (map pe_target (pending d)) \<Longrightarrow> distinct (map pe_target (pending (upsert_pending r d)))"
proof (cases "pe_target r \<in> pe_target ` set (pending d)")
  case True
  then show "distinct (map pe_target (pending d)) \<Longrightarrow> ?thesis" by (simp only: upsert_pending_map)
next
  case False
  then show "distinct (map pe_target (pending d)) \<Longrightarrow> ?thesis" by (simp add: upsert_pending_def)
qed

lemma delete_pending_targets: "pending_targets (delete_pending t d) = pending_targets d - {t}"
  by (auto simp: pending_targets_def delete_pending_def)

lemma delete_pending_wf: "wf_db d \<Longrightarrow> wf_db (delete_pending t d)"
  by (auto simp: wf_db_def delete_pending_def intro: distinct_map_filter)

lemma delete_pending_active [simp]:
  "active_ids (delete_pending t d) = active_ids d" "doc_active (delete_pending t d) = doc_active d"
  "rowids_fit (delete_pending t d) = rowids_fit d"
  by (auto simp: active_ids_def doc_active_def rowids_fit_def fun_eq_iff)

text \<open>A row may leave the outbox once its id is in the index.\<close>

lemma outbox_delete_episode:
  assumes "outbox_ok L d" "wf_db d" "r \<in> set (episodes d)" "ep_id r \<in> L"
  shows "outbox_ok L (delete_pending (PEpisode (er_memory_id r)) d)"
proof -
  have "x = r" if "x \<in> set (episodes d)" "er_memory_id x = er_memory_id r" for x
    using assms(2,3) that by (auto simp: wf_db_def distinct_map dest: inj_onD)
  then show ?thesis
    using assms by (auto simp: outbox_ok_def delete_pending_targets)
qed

lemma outbox_delete_chunk:
  assumes "outbox_ok L d" "wf_db d" "c \<in> set (chunks d)" "ch_id c \<in> L"
  shows "outbox_ok L (delete_pending (PChunk (cr_chunk_id c)) d)"
proof -
  have "x = c" if "x \<in> set (chunks d)" "cr_chunk_id x = cr_chunk_id c" for x
    using assms(2,3) that by (auto simp: wf_db_def distinct_map dest: inj_onD)
  then show ?thesis
    using assms by (auto simp: outbox_ok_def delete_pending_targets)
qed

lemma outbox_mono: "outbox_ok L d \<Longrightarrow> L \<subseteq> L' \<Longrightarrow> outbox_ok L' d"
  by (auto simp: outbox_ok_def)

section \<open>New rows\<close>

lemma wf_db_episode_new:
  "wf_db d \<Longrightarrow> r \<in> set (episodes d) \<Longrightarrow> er_rowid r \<noteq> Suc (ep_seq d)"
  by (auto simp: wf_db_def)

text \<open>The tables after one item of a remember transaction, seen from the core.\<close>

definition added_episode :: "episode_row \<Rightarrow> db \<Rightarrow> db \<Rightarrow> bool" where
  "added_episode row d d' =
     (episodes d' = episodes d @ [row] \<and> er_rowid row = Suc (ep_seq d) \<and> ep_seq d' = Suc (ep_seq d) \<and>
      er_status row = Active \<and> er_memory_id row \<notin> er_memory_id ` set (episodes d) \<and>
      pending_targets d' = insert (PEpisode (er_memory_id row)) (pending_targets d) \<and>
      (distinct (map pe_target (pending d)) \<longrightarrow> distinct (map pe_target (pending d'))) \<and>
      documents d' = documents d \<and> chunks d' = chunks d \<and> chunk_seq d' = chunk_seq d)"

lemma added_episodeD:
  assumes "added_episode row d d'" "wf_db d"
  shows "wf_db d'" "active_ids d' = insert (ep_id row) (active_ids d)" "row \<in> set (episodes d')"
    "outbox_ok L d \<Longrightarrow> outbox_ok L d'"
proof -
  have doc: "doc_active d' = doc_active d"
    using assms(1) by (auto simp: added_episode_def doc_active_def fun_eq_iff)
  show "wf_db d'"
    using assms by (auto simp: added_episode_def wf_db_def)
  have "{r \<in> set (episodes d'). er_status r = Active}
        = insert row {r \<in> set (episodes d). er_status r = Active}"
    using assms(1) by (auto simp: added_episode_def)
  moreover have "chunks d' = chunks d" using assms(1) by (simp add: added_episode_def)
  ultimately show "active_ids d' = insert (ep_id row) (active_ids d)"
    unfolding active_ids_def doc by simp
  show "row \<in> set (episodes d')" using assms(1) by (simp add: added_episode_def)
  show "outbox_ok L d \<Longrightarrow> outbox_ok L d'"
    using assms(1) doc by (auto simp: outbox_ok_def added_episode_def)
qed

definition added_chunk :: "chunk_row \<Rightarrow> db \<Rightarrow> db \<Rightarrow> bool" where
  "added_chunk row d d' =
     (chunks d' = chunks d @ [row] \<and> cr_rowid row = Suc (chunk_seq d) \<and>
      chunk_seq d' = Suc (chunk_seq d) \<and> cr_chunk_id row \<notin> cr_chunk_id ` set (chunks d) \<and>
      pending_targets d' = insert (PChunk (cr_chunk_id row)) (pending_targets d) \<and>
      (distinct (map pe_target (pending d)) \<longrightarrow> distinct (map pe_target (pending d'))) \<and>
      documents d' = documents d \<and> episodes d' = episodes d \<and> ep_seq d' = ep_seq d)"

lemma added_chunkD:
  assumes "added_chunk row d d'" "wf_db d" "doc_active d (cr_doc_id row)"
  shows "wf_db d'" "active_ids d' = insert (ch_id row) (active_ids d)" "row \<in> set (chunks d')"
    "outbox_ok L d \<Longrightarrow> outbox_ok L d'" "doc_active d' = doc_active d"
proof -
  show doc: "doc_active d' = doc_active d"
    using assms(1) by (auto simp: added_chunk_def doc_active_def fun_eq_iff)
  have "cr_doc_id row \<in> dr_doc_id ` set (documents d)"
    using assms(3) unfolding doc_active_def by (metis imageI)
  then show "wf_db d'"
    using assms by (auto simp: added_chunk_def wf_db_def)
  have "{c \<in> set (chunks d'). doc_active d (cr_doc_id c)}
        = insert row {c \<in> set (chunks d). doc_active d (cr_doc_id c)}"
    using assms by (auto simp: added_chunk_def)
  moreover have "episodes d' = episodes d" using assms(1) by (simp add: added_chunk_def)
  ultimately show "active_ids d' = insert (ch_id row) (active_ids d)"
    unfolding active_ids_def doc by simp
  show "row \<in> set (chunks d')" using assms(1) by (simp add: added_chunk_def)
  show "outbox_ok L d \<Longrightarrow> outbox_ok L d'"
    using assms(1) doc by (auto simp: outbox_ok_def added_chunk_def)
qed

lemma insert_documentD:
  assumes "insert_document row d = Inr d'" "wf_db d" "dr_status row = Active"
  shows "wf_db d'" "active_ids d' = active_ids d" "outbox_ok L d \<Longrightarrow> outbox_ok L d'"
    "doc_active d' (dr_doc_id row)" "chunks d' = chunks d" "episodes d' = episodes d"
proof -
  have d': "d' = d\<lparr>documents := documents d @ [row]\<rparr>" and
    fresh: "dr_doc_id row \<notin> dr_doc_id ` set (documents d)"
    using assms(1) by (auto simp: insert_document_def split: if_splits)
  have ch: "cr_doc_id c \<noteq> dr_doc_id row" if "c \<in> set (chunks d)" for c
  proof -
    have "cr_doc_id c \<in> dr_doc_id ` set (documents d)"
      using assms(2) that by (simp add: wf_db_def)
    then show ?thesis using fresh by metis
  qed
  have doc: "doc_active d' (cr_doc_id c) = doc_active d (cr_doc_id c)" if "c \<in> set (chunks d)" for c
    using ch [OF that] by (auto simp: d' doc_active_def)
  show "wf_db d'" using assms(2) fresh by (auto simp: d' wf_db_def)
  show "active_ids d' = active_ids d"
    using doc by (auto simp: active_ids_def d')
  show "outbox_ok L d \<Longrightarrow> outbox_ok L d'"
    using doc by (auto simp: outbox_ok_def d' pending_targets_def)
  show "doc_active d' (dr_doc_id row)" using assms(3) by (auto simp: d' doc_active_def)
  show "chunks d' = chunks d" "episodes d' = episodes d" by (simp_all add: d')
qed

section \<open>Changed rows\<close>

lemma find_episode_Some:
  "find_episode d mid = Some r \<Longrightarrow> r \<in> set (episodes d) \<and> er_memory_id r = mid"
  by (auto simp: find_episode_def dest: find_Some_in)

lemma find_document_Some:
  "find_document d did = Some r \<Longrightarrow> r \<in> set (documents d) \<and> dr_doc_id r = did"
  by (auto simp: find_document_def dest: find_Some_in)

lemma update_episode_sel [simp]:
  "ep_seq (update_episode mid f d) = ep_seq d" "documents (update_episode mid f d) = documents d"
  "chunks (update_episode mid f d) = chunks d" "chunk_seq (update_episode mid f d) = chunk_seq d"
  "pending (update_episode mid f d) = pending d" "audit (update_episode mid f d) = audit d"
  by (simp_all add: update_episode_def)

lemma update_document_sel [simp]:
  "ep_seq (update_document did f d) = ep_seq d" "episodes (update_document did f d) = episodes d"
  "chunks (update_document did f d) = chunks d" "chunk_seq (update_document did f d) = chunk_seq d"
  "pending (update_document did f d) = pending d" "audit (update_document did f d) = audit d"
  by (simp_all add: update_document_def)

lemma update_episode_wf:
  assumes "wf_db d" "\<And>r. er_memory_id (f r) = er_memory_id r" "\<And>r. er_rowid (f r) = er_rowid r"
  shows "wf_db (update_episode mid f d)"
proof -
  have "map er_memory_id (episodes (update_episode mid f d)) = map er_memory_id (episodes d)"
    and "map er_rowid (episodes (update_episode mid f d)) = map er_rowid (episodes d)"
    unfolding update_episode_def using assms(2,3) by (simp_all add: map_if_cong del: map_map)
  moreover have "\<forall>r \<in> set (episodes (update_episode mid f d)). er_rowid r \<le> ep_seq d"
    using assms(1,3) by (auto simp: update_episode_def wf_db_def)
  ultimately show ?thesis using assms(1) by (simp add: wf_db_def)
qed

lemma update_document_wf:
  assumes "wf_db d" "\<And>r. dr_doc_id (f r) = dr_doc_id r"
  shows "wf_db (update_document did f d)"
proof -
  have eq: "map dr_doc_id (documents (update_document did f d)) = map dr_doc_id (documents d)"
    unfolding update_document_def using assms(2) by (simp add: map_if_cong del: map_map)
  then have "dr_doc_id ` set (documents (update_document did f d)) = dr_doc_id ` set (documents d)"
    by (metis image_set)
  with eq show ?thesis using assms(1) by (simp add: wf_db_def)
qed

text \<open>Changing the content of the row leaves the active ids and the outbox as they are.\<close>

lemma update_episode_same:
  assumes "\<And>r. er_memory_id (f r) = er_memory_id r" "\<And>r. er_rowid (f r) = er_rowid r"
    and "\<And>r. er_status (f r) = er_status r"
  shows "active_ids (update_episode mid f d) = active_ids d"
    and "outbox_ok L (update_episode mid f d) = outbox_ok L d"
proof -
  define g where "g = (\<lambda>r. if er_memory_id r = mid then f r else r)"
  have g: "er_memory_id (g r) = er_memory_id r" "er_status (g r) = er_status r" "ep_id (g r) = ep_id r" for r
    using assms by (simp_all add: g_def ep_id_def)
  have d': "update_episode mid f d = d\<lparr>episodes := map g (episodes d)\<rparr>"
    by (simp add: update_episode_def g_def)
  have doc: "doc_active (d\<lparr>episodes := map g (episodes d)\<rparr>) = doc_active d"
    by (auto simp: doc_active_def fun_eq_iff)
  have "{r \<in> set (map g (episodes d)). er_status r = Active} = g ` {r \<in> set (episodes d). er_status r = Active}"
    using g by auto
  then show "active_ids (update_episode mid f d) = active_ids d"
    unfolding d' active_ids_def doc by (simp add: image_image g)
  show "outbox_ok L (update_episode mid f d) = outbox_ok L d"
    unfolding d' outbox_ok_def doc by (simp add: pending_targets_def g)
qed

section \<open>Ids and rows\<close>

lemma active_ids_epI: "r \<in> set (episodes d) \<Longrightarrow> er_status r = Active \<Longrightarrow> ep_id r \<in> active_ids d"
  by (auto simp: active_ids_def)

lemma active_ids_chI: "c \<in> set (chunks d) \<Longrightarrow> doc_active d (cr_doc_id c) \<Longrightarrow> ch_id c \<in> active_ids d"
  by (auto simp: active_ids_def)

text \<open>As long as the rowids stay below the flag bit, an id stands for one row of one kind.\<close>

lemma row_fits: "wf_db d \<Longrightarrow> rowids_fit d \<Longrightarrow> r \<in> set (episodes d) \<Longrightarrow> er_rowid r < 2 ^ 62"
  by (auto simp: wf_db_def rowids_fit_def intro: le_less_trans)

lemma chunk_fits: "wf_db d \<Longrightarrow> rowids_fit d \<Longrightarrow> c \<in> set (chunks d) \<Longrightarrow> cr_rowid c < 2 ^ 62"
  by (auto simp: wf_db_def rowids_fit_def intro: le_less_trans)

lemma ep_id_eq:
  assumes "wf_db d" "rowids_fit d" "r \<in> set (episodes d)" "r' \<in> set (episodes d)"
  shows "ep_id r = ep_id r' \<longleftrightarrow> r = r'"
proof -
  have "er_rowid r = er_rowid r' \<longleftrightarrow> r = r'"
    using assms(1,3,4) by (auto simp: wf_db_def distinct_map dest: inj_onD)
  then show ?thesis using episode_id_inj row_fits assms by (simp add: ep_id_def)
qed

lemma ch_id_eq:
  assumes "wf_db d" "rowids_fit d" "c \<in> set (chunks d)" "c' \<in> set (chunks d)"
  shows "ch_id c = ch_id c' \<longleftrightarrow> c = c'"
proof -
  have "cr_rowid c = cr_rowid c' \<longleftrightarrow> c = c'"
    using assms(1,3,4) by (auto simp: wf_db_def distinct_map dest: inj_onD)
  then show ?thesis using chunk_id_inj chunk_fits assms by (simp add: ch_id_def)
qed

lemma ep_ne_ch: "wf_db d \<Longrightarrow> rowids_fit d \<Longrightarrow> r \<in> set (episodes d) \<Longrightarrow> ep_id r \<noteq> ch_id c"
  using chunk_ne_episode row_fits by (simp add: ep_id_def ch_id_def)

lemma active_ids_ep:
  assumes "wf_db d" "rowids_fit d" "r \<in> set (episodes d)"
  shows "ep_id r \<in> active_ids d \<longleftrightarrow> er_status r = Active"
  using assms ep_id_eq [OF assms(1,2)] ep_ne_ch [OF assms] by (auto simp: active_ids_def)

lemma active_ids_ch:
  assumes "wf_db d" "rowids_fit d" "c \<in> set (chunks d)"
  shows "ch_id c \<in> active_ids d \<longleftrightarrow> doc_active d (cr_doc_id c)"
proof
  assume "ch_id c \<in> active_ids d"
  then consider r where "r \<in> set (episodes d)" "ch_id c = ep_id r"
    | c' where "c' \<in> set (chunks d)" "doc_active d (cr_doc_id c')" "ch_id c = ch_id c'"
    by (auto simp: active_ids_def)
  then show "doc_active d (cr_doc_id c)"
    using ep_ne_ch [OF assms(1,2)] ch_id_eq [OF assms(1,2,3)] by cases metis+
qed (use assms in \<open>auto simp: active_ids_def\<close>)

section \<open>Soft deletion\<close>

text \<open>Forgetting a row takes its id, and no other, out of what must be found.\<close>

lemma forget_episode_core:
  fixes f :: "episode_row \<Rightarrow> episode_row"
  assumes "wf_db d" "row \<in> set (episodes d)"
    and f: "\<And>r. er_memory_id (f r) = er_memory_id r" "\<And>r. er_rowid (f r) = er_rowid r"
      "\<And>r. er_status (f r) = Forgotten"
  defines "d' \<equiv> update_episode (er_memory_id row) f d"
  shows "wf_db d'" "active_ids d - {ep_id row} \<subseteq> active_ids d'"
    and "rowids_fit d \<Longrightarrow> outbox_ok L d \<Longrightarrow> outbox_ok (L - {ep_id row}) d'"
proof -
  have uniq: "r = row" if "r \<in> set (episodes d)" "er_memory_id r = er_memory_id row" for r
    using assms(1,2) that by (auto simp: wf_db_def distinct_map dest: inj_onD)
  have act: "r \<in> set (episodes d) \<and> r \<noteq> row" if "r \<in> set (episodes d')" "er_status r = Active" for r
    using that f by (auto simp: d'_def update_episode_def split: if_splits)
  have keep: "r \<in> set (episodes d')" if "r \<in> set (episodes d)" "r \<noteq> row" for r
    using that uniq by (auto simp: d'_def update_episode_def intro: rev_image_eqI)
  have sel: "chunks d' = chunks d" "pending_targets d' = pending_targets d" "doc_active d' = doc_active d"
    by (auto simp: d'_def pending_targets_def doc_active_def fun_eq_iff)
  show "wf_db d'" unfolding d'_def by (rule update_episode_wf) (simp_all add: assms)
  show "active_ids d - {ep_id row} \<subseteq> active_ids d'"
    using keep sel by (auto simp: active_ids_def)
  show "outbox_ok (L - {ep_id row}) d'" if fit: "rowids_fit d" and out: "outbox_ok L d"
    using out act sel ep_id_eq [OF assms(1) fit] ep_ne_ch [OF assms(1) fit assms(2)] assms(2)
    unfolding outbox_ok_def by (metis Diff_iff singletonD)
qed

lemma forget_document_core:
  fixes f :: "document_row \<Rightarrow> document_row" and did :: document_id
  assumes "wf_db d"
    and f: "\<And>r. dr_doc_id (f r) = dr_doc_id r" "\<And>r. dr_status (f r) = Forgotten"
  defines "d' \<equiv> update_document did f d" and "ids \<equiv> ch_id ` {c \<in> set (chunks d). cr_doc_id c = did}"
  shows "wf_db d'" "active_ids d - ids \<subseteq> active_ids d'"
    and "rowids_fit d \<Longrightarrow> outbox_ok L d \<Longrightarrow> outbox_ok (L - ids) d'"
    and "outbox_ok L d \<Longrightarrow> outbox_ok L d'"
proof -
  have doc: "doc_active d' x \<longleftrightarrow> x \<noteq> did \<and> doc_active d x" for x
    using f by (auto simp: d'_def doc_active_def update_document_def split: if_splits)
  have sel: "chunks d' = chunks d" "pending_targets d' = pending_targets d" "episodes d' = episodes d"
    by (auto simp: d'_def pending_targets_def)
  show "wf_db d'" unfolding d'_def by (rule update_document_wf) (simp_all add: assms)
  show "active_ids d - ids \<subseteq> active_ids d'"
    unfolding active_ids_def sel doc ids_def by auto
  show "outbox_ok L d \<Longrightarrow> outbox_ok L d'"
    unfolding outbox_ok_def sel doc by auto
  show "outbox_ok (L - ids) d'" if fit: "rowids_fit d" and out: "outbox_ok L d"
  proof -
    have "ep_id r \<notin> ids" if "r \<in> set (episodes d)" for r
      using ep_ne_ch [OF assms(1) fit that] by (auto simp: ids_def)
    moreover have "ch_id c \<notin> ids" if "c \<in> set (chunks d)" "cr_doc_id c \<noteq> did" for c
      using ch_id_eq [OF assms(1) fit that(1)] that(2) by (auto simp: ids_def)
    ultimately show ?thesis using out unfolding outbox_ok_def sel doc by auto
  qed
qed

end
