(* ===== verification/WriterFacts.thy ===== *)
theory WriterFacts
  imports WriterDocuments DbFacts
begin

text \<open>
  What the handlers of the writer actor do to the outbox and to the index. The two invariants
  are stated for any vector index that keeps the contract \<open>vector_index\<close>; the theorems at
  the end instantiate it with the model of \<open>HnswIndex\<close>.
\<close>

section \<open>The invariants\<close>

text \<open>Nothing that should be found is lost: it is in the index or waits in the outbox.\<close>

definition outbox_inv :: "('i \<Rightarrow> i64 set) \<Rightarrow> 'i writer \<Rightarrow> bool" where
  "outbox_inv live w = (wf_db (wdb w) \<and> outbox_ok (live (hnsw w)) (wdb w))"

text \<open>Nothing is found that should not be: a live id is that of an active row.\<close>

definition live_inv :: "('i \<Rightarrow> i64 set) \<Rightarrow> 'i writer \<Rightarrow> bool" where
  "live_inv live w = (wf_db (wdb w) \<and> live (hnsw w) \<subseteq> active_ids (wdb w))"

section \<open>The transactions\<close>

lemma redaction_audit_core: "redaction_audit e i p t ms d = Inr d' \<Longrightarrow> same_core d d'"
  by (auto simp: redaction_audit_def result_simps split: if_splits)

lemma insert_embedding_core: "insert_embedding r d = Inr d' \<Longrightarrow> same_core d d'"
  by (auto simp: insert_embedding_def same_core_def split: if_splits)

lemma insert_chunk_embedding_core: "insert_chunk_embedding r d = Inr d' \<Longrightarrow> same_core d d'"
  by (auto simp: insert_chunk_embedding_def same_core_def split: if_splits)

lemma added_episode_core:
  "added_episode row d d1 \<Longrightarrow> same_core d1 d2 \<Longrightarrow> added_episode row d d2"
  by (simp add: added_episode_def same_core_def pending_targets_def)

lemma remember_item_added:
  assumes "remember_item e w p i ep emb d = Inr (d', rowid)"
  shows "\<exists>row. added_episode row d d' \<and> er_memory_id row = memory_id ep \<and> er_rowid row = rowid"
proof -
  let ?mid = "memory_id ep" and ?txt = "fst (redact w (content ep))"
  from assms obtain d1 d2 d3 where
    1: "insert_episode (remember_row e p ?txt ep) d = Inr (d1, rowid)" and
    2: "same_core d1 d2" and
    3: "insert_pending (pending_row_of e (PEpisode ?mid) emb) d2 = Inr d3" and
    4: "same_core d3 d'"
    by (auto simp: remember_item_def Let_def result_simps split: prod.splits option.splits)
      (blast intro: same_core_refl dest: redaction_audit_core insert_embedding_core)+
  let ?row = "remember_row e p ?txt ep rowid"
  have "rowid = Suc (ep_seq d)" "?mid \<notin> er_memory_id ` set (episodes d)"
    "d1 = d\<lparr>episodes := episodes d @ [?row], ep_seq := rowid\<rparr>"
    using 1 by (auto simp: insert_episode_def Let_def remember_row_def split: if_splits)
  moreover have "PEpisode ?mid \<notin> pe_target ` set (pending d2)"
    "d3 = d2\<lparr>pending := pending d2 @ [pending_row_of e (PEpisode ?mid) emb]\<rparr>"
    using 3 by (auto simp: insert_pending_def pending_row_of_def split: if_splits)
  ultimately have "added_episode ?row d d3"
    using 2 by (auto simp: added_episode_def same_core_def remember_row_def pending_row_of_def
        pending_targets_def)
  then have "added_episode ?row d d'" using 4 by (rule added_episode_core)
  then show ?thesis by (intro exI [of _ ?row]) (simp add: remember_row_def)
qed

lemma remember_tx_added:
  assumes "remember_tx e w p ep emb d = Inr (d', rowid)"
  shows "\<exists>row. added_episode row d d' \<and> er_memory_id row = memory_id ep \<and> er_rowid row = rowid"
  using assms
  by (auto simp: remember_tx_def result_simps dest!: remember_item_added)
    (blast intro: added_episode_core same_core_audit)

text \<open>A sequence of items: the rows are all new, active and pending.\<close>

lemma remember_items_added:
  "remember_items e w p i items d = Inr (d', ids) \<Longrightarrow> wf_db d \<Longrightarrow>
   wf_db d' \<and> (outbox_ok L d \<longrightarrow> outbox_ok L d') \<and> map fst ids = map (memory_id \<circ> fst) items \<and>
   active_ids d' = (\<lambda>n. episode_hnsw_id (of_nat n)) ` snd ` set ids \<union> active_ids d \<and>
   set (episodes d) \<subseteq> set (episodes d') \<and>
   (\<forall>x \<in> set ids. \<exists>row \<in> set (episodes d'). er_memory_id row = fst x \<and> er_rowid row = snd x \<and> er_status row = Active)"
proof (induction e w p i items d arbitrary: d' ids rule: remember_items.induct)
  case 1
  then show ?case by auto
next
  case (2 e w p i ep emb items d)
  from "2.prems" obtain d1 rowid ids' where
    item: "remember_item e w p i ep emb d = Inr (d1, rowid)" and
    rest: "remember_items e w p (Suc i) items d1 = Inr (d', ids')" and
    ids: "ids = (memory_id ep, rowid) # ids'"
    by (auto simp: result_simps)
  obtain row where row: "added_episode row d d1" "er_memory_id row = memory_id ep" "er_rowid row = rowid"
    using remember_item_added [OF item] by blast
  note d1 = added_episodeD [OF row(1) "2.prems"(2)]
  have sub: "set (episodes d) \<subseteq> set (episodes d1)" "er_status row = Active"
    using row(1) by (auto simp: added_episode_def)
  note IH = "2.IH" [OF rest d1(1)]
  have "ep_id row = episode_hnsw_id (of_nat rowid)" using row by (simp add: ep_id_def)
  then show ?case
    using IH d1 row sub unfolding ids by (auto simp del: split_paired_All)
qed

lemma added_chunk_core:
  "added_chunk row d d1 \<Longrightarrow> same_core d1 d2 \<Longrightarrow> added_chunk row d d2"
  by (simp add: added_chunk_def same_core_def pending_targets_def)

lemma insert_chunk_item_added:
  assumes "insert_chunk_item e p did dt eid i c emb d = Inr (d', rowid)"
  shows "\<exists>row. added_chunk row d d' \<and> cr_chunk_id row = fresh_chunk_id e i \<and> cr_rowid row = rowid \<and>
           cr_doc_id row = did"
proof -
  let ?cid = "fresh_chunk_id e i"
  from assms obtain d1 d2 where
    1: "insert_chunk (chunk_row_of e p did i c) d = Inr (d1, rowid)" and
    2: "same_core d1 d2" and
    3: "insert_pending (pending_row_of e (PChunk ?cid) emb) d2 = Inr d'"
    by (auto simp: insert_chunk_item_def result_simps dest: insert_chunk_embedding_core)
  let ?row = "chunk_row_of e p did i c rowid"
  have "rowid = Suc (chunk_seq d)" "?cid \<notin> cr_chunk_id ` set (chunks d)"
    "d1 = d\<lparr>chunks := chunks d @ [?row], chunk_seq := rowid\<rparr>"
    using 1 by (auto simp: insert_chunk_def Let_def chunk_row_of_def split: if_splits)
  moreover have "PChunk ?cid \<notin> pe_target ` set (pending d2)"
    "d' = d2\<lparr>pending := pending d2 @ [pending_row_of e (PChunk ?cid) emb]\<rparr>"
    using 3 by (auto simp: insert_pending_def pending_row_of_def split: if_splits)
  ultimately have "added_chunk ?row d d'"
    using 2 by (auto simp: added_chunk_def same_core_def chunk_row_of_def pending_row_of_def
        pending_targets_def)
  then show ?thesis by (intro exI [of _ ?row]) (simp add: chunk_row_of_def)
qed

lemma insert_chunk_items_added:
  "insert_chunk_items e p did dt eid i items d = Inr (d', recs) \<Longrightarrow> wf_db d \<Longrightarrow> doc_active d did \<Longrightarrow>
   wf_db d' \<and> (outbox_ok L d \<longrightarrow> outbox_ok L d') \<and> episodes d' = episodes d \<and>
   active_ids d' = (\<lambda>(_, n, _). chunk_hnsw_id (of_nat n)) ` set recs \<union> active_ids d \<and>
   set (chunks d) \<subseteq> set (chunks d') \<and>
   (\<forall>x \<in> set recs. \<exists>row \<in> set (chunks d'). cr_chunk_id row = fst x \<and> cr_rowid row = fst (snd x))"
proof (induction e p did dt eid i items d arbitrary: d' recs rule: insert_chunk_items.induct)
  case 1
  then show ?case by auto
next
  case (2 e p did dt eid i c emb items d)
  from "2.prems" obtain d1 rowid recs' where
    item: "insert_chunk_item e p did dt eid i c emb d = Inr (d1, rowid)" and
    rest: "insert_chunk_items e p did dt eid (Suc i) items d1 = Inr (d', recs')" and
    recs: "recs = (fresh_chunk_id e i, rowid, emb) # recs'"
    by (auto simp: result_simps)
  obtain row where row: "added_chunk row d d1" "cr_chunk_id row = fresh_chunk_id e i"
    "cr_rowid row = rowid" "cr_doc_id row = did"
    using insert_chunk_item_added [OF item] by blast
  note d1 = added_chunkD [OF row(1) "2.prems"(2)]
  have act: "doc_active d (cr_doc_id row)" using row "2.prems"(3) by simp
  have sub: "set (chunks d) \<subseteq> set (chunks d1)" "episodes d1 = episodes d"
    using row(1) by (auto simp: added_chunk_def)
  have "doc_active d1 did" using d1(5) [OF act] "2.prems"(3) by simp
  note IH = "2.IH" [OF rest d1(1) [OF act] this]
  have "ch_id row = chunk_hnsw_id (of_nat rowid)" using row by (simp add: ch_id_def)
  then show ?case
    using IH d1 [OF act] row sub unfolding recs by (auto simp del: split_paired_All)
qed

lemma ingest_tx_steps:
  assumes "ingest_tx e p path doc plan d = Inr (d', recs)"
  obtains d1 d2 where
    "insert_document (document_row_of e path doc (length (ip_chunks plan) mod 2 ^ 32)) d = Inr d1"
    "insert_chunk_items e p (fresh_doc_id e) (ip_dtype plan) (ip_embedder_id plan) 0
       (zip (ip_chunks plan) (ip_embeddings plan)) d1 = Inr (d2, recs)"
    "same_core d2 d'"
  using assms
  by (auto simp: ingest_tx_def result_simps Let_def)
    (blast intro: same_core_trans same_core_audit dest: redaction_audit_core)

lemma ingest_tx_added:
  assumes "ingest_tx e p path doc plan d = Inr (d', recs)" "wf_db d"
  shows "wf_db d' \<and> (outbox_ok L d \<longrightarrow> outbox_ok L d') \<and> episodes d' = episodes d \<and>
         active_ids d' = (\<lambda>(_, n, _). chunk_hnsw_id (of_nat n)) ` set recs \<union> active_ids d \<and>
         (\<forall>x \<in> set recs. \<exists>row \<in> set (chunks d'). cr_chunk_id row = fst x \<and> cr_rowid row = fst (snd x))"
proof -
  from assms(1) obtain d1 d2 where
    1: "insert_document (document_row_of e path doc (length (ip_chunks plan) mod 2 ^ 32)) d = Inr d1" and
    2: "insert_chunk_items e p (fresh_doc_id e) (ip_dtype plan) (ip_embedder_id plan) 0
          (zip (ip_chunks plan) (ip_embeddings plan)) d1 = Inr (d2, recs)" and
    3: "same_core d2 d'"
    by (rule ingest_tx_steps)
  have act: "dr_status (document_row_of e path doc n) = Active" for n
    by (simp add: document_row_of_def)
  have "doc_active d1 (fresh_doc_id e)"
    using insert_documentD(4) [OF 1 assms(2) act] by (simp add: document_row_of_def)
  note items = insert_chunk_items_added [OF 2 insert_documentD(1) [OF 1 assms(2) act] this]
  show ?thesis
    using items same_coreD [OF 3] 3 insert_documentD(2,3,6) [OF 1 assms(2) act]
    by (auto simp: same_core_def)
qed

lemma update_tx_steps:
  assumes "update_tx e w p mid txt ms emb d = Inr (d', rowid)"
  obtains row d2 where "find_episode d mid = Some row" "er_status row = Active" "er_rowid row = rowid"
    "same_core (update_episode mid (\<lambda>r. r\<lparr>er_content := txt, er_updated_at_ms := now_ms e\<rparr>) d) d2"
    "same_core (upsert_pending (pending_row_of e (PEpisode mid) emb) d2) d'"
proof -
  let ?d1 = "update_episode mid (\<lambda>r. r\<lparr>er_content := txt, er_updated_at_ms := now_ms e\<rparr>) d"
  from assms obtain row d2 d4 where
    "find_episode d mid = Some row" "er_status row = Active" "er_rowid row = rowid" and
    d2: "(case embedder_id w of None \<Rightarrow> Inr ?d1
          | Some eid \<Rightarrow> stmt e SUpsertEmbedding
                         (Inr (upsert_embedding (embedding_row_of e mid eid emb) ?d1))) = Inr d2" and
    d4: "redaction_audit e 0 p (Some (TMemory mid)) ms
           (upsert_pending (pending_row_of e (PEpisode mid) emb) d2) = Inr d4" and
    "d' = insert_audit (audit_event (now_ms e) p MemoryUpdate (Some (TMemory mid)) AuditOk None) d4"
    by (auto simp: update_tx_def result_simps)
  moreover have "same_core ?d1 d2"
    using d2 by (auto simp: same_core_def result_simps split: option.splits)
  ultimately show thesis
    using that same_core_trans [OF redaction_audit_core [OF d4] same_core_audit] by blast
qed

lemma update_tx_core:
  assumes "update_tx e w p mid txt ms emb d = Inr (d', rowid)" "wf_db d"
  shows "wf_db d' \<and> active_ids d' = active_ids d \<and> (outbox_ok L d \<longrightarrow> outbox_ok L d') \<and>
         (\<exists>row \<in> set (episodes d). er_memory_id row = mid \<and> er_rowid row = rowid \<and> er_status row = Active)"
proof -
  let ?f = "\<lambda>r. r\<lparr>er_content := txt, er_updated_at_ms := now_ms e\<rparr>"
  let ?d1 = "update_episode mid ?f d"
  let ?pr = "pending_row_of e (PEpisode mid) emb"
  from assms(1) obtain row d2 where
    row: "find_episode d mid = Some row" "er_status row = Active" "er_rowid row = rowid" and
    2: "same_core ?d1 d2" and 3: "same_core (upsert_pending ?pr d2) d'"
    by (rule update_tx_steps)
  have d1: "wf_db ?d1" "active_ids ?d1 = active_ids d" "outbox_ok L ?d1 = outbox_ok L d"
    using assms(2) by (auto intro: update_episode_wf simp: update_episode_same)
  let ?d3 = "upsert_pending ?pr d2"
  have "wf_db ?d3" using d1(1) same_coreD(1) [OF 2] upsert_pending_distinct [of d2 ?pr]
    by (simp add: wf_db_def)
  moreover have "active_ids ?d3 = active_ids d2"
    by (auto simp: active_ids_def doc_active_def)
  moreover have "outbox_ok L d2 \<longrightarrow> outbox_ok L ?d3"
    by (auto simp: outbox_ok_def upsert_pending_targets doc_active_def)
  ultimately show ?thesis
    using d1 same_coreD [OF 2] same_coreD [OF 3] row find_episode_Some [OF row(1)] by auto
qed

text \<open>The row of the updated memory is still there after the transaction.\<close>

lemma update_tx_row:
  assumes "update_tx e w p mid txt ms emb d = Inr (d', rowid)"
  shows "\<exists>r \<in> set (episodes d'). er_memory_id r = mid \<and> er_rowid r = rowid"
proof -
  let ?f = "\<lambda>r. r\<lparr>er_content := txt, er_updated_at_ms := now_ms e\<rparr>"
  obtain row d2 where row: "find_episode d mid = Some row" "er_rowid row = rowid" and
    core: "same_core (update_episode mid ?f d) d2"
      "same_core (upsert_pending (pending_row_of e (PEpisode mid) emb) d2) d'"
    using update_tx_steps [OF assms] by metis
  have "row \<in> set (episodes d)" "er_memory_id row = mid" using find_episode_Some [OF row(1)] by auto
  then have "?f row \<in> set (episodes (update_episode mid ?f d))"
    by (auto simp: update_episode_def intro: rev_image_eqI)
  then show ?thesis
    using core row(2) \<open>er_memory_id row = mid\<close> by (intro bexI [of _ "?f row"]) (auto simp: same_core_def)
qed

lemma review_tx_core:
  assumes "review_tx e p mid state note d = Inr (d', at)"
  shows "same_core d d'"
  using assms by (auto simp: review_tx_def result_simps split: option.splits
      intro: same_core_trans [OF _ same_core_audit])

section \<open>Frames of the emitters\<close>

lemma outbox_inv_same:
  "hnsw w' = hnsw w \<Longrightarrow> same_core (wdb w) (wdb w') \<Longrightarrow> outbox_inv live w' = outbox_inv live w"
  by (simp add: outbox_inv_def same_coreD)

lemma live_inv_same:
  "hnsw w' = hnsw w \<Longrightarrow> same_core (wdb w) (wdb w') \<Longrightarrow> live_inv live w' = live_inv live w"
  by (simp add: live_inv_def same_coreD)

lemma emit_audit_core: "same_core (wdb w) (wdb (emit_audit_best_effort e k oper t r p d w))"
  by (simp add: emit_audit_best_effort_def)

lemma note_remembered_sel [simp]:
  "wdb (note_remembered w) = wdb w" "hnsw (note_remembered w) = hnsw w"
  "events (note_remembered w) = events w" "tenant (note_remembered w) = tenant w"
  by (simp_all add: note_remembered_def)

lemma note_remembered_pow [simp]:
  "wdb ((note_remembered ^^ n) w) = wdb w" "hnsw ((note_remembered ^^ n) w) = hnsw w"
  "events ((note_remembered ^^ n) w) = events w"
  by (induction n) simp_all

lemma emit_inv [simp]:
  "outbox_inv live (emit_audit_best_effort e k oper t r p d w) = outbox_inv live w"
  "live_inv live (emit_audit_best_effort e k oper t r p d w) = live_inv live w"
  "outbox_inv live (emit_invalidate e reason kind w) = outbox_inv live w"
  "live_inv live (emit_invalidate e reason kind w) = live_inv live w"
  "outbox_inv live (note_remembered w) = outbox_inv live w"
  "live_inv live (note_remembered w) = live_inv live w"
  "outbox_inv live ((note_remembered ^^ n) w) = outbox_inv live w"
  "live_inv live ((note_remembered ^^ n) w) = live_inv live w"
  by (rule outbox_inv_same live_inv_same; simp add: emit_audit_core emit_audit_frame emit_invalidate_frame)+

lemma dispatch_simple_inv:
  "outbox_inv live (snd (dispatch_simple e oper t kind p res)) = outbox_inv live (snd res)"
  "live_inv live (snd (dispatch_simple e oper t kind p res)) = live_inv live (snd res)"
  by (auto simp: dispatch_simple_def split: prod.splits sum.splits)

section \<open>Drains\<close>

text \<open>What a drain of a target needs: its row's id is in the index.\<close>

definition drainable :: "('i \<Rightarrow> i64 set) \<Rightarrow> 'i writer \<Rightarrow> ptarget \<Rightarrow> bool" where
  "drainable live w t =
     (case t of
        PEpisode mid \<Rightarrow> (\<exists>r \<in> set (episodes (wdb w)). er_memory_id r = mid \<and> ep_id r \<in> live (hnsw w))
      | PChunk cid \<Rightarrow> (\<exists>c \<in> set (chunks (wdb w)). cr_chunk_id c = cid \<and> ch_id c \<in> live (hnsw w)))"

lemma drain_inv:
  "outbox_inv live w \<Longrightarrow> drainable live w t \<Longrightarrow> outbox_inv live (drain e i t w)"
  by (auto simp: drain_def outbox_inv_def drainable_def delete_pending_wf
      intro: outbox_delete_episode outbox_delete_chunk split: ptarget.splits)

lemma drain_live_inv: "live_inv live w \<Longrightarrow> live_inv live (drain e i t w)"
  by (simp add: drain_def live_inv_def delete_pending_wf)

lemma drain_drainable: "drainable live (drain e i t w) t' = drainable live w t'"
  by (simp add: drain_def drainable_def split: ptarget.split)

lemma drain_all_inv:
  "outbox_inv live w \<Longrightarrow> list_all (drainable live w) ts \<Longrightarrow> outbox_inv live (drain_all e i ts w)"
  by (induction e i ts w rule: drain_all.induct)
    (simp_all add: drain_inv drain_drainable [abs_def])

lemma drain_all_live_inv: "live_inv live w \<Longrightarrow> live_inv live (drain_all e i ts w)"
  by (induction e i ts w rule: drain_all.induct) (simp_all add: drain_live_inv)

lemma drainable_sel:
  "wdb w' = wdb w \<Longrightarrow> hnsw w' = hnsw w \<Longrightarrow> drainable live w' t = drainable live w t"
  by (simp add: drainable_def split: ptarget.split)

lemma drainable_emit [simp]:
  "drainable live (emit_invalidate e reason kind w) t = drainable live w t"
  "drainable live (note_remembered w) t = drainable live w t"
  "drainable live ((note_remembered ^^ n) w) t = drainable live w t"
  by (rule drainable_sel; simp add: emit_invalidate_frame)+

text \<open>What a handler that writes one row and indexes it can have done.\<close>

lemma handle_remember_cases:
  assumes "handle_remember_durable ops e ep emb p w = (r, w1)"
  obtains (early) er where "r = Inl er" "hnsw w1 = hnsw w" "same_core (wdb w) (wdb w1)"
    | (stored) er rowid where "r = Inl er" "hnsw w1 = hnsw w"
        "remember_tx e w p ep emb (wdb w) = Inr (wdb w1, rowid)"
    | (added) rowid v where "r = Inr (memory_id ep)"
        "remember_tx e w p ep emb (wdb w) = Inr (wdb w1, rowid)"
        "vi_add ops (hnsw w) (episode_hnsw_id (of_nat rowid)) v = Inr (hnsw w1)"
proof (cases "validate emb")
  case (Inl er)
  then show ?thesis using assms by (auto simp: handle_remember_durable_def intro: early)
next
  case v: (Inr u)
  let ?q = "check_quota (quota_bytes w) (has_db_path w) (db_file_len e) (item_growth ep emb)"
  show ?thesis
  proof (cases "\<exists>c g q. ?q = Exceeded c g q")
    case True
    then have "r = Inl Forbidden" "hnsw w1 = hnsw w" "same_core (wdb w) (wdb w1)"
      using assms v by (auto simp: handle_remember_durable_def emit_audit_core emit_audit_frame)
    then show ?thesis by (rule early)
  next
    case False
    have "handle_remember_durable ops e ep emb p w =
       (case remember_tx e w p ep emb (wdb w) of
                  Inl er \<Rightarrow> (Inl er, w)
                | Inr (d, rowid) \<Rightarrow>
                    let w1 = w\<lparr>wdb := d\<rparr> in
                    (case as_f32_slice (aligned e) emb of
                       None \<Rightarrow> (Inl Embedder, w1)
                     | Some v \<Rightarrow>
                         (case vi_add ops (hnsw w1) (episode_hnsw_id (of_nat rowid)) v of
                            Inl er \<Rightarrow> (Inl er, w1)
                          | Inr i \<Rightarrow> (Inr (memory_id ep), w1\<lparr>hnsw := i\<rparr>))))"
      using False v by (simp add: handle_remember_durable_def split: QuotaDecision.split)
    with assms show ?thesis
      by (auto simp: Let_def split: sum.splits option.splits prod.splits intro: early stored added)
  qed
qed

lemma handle_update_cases:
  assumes "handle_update_durable ops e mid raw emb p w = (r, w1)"
  obtains (early) er where "r = Inl er" "w1 = w"
    | (stored) er tt ms rowid where "r = Inl er" "hnsw w1 = hnsw w"
        "update_tx e w p mid tt ms emb (wdb w) = Inr (wdb w1, rowid)"
    | (added) rep tt ms rowid v where "r = Inr rep" "ur_memory_id rep = mid"
        "update_tx e w p mid tt ms emb (wdb w) = Inr (wdb w1, rowid)"
        "vi_add ops (hnsw w) (episode_hnsw_id (of_nat rowid)) v = Inr (hnsw w1)"
  using assms
  by (auto simp: handle_update_durable_def Let_def split: sum.splits option.splits if_splits prod.splits
      intro: early stored added)

section \<open>The handlers, for any index\<close>

context vector_index
begin

lemma remember_tx_wf:
  assumes "remember_tx e w p ep emb d = Inr (d', rowid)" "wf_db d"
  shows "wf_db d'" "outbox_ok L d \<Longrightarrow> outbox_ok L d'"
    and "active_ids d' = insert (episode_hnsw_id (of_nat rowid)) (active_ids d)"
    and "\<exists>r \<in> set (episodes d'). er_memory_id r = memory_id ep \<and> er_rowid r = rowid \<and> er_status r = Active"
proof -
  obtain row where row: "added_episode row d d'" "er_memory_id row = memory_id ep" "er_rowid row = rowid"
    using remember_tx_added [OF assms(1)] by blast
  then have id: "ep_id row = episode_hnsw_id (of_nat rowid)" "er_status row = Active"
    by (auto simp: ep_id_def added_episode_def)
  note d' = added_episodeD [OF row(1) assms(2)]
  show "wf_db d'" "outbox_ok L d \<Longrightarrow> outbox_ok L d'"
    and "active_ids d' = insert (episode_hnsw_id (of_nat rowid)) (active_ids d)"
    using d' id by simp_all
  show "\<exists>r \<in> set (episodes d'). er_memory_id r = memory_id ep \<and> er_rowid r = rowid \<and> er_status r = Active"
    using d'(3) row id by blast
qed

lemma handle_remember_inv:
  assumes "handle_remember_durable ops e ep emb p w = (r, w1)"
  shows "outbox_inv live w \<Longrightarrow> outbox_inv live w1"
    and "live_inv live w \<Longrightarrow> live_inv live w1"
    and "wf_db (wdb w) \<Longrightarrow> r = Inr mid \<Longrightarrow> drainable live w1 (PEpisode (memory_id ep))"
proof -
  show "outbox_inv live w \<Longrightarrow> outbox_inv live w1"
    using assms
  proof (cases rule: handle_remember_cases)
    case early
    then show "outbox_inv live w \<Longrightarrow> ?thesis" using outbox_inv_same by blast
  next
    case (stored er rowid)
    then show "outbox_inv live w \<Longrightarrow> ?thesis"
      using remember_tx_wf(1,2) [OF stored(3)] by (auto simp: outbox_inv_def)
  next
    case (added rowid v)
    then show "outbox_inv live w \<Longrightarrow> ?thesis"
      using remember_tx_wf(1,2) [OF added(2)] live_add [OF added(3)]
      by (auto simp: outbox_inv_def intro: outbox_mono)
  qed
  show "live_inv live w \<Longrightarrow> live_inv live w1"
    using assms
  proof (cases rule: handle_remember_cases)
    case early
    then show "live_inv live w \<Longrightarrow> ?thesis" using live_inv_same by blast
  next
    case (stored er rowid)
    then show "live_inv live w \<Longrightarrow> ?thesis"
      using remember_tx_wf(1,3) [OF stored(3)] by (auto simp: live_inv_def)
  next
    case (added rowid v)
    then show "live_inv live w \<Longrightarrow> ?thesis"
      using remember_tx_wf(1,3) [OF added(2)] live_add [OF added(3)] by (auto simp: live_inv_def)
  qed
  show "wf_db (wdb w) \<Longrightarrow> r = Inr mid \<Longrightarrow> drainable live w1 (PEpisode (memory_id ep))"
    using assms
  proof (cases rule: handle_remember_cases)
    case (added rowid v)
    then show "wf_db (wdb w) \<Longrightarrow> ?thesis"
      using remember_tx_wf(4) [OF added(2)] live_add [OF added(3)]
      by (auto simp: drainable_def ep_id_def)
  qed auto
qed

lemma dispatch_remember_inv:
  shows "outbox_inv live w \<Longrightarrow> outbox_inv live (snd (dispatch_remember ops e ep emb p w))"
    and "live_inv live w \<Longrightarrow> live_inv live (snd (dispatch_remember ops e ep emb p w))"
proof -
  obtain r w1 where h: "handle_remember_durable ops e ep emb p w = (r, w1)" by fastforce
  note inv = handle_remember_inv [OF h]
  show "outbox_inv live w \<Longrightarrow> outbox_inv live (snd (dispatch_remember ops e ep emb p w))"
    using inv(1,3) h
    by (cases r) (auto simp: dispatch_remember_def outbox_inv_def [of live w] intro: drain_inv)
  show "live_inv live w \<Longrightarrow> live_inv live (snd (dispatch_remember ops e ep emb p w))"
    using inv(2) h by (cases r) (simp_all add: dispatch_remember_def drain_live_inv)
qed

text \<open>The additions of a batch.\<close>

lemma add_batch_live:
  "add_batch ops e xs i = (oks, i') \<Longrightarrow>
   live i \<subseteq> live i' \<and> live i' \<subseteq> (\<lambda>x. episode_hnsw_id (of_nat (snd x))) ` set xs \<union> live i \<and>
   (\<forall>x \<in> set (zip xs oks). snd x \<longrightarrow> episode_hnsw_id (of_nat (snd (fst x))) \<in> live i')"
proof (induction xs arbitrary: i oks i')
  case Nil
  then show ?case by simp
next
  case (Cons x rest)
  obtain ep emb rowid where x: "x = ((ep, emb), rowid)" by (cases x) auto
  show ?case
  proof (cases "as_f32_slice (aligned e) emb")
    case None
    then obtain oks' where rest: "add_batch ops e rest i = (oks', i')" "oks = False # oks'"
      using Cons.prems x by (auto split: prod.splits)
    show ?thesis using Cons.IH [OF rest(1)] rest(2) x by auto
  next
    case v: (Some v)
    show ?thesis
    proof (cases "vi_add ops i (episode_hnsw_id (of_nat rowid)) v")
      case (Inl er)
      obtain oks' where rest: "add_batch ops e rest i = (oks', i')" "oks = False # oks'"
        using Cons.prems v Inl x by (auto split: prod.splits)
      show ?thesis using Cons.IH [OF rest(1)] rest(2) x by auto
    next
      case (Inr i1)
      obtain oks' where rest: "add_batch ops e rest i1 = (oks', i')" "oks = True # oks'"
        using Cons.prems v Inr x by (auto split: prod.splits)
      show ?thesis using Cons.IH [OF rest(1)] live_add [OF Inr] rest x by auto
    qed
  qed
qed

lemma handle_remember_batch_cases:
  assumes "handle_remember_batch_durable ops e items p w = (r, w1)"
  obtains (early) er where "r = Inl er" "hnsw w1 = hnsw w" "same_core (wdb w) (wdb w1)"
    | (added) ids oks where "r = Inr (map fst ids, oks)"
        "remember_batch_tx e w p items (wdb w) = Inr (wdb w1, ids)"
        "add_batch ops e (zip items (map snd ids)) (hnsw w) = (oks, hnsw w1)"
        "items \<noteq> []" "length items \<le> MAX_REMEMBER_BATCH_SIZE"
proof (cases "items = [] \<or> length items > MAX_REMEMBER_BATCH_SIZE \<or> (\<exists>er. validate_all items = Inl er)")
  case True
  then show ?thesis using assms
    by (auto simp: handle_remember_batch_durable_def split: if_splits intro: early)
next
  case v: False
  then have v': "validate_all items = Inr ()" by (cases "validate_all items") auto
  let ?q = "check_quota (quota_bytes w) (has_db_path w) (db_file_len e) (batch_growth items)"
  show ?thesis
  proof (cases "\<exists>c g q. ?q = Exceeded c g q")
    case True
    then have "r = Inl Forbidden" "hnsw w1 = hnsw w" "same_core (wdb w) (wdb w1)"
      using assms v v'
      by (auto simp: handle_remember_batch_durable_def emit_audit_core emit_audit_frame)
    then show ?thesis by (rule early)
  next
    case False
    have "handle_remember_batch_durable ops e items p w =
       (case remember_batch_tx e w p items (wdb w) of
                  Inl er \<Rightarrow> (Inl er, w)
                | Inr (d, ids) \<Rightarrow>
                    let (oks, i) = add_batch ops e (zip items (map snd ids)) (hnsw w)
                    in (Inr (map fst ids, oks), w\<lparr>wdb := d, hnsw := i\<rparr>))"
      using False v v' by (simp add: handle_remember_batch_durable_def split: QuotaDecision.split)
    with assms v show ?thesis
      by (auto split: sum.splits prod.splits intro: early added)
  qed
qed

lemma remember_batch_tx_added:
  assumes "remember_batch_tx e w p items d = Inr (d', ids)" "wf_db d"
  shows "wf_db d'" "outbox_ok L d \<Longrightarrow> outbox_ok L d'" "map fst ids = map (memory_id \<circ> fst) items"
    and "active_ids d' = (\<lambda>n. episode_hnsw_id (of_nat n)) ` snd ` set ids \<union> active_ids d"
    and "\<forall>x \<in> set ids. \<exists>row \<in> set (episodes d'). er_memory_id row = fst x \<and> er_rowid row = snd x"
proof -
  obtain d1 where d1: "remember_items e w p 0 items d = Inr (d1, ids)" and core: "same_core d1 d'"
    using assms(1) by (auto simp: remember_batch_tx_def result_simps)
  note f = remember_items_added [OF d1 assms(2)] and c = same_coreD [OF core]
  have ep: "episodes d' = episodes d1" using core by (simp add: same_core_def)
  show "wf_db d'" "outbox_ok L d \<Longrightarrow> outbox_ok L d'" "map fst ids = map (memory_id \<circ> fst) items"
    and "active_ids d' = (\<lambda>n. episode_hnsw_id (of_nat n)) ` snd ` set ids \<union> active_ids d"
    using f c by simp_all
  show "\<forall>x \<in> set ids. \<exists>row \<in> set (episodes d'). er_memory_id row = fst x \<and> er_rowid row = snd x"
    using f [of "{}"] unfolding ep by blast
qed

lemma batch_drainable:
  assumes "remember_batch_tx e w p items (wdb w) = Inr (wdb w1, ids)" "wf_db (wdb w)"
    and add: "add_batch ops e (zip items (map snd ids)) (hnsw w) = (oks, hnsw w1)"
  shows "list_all (drainable live w1) (map PEpisode (drain_ids (map fst ids) oks))"
proof -
  note f = remember_batch_tx_added [OF assms(1,2)]
  have len: "length items = length ids" using f(3) by (metis length_map)
  have "drainable live w1 (PEpisode mid)" if "mid \<in> set (drain_ids (map fst ids) oks)" for mid
  proof -
    from that obtain k where k: "k < length ids" "k < length oks" "oks ! k" "mid = fst (ids ! k)"
      by (auto simp: drain_ids_def in_set_zip)
    then have "((items ! k, snd (ids ! k)), True) \<in> set (zip (zip items (map snd ids)) oks)"
      using len by (auto simp: in_set_zip intro!: exI [of _ k])
    then have "episode_hnsw_id (of_nat (snd (ids ! k))) \<in> live (hnsw w1)"
      using add_batch_live [OF add] by fastforce
    moreover have "ids ! k \<in> set ids" using k by simp
    ultimately show ?thesis using f(5) k by (fastforce simp: drainable_def ep_id_def)
  qed
  then show ?thesis by (simp add: list_all_iff)
qed

lemma dispatch_remember_batch_inv:
  shows "outbox_inv live w \<Longrightarrow> outbox_inv live (snd (dispatch_remember_batch ops e items p w))"
    and "live_inv live w \<Longrightarrow> live_inv live (snd (dispatch_remember_batch ops e items p w))"
proof -
  obtain r w1 where h: "handle_remember_batch_durable ops e items p w = (r, w1)" by fastforce
  show "outbox_inv live w \<Longrightarrow> outbox_inv live (snd (dispatch_remember_batch ops e items p w))"
    using h
  proof (cases rule: handle_remember_batch_cases)
    case (early er)
    then show "outbox_inv live w \<Longrightarrow> ?thesis"
      using h outbox_inv_same by (auto simp: dispatch_remember_batch_def)
  next
    case (added ids oks)
    assume inv: "outbox_inv live w"
    then have wf: "wf_db (wdb w)" by (simp add: outbox_inv_def)
    have "outbox_ok (live (hnsw w)) (wdb w1)"
      using remember_batch_tx_added(2) [OF added(2) wf] inv by (simp add: outbox_inv_def)
    then have "outbox_inv live w1"
      using remember_batch_tx_added(1) [OF added(2) wf] add_batch_live [OF added(3)]
        outbox_mono by (simp add: outbox_inv_def)
    then show ?thesis
      using h added batch_drainable [OF added(2) wf added(3)]
      by (auto simp: dispatch_remember_batch_def list_all_iff intro!: drain_all_inv)
  qed
  show "live_inv live w \<Longrightarrow> live_inv live (snd (dispatch_remember_batch ops e items p w))"
    using h
  proof (cases rule: handle_remember_batch_cases)
    case (early er)
    then show "live_inv live w \<Longrightarrow> ?thesis"
      using h live_inv_same by (auto simp: dispatch_remember_batch_def)
  next
    case (added ids oks)
    assume inv: "live_inv live w"
    have "live (hnsw w1) \<subseteq> active_ids (wdb w1)"
      using remember_batch_tx_added(4) [OF added(2)] add_batch_live [OF added(3)] inv
      by (force simp: live_inv_def dest: set_zip_rightD)
    then have "live_inv live w1"
      using remember_batch_tx_added(1) [OF added(2)] inv by (simp add: live_inv_def)
    then show ?thesis using h added by (simp add: dispatch_remember_batch_def drain_all_live_inv)
  qed
qed

lemma dispatch_update_inv:
  shows "outbox_inv live w \<Longrightarrow> outbox_inv live (snd (dispatch_update ops e mid raw emb p w))"
    and "live_inv live w \<Longrightarrow> live_inv live (snd (dispatch_update ops e mid raw emb p w))"
proof -
  obtain r w1 where h: "handle_update_durable ops e mid raw emb p w = (r, w1)" by fastforce
  show "outbox_inv live w \<Longrightarrow> outbox_inv live (snd (dispatch_update ops e mid raw emb p w))"
    using h
  proof (cases rule: handle_update_cases)
    case (early er)
    then show "outbox_inv live w \<Longrightarrow> ?thesis" using h by (simp add: dispatch_update_def)
  next
    case (stored er tt ms rowid)
    assume inv: "outbox_inv live w"
    then have "outbox_inv live w1"
      using update_tx_core [OF stored(3), of "live (hnsw w)"] stored by (simp add: outbox_inv_def)
    then show ?thesis using h stored by (simp add: dispatch_update_def)
  next
    case (added rep tt ms rowid v)
    assume inv: "outbox_inv live w"
    then have wf: "wf_db (wdb w)" by (simp add: outbox_inv_def)
    note tx = update_tx_core [OF added(3) wf, of "live (hnsw w)"]
    have sub: "live (hnsw w1) = insert (episode_hnsw_id (of_nat rowid)) (live (hnsw w))"
      using live_add [OF added(4)] .
    have inv1: "outbox_inv live w1"
      using tx inv sub outbox_mono [of "live (hnsw w)" "wdb w1" "live (hnsw w1)"]
      by (auto simp: outbox_inv_def)
    have "\<exists>r \<in> set (episodes (wdb w1)). er_memory_id r = mid \<and> er_rowid r = rowid"
      by (rule update_tx_row [OF added(3)])
    then have "drainable live w1 (PEpisode mid)" using sub by (auto simp: drainable_def ep_id_def)
    then show ?thesis using h added inv1 by (auto simp: dispatch_update_def intro!: drain_inv)
  qed
  show "live_inv live w \<Longrightarrow> live_inv live (snd (dispatch_update ops e mid raw emb p w))"
    using h
  proof (cases rule: handle_update_cases)
    case (early er)
    then show "live_inv live w \<Longrightarrow> ?thesis" using h by (simp add: dispatch_update_def)
  next
    case (stored er tt ms rowid)
    assume inv: "live_inv live w"
    then have "live_inv live w1"
      using update_tx_core [OF stored(3)] stored by (simp add: live_inv_def)
    then show ?thesis using h stored by (simp add: dispatch_update_def)
  next
    case (added rep tt ms rowid v)
    assume inv: "live_inv live w"
    then have wf: "wf_db (wdb w)" by (simp add: live_inv_def)
    note tx = update_tx_core [OF added(3) wf]
    obtain row where "row \<in> set (episodes (wdb w))" "er_rowid row = rowid" "er_status row = Active"
      using tx by blast
    then have "episode_hnsw_id (of_nat rowid) \<in> active_ids (wdb w)"
      using active_ids_epI [of row] by (simp add: ep_id_def)
    then have "live_inv live w1"
      using tx inv live_add [OF added(4)] by (auto simp: live_inv_def)
    then show ?thesis using h added by (auto simp: dispatch_update_def intro!: drain_live_inv)
  qed
qed

lemma dispatch_review_inv:
  shows "outbox_inv live w \<Longrightarrow> outbox_inv live (snd (dispatch_review e mid st note p w))"
    and "live_inv live w \<Longrightarrow> live_inv live (snd (dispatch_review e mid st note p w))"
proof -
  let ?h = "snd (handle_memory_review e mid st note p w)"
  have "hnsw ?h = hnsw w" "same_core (wdb w) (wdb ?h)"
    by (auto simp: handle_memory_review_def Let_def split: sum.splits dest: review_tx_core)
  then show "outbox_inv live w \<Longrightarrow> outbox_inv live (snd (dispatch_review e mid st note p w))"
    and "live_inv live w \<Longrightarrow> live_inv live (snd (dispatch_review e mid st note p w))"
    by (simp_all add: dispatch_review_def dispatch_simple_inv outbox_inv_same [of ?h w]
        live_inv_same [of ?h w])
qed

end

section \<open>Forgetting, for an index whose removal cannot fail\<close>

lemma forget_tx_core:
  assumes "forget_tx e p mid reason d = Inr d'" "wf_db d" "find_episode d mid = Some row"
  shows "wf_db d'" "active_ids d - {ep_id row} \<subseteq> active_ids d'"
    and "rowids_fit d \<Longrightarrow> outbox_ok L d \<Longrightarrow> outbox_ok (L - {ep_id row}) d'"
proof -
  define f :: "episode_row \<Rightarrow> episode_row" where
    "f = (\<lambda>r. if er_status r = Forgotten then r
              else r\<lparr>er_status := Forgotten, er_updated_at_ms := now_ms e\<rparr>)"
  have core: "same_core (update_episode mid f d) d'"
    using assms(1) by (auto simp: forget_tx_def result_simps f_def [symmetric])
  have f: "er_memory_id (f r) = er_memory_id r" "er_rowid (f r) = er_rowid r" "er_status (f r) = Forgotten"
    for r by (simp_all add: f_def)
  have row: "row \<in> set (episodes d)" "er_memory_id row = mid"
    using find_episode_Some [OF assms(3)] by simp_all
  show "wf_db d'" "active_ids d - {ep_id row} \<subseteq> active_ids d'"
    and "rowids_fit d \<Longrightarrow> outbox_ok L d \<Longrightarrow> outbox_ok (L - {ep_id row}) d'"
    using forget_episode_core [OF assms(2) row(1), of f] f row(2) same_coreD [OF core] by simp_all
qed

lemma forget_document_tx_core:
  assumes "forget_document_tx e p did d = Inr d'" "wf_db d"
  defines "ids \<equiv> ch_id ` {c \<in> set (chunks d). cr_doc_id c = did}"
  shows "wf_db d'" "active_ids d - ids \<subseteq> active_ids d'" "chunks d' = chunks d"
    and "rowids_fit d \<Longrightarrow> outbox_ok L d \<Longrightarrow> outbox_ok (L - ids) d'"
    and "outbox_ok L d \<Longrightarrow> outbox_ok L d'"
proof -
  let ?f = "\<lambda>r. r\<lparr>dr_status := Forgotten\<rparr>"
  have core: "same_core (update_document did ?f d) d'"
    using assms(1) by (auto simp: forget_document_tx_def result_simps)
  show "wf_db d'" "active_ids d - ids \<subseteq> active_ids d'"
    and "rowids_fit d \<Longrightarrow> outbox_ok L d \<Longrightarrow> outbox_ok (L - ids) d'"
    and "outbox_ok L d \<Longrightarrow> outbox_ok L d'"
    using forget_document_core [OF assms(2), where f = ?f and did = did] same_coreD [OF core] unfolding ids_def by simp_all
  show "chunks d' = chunks d" using core by (simp add: same_core_def)
qed

text \<open>The additions of an ingested document's chunks.\<close>

context vector_index
begin

lemma add_chunks_live:
  "add_chunks ops e recs i = (drained, i') \<Longrightarrow>
   live i \<subseteq> live i' \<and> live i' \<subseteq> (\<lambda>(_, n, _). chunk_hnsw_id (of_nat n)) ` set recs \<union> live i \<and>
   (\<forall>cid \<in> set drained. \<exists>n emb. (cid, n, emb) \<in> set recs \<and> chunk_hnsw_id (of_nat n) \<in> live i')"
proof (induction recs arbitrary: i drained i')
  case Nil
  then show ?case by simp
next
  case (Cons x rest)
  obtain cid rowid emb where x: "x = (cid, rowid, emb)" by (cases x) auto
  consider (skip) "add_chunks ops e rest i = (drained, i')"
    | (add) v i1 drained' where "vi_add ops i (chunk_hnsw_id (of_nat rowid)) v = Inr i1"
        "add_chunks ops e rest i1 = (drained', i')" "drained = cid # drained'"
    using Cons.prems x by (auto split: option.splits sum.splits prod.splits)
  then show ?case
  proof cases
    case skip
    show ?thesis using Cons.IH [OF skip] unfolding x by (simp add: subset_insertI2) blast
  next
    case add
    show ?thesis using Cons.IH [OF add(2)] live_add [OF add(1)] unfolding add(3) x
      by (simp add: subset_insertI2) blast
  qed
qed

lemma handle_ingest_cases:
  assumes "handle_ingest_document_durable ops e path cfg p w = ((r, drained), w1)"
  obtains (quiet) "hnsw w1 = hnsw w" "same_core (wdb w) (wdb w1)" "drained = []"
    | (added) rep doc plan recs where "r = Inr rep"
        "ingest_tx e p path doc plan (wdb w) = Inr (wdb w1, recs)"
        "add_chunks ops e recs (hnsw w) = (drained, hnsw w1)"
proof (cases "ingest_stat e path")
  case (Inl er)
  then show ?thesis using assms by (auto simp: handle_ingest_document_durable_def intro: quiet)
next
  case st: (Inr sz)
  let ?q = "check_quota (quota_bytes w) (has_db_path w) (db_file_len e) (sat_mul_u64 sz 2)"
  show ?thesis
  proof (cases "(\<exists>c g q. ?q = Exceeded c g q)")
    case True
    then have "hnsw w1 = hnsw w" "same_core (wdb w) (wdb w1)" "drained = []"
      using assms st by (auto simp: handle_ingest_document_durable_def emit_audit_core emit_audit_frame)
    then show ?thesis by (rule quiet)
  next
    case q: False
    show ?thesis
    proof (cases "parse_file e path")
      case None
      then show ?thesis using assms st q
        by (auto simp: handle_ingest_document_durable_def split: QuotaDecision.splits intro: quiet)
    next
      case (Some doc)
      have eq: "handle_ingest_document_durable ops e path cfg p w =
         (case stmt e SLookup (Inr (find (\<lambda>r. dr_content_hash r = sha256_hex e (pd_text doc))
                                 (documents (wdb w)))) of
            Inl er \<Rightarrow> ((Inl er, []), w)
          | Inr (Some row) \<Rightarrow> ingest_dedup e row doc p w
          | Inr None \<Rightarrow> ingest_new ops e path doc (the (chunk_text (pd_text doc) cfg)) p w)"
        using st q Some by (simp add: handle_ingest_document_durable_def Let_def split: QuotaDecision.split)
      have dedup: "hnsw (snd (ingest_dedup e row doc p w)) = hnsw w"
        "same_core (wdb w) (wdb (snd (ingest_dedup e row doc p w)))"
        "snd (fst (ingest_dedup e row doc p w)) = []" for row
        by (simp_all add: ingest_dedup_def emit_audit_core emit_audit_frame)
      consider "drained = []" "w1 = w" | row where "ingest_dedup e row doc p w = ((r, drained), w1)"
        | "ingest_new ops e path doc (the (chunk_text (pd_text doc) cfg)) p w = ((r, drained), w1)"
        using assms eq by (auto split: sum.splits option.splits)
      then show ?thesis
      proof cases
        case 1
        then show ?thesis by (intro quiet) simp_all
      next
        case 2
        then show ?thesis using dedup [of row] by (intro quiet) simp_all
      next
        case 3
        then show ?thesis
          by (auto simp: ingest_new_def Let_def split: sum.splits prod.splits intro: quiet added)
      qed
    qed
  qed
qed

lemma dispatch_ingest_inv:
  shows "outbox_inv live w \<Longrightarrow> outbox_inv live (snd (dispatch_ingest_document ops e path cfg p w))"
    and "live_inv live w \<Longrightarrow> live_inv live (snd (dispatch_ingest_document ops e path cfg p w))"
proof -
  obtain r drained w1 where h: "handle_ingest_document_durable ops e path cfg p w = ((r, drained), w1)"
    by (metis prod.exhaust)
  have final: "snd (dispatch_ingest_document ops e path cfg p w)
      = (case r of Inl er \<Rightarrow> emit_audit_best_effort e 1 MemoryIngestDocument None AuditError p
                               (Some (DError er)) w1
         | Inr rep \<Rightarrow> drain_all e 0 (map PChunk drained)
                        (emit_invalidate e MemoryIngestDocument ''document'' w1))"
    using h by (cases r) (simp_all add: dispatch_ingest_document_def)
  show "outbox_inv live w \<Longrightarrow> outbox_inv live (snd (dispatch_ingest_document ops e path cfg p w))"
    using h
  proof (cases rule: handle_ingest_cases)
    case quiet
    then show "outbox_inv live w \<Longrightarrow> ?thesis"
      unfolding final using outbox_inv_same [of w1 w] by (cases r) simp_all
  next
    case (added rep doc plan recs)
    assume inv: "outbox_inv live w"
    then have wf: "wf_db (wdb w)" by (simp add: outbox_inv_def)
    note tx = ingest_tx_added [OF added(2) wf, of "live (hnsw w)"]
    note add = add_chunks_live [OF added(3)]
    have inv1: "outbox_inv live w1"
      using tx add inv outbox_mono [of "live (hnsw w)" "wdb w1" "live (hnsw w1)"]
      by (simp add: outbox_inv_def)
    have "drainable live w1 (PChunk cid)" if "cid \<in> set drained" for cid
      using add tx that by (fastforce simp: drainable_def ch_id_def)
    then show ?thesis
      unfolding final using added(1) inv1 by (auto simp: list_all_iff intro!: drain_all_inv)
  qed
  show "live_inv live w \<Longrightarrow> live_inv live (snd (dispatch_ingest_document ops e path cfg p w))"
    using h
  proof (cases rule: handle_ingest_cases)
    case quiet
    then show "live_inv live w \<Longrightarrow> ?thesis"
      unfolding final using live_inv_same [of w1 w] by (cases r) simp_all
  next
    case (added rep doc plan recs)
    assume inv: "live_inv live w"
    then have wf: "wf_db (wdb w)" by (simp add: live_inv_def)
    have "live_inv live w1"
      using ingest_tx_added [OF added(2) wf] add_chunks_live [OF added(3)] inv
      by (auto simp: live_inv_def)
    then show ?thesis unfolding final using added(1) by (simp add: drain_all_live_inv)
  qed
qed

end

section \<open>Forgetting, for an index whose removal cannot fail\<close>

context total_remove_index
begin

lemma remove_logged_live: "live (remove_logged ops r i) = live i - {r}"
  using remove_obtain [of i r] by (metis remove_logged_def sum.simps(6))

lemma remove_all_live:
  "live (foldl (\<lambda>i r. remove_logged ops (chunk_hnsw_id (of_nat r)) i) i rs)
   = live i - (\<lambda>r. chunk_hnsw_id (of_nat r)) ` set rs"
  by (induction rs arbitrary: i) (auto simp: remove_logged_live)

lemma handle_forget_cases:
  assumes "handle_forget ops e mid reason p w = (r, w1)"
  obtains (early) er where "r = Inl er" "w1 = w"
    | (gone) row where "r = Inr ()" "find_episode (wdb w) mid = Some row"
        "forget_tx e p mid reason (wdb w) = Inr (wdb w1)"
        "live (hnsw w1) = live (hnsw w) - {ep_id row}"
  using assms
  by (auto simp: handle_forget_def result_simps remove_logged_live ep_id_def
      split: sum.splits intro: early gone)

lemma dispatch_forget_inv:
  shows "outbox_inv live w \<Longrightarrow> rowids_fit (wdb w) \<Longrightarrow>
         outbox_inv live (snd (dispatch_forget ops e mid reason p w))"
    and "live_inv live w \<Longrightarrow> live_inv live (snd (dispatch_forget ops e mid reason p w))"
proof -
  obtain r w1 where h: "handle_forget ops e mid reason p w = (r, w1)" by fastforce
  show "outbox_inv live w \<Longrightarrow> rowids_fit (wdb w) \<Longrightarrow>
        outbox_inv live (snd (dispatch_forget ops e mid reason p w))"
    using h
  proof (cases rule: handle_forget_cases)
    case (gone row)
    then show "outbox_inv live w \<Longrightarrow> rowids_fit (wdb w) \<Longrightarrow> ?thesis"
      using h forget_tx_core [OF gone(3) _ gone(2)]
      by (simp add: dispatch_forget_def dispatch_simple_inv outbox_inv_def [of live w] outbox_inv_def [of live w1])
  qed (simp add: h dispatch_forget_def dispatch_simple_inv)
  show "live_inv live w \<Longrightarrow> live_inv live (snd (dispatch_forget ops e mid reason p w))"
    using h
  proof (cases rule: handle_forget_cases)
    case (gone row)
    then show "live_inv live w \<Longrightarrow> ?thesis"
      using h forget_tx_core(1,2) [OF gone(3) _ gone(2)]
      by (auto simp: dispatch_forget_def dispatch_simple_inv live_inv_def [of live w] live_inv_def [of live w1])
  qed (simp add: h dispatch_forget_def dispatch_simple_inv)
qed

lemma handle_forget_document_cases:
  assumes "handle_forget_document ops e did p w = (r, w1)"
  obtains (early) er where "r = Inl er" "w1 = w"
    | (half) er where "r = Inl er" "forget_document_tx e p did (wdb w) = Inr (wdb w1)"
        "hnsw w1 = hnsw w" "fails e SChunkRowids"
    | (gone) rep where "r = Inr rep" "forget_document_tx e p did (wdb w) = Inr (wdb w1)"
        "live (hnsw w1) = live (hnsw w) - ch_id ` {c \<in> set (chunks (wdb w1)). cr_doc_id c = did}"
proof -
  have ids: "(\<lambda>r. chunk_hnsw_id (of_nat r)) ` cr_rowid ` S = ch_id ` S" for S
    by (simp add: image_image ch_id_def)
  show ?thesis
    using assms
    by (auto simp: handle_forget_document_def stmt_def Let_def remove_all_live ids
        split: sum.splits if_splits intro: early half gone)
qed

lemma dispatch_forget_document_inv:
  shows "outbox_inv live w \<Longrightarrow> rowids_fit (wdb w) \<Longrightarrow>
         outbox_inv live (snd (dispatch_forget_document ops e did p w))"
    and "live_inv live w \<Longrightarrow> \<not> fails e SChunkRowids \<Longrightarrow>
         live_inv live (snd (dispatch_forget_document ops e did p w))"
proof -
  obtain r w1 where h: "handle_forget_document ops e did p w = (r, w1)" by fastforce
  show "outbox_inv live w \<Longrightarrow> rowids_fit (wdb w) \<Longrightarrow>
        outbox_inv live (snd (dispatch_forget_document ops e did p w))"
    using h
  proof (cases rule: handle_forget_document_cases)
    case (half er)
    then show "outbox_inv live w \<Longrightarrow> rowids_fit (wdb w) \<Longrightarrow> ?thesis"
      using h forget_document_tx_core [OF half(2)]
      by (simp add: dispatch_forget_document_def dispatch_simple_inv outbox_inv_def [of live w] outbox_inv_def [of live w1])
  next
    case (gone rep)
    then show "outbox_inv live w \<Longrightarrow> rowids_fit (wdb w) \<Longrightarrow> ?thesis"
      using h forget_document_tx_core [OF gone(2)]
      by (simp add: dispatch_forget_document_def dispatch_simple_inv outbox_inv_def [of live w] outbox_inv_def [of live w1])
  qed (simp add: h dispatch_forget_document_def dispatch_simple_inv)
  show "live_inv live w \<Longrightarrow> \<not> fails e SChunkRowids \<Longrightarrow>
        live_inv live (snd (dispatch_forget_document ops e did p w))"
    using h
  proof (cases rule: handle_forget_document_cases)
    case (gone rep)
    then show "live_inv live w \<Longrightarrow> \<not> fails e SChunkRowids \<Longrightarrow> ?thesis"
      using h forget_document_tx_core(1-3) [OF gone(2)]
      by (auto simp: dispatch_forget_document_def dispatch_simple_inv live_inv_def [of live w] live_inv_def [of live w1])
  qed (simp_all add: h dispatch_forget_document_def dispatch_simple_inv)
qed

section \<open>Every command\<close>

lemma dispatch_outbox_inv:
  "outbox_inv live w \<Longrightarrow> rowids_fit (wdb w) \<Longrightarrow> outbox_inv live (snd (dispatch ops e cmd w))"
  by (cases cmd)
    (simp_all add: dispatch_def dispatch_remember_inv dispatch_remember_batch_inv
      dispatch_update_inv dispatch_review_inv dispatch_ingest_inv dispatch_forget_inv
      dispatch_forget_document_inv)

lemma dispatch_live_inv:
  "live_inv live w \<Longrightarrow> \<not> fails e SChunkRowids \<Longrightarrow> live_inv live (snd (dispatch ops e cmd w))"
  by (cases cmd)
    (simp_all add: dispatch_def dispatch_remember_inv dispatch_remember_batch_inv
      dispatch_update_inv dispatch_review_inv dispatch_ingest_inv dispatch_forget_inv
      dispatch_forget_document_inv)

end

end
