(* ===== verification/WriterProps.thy ===== *)
theory WriterProps
  imports WriterFacts
begin

text \<open>
  The properties of the writer actor: the outbox and the index invariants over the model of
  \<open>HnswIndex\<close>, the atomicity of the commands, what a success leaves in the tables, and the
  order of commit and invalidation.
\<close>

section \<open>A concrete actor\<close>

text \<open>The state and the inputs at which the theorems below are instantiated.\<close>

definition sample_env :: env where
  "sample_env =
     \<lparr>now_ms = 1000, emit_ms = 1001, event_ms = 1002, fails = (\<lambda>_. False), db_file_len = Some 4096,
      aligned = (\<lambda>_. True), fresh_doc_id = 70, fresh_chunk_id = (\<lambda>i. 100 + i),
      file_len = (\<lambda>_. Some 12), file_mtime_ms = (\<lambda>_. None),
      parse_file = (\<lambda>_. Some \<lparr>pd_text = ''hello world'', pd_mime_type = ''text/plain'',
        pd_byte_size = 11, pd_extractor_name = ''text'', pd_extractor_version = ''1''\<rparr>),
      sha256_hex = (\<lambda>s. s), ingest_cap_var = None, hash_order = (\<lambda>xs. xs)\<rparr>"

definition empty_db :: db where
  "empty_db =
     \<lparr>episodes = [], ep_seq = 0, embeddings = [], documents = [], chunks = [], chunk_seq = 0,
      chunk_embeddings = [], pending = [], reviews = [], audit = []\<rparr>"

definition sample_embedding :: Embedding where
  "sample_embedding = \<lparr>dtype = F32, dim = 1, data = ''abcd''\<rparr>"

definition sample_episode :: Episode where
  "sample_episode =
     \<lparr>memory_id = 5, ts_ms = 900, source_type = ''chat'', source_id = None, content = ''hi'',
      encoding_context = ''{}'', provenance = None, confidence = 0, strength = 0, salience = 0,
      tier = Hot\<rparr>"

definition sample_writer :: "HnswIndex writer" where
  "sample_writer =
     \<lparr>wdb = empty_db, hnsw = hnsw_new 1 default_params, embedder_id = Some 1, quota_bytes = Some 8000,
      has_db_path = True, redact = (\<lambda>s. (s, [])),
      embedder = Some (\<lambda>ts. Inr (map (\<lambda>_. sample_embedding) ts), F32), runtime = True,
      tenant = Some ''default'', events = [], batch_signal = None\<rparr>"

definition sample_lib :: "nat hnsw_rs" where
  "sample_lib = \<lparr>get_nb_point = length, graph_search = (\<lambda>g q k ef. take k (map (\<lambda>x. (fst x, 0)) g))\<rparr>"

abbreviation sample_ops :: "(HnswIndex, nat) vindex" where
  "sample_ops \<equiv> hnsw_vindex sample_lib"

lemma sample_wf: "wf_db (wdb sample_writer)" "rowids_fit (wdb sample_writer)"
  by (simp_all add: sample_writer_def empty_db_def wf_db_def rowids_fit_def)

lemma sample_invs: "outbox_inv hnsw_live sample_writer" "live_inv hnsw_live sample_writer"
  using sample_wf
  by (simp_all add: outbox_inv_def live_inv_def outbox_ok_def sample_writer_def empty_db_def)

section \<open>Frames of the handlers\<close>

definition reply_ok :: "Reply \<Rightarrow> bool" where
  "reply_ok r =
     (case r of RRemember x \<Rightarrow> is_ok x | RRememberBatch x \<Rightarrow> is_ok x | RForget x \<Rightarrow> is_ok x
      | RUpdate x \<Rightarrow> is_ok x | RReview x \<Rightarrow> is_ok x | RIngest x \<Rightarrow> is_ok x
      | RForgetDocument x \<Rightarrow> is_ok x)"

definition cmd_operation :: "WriteCommand \<Rightarrow> AuditOperation" where
  "cmd_operation c =
     (case c of Remember _ _ _ \<Rightarrow> MemoryRemember | RememberBatch _ _ \<Rightarrow> MemoryRememberBatch
      | Forget _ _ _ \<Rightarrow> MemoryForget | Update _ _ _ _ \<Rightarrow> MemoryUpdate
      | ReviewMemory _ _ _ _ \<Rightarrow> MemoryReview | IngestDocument _ _ _ \<Rightarrow> MemoryIngestDocument
      | ForgetDocument _ _ \<Rightarrow> MemoryForgetDocument)"

definition cmd_kind :: "WriteCommand \<Rightarrow> string" where
  "cmd_kind c =
     (case c of IngestDocument _ _ _ \<Rightarrow> ''document'' | ForgetDocument _ _ \<Rightarrow> ''document''
      | _ \<Rightarrow> ''episode'')"

definition keeps_channel :: "'i writer \<Rightarrow> 'i writer \<Rightarrow> bool" where
  "keeps_channel w w' = (events w' = events w \<and> tenant w' = tenant w)"

lemma keeps_channel_simps [simp]:
  "keeps_channel w w" "keeps_channel w (w\<lparr>wdb := d\<rparr>)" "keeps_channel w (w\<lparr>wdb := d, hnsw := i\<rparr>)"
  "keeps_channel w (emit_audit_best_effort e k oper t r p det w)"
  by (simp_all add: keeps_channel_def emit_audit_frame)

lemma handlers_keep_channel:
  "keeps_channel w (snd (handle_remember_durable ops e ep emb p w))"
  "keeps_channel w (snd (handle_remember_batch_durable ops e items p w))"
  "keeps_channel w (snd (handle_update_durable ops e mid raw emb p w))"
  "keeps_channel w (snd (handle_memory_review e mid st note p w))"
  "keeps_channel w (snd (handle_forget ops e mid reason p w))"
  "keeps_channel w (snd (handle_ingest_document_durable ops e path cfg p w))"
  "keeps_channel w (snd (handle_forget_document ops e did p w))"
  unfolding handle_remember_durable_def handle_remember_batch_durable_def
    handle_update_durable_def handle_memory_review_def handle_forget_def
    handle_ingest_document_durable_def handle_forget_document_def ingest_new_def ingest_dedup_def
  by (simp_all add: Let_def split: sum.split option.split QuotaDecision.split prod.split)

lemma emit_invalidate_events:
  "events (emit_invalidate e reason kind w) = events w @
     (case tenant w of None \<Rightarrow> []
      | Some t \<Rightarrow> [\<lparr>ev_reason = reason, ev_tenant_id = t, ev_ts_ms = event_ms e, ev_kind = kind\<rparr>])"
  by (simp add: emit_invalidate_def split: option.split)

text \<open>
  C5: of the seven commands of \<open>dispatch\<close> (remember, batch, forget, update, review, ingest and a
  document's forget), each sends its invalidation event exactly when its reply is a success, once, for
  the tenant of the actor; one that reports an error sends none.
\<close>

theorem dispatch_events:
  "events (snd (dispatch ops e cmd w)) = events w @
     (if reply_ok (fst (dispatch ops e cmd w))
      then (case tenant w of None \<Rightarrow> []
            | Some t \<Rightarrow> [\<lparr>ev_reason = cmd_operation cmd, ev_tenant_id = t,
                           ev_ts_ms = event_ms e, ev_kind = cmd_kind cmd\<rparr>])
      else [])"
proof (cases cmd)
  case (Remember ep emb p)
  then show ?thesis
    using handlers_keep_channel(1) [of w ops e ep emb p]
    by (cases "handle_remember_durable ops e ep emb p w")
      (auto simp: dispatch_def dispatch_remember_def reply_ok_def cmd_operation_def cmd_kind_def
        keeps_channel_def frame_simps emit_invalidate_events split: sum.split option.split)
next
  case (RememberBatch items p)
  then show ?thesis
    using handlers_keep_channel(2) [of w ops e items p]
    by (cases "handle_remember_batch_durable ops e items p w")
      (auto simp: dispatch_def dispatch_remember_batch_def reply_ok_def cmd_operation_def
        cmd_kind_def keeps_channel_def frame_simps emit_invalidate_events split: sum.split option.split)
next
  case (Forget mid reason p)
  then show ?thesis
    using handlers_keep_channel(5) [of w ops e mid reason p]
    by (cases "handle_forget ops e mid reason p w")
      (auto simp: dispatch_def dispatch_forget_def dispatch_simple_def reply_ok_def
        cmd_operation_def cmd_kind_def keeps_channel_def frame_simps emit_invalidate_events
        split: sum.split option.split)
next
  case (Update mid raw emb p)
  then show ?thesis
    using handlers_keep_channel(3) [of w ops e mid raw emb p]
    by (cases "handle_update_durable ops e mid raw emb p w")
      (auto simp: dispatch_def dispatch_update_def reply_ok_def cmd_operation_def cmd_kind_def
        keeps_channel_def frame_simps emit_invalidate_events split: sum.split option.split)
next
  case (ReviewMemory mid st nt p)
  then show ?thesis
    using handlers_keep_channel(4) [of w e mid st nt p]
    by (cases "handle_memory_review e mid st nt p w")
      (auto simp: dispatch_def dispatch_review_def dispatch_simple_def reply_ok_def
        cmd_operation_def cmd_kind_def keeps_channel_def frame_simps emit_invalidate_events
        split: sum.split option.split)
next
  case (IngestDocument path cfg p)
  then show ?thesis
    using handlers_keep_channel(6) [of w ops e path cfg p]
    by (cases "handle_ingest_document_durable ops e path cfg p w")
      (auto simp: dispatch_def dispatch_ingest_document_def reply_ok_def cmd_operation_def
        cmd_kind_def keeps_channel_def frame_simps emit_invalidate_events split: sum.split prod.split option.split)
next
  case (ForgetDocument did p)
  then show ?thesis
    using handlers_keep_channel(7) [of w ops e did p]
    by (cases "handle_forget_document ops e did p w")
      (auto simp: dispatch_def dispatch_forget_document_def dispatch_simple_def reply_ok_def
        cmd_operation_def cmd_kind_def keeps_channel_def frame_simps emit_invalidate_events
        split: sum.split option.split)
qed

section \<open>The invariants over HnswIndex\<close>

text \<open>
  C1: no command loses anything, whatever statements fail on the way: after it every active
  episode and every chunk of an active document is in the vector index, or has a row in
  \<open>pending_index\<close> from which the replay will put it there.
\<close>

theorem dispatch_keeps_outbox:
  assumes "outbox_inv hnsw_live w" "rowids_fit (wdb w)"
  shows "outbox_inv hnsw_live (snd (dispatch (hnsw_vindex lib) e cmd w))"
  using assms by (rule hnsw_total.dispatch_outbox_inv)

theorem dispatch_keeps_outbox_witness:
  "outbox_inv hnsw_live
     (snd (dispatch sample_ops sample_env (Remember sample_episode sample_embedding None) sample_writer))"
  by (rule dispatch_keeps_outbox) (rule sample_invs sample_wf)+

definition document_ids :: "document_id \<Rightarrow> db \<Rightarrow> i64 set" where
  "document_ids did d = ch_id ` {c \<in> set (chunks d). cr_doc_id c = did}"

context total_remove_index
begin

lemma dispatch_live_or_half:
  assumes "live_inv live w"
  shows "live_inv live (snd (dispatch ops e cmd w)) \<or>
    (\<exists>did p. cmd = ForgetDocument did p \<and> fails e SChunkRowids \<and>
       live_inv (\<lambda>i. live i - document_ids did (wdb w)) (snd (dispatch ops e cmd w)))"
proof (cases "fails e SChunkRowids \<and> (\<exists>did p. cmd = ForgetDocument did p)")
  case False
  then consider "\<not> fails e SChunkRowids" | "\<nexists>did p. cmd = ForgetDocument did p" by blast
  then show ?thesis
  proof cases
    case 1
    then show ?thesis using dispatch_live_inv [OF assms] by blast
  next
    case 2
    have "live_inv live (snd (dispatch ops e cmd w))"
      using 2 assms
      by (cases cmd) (simp_all add: dispatch_def dispatch_remember_inv dispatch_remember_batch_inv
        dispatch_update_inv dispatch_review_inv dispatch_ingest_inv dispatch_forget_inv)
    then show ?thesis ..
  qed
next
  case True
  then obtain did p where cmd: "cmd = ForgetDocument did p" and sf: "fails e SChunkRowids" by blast
  obtain r w1 where h: "handle_forget_document ops e did p w = (r, w1)" by fastforce
  have out: "snd (dispatch ops e cmd w) = snd (dispatch_simple e MemoryForgetDocument (Some (TDocument did)) ''document'' p (r, w1))"
    by (simp add: cmd dispatch_def dispatch_forget_document_def h)
  have "live_inv (\<lambda>i. live i - document_ids did (wdb w)) w1"
    using h
  proof (cases rule: handle_forget_document_cases)
    case (early er)
    then show ?thesis using assms by (auto simp: live_inv_def)
  next
    case (half er)
    have wf: "wf_db (wdb w)" using assms by (simp add: live_inv_def)
    show ?thesis
      using forget_document_tx_core(1,2) [OF half(2) wf] half(3) assms by (auto simp: live_inv_def document_ids_def)
  next
    case (gone rep)
    have wf: "wf_db (wdb w)" using assms by (simp add: live_inv_def)
    show ?thesis
      using forget_document_tx_core(1-3) [OF gone(2) wf] gone(3) assms by (auto simp: live_inv_def document_ids_def)
  qed
  then have "live_inv (\<lambda>i. live i - document_ids did (wdb w)) (snd (dispatch ops e cmd w))"
    by (simp add: out dispatch_simple_inv)
  then show ?thesis using cmd sf by blast
qed

end

text \<open>
  C3: none of the seven commands makes a forgotten row findable: after it every id a search may
  return is again that of an active episode or of a chunk of an active document. There is one
  exception, a document's forget whose read of the chunk rowids fails after the forget has been
  committed: then the index may still find chunks of this document, and no other forgotten row.
\<close>

theorem dispatch_keeps_live:
  assumes "live_inv hnsw_live w"
  shows "live_inv hnsw_live (snd (dispatch (hnsw_vindex lib) e cmd w)) \<or>
    (\<exists>did p. cmd = ForgetDocument did p \<and> fails e SChunkRowids \<and>
       live_inv (\<lambda>i. hnsw_live i - document_ids did (wdb w)) (snd (dispatch (hnsw_vindex lib) e cmd w)))"
  using assms by (rule hnsw_total.dispatch_live_or_half)

theorem dispatch_keeps_live_witness:
  "live_inv hnsw_live
     (snd (dispatch sample_ops sample_env (IngestDocument ''a.txt'' default_config None) sample_writer))"
proof -
  have "live_inv hnsw_live sample_writer" by (rule sample_invs)
  from dispatch_keeps_live [OF this, of sample_lib sample_env "IngestDocument ''a.txt'' default_config None"]
  show ?thesis by simp
qed

text \<open>
  A search over the writer's index returns no forgotten episode: under the invariant, and
  with a library that returns only ids it was given, the id of an episode row among the hits
  belongs to an active one.
\<close>

theorem search_hits_are_active:
  assumes "live_inv hnsw_live w" "rowids_fit (wdb w)"
    and "\<And>g q n ef. fst ` set (graph_search lib g q n ef) \<subseteq> fst ` set g"
    and "vi_search (hnsw_vindex lib) (hnsw w) q k = Inr out" "(ep_id row, dist) \<in> set out"
    and "row \<in> set (episodes (wdb w))"
  shows "er_status row = Active"
proof -
  have "ep_id row \<in> hnsw_live (hnsw w)"
    using hnsw_search_live [of lib "hnsw w" q k out] assms(3-5) by simp
  then show ?thesis using assms(1,2,6) active_ids_ep by (auto simp: live_inv_def)
qed

definition sample_after :: "HnswIndex writer" where
  "sample_after =
     snd (dispatch sample_ops sample_env (Remember sample_episode sample_embedding None) sample_writer)"

lemma sample_after_eq:
  "sample_after = sample_writer
     \<lparr>wdb := empty_db\<lparr>episodes := [remember_row sample_env None ''hi'' sample_episode 1], ep_seq := 1,
        embeddings := [embedding_row_of sample_env 5 1 sample_embedding],
        audit := [audit_event 1000 None MemoryRemember (Some (TMemory 5)) AuditOk None]\<rparr>,
      hnsw := \<lparr>inner = [(1, f32s_of_bytes ''abcd'')], hdim = 1, tombstones = {}\<rparr>,
      events := [\<lparr>ev_reason = MemoryRemember, ev_tenant_id = ''default'', ev_ts_ms = 1002,
                  ev_kind = ''episode''\<rparr>]\<rparr>"
  by (simp add: sample_after_def dispatch_def dispatch_remember_def handle_remember_durable_def
      remember_tx_def remember_item_def sample_env_def sample_writer_def sample_episode_def
      sample_embedding_def empty_db_def stmt_def insert_episode_def insert_embedding_def
      insert_pending_def redaction_audit_def insert_audit_def remember_row_def embedding_row_of_def
      pending_row_of_def validate_def bytes_for_dim_def bytes_per_element_def check_quota_def
      item_growth_def sat_add_u64_def u64_max_def as_f32_slice_def cast_f32_def hnsw_add_def
      hnsw_new_def episode_hnsw_id_def drain_def delete_pending_def note_remembered_def
      emit_invalidate_def Let_def)

theorem search_hits_are_active_witness:
  "er_status (remember_row sample_env None ''hi'' sample_episode 1) = Active"
proof (rule search_hits_are_active [where w = sample_after and lib = sample_lib and q = "[0]" and k = 3])
  show "live_inv hnsw_live sample_after"
    unfolding sample_after_def
    by (rule hnsw_total.dispatch_live_inv) (simp_all add: sample_invs sample_env_def)
  show "rowids_fit (wdb sample_after)"
    by (simp add: sample_after_eq rowids_fit_def empty_db_def)
  show "fst ` set (graph_search sample_lib g q n ef) \<subseteq> fst ` set g" for g q n ef
    by (auto simp: sample_lib_def dest!: in_set_takeD)
  show "vi_search (hnsw_vindex sample_lib) (hnsw sample_after) [0] 3 = Inr [(1, 0)]"
    by (simp add: sample_after_eq hnsw_search_def sample_lib_def Let_def)
  show "(ep_id (remember_row sample_env None ''hi'' sample_episode 1), 0::nat) \<in> set [(1, 0)]"
    by (simp add: ep_id_def remember_row_def episode_hnsw_id_def)
  show "remember_row sample_env None ''hi'' sample_episode 1 \<in> set (episodes (wdb sample_after))"
    by (simp add: sample_after_eq)
qed

section \<open>Atomicity\<close>

definition same_tables :: "db \<Rightarrow> db \<Rightarrow> bool" where
  "same_tables d d' = (d'\<lparr>audit := []\<rparr> = d\<lparr>audit := []\<rparr>)"

lemma same_tables_simps [simp]:
  "same_tables d d" "same_tables d (insert_audit ev d)"
  "same_tables (wdb w) (wdb (emit_audit_best_effort e k oper t r p det w))"
  by (simp_all add: same_tables_def insert_audit_def emit_audit_best_effort_def)

lemma same_tables_trans: "same_tables d d' \<Longrightarrow> same_tables d' d'' \<Longrightarrow> same_tables d d''"
  by (simp add: same_tables_def)

definition untouched :: "'i writer \<Rightarrow> 'i writer \<Rightarrow> bool" where
  "untouched w w' = (same_tables (wdb w) (wdb w') \<and> hnsw w' = hnsw w)"

lemma untouched_simps [simp]:
  "untouched w w" "untouched w (emit_audit_best_effort e k oper t r p det w)"
  by (simp_all add: untouched_def emit_audit_frame)

lemma untouched_emit:
  "untouched w w' \<Longrightarrow> untouched w (emit_audit_best_effort e k oper t r p det w')"
  unfolding untouched_def by (metis same_tables_simps(3) same_tables_trans emit_audit_frame(1))

lemma handlers_atomic:
  "handle_remember_batch_durable ops e items p w = (Inl er, w1) \<Longrightarrow> untouched w w1"
  "handle_memory_review e mid st nt p w = (Inl er, w1) \<Longrightarrow> untouched w w1"
  "handle_forget ops e mid reason p w = (Inl er, w1) \<Longrightarrow> untouched w w1"
  "handle_ingest_document_durable ops e path cfg p w = ((Inl er, drained), w1) \<Longrightarrow> untouched w w1"
  unfolding handle_remember_batch_durable_def handle_memory_review_def handle_forget_def
    handle_ingest_document_durable_def ingest_new_def ingest_dedup_def
  by (auto simp: Let_def split: sum.splits option.splits QuotaDecision.splits prod.splits if_splits)

text \<open>The three handlers with a step after their commit.\<close>

definition waits :: "ptarget \<Rightarrow> db \<Rightarrow> db \<Rightarrow> bool" where
  "waits t d d' = (same_tables d d' \<and> t \<in> pending_targets d')"

definition half_done :: "env \<Rightarrow> WriteCommand \<Rightarrow> 'i writer \<Rightarrow> db \<Rightarrow> bool" where
  "half_done e cmd w d' =
     (case cmd of
        Remember ep emb p \<Rightarrow>
          (\<exists>d rowid. remember_tx e w p ep emb (wdb w) = Inr (d, rowid) \<and> waits (PEpisode (memory_id ep)) d d')
      | Update mid raw emb p \<Rightarrow>
          (\<exists>d rowid. update_tx e w p mid (fst (redact w (trim raw))) (snd (redact w (trim raw))) emb (wdb w) = Inr (d, rowid) \<and>
             waits (PEpisode mid) d d')
      | ForgetDocument did p \<Rightarrow>
          fails e SChunkRowids \<and> (\<exists>d. forget_document_tx e p did (wdb w) = Inr d \<and> same_tables d d')
      | _ \<Rightarrow> False)"

lemma remember_tx_waits:
  "remember_tx e w p ep emb d = Inr (d', rowid) \<Longrightarrow> PEpisode (memory_id ep) \<in> pending_targets d'"
  by (drule remember_tx_added) (auto simp: added_episode_def)

lemma update_tx_waits:
  assumes "update_tx e w p mid txt ms emb d = Inr (d', rowid)"
  shows "PEpisode mid \<in> pending_targets d'"
proof -
  obtain d2 where "same_core (upsert_pending (pending_row_of e (PEpisode mid) emb) d2) d'"
    by (rule update_tx_steps [OF assms])
  then have "pending_targets d' = pending_targets (upsert_pending (pending_row_of e (PEpisode mid) emb) d2)"
    by (simp add: same_core_def pending_targets_def)
  then show ?thesis by (simp add: upsert_pending_targets pending_row_of_def)
qed

lemma failed_remember:
  assumes "handle_remember_durable ops e ep emb p w = (Inl er, w1)"
  shows "untouched w w1 \<or>
    hnsw w1 = hnsw w \<and> (\<exists>d rowid. remember_tx e w p ep emb (wdb w) = Inr (d, rowid) \<and> waits (PEpisode (memory_id ep)) d (wdb w1))"
  using assms remember_tx_waits unfolding handle_remember_durable_def waits_def
  by (fastforce simp: Let_def split: sum.splits option.splits QuotaDecision.splits prod.splits if_splits)

lemma failed_update:
  assumes "handle_update_durable ops e mid raw emb p w = (Inl er, w1)"
  shows "untouched w w1 \<or>
    hnsw w1 = hnsw w \<and> (\<exists>d rowid. update_tx e w p mid (fst (redact w (trim raw))) (snd (redact w (trim raw))) emb (wdb w) = Inr (d, rowid) \<and>
      waits (PEpisode mid) d (wdb w1))"
  using assms update_tx_waits unfolding handle_update_durable_def waits_def
  by (fastforce simp: Let_def split: sum.splits option.splits prod.splits if_splits)

lemma failed_forget_document:
  assumes "handle_forget_document ops e did p w = (Inl er, w1)"
  shows "untouched w w1 \<or> hnsw w1 = hnsw w \<and> fails e SChunkRowids \<and>
    (\<exists>d. forget_document_tx e p did (wdb w) = Inr d \<and> same_tables d (wdb w1))"
  using assms unfolding handle_forget_document_def
  by (fastforce simp: Let_def stmt_def split: sum.splits if_splits)

text \<open>
  C27: what a command that reports an error has done. A batch, a review, a forget and an ingest have
  changed nothing: every table but the audit log is as before, and so is the vector index. So
  have the other three, unless they stopped after the commit of their transaction: then a remember
  or an update has left what its whole transaction makes of the tables, the index as it was and its
  memory waiting in the outbox, and a document's forget, whose chunk rowids could not be read, the
  forgotten document and the index as it was.
\<close>

theorem failed_command_outcome:
  assumes "\<not> reply_ok (fst (dispatch ops e cmd w))"
  shows "untouched w (snd (dispatch ops e cmd w)) \<or>
    hnsw (snd (dispatch ops e cmd w)) = hnsw w \<and> half_done e cmd w (wdb (snd (dispatch ops e cmd w)))"
proof -
  have emit: "waits t d (wdb (emit_audit_best_effort e k oper t' r p det w'))" if "waits t d (wdb w')" for t d k oper t' r p det and w' :: "'a writer"
    using that same_tables_trans [of d "wdb w'"] unfolding waits_def by (simp add: emit_audit_best_effort_def pending_targets_def)
  show ?thesis
  proof (cases cmd)
    case (Remember ep emb p)
    obtain r w1 where h: "handle_remember_durable ops e ep emb p w = (r, w1)" by fastforce
    then obtain er where r: "r = Inl er" using assms by (cases r) (auto simp: Remember dispatch_def dispatch_remember_def reply_ok_def)
    have w': "snd (dispatch ops e cmd w) = emit_audit_best_effort e 1 MemoryRemember (Some (TMemory (memory_id ep))) AuditError p (Some (DError er)) w1"
      by (simp add: Remember dispatch_def dispatch_remember_def h r)
    from failed_remember [OF h [unfolded r]] show ?thesis
      unfolding w' by (auto simp: half_done_def Remember emit_audit_frame intro: untouched_emit emit)
  next
    case (Update mid raw emb p)
    obtain r w1 where h: "handle_update_durable ops e mid raw emb p w = (r, w1)" by fastforce
    then obtain er where r: "r = Inl er" using assms by (cases r) (auto simp: Update dispatch_def dispatch_update_def reply_ok_def)
    have w': "snd (dispatch ops e cmd w) = emit_audit_best_effort e 1 MemoryUpdate (Some (TMemory mid)) AuditError p (Some (DError er)) w1"
      by (simp add: Update dispatch_def dispatch_update_def h r)
    from failed_update [OF h [unfolded r]] show ?thesis
      unfolding w' by (auto simp: half_done_def Update emit_audit_frame intro: untouched_emit emit)
  next
    case (ForgetDocument did p)
    obtain r w1 where h: "handle_forget_document ops e did p w = (r, w1)" by fastforce
    then obtain er where r: "r = Inl er"
      using assms by (cases r) (auto simp: ForgetDocument dispatch_def dispatch_forget_document_def dispatch_simple_def reply_ok_def)
    have w': "snd (dispatch ops e cmd w) = emit_audit_best_effort e 1 MemoryForgetDocument (Some (TDocument did)) AuditError p (Some (DError er)) w1"
      by (simp add: ForgetDocument dispatch_def dispatch_forget_document_def dispatch_simple_def h r)
    have tabs: "same_tables d (wdb (emit_audit_best_effort e k oper t r p det w1))"
      if "same_tables d (wdb w1)" for d k oper t r p det by (rule same_tables_trans [OF that]) simp
    from failed_forget_document [OF h [unfolded r]] show ?thesis
      unfolding w' by (auto simp: half_done_def ForgetDocument emit_audit_frame intro: untouched_emit tabs)
  next
    case (RememberBatch items p)
    then show ?thesis
      using assms handlers_atomic(1) [of ops e items p w]
      by (cases "handle_remember_batch_durable ops e items p w")
        (auto simp: dispatch_def dispatch_remember_batch_def reply_ok_def split: sum.splits
          intro: untouched_emit)
  next
    case (Forget mid reason p)
    then show ?thesis
      using assms handlers_atomic(3) [of ops e mid reason p w]
      by (cases "handle_forget ops e mid reason p w")
        (auto simp: dispatch_def dispatch_forget_def dispatch_simple_def reply_ok_def
          split: sum.splits intro: untouched_emit)
  next
    case (ReviewMemory mid st nt p)
    then show ?thesis
      using assms handlers_atomic(2) [of e mid st nt p w]
      by (cases "handle_memory_review e mid st nt p w")
        (auto simp: dispatch_def dispatch_review_def dispatch_simple_def reply_ok_def
          split: sum.splits intro: untouched_emit)
  next
    case (IngestDocument path cfg p)
    then show ?thesis
      using assms handlers_atomic(4) [of ops e path cfg p w]
      by (cases "handle_ingest_document_durable ops e path cfg p w")
        (auto simp: dispatch_def dispatch_ingest_document_def reply_ok_def
          split: sum.splits prod.splits intro: untouched_emit)
  qed
qed

theorem failed_command_outcome_witness:
  "untouched sample_writer
     (snd (dispatch sample_ops sample_env (Forget 9 ''old'' None) sample_writer))"
proof -
  have "\<not> reply_ok (fst (dispatch sample_ops sample_env (Forget 9 ''old'' None) sample_writer))"
    by (simp add: dispatch_def dispatch_forget_def dispatch_simple_def
      handle_forget_def stmt_def sample_env_def sample_writer_def empty_db_def find_episode_def
      reply_ok_def)
  from failed_command_outcome [OF this] show ?thesis by (simp add: half_done_def)
qed

section \<open>What a success leaves\<close>

lemma remember_item_detail:
  assumes "remember_item e w p i ep emb d = Inr (d', rowid)"
  shows "episodes d' = episodes d @ [remember_row e p (fst (redact w (content ep))) ep rowid] \<and>
         audit d' = audit d @ (if snd (redact w (content ep)) = [] then []
           else [redaction_audit_event (now_ms e) p (Some (TMemory (memory_id ep)))
                   (snd (redact w (content ep)))])"
proof -
  obtain tt ms where red: "redact w (content ep) = (tt, ms)" by fastforce
  show ?thesis
    using assms
    by (auto simp: remember_item_def red Let_def result_simps insert_episode_def insert_embedding_def
        insert_pending_def redaction_audit_def split: if_splits option.splits)
qed

lemma remember_stored:
  assumes "dispatch_remember (hnsw_vindex lib) e ep emb p w = (Inr mid, w')"
  shows "mid = memory_id ep \<and>
     (\<exists>row \<in> set (episodes (wdb w')). er_memory_id row = mid \<and> er_status row = Active \<and>
        er_content row = fst (redact w (content ep)) \<and> ep_id row \<in> hnsw_live (hnsw w')) \<and>
     audit (wdb w') = audit (wdb w) @
       (if snd (redact w (content ep)) = [] then []
        else [redaction_audit_event (now_ms e) p (Some (TMemory mid)) (snd (redact w (content ep)))]) @
       [audit_event (now_ms e) p MemoryRemember (Some (TMemory mid)) AuditOk None]"
proof -
  obtain r w1 where h: "handle_remember_durable (hnsw_vindex lib) e ep emb p w = (r, w1)" by fastforce
  from h show ?thesis
  proof (cases rule: handle_remember_cases)
    case (added rowid v)
    obtain d1 where item: "remember_item e w p 0 ep emb (wdb w) = Inr (d1, rowid)" and
      d: "wdb w1 = insert_audit (audit_event (now_ms e) p MemoryRemember (Some (TMemory (memory_id ep)))
                AuditOk None) d1"
      using added(2) by (auto simp: remember_tx_def result_simps)
    note det = remember_item_detail [OF item]
    let ?row = "remember_row e p (fst (redact w (content ep))) ep rowid"
    have w': "w' = drain e 0 (PEpisode (memory_id ep))
                (note_remembered (emit_invalidate e MemoryRemember ''episode'' w1))" and mid: "mid = memory_id ep"
      using assms h added(1) by (auto simp: dispatch_remember_def)
    have sel: "episodes (wdb w') = episodes (wdb w1)" "audit (wdb w') = audit (wdb w1)" "hnsw w' = hnsw w1"
      by (simp_all add: w' drain_def emit_invalidate_frame)
    have "?row \<in> set (episodes (wdb w'))" using det d sel by simp
    moreover have "ep_id ?row \<in> hnsw_live (hnsw w')"
      using hnsw.live_add_self [OF added(3)] sel by (simp add: ep_id_def remember_row_def)
    ultimately show ?thesis using det d sel mid
      by (auto simp: remember_row_def intro!: bexI [of _ ?row])
  qed (use assms h in \<open>simp_all add: dispatch_remember_def\<close>)
qed

text \<open>
  A remember that replies success has stored the redacted text in an active row, made its id
  findable in the index, and written exactly its audit rows: one for the redaction when a
  pattern fired, then one for the operation.
\<close>

theorem remember_success:
  assumes "dispatch_remember (hnsw_vindex lib) e ep emb p w = (Inr mid, w')"
  shows "mid = memory_id ep \<and>
     (\<exists>row \<in> set (episodes (wdb w')). er_memory_id row = mid \<and> er_status row = Active \<and>
        er_content row = fst (redact w (content ep)) \<and> ep_id row \<in> hnsw_live (hnsw w')) \<and>
     audit (wdb w') = audit (wdb w) @
       (if snd (redact w (content ep)) = [] then []
        else [redaction_audit_event (now_ms e) p (Some (TMemory mid)) (snd (redact w (content ep)))]) @
       [audit_event (now_ms e) p MemoryRemember (Some (TMemory mid)) AuditOk None]"
  by (rule remember_stored [OF assms])

theorem remember_success_witness:
  "\<exists>row \<in> set (episodes (wdb sample_after)). er_memory_id row = 5 \<and> er_content row = ''hi''"
proof -
  have "dispatch_remember sample_ops sample_env sample_episode sample_embedding None sample_writer
        = (Inr 5, sample_after)"
    unfolding sample_after_eq
    by (simp add: dispatch_remember_def handle_remember_durable_def
      remember_tx_def remember_item_def sample_env_def sample_writer_def sample_episode_def
      sample_embedding_def empty_db_def stmt_def insert_episode_def insert_embedding_def
      insert_pending_def redaction_audit_def insert_audit_def remember_row_def embedding_row_of_def
      pending_row_of_def validate_def bytes_for_dim_def bytes_per_element_def check_quota_def
      item_growth_def sat_add_u64_def u64_max_def as_f32_slice_def cast_f32_def hnsw_add_def
      hnsw_new_def episode_hnsw_id_def drain_def delete_pending_def note_remembered_def
      emit_invalidate_def Let_def)
  from remember_success [OF this] show ?thesis by (auto simp: sample_writer_def sample_episode_def)
qed

text \<open>
  A remember that replies an error has either changed no table but the audit log, or has
  committed its row, which then waits in the outbox: nothing is half written.
\<close>

theorem remember_error:
  assumes "dispatch_remember ops e ep emb p w = (Inl er, w')"
  shows "hnsw w' = hnsw w \<and> events w' = events w \<and>
     (same_tables (wdb w) (wdb w') \<or>
      (\<exists>row \<in> set (episodes (wdb w')). er_memory_id row = memory_id ep \<and> er_status row = Active \<and>
         PEpisode (memory_id ep) \<in> pending_targets (wdb w')))"
proof -
  obtain r w1 where h: "handle_remember_durable ops e ep emb p w = (r, w1)" by fastforce
  have w': "w' = emit_audit_best_effort e 1 MemoryRemember (Some (TMemory (memory_id ep))) AuditError p
                   (Some (DError er)) w1" and r: "r = Inl er"
    using assms h by (auto simp: dispatch_remember_def split: sum.splits)
  have ev: "events w1 = events w"
    using handlers_keep_channel(1) [of w ops e ep emb p] h by (simp add: keeps_channel_def)
  have tabs: "same_tables (wdb w1) (wdb w')" by (simp add: w')
  have sel: "episodes (wdb w') = episodes (wdb w1)" "pending_targets (wdb w') = pending_targets (wdb w1)"
    by (simp_all add: w' emit_audit_best_effort_def pending_targets_def)
  have "same_tables (wdb w) (wdb w1) \<or> (\<exists>rowid. remember_tx e w p ep emb (wdb w) = Inr (wdb w1, rowid))"
    using h r unfolding handle_remember_durable_def
    by (auto simp: Let_def split: sum.splits option.splits QuotaDecision.splits prod.splits if_splits)
  then have "same_tables (wdb w) (wdb w1) \<or>
      (\<exists>row \<in> set (episodes (wdb w1)). er_memory_id row = memory_id ep \<and> er_status row = Active \<and>
         PEpisode (memory_id ep) \<in> pending_targets (wdb w1))"
    using remember_tx_added by (fastforce simp: added_episode_def)
  moreover have "hnsw w1 = hnsw w" using h by (cases rule: handle_remember_cases) (use r in auto)
  ultimately show ?thesis
    using same_tables_trans [OF _ tabs] ev sel by (auto simp: w' emit_audit_frame)
qed

theorem remember_error_witness:
  "hnsw (snd (dispatch_remember sample_ops sample_env sample_episode
      (sample_embedding\<lparr>dtype := F16, dim := 2\<rparr>) None sample_writer)) = hnsw sample_writer"
proof -
  have "fst (dispatch_remember sample_ops sample_env sample_episode
      (sample_embedding\<lparr>dtype := F16, dim := 2\<rparr>) None sample_writer) = Inl Embedder"
    by (simp add: dispatch_remember_def handle_remember_durable_def
      remember_tx_def remember_item_def sample_env_def sample_writer_def sample_episode_def
      sample_embedding_def empty_db_def stmt_def insert_episode_def insert_embedding_def
      insert_pending_def redaction_audit_def remember_row_def embedding_row_of_def
      pending_row_of_def validate_def bytes_for_dim_def bytes_per_element_def check_quota_def
      item_growth_def sat_add_u64_def u64_max_def as_f32_slice_def Let_def)
  then obtain w' where "dispatch_remember sample_ops sample_env sample_episode
      (sample_embedding\<lparr>dtype := F16, dim := 2\<rparr>) None sample_writer = (Inl Embedder, w')"
    by (metis prod.collapse)
  from remember_error [OF this] this show ?thesis by simp
qed

section \<open>Batches\<close>

lemma remember_items_rows:
  "remember_items e w p i items d = Inr (d', ids) \<Longrightarrow>
   \<exists>rows. episodes d' = episodes d @ rows \<and> map er_memory_id rows = map fst ids \<and>
     map fst ids = map (memory_id \<circ> fst) items \<and>
     map er_content rows = map (\<lambda>x. fst (redact w (content (fst x)))) items \<and>
     map er_rowid rows = map snd ids \<and> (\<forall>r \<in> set rows. er_status r = Active)"
proof (induction items arbitrary: i d ids)
  case Nil
  then show ?case by simp
next
  case (Cons x items)
  obtain ep emb where x: "x = (ep, emb)" by (cases x)
  from Cons.prems obtain d1 rowid ids' where
    item: "remember_item e w p i ep emb d = Inr (d1, rowid)" and
    rest: "remember_items e w p (Suc i) items d1 = Inr (d', ids')" and
    ids: "ids = (memory_id ep, rowid) # ids'"
    by (auto simp: result_simps x)
  obtain rows where rows: "episodes d' = episodes d1 @ rows" "map er_memory_id rows = map fst ids'"
    "map fst ids' = map (memory_id \<circ> fst) items"
    "map er_content rows = map (\<lambda>x. fst (redact w (content (fst x)))) items"
    "map er_rowid rows = map snd ids'" "\<forall>r \<in> set rows. er_status r = Active"
    using Cons.IH [OF rest] by blast
  show ?case
    using rows remember_item_detail [OF item]
    by (intro exI [of _ "remember_row e p (fst (redact w (content ep))) ep rowid # rows"])
      (simp add: x ids remember_row_def)
qed

text \<open>
  A batch that replies success returns one id per item in the order of the items, has added
  exactly one active row per item, in that order and with the redacted text, and the batch had
  between 1 and 200 items.
\<close>

theorem batch_success:
  assumes "dispatch_remember_batch (hnsw_vindex lib) e items p w = (Inr ids, w')"
  shows "ids = map (memory_id \<circ> fst) items \<and> 1 \<le> length items \<and> length items \<le> 200 \<and>
     (\<exists>rows. episodes (wdb w') = episodes (wdb w) @ rows \<and> map er_memory_id rows = ids \<and>
        map er_content rows = map (\<lambda>x. fst (redact w (content (fst x)))) items \<and>
        (\<forall>r \<in> set rows. er_status r = Active))"
proof -
  obtain r w1 where h: "handle_remember_batch_durable (hnsw_vindex lib) e items p w = (r, w1)" by fastforce
  have drained: "episodes (wdb (drain_all e i ts v)) = episodes (wdb v)" for e i ts and v :: "HnswIndex writer"
    by (induction e i ts v rule: drain_all.induct) (simp_all add: drain_def)
  from h show ?thesis
  proof (cases rule: hnsw.handle_remember_batch_cases)
    case (early er)
    then show ?thesis using assms h by (simp add: dispatch_remember_batch_def)
  next
    case (added rids oks)
    obtain d1 where items: "remember_items e w p 0 items (wdb w) = Inr (d1, rids)" and
      d: "episodes (wdb w1) = episodes d1"
      using added(2) by (auto simp: remember_batch_tx_def result_simps) (metis insert_audit_sel(1))
    have "ids = map fst rids" "episodes (wdb w') = episodes (wdb w1)"
      using assms h added(1)
      by (auto simp: dispatch_remember_batch_def drained emit_invalidate_frame)
    then show ?thesis
      using remember_items_rows [OF items] d added(4,5)
      by (cases items) (auto simp: MAX_REMEMBER_BATCH_SIZE_def)
  qed
qed

lemmas writer_eval =
  remember_tx_def remember_item_def sample_env_def sample_writer_def sample_episode_def
  sample_embedding_def empty_db_def stmt_def insert_episode_def insert_embedding_def
  insert_pending_def redaction_audit_def insert_audit_def remember_row_def embedding_row_of_def
  pending_row_of_def validate_def bytes_for_dim_def bytes_per_element_def check_quota_def
  item_growth_def sat_add_u64_def u64_max_def as_f32_slice_def cast_f32_def hnsw_add_def
  hnsw_new_def episode_hnsw_id_def drain_def delete_pending_def note_remembered_def
  emit_invalidate_def Let_def

theorem batch_success_witness:
  "\<exists>w'. dispatch_remember_batch sample_ops sample_env [(sample_episode, sample_embedding)] None
          sample_writer = (Inr [5], w') \<and> map er_content (episodes (wdb w')) = [''hi'']"
proof -
  have "fst (dispatch_remember_batch sample_ops sample_env [(sample_episode, sample_embedding)] None
          sample_writer) = Inr [5]"
    by (simp add: dispatch_remember_batch_def handle_remember_batch_durable_def remember_batch_tx_def
        MAX_REMEMBER_BATCH_SIZE_def batch_growth_def drain_ids_def writer_eval)
  then obtain w' where run: "dispatch_remember_batch sample_ops sample_env
      [(sample_episode, sample_embedding)] None sample_writer = (Inr [5], w')"
    by (metis prod.collapse)
  obtain rows where rows: "episodes (wdb w') = episodes (wdb sample_writer) @ rows"
      "map er_content rows = map (\<lambda>x. fst (redact sample_writer (content (fst x)))) [(sample_episode, sample_embedding)]"
    using batch_success [OF run] by blast
  have "map er_content rows = [''hi'']" unfolding rows(2) by (simp add: sample_writer_def sample_episode_def)
  then have "map er_content (episodes (wdb w')) = [''hi'']"
    unfolding rows(1) by (simp add: sample_writer_def empty_db_def)
  with run show ?thesis by (intro exI conjI)
qed

section \<open>Quotas\<close>

text \<open>
  With a quota configured, a remember only succeeds when the size of the database file plus
  the estimated growth is at most the quota.
\<close>

theorem quota_respected:
  assumes "dispatch_remember ops e ep emb p w = (Inr mid, w')"
    and "quota_bytes w = Some q" "has_db_path w"
  shows "sat_add_u64 (case db_file_len e of None \<Rightarrow> 0 | Some n \<Rightarrow> n) (item_growth ep emb) \<le> q"
proof (rule ccontr)
  assume "\<not> ?thesis"
  then have "\<exists>c g. check_quota (quota_bytes w) (has_db_path w) (db_file_len e) (item_growth ep emb)
      = Exceeded c g q"
    using assms(2,3) by (simp add: check_quota_def Let_def)
  then have "\<exists>er w1. handle_remember_durable ops e ep emb p w = (Inl er, w1)"
    by (cases "validate emb") (auto simp: handle_remember_durable_def)
  then show False using assms(1) by (auto simp: dispatch_remember_def)
qed

theorem quota_respected_witness:
  "sat_add_u64 4096 (item_growth sample_episode sample_embedding) \<le> 8000"
proof -
  have "fst (dispatch_remember sample_ops sample_env sample_episode sample_embedding None sample_writer)
        = Inr 5"
    by (simp add: dispatch_remember_def handle_remember_durable_def writer_eval)
  then obtain w' where "dispatch_remember sample_ops sample_env sample_episode sample_embedding None
      sample_writer = (Inr 5, w')" by (metis prod.collapse)
  from quota_respected [OF this, of 8000] show ?thesis by (simp add: sample_env_def sample_writer_def)
qed

text \<open>
  A remember that would exceed the quota replies \<open>Forbidden\<close>, changes no table but the audit
  log and not the index, and writes two audit rows when they can be written: the forbidden one
  with the numbers, and an error one.
\<close>

theorem quota_rejection:
  assumes "validate emb = Inr ()"
    and "check_quota (quota_bytes w) (has_db_path w) (db_file_len e) (item_growth ep emb) = Exceeded c g q"
    and "\<And>k. \<not> fails e (SEmitBegin k)" "\<And>k. \<not> fails e (SEmitAudit k)" "\<And>k. \<not> fails e (SEmitCommit k)"
  shows "fst (dispatch_remember ops e ep emb p w) = Inl Forbidden \<and>
     wdb (snd (dispatch_remember ops e ep emb p w)) =
       (wdb w)\<lparr>audit := audit (wdb w) @
         [audit_event (emit_ms e) p MemoryRemember (Some (TMemory (memory_id ep))) AuditForbidden
            (Some (DQuota c g q)),
          audit_event (emit_ms e) p MemoryRemember (Some (TMemory (memory_id ep))) AuditError
            (Some (DError Forbidden))]\<rparr>"
  using assms
  by (simp add: dispatch_remember_def handle_remember_durable_def emit_audit_best_effort_def
      insert_audit_def)

theorem quota_rejection_witness:
  "fst (dispatch_remember sample_ops sample_env sample_episode sample_embedding None
      (sample_writer\<lparr>quota_bytes := Some 5000\<rparr>)) = Inl Forbidden"
  by (rule conjunct1 [OF quota_rejection [where c = 4096 and g = 2054 and q = 5000]])
    (simp_all add: sample_embedding_def validate_def bytes_for_dim_def bytes_per_element_def
      check_quota_def sample_env_def sample_writer_def sample_episode_def item_growth_def
      sat_add_u64_def u64_max_def)

section \<open>Forget and update\<close>

text \<open>
  After a successful forget every row with that id is forgotten and its id is no longer
  findable in the index.
\<close>

theorem forget_hides:
  assumes "dispatch_forget (hnsw_vindex lib) e mid reason p w = (Inr (), w')" "wf_db (wdb w)"
  shows "\<forall>row \<in> set (episodes (wdb w')). er_memory_id row = mid \<longrightarrow>
           er_status row = Forgotten \<and> ep_id row \<notin> hnsw_live (hnsw w')"
proof -
  let ?f = "\<lambda>r. if er_status r = Forgotten then r
                  else r\<lparr>er_status := Forgotten, er_updated_at_ms := now_ms e\<rparr>"
  obtain r w1 where h: "handle_forget (hnsw_vindex lib) e mid reason p w = (r, w1)" by fastforce
  from h show ?thesis
  proof (cases rule: hnsw_total.handle_forget_cases)
    case (early er)
    then show ?thesis using assms(1) h by (simp add: dispatch_forget_def dispatch_simple_def)
  next
    case (gone row)
    have w': "w' = emit_invalidate e MemoryForget ''episode'' w1"
      using assms(1) h gone(1) by (auto simp: dispatch_forget_def dispatch_simple_def)
    have eps: "episodes (wdb w') = map (\<lambda>r. if er_memory_id r = mid then ?f r else r) (episodes (wdb w))"
    proof -
      have "wdb w1 = insert_audit (audit_event (now_ms e) p MemoryForget (Some (TMemory mid)) AuditOk
          (Some (DReason reason))) (update_episode mid ?f (wdb w))"
        using gone(3) by (simp add: forget_tx_def result_simps)
      then show ?thesis by (simp add: w' emit_invalidate_frame update_episode_def)
    qed
    have row: "row \<in> set (episodes (wdb w))" "er_memory_id row = mid"
      using find_episode_Some [OF gone(2)] by simp_all
    have uniq: "r = row" if "r \<in> set (episodes (wdb w))" "er_memory_id r = mid" for r
      using assms(2) row that by (auto simp: wf_db_def distinct_map dest: inj_onD)
    have "er_status r = Forgotten \<and> ep_id r = ep_id row"
      if r: "r \<in> set (episodes (wdb w'))" "er_memory_id r = mid" for r
    proof -
      obtain r0 where r0: "r0 \<in> set (episodes (wdb w))" "r = (if er_memory_id r0 = mid then ?f r0 else r0)"
        using r(1) unfolding eps set_map image_iff by blast
      have "er_memory_id r0 = mid" using r(2) r0(2) by (simp split: if_splits)
      then have "r0 = row" using uniq r0(1) by blast
      then show ?thesis using r0(2) \<open>er_memory_id r0 = mid\<close> by (simp add: ep_id_def)
    qed
    then show ?thesis using gone(4) by (auto simp: w' emit_invalidate_frame)
  qed
qed

theorem forget_hides_witness:
  "er_status ` {row \<in> set (episodes (wdb (snd (dispatch_forget sample_ops sample_env 5 ''old'' None
     sample_after)))). er_memory_id row = 5} \<subseteq> {Forgotten}"
proof -
  have "fst (dispatch_forget sample_ops sample_env 5 ''old'' None sample_after) = Inr ()"
    by (simp add: sample_after_eq dispatch_forget_def dispatch_simple_def handle_forget_def forget_tx_def
        find_episode_def stmt_def sample_env_def empty_db_def remember_row_def sample_episode_def)
  then obtain w' where "dispatch_forget sample_ops sample_env 5 ''old'' None sample_after = (Inr (), w')"
    by (metis prod.collapse)
  moreover have "wdb sample_after = empty_db\<lparr>episodes := [remember_row sample_env None ''hi'' sample_episode 1],
      ep_seq := 1, embeddings := [embedding_row_of sample_env 5 1 sample_embedding],
      audit := [audit_event 1000 None MemoryRemember (Some (TMemory 5)) AuditOk None]\<rparr>"
    by (simp add: sample_after_eq)
  then have "wf_db (wdb sample_after)"
    by (simp add: wf_db_def empty_db_def remember_row_def)
  ultimately show ?thesis using forget_hides by fastforce
qed

text \<open>
  A forgotten memory cannot be changed: an update of it is refused before anything is
  written, with a conflict when no statement failed first.
\<close>

theorem update_forgotten_refused:
  assumes "find_episode (wdb w) mid = Some row" "er_status row = Forgotten"
  shows "(\<exists>er. fst (dispatch_update ops e mid raw emb p w) = Inl er) \<and>
         untouched w (snd (dispatch_update ops e mid raw emb p w)) \<and>
         (validate emb = Inr () \<and> as_f32_slice (aligned e) emb \<noteq> None \<and> trim raw \<noteq> [] \<and>
          \<not> fails e SBegin \<and> \<not> fails e SLookup \<longrightarrow>
          fst (dispatch_update ops e mid raw emb p w) = Inl Conflict)"
proof -
  have tx: "\<exists>er. update_tx e w p mid tt ms emb (wdb w) = Inl er" for tt ms
    using assms by (auto simp: update_tx_def stmt_def ok_or_def require_def)
  have tx2: "\<not> fails e SBegin \<Longrightarrow> \<not> fails e SLookup \<Longrightarrow> update_tx e w p mid tt ms emb (wdb w) = Inl Conflict"
    for tt ms using assms by (auto simp: update_tx_def stmt_def require_def)
  obtain r w1 where h: "handle_update_durable ops e mid raw emb p w = (r, w1)" by fastforce
  have "w1 = w \<and> (\<exists>er. r = Inl er)"
    using h by (cases rule: handle_update_cases) (metis tx sum.distinct(1))+
  moreover have "r = Inl Conflict" if "validate emb = Inr ()" "as_f32_slice (aligned e) emb \<noteq> None"
    "trim raw \<noteq> []" "\<not> fails e SBegin" "\<not> fails e SLookup"
    using h that tx2 by (auto simp: handle_update_durable_def Let_def split: prod.splits)
  ultimately show ?thesis using h by (auto simp: dispatch_update_def)
qed

theorem update_forgotten_refused_witness:
  "untouched (sample_writer\<lparr>wdb := empty_db\<lparr>episodes :=
       [(remember_row sample_env None ''hi'' sample_episode 1)\<lparr>er_status := Forgotten\<rparr>]\<rparr>\<rparr>)
     (snd (dispatch_update sample_ops sample_env 5 ''new'' sample_embedding None
       (sample_writer\<lparr>wdb := empty_db\<lparr>episodes :=
         [(remember_row sample_env None ''hi'' sample_episode 1)\<lparr>er_status := Forgotten\<rparr>]\<rparr>\<rparr>)))"
  by (rule conjunct1 [OF conjunct2 [OF update_forgotten_refused
        [where row = "(remember_row sample_env None ''hi'' sample_episode 1)\<lparr>er_status := Forgotten\<rparr>"]]])
    (simp_all add: find_episode_def remember_row_def sample_episode_def)

section \<open>Documents\<close>

text \<open>
  Ingesting a text that is stored already, under whatever path, replies with the existing
  document, adds no chunk, and changes no table but the audit log and not the index. This holds
  for a forgotten document too.
\<close>

theorem ingest_deduplicates:
  assumes "ingest_stat e path = Inr sz" "parse_file e path = Some doc" "\<not> fails e SLookup"
    and "\<nexists>c g q. check_quota (quota_bytes w) (has_db_path w) (db_file_len e) (sat_mul_u64 sz 2)
                 = Exceeded c g q"
    and "find (\<lambda>r. dr_content_hash r = sha256_hex e (pd_text doc)) (documents (wdb w)) = Some row"
  shows "fst (dispatch_ingest_document ops e path cfg p w) =
           Inr \<lparr>ir_doc_id = dr_doc_id row, ir_chunks_persisted = 0, ir_bytes_ingested = pd_byte_size doc,
                ir_text_chars = chars_count (pd_text doc), ir_extractor_name = pd_extractor_name doc,
                ir_extractor_version = pd_extractor_version doc, ir_deduped = True\<rparr> \<and>
         untouched w (snd (dispatch_ingest_document ops e path cfg p w))"
proof -
  have "handle_ingest_document_durable ops e path cfg p w = ingest_dedup e row doc p w"
    using assms by (simp add: handle_ingest_document_durable_def stmt_def split: QuotaDecision.split)
  then show ?thesis
    by (simp add: dispatch_ingest_document_def ingest_dedup_def ingest_report_def untouched_def
        emit_invalidate_frame emit_audit_frame)
qed

theorem ingest_deduplicates_witness:
  "untouched (sample_writer\<lparr>wdb := empty_db\<lparr>documents := [document_row_of sample_env ''b.txt''
      (the (parse_file sample_env ''b.txt'')) 1]\<rparr>\<rparr>)
    (snd (dispatch_ingest_document sample_ops sample_env ''a.txt'' default_config None
      (sample_writer\<lparr>wdb := empty_db\<lparr>documents := [document_row_of sample_env ''b.txt''
        (the (parse_file sample_env ''b.txt'')) 1]\<rparr>\<rparr>)))"
  by (rule conjunct2 [OF ingest_deduplicates [where sz = 12 and doc = "the (parse_file sample_env ''a.txt'')"
        and row = "document_row_of sample_env ''b.txt'' (the (parse_file sample_env ''b.txt'')) 1"]])
    (simp_all add: ingest_stat_def resolve_ingest_max_bytes_from_raw_def DEFAULT_INGEST_MAX_BYTES_def
      sample_env_def sample_writer_def check_quota_def sat_mul_u64_def sat_add_u64_def u64_max_def
      document_row_of_def)

lemma insert_chunk_items_rows:
  "insert_chunk_items e p did dt eid i items d = Inr (d', recs) \<Longrightarrow>
   \<exists>rows. chunks d' = chunks d @ rows \<and> length rows = length items \<and>
     map cr_content rows = map (cs_content \<circ> fst) items \<and>
     map cr_chunk_index rows = [i..<i + length items] \<and> (\<forall>r \<in> set rows. cr_doc_id r = did) \<and>
     documents d' = documents d"
proof (induction items arbitrary: i d recs)
  case Nil
  then show ?case by simp
next
  case (Cons x items)
  obtain c emb where x: "x = (c, emb)" by (cases x)
  from Cons.prems obtain d1 rowid recs' where
    item: "insert_chunk_item e p did dt eid i c emb d = Inr (d1, rowid)" and
    rest: "insert_chunk_items e p did dt eid (Suc i) items d1 = Inr (d', recs')"
    by (auto simp: result_simps x)
  have d1: "chunks d1 = chunks d @ [chunk_row_of e p did i c rowid]" "documents d1 = documents d"
    using item
    by (auto simp: insert_chunk_item_def result_simps insert_chunk_def insert_chunk_embedding_def
        insert_pending_def Let_def split: if_splits)
  obtain rows where rows: "chunks d' = chunks d1 @ rows" "length rows = length items"
    "map cr_content rows = map (cs_content \<circ> fst) items"
    "map cr_chunk_index rows = [Suc i..<Suc i + length items]" "\<forall>r \<in> set rows. cr_doc_id r = did"
    "documents d' = documents d1"
    using Cons.IH [OF rest] by blast
  show ?case
    using rows d1
    by (intro exI [of _ "chunk_row_of e p did i c rowid # rows"])
      (simp add: x chunk_row_of_def upt_conv_Cons del: upt_Suc)
qed

lemma redact_chunks_contents:
  "map cs_content (fst (redact_chunks red cs counts)) = map (\<lambda>c. fst (red (cs_content c))) cs"
  by (induction red cs counts rule: redact_chunks.induct) (auto split: prod.splits)

lemma ingest_prepare_shape:
  assumes "ingest_prepare w cs = Inr plan"
  shows "map cs_content (ip_chunks plan) = map (\<lambda>c. fst (redact w (cs_content c))) cs"
    and "length (ip_embeddings plan) = length (ip_chunks plan)"
proof -
  obtain cs' counts where red: "redact_chunks (redact w) cs [] = (cs', counts)" by fastforce
  with assms obtain embed_batch dt eid embs where "embed_chunks embed_batch cs' = Inr embs"
    "plan = \<lparr>ip_chunks = cs', ip_counts = counts, ip_embeddings = embs, ip_dtype = dt, ip_embedder_id = eid\<rparr>"
    by (auto simp: ingest_prepare_def result_simps)
  with red show "map cs_content (ip_chunks plan) = map (\<lambda>c. fst (redact w (cs_content c))) cs"
    and "length (ip_embeddings plan) = length (ip_chunks plan)"
    using redact_chunks_contents [of "redact w" cs "[]"]
    by (auto simp: embed_chunks_def split: sum.splits if_splits)
qed

text \<open>
  An ingest of a new text that replies success has stored an active document, and its chunks
  in the order of the chunker, each with the redacted content, numbered from 0.
\<close>

theorem ingest_success:
  assumes "dispatch_ingest_document ops e path cfg p w = (Inr rep, w')" "\<not> ir_deduped rep"
  shows "\<exists>doc rows. parse_file e path = Some doc \<and> doc_active (wdb w') (ir_doc_id rep) \<and>
           chunks (wdb w') = chunks (wdb w) @ rows \<and>
           map cr_content rows = map (\<lambda>c. fst (redact w (cs_content c))) (the (chunk_text (pd_text doc) cfg)) \<and>
           map cr_chunk_index rows = [0..<length rows] \<and> (\<forall>r \<in> set rows. cr_doc_id r = ir_doc_id rep)"
proof -
  obtain r drained w1 where h: "handle_ingest_document_durable ops e path cfg p w = ((r, drained), w1)"
    by (metis prod.exhaust)
  have r: "r = Inr rep" and w': "w' = drain_all e 0 (map PChunk drained)
                        (emit_invalidate e MemoryIngestDocument ''document'' w1)"
    using assms(1) h by (auto simp: dispatch_ingest_document_def split: sum.splits)
  obtain doc where doc: "parse_file e path = Some doc" and
    new: "ingest_new ops e path doc (the (chunk_text (pd_text doc) cfg)) p w = ((Inr rep, drained), w1)"
    using h r assms(2)
    by (auto simp: handle_ingest_document_durable_def Let_def ingest_dedup_def ingest_report_def
        split: sum.splits option.splits QuotaDecision.splits)
  obtain plan recs where prep: "ingest_prepare w (the (chunk_text (pd_text doc) cfg)) = Inr plan" and
    tx: "ingest_tx e p path doc plan (wdb w) = Inr (wdb w1, recs)" and id: "ir_doc_id rep = fresh_doc_id e"
    using new by (auto simp: ingest_new_def Let_def ingest_report_def split: sum.splits prod.splits)
  let ?n = "length (ip_chunks plan) mod 2 ^ 32"
  from tx obtain d1 d2 where
    1: "insert_document (document_row_of e path doc ?n) (wdb w) = Inr d1" and
    2: "insert_chunk_items e p (fresh_doc_id e) (ip_dtype plan) (ip_embedder_id plan) 0
          (zip (ip_chunks plan) (ip_embeddings plan)) d1 = Inr (d2, recs)" and
    3: "same_core d2 (wdb w1)"
    by (rule ingest_tx_steps)
  have d1: "chunks d1 = chunks (wdb w)" "documents d1 = documents (wdb w) @ [document_row_of e path doc ?n]"
    using 1 by (auto simp: insert_document_def split: if_splits)
  obtain rows where rows: "chunks d2 = chunks d1 @ rows"
    "length rows = length (zip (ip_chunks plan) (ip_embeddings plan))"
    "map cr_content rows = map (cs_content \<circ> fst) (zip (ip_chunks plan) (ip_embeddings plan))"
    "map cr_chunk_index rows = [0..<length (zip (ip_chunks plan) (ip_embeddings plan))]"
    "\<forall>r \<in> set rows. cr_doc_id r = fresh_doc_id e" "documents d2 = documents d1"
    using insert_chunk_items_rows [OF 2] by auto
  note shape = ingest_prepare_shape [OF prep]
  have "map cr_content rows = map cs_content (ip_chunks plan)"
    unfolding rows(3) using shape(2) by (simp flip: map_map)
  moreover have sel: "chunks (wdb w') = chunks (wdb w1)" "documents (wdb w') = documents (wdb w1)"
  proof -
    have "chunks (wdb (drain_all e i ts v)) = chunks (wdb v) \<and>
          documents (wdb (drain_all e i ts v)) = documents (wdb v)" for i ts and v :: "'a writer"
      by (induction e i ts v rule: drain_all.induct) (simp_all add: drain_def)
    then show "chunks (wdb w') = chunks (wdb w1)" "documents (wdb w') = documents (wdb w1)"
      by (simp_all add: w' emit_invalidate_frame)
  qed
  moreover have "doc_active (wdb w') (fresh_doc_id e)"
    using sel d1 rows(6) 3 by (auto simp: doc_active_def same_core_def document_row_of_def)
  ultimately show ?thesis
    using doc id rows shape(1) d1 3 by (intro exI [of _ doc] exI [of _ rows]) (simp add: same_core_def)
qed

lemma hello_chunks:
  "the (chunk_text ''hello world'' default_config) =
     [\<lparr>cs_content = ''hello world'', start_offset = 0, end_offset = 11, token_count = 2\<rparr>]"
  by code_simp

theorem ingest_success_witness:
  "map cr_content (chunks (wdb (snd (dispatch_ingest_document sample_ops sample_env ''a.txt''
      default_config None sample_writer)))) = [''hello world'']"
proof -
  have "\<exists>rep. fst (dispatch_ingest_document sample_ops sample_env ''a.txt'' default_config None sample_writer)
         = Inr rep \<and> \<not> ir_deduped rep"
    by (simp add: dispatch_ingest_document_def handle_ingest_document_durable_def ingest_stat_def
      resolve_ingest_max_bytes_from_raw_def DEFAULT_INGEST_MAX_BYTES_def sat_mul_u64_def
      ingest_new_def ingest_prepare_def ingest_wiring_def embed_chunks_def ingest_tx_def
      insert_document_def insert_chunk_item_def insert_chunk_def insert_chunk_embedding_def
      chunk_row_of_def document_row_of_def ingest_report_def hello_chunks add_counts_def writer_eval)
  then obtain rep w' where run: "dispatch_ingest_document sample_ops sample_env ''a.txt'' default_config None
      sample_writer = (Inr rep, w')" "\<not> ir_deduped rep"
    by (metis prod.collapse)
  obtain doc rows where "parse_file sample_env ''a.txt'' = Some doc"
    "chunks (wdb w') = chunks (wdb sample_writer) @ rows"
    "map cr_content rows = map (\<lambda>c. fst (redact sample_writer (cs_content c)))
       (the (chunk_text (pd_text doc) default_config))"
    using ingest_success [OF run] by metis
  then have "map cr_content (chunks (wdb w')) = [''hello world'']"
    by (auto simp: sample_writer_def sample_env_def empty_db_def hello_chunks)
  with run(1) show ?thesis by simp
qed

end
