(* ===== verification/Recovery.thy ===== *)
theory Recovery
  imports WriterFacts
begin

text \<open>
  What runs at startup on the tables and the index: the replay of the outbox, the rebuild from
  the stored embeddings, the drift report (\<open>crates/solo-storage/src/recovery.rs\<close>), the
  tombstones (\<open>hnsw_rebuild.rs\<close>) and their order (\<open>startup.rs\<close>). The SQL queries are list
  comprehensions over the tables; the environment says which statements fail.
\<close>

section \<open>The environment\<close>

datatype recovery_step =
    RSelectEpisodes | RSelectChunks | RDelete ptarget | RGcEpisodes | RGcChunks
  | RRebuildEpisodes | RRebuildChunks | RDecodeEpisode nat | RDecodeChunk nat | RProbeDocuments
  | RCountEpisodes | RCountChunks | RForgottenEpisodes | RForgottenChunks

record renv =
  rfails :: "recovery_step \<Rightarrow> bool"
  raligned :: "bytes \<Rightarrow> bool"
  has_documents :: bool

section \<open>Replay\<close>

record ReplayReport =
  rows_seen :: nat
  rows_replayed :: nat
  rows_failed :: nat

type_synonym outbox_row = "ptarget \<times> i64 \<times> bytes \<times> nat"

text \<open>The two selects: the pending rows of active targets, in the order they were enqueued.\<close>

definition pending_episode_rows :: "db \<Rightarrow> outbox_row list" where
  "pending_episode_rows d =
     concat (map (\<lambda>p. case pe_target p of
         PChunk _ \<Rightarrow> []
       | PEpisode mid \<Rightarrow>
           (case find_episode d mid of
              None \<Rightarrow> []
            | Some r \<Rightarrow> if er_status r = Active
                        then [(PEpisode mid, ep_id r, pe_embedding p, pe_dim p)] else []))
       (sort_key pe_enqueued_at (pending d)))"

definition find_chunk :: "db \<Rightarrow> chunk_id \<Rightarrow> chunk_row option" where
  "find_chunk d cid = find (\<lambda>c. cr_chunk_id c = cid) (chunks d)"

definition pending_chunk_rows :: "db \<Rightarrow> outbox_row list" where
  "pending_chunk_rows d =
     concat (map (\<lambda>p. case pe_target p of
         PEpisode _ \<Rightarrow> []
       | PChunk cid \<Rightarrow>
           (case find_chunk d cid of
              None \<Rightarrow> []
            | Some c \<Rightarrow> if doc_active d (cr_doc_id c)
                        then [(PChunk cid, ch_id c, pe_embedding p, pe_dim p)] else []))
       (sort_key pe_enqueued_at (pending d)))"

definition failed_row :: "ReplayReport \<Rightarrow> ReplayReport" where
  "failed_row rep = rep\<lparr>rows_seen := rows_seen rep + 1, rows_failed := rows_failed rep + 1\<rparr>"

definition replay_row ::
  "('i, 'd) vindex \<Rightarrow> renv \<Rightarrow> outbox_row \<Rightarrow> db \<times> 'i \<times> ReplayReport \<Rightarrow> db \<times> 'i \<times> ReplayReport" where
  "replay_row ops e = (\<lambda>(t, hid, blob, d) (tabs, i, rep).
     if length blob \<noteq> d * 4 then (tabs, i, failed_row rep)
     else case cast_f32 (raligned e) blob of
       None \<Rightarrow> (tabs, i, failed_row rep)
     | Some v \<Rightarrow>
         (case vi_add ops i hid v of
            Inl _ \<Rightarrow> (tabs, i, failed_row rep)
          | Inr i' \<Rightarrow>
              if rfails e (RDelete t) then (tabs, i', failed_row rep)
              else (delete_pending t tabs, i',
                    rep\<lparr>rows_seen := rows_seen rep + 1, rows_replayed := rows_replayed rep + 1\<rparr>)))"

definition replay_rows ::
  "('i, 'd) vindex \<Rightarrow> renv \<Rightarrow> outbox_row list \<Rightarrow> db \<times> 'i \<times> ReplayReport \<Rightarrow> db \<times> 'i \<times> ReplayReport" where
  "replay_rows ops e rows s = fold (replay_row ops e) rows s"

text \<open>The rows whose target is no longer active would be replayed at every startup: they go.\<close>

definition gc_episodes :: "db \<Rightarrow> db" where
  "gc_episodes d = d\<lparr>pending := filter (\<lambda>p. case pe_target p of
       PEpisode mid \<Rightarrow> (\<exists>r \<in> set (episodes d). er_memory_id r = mid \<and> er_status r = Active)
     | PChunk _ \<Rightarrow> True) (pending d)\<rparr>"

definition gc_chunks :: "db \<Rightarrow> db" where
  "gc_chunks d = d\<lparr>pending := filter (\<lambda>p. case pe_target p of
       PEpisode _ \<Rightarrow> True
     | PChunk cid \<Rightarrow> (\<exists>c \<in> set (chunks d). cr_chunk_id c = cid \<and> doc_active d (cr_doc_id c)))
       (pending d)\<rparr>"

definition replay_pending_index ::
  "('i, 'd) vindex \<Rightarrow> renv \<Rightarrow> db \<Rightarrow> 'i \<Rightarrow> (db \<times> 'i \<times> ReplayReport) result" where
  "replay_pending_index ops e d i =
     (if rfails e RSelectEpisodes then Inl Storage
      else if rfails e RSelectChunks then Inl Storage
      else
        let (d1, i1, rep) = replay_rows ops e (pending_episode_rows d @ pending_chunk_rows d)
              (d, i, \<lparr>rows_seen = 0, rows_replayed = 0, rows_failed = 0\<rparr>);
            d2 = (if rfails e RGcEpisodes then d1 else gc_episodes d1);
            d3 = (if rfails e RGcChunks then d2 else gc_chunks d2)
        in Inr (d3, i1, rep))"

section \<open>Rebuild\<close>

record RebuildReport =
  rb_seen :: nat
  rb_added :: nat
  rb_skipped :: nat
  rb_episodes_seen :: nat
  rb_episodes_added :: nat
  rb_chunks_seen :: nat
  rb_chunks_added :: nat

definition empty_rebuild :: RebuildReport where
  "empty_rebuild = \<lparr>rb_seen = 0, rb_added = 0, rb_skipped = 0, rb_episodes_seen = 0,
     rb_episodes_added = 0, rb_chunks_seen = 0, rb_chunks_added = 0\<rparr>"

definition rebuild_episode_rows :: "db \<Rightarrow> nat \<Rightarrow> (nat \<times> bytes \<times> nat) list" where
  "rebuild_episode_rows d eid =
     concat (map (\<lambda>r. map (\<lambda>m. (er_rowid r, em_vector m, em_dim m))
         (filter (\<lambda>m. em_memory_id m = er_memory_id r \<and> em_embedder_id m = eid) (embeddings d)))
       (sort_key er_rowid (filter (\<lambda>r. er_status r = Active) (episodes d))))"

definition rebuild_chunk_rows :: "db \<Rightarrow> nat \<Rightarrow> (nat \<times> bytes \<times> nat) list" where
  "rebuild_chunk_rows d eid =
     concat (map (\<lambda>c. map (\<lambda>m. (cr_rowid c, ce_vector m, ce_dim m))
         (filter (\<lambda>m. ce_chunk_id m = cr_chunk_id c \<and> ce_embedder_id m = eid) (chunk_embeddings d)))
       (sort_key cr_rowid (filter (\<lambda>c. doc_active d (cr_doc_id c)) (chunks d))))"

text \<open>\<open>None\<close> is a skipped row.\<close>

definition add_rebuild_row :: "('i, 'd) vindex \<Rightarrow> renv \<Rightarrow> i64 \<Rightarrow> bytes \<Rightarrow> nat \<Rightarrow> 'i \<Rightarrow> 'i option" where
  "add_rebuild_row ops e hid blob dm i =
     (if length blob \<noteq> dm * 4 then None
      else case cast_f32 (raligned e) blob of
        None \<Rightarrow> None
      | Some v \<Rightarrow> ok_opt (vi_add ops i hid v))"

definition rebuild_episode ::
  "('i, 'd) vindex \<Rightarrow> renv \<Rightarrow> nat \<times> bytes \<times> nat \<Rightarrow> 'i \<times> RebuildReport \<Rightarrow> 'i \<times> RebuildReport" where
  "rebuild_episode ops e = (\<lambda>(rowid, blob, dm) (i, rep).
     let rep1 = rep\<lparr>rb_seen := rb_seen rep + 1, rb_episodes_seen := rb_episodes_seen rep + 1\<rparr> in
     case (if rfails e (RDecodeEpisode rowid) then None
           else add_rebuild_row ops e (episode_hnsw_id (of_nat rowid)) blob dm i) of
       None \<Rightarrow> (i, rep1\<lparr>rb_skipped := rb_skipped rep1 + 1\<rparr>)
     | Some i' \<Rightarrow> (i', rep1\<lparr>rb_added := rb_added rep1 + 1,
                          rb_episodes_added := rb_episodes_added rep1 + 1\<rparr>))"

definition rebuild_chunk ::
  "('i, 'd) vindex \<Rightarrow> renv \<Rightarrow> nat \<times> bytes \<times> nat \<Rightarrow> 'i \<times> RebuildReport \<Rightarrow> 'i \<times> RebuildReport" where
  "rebuild_chunk ops e = (\<lambda>(rowid, blob, dm) (i, rep).
     let rep1 = rep\<lparr>rb_seen := rb_seen rep + 1, rb_chunks_seen := rb_chunks_seen rep + 1\<rparr> in
     case (if rfails e (RDecodeChunk rowid) then None
           else add_rebuild_row ops e (chunk_hnsw_id (of_nat rowid)) blob dm i) of
       None \<Rightarrow> (i, rep1\<lparr>rb_skipped := rb_skipped rep1 + 1\<rparr>)
     | Some i' \<Rightarrow> (i', rep1\<lparr>rb_added := rb_added rep1 + 1, rb_chunks_added := rb_chunks_added rep1 + 1\<rparr>))"

definition documents_tables_present :: "renv \<Rightarrow> bool result" where
  "documents_tables_present e = (if rfails e RProbeDocuments then Inl Storage else Inr (has_documents e))"

definition rebuild_hnsw_from_sql ::
  "('i, 'd) vindex \<Rightarrow> renv \<Rightarrow> db \<Rightarrow> nat \<Rightarrow> 'i \<Rightarrow> ('i \<times> RebuildReport) result" where
  "rebuild_hnsw_from_sql ops e d eid i =
     (if rfails e RRebuildEpisodes then Inl Storage
      else
        let s1 = fold (rebuild_episode ops e) (rebuild_episode_rows d eid) (i, empty_rebuild) in
        bind_r (documents_tables_present e) (\<lambda>present.
        if \<not> present then Inr s1
        else if rfails e RRebuildChunks then Inl Storage
        else Inr (fold (rebuild_chunk ops e) (rebuild_chunk_rows d eid) s1)))"

section \<open>Tombstones and drift\<close>

fun remove_ids :: "('i, 'd) vindex \<Rightarrow> i64 list \<Rightarrow> 'i \<Rightarrow> 'i result" where
  "remove_ids ops [] i = Inr i"
| "remove_ids ops (r # rs) i = bind_r (vi_remove ops i r) (remove_ids ops rs)"

definition rebuild_episode_tombstones_from_sql ::
  "('i, 'd) vindex \<Rightarrow> renv \<Rightarrow> db \<Rightarrow> 'i \<Rightarrow> ('i \<times> nat) result" where
  "rebuild_episode_tombstones_from_sql ops e d i =
     (if rfails e RForgottenEpisodes then Inl Storage
      else let ids = map ep_id (filter (\<lambda>r. er_status r = Forgotten) (episodes d))
           in bind_r (remove_ids ops ids i) (\<lambda>i'. Inr (i', length ids)))"

definition doc_forgotten :: "db \<Rightarrow> document_id \<Rightarrow> bool" where
  "doc_forgotten d did = (\<exists>r \<in> set (documents d). dr_doc_id r = did \<and> dr_status r = Forgotten)"

definition rebuild_chunk_tombstones_from_sql ::
  "('i, 'd) vindex \<Rightarrow> renv \<Rightarrow> db \<Rightarrow> 'i \<Rightarrow> ('i \<times> nat) result" where
  "rebuild_chunk_tombstones_from_sql ops e d i =
     (if rfails e RForgottenChunks then Inl Storage
      else let ids = map ch_id (filter (\<lambda>c. doc_forgotten d (cr_doc_id c)) (chunks d))
           in bind_r (remove_ids ops ids i) (\<lambda>i'. Inr (i', length ids)))"

record DriftReport =
  hot_episodes :: nat
  active_chunks :: nat
  index_len :: nat
  drift_diff :: int

definition expected_index_len :: "DriftReport \<Rightarrow> nat" where
  "expected_index_len r = hot_episodes r + active_chunks r"

definition drift_is_clean :: "DriftReport \<Rightarrow> bool" where
  "drift_is_clean r = (drift_diff r = 0)"

definition detect_drift :: "('i, 'd) vindex \<Rightarrow> renv \<Rightarrow> db \<Rightarrow> 'i \<Rightarrow> DriftReport result" where
  "detect_drift ops e d i =
     (if rfails e RCountEpisodes then Inl Storage
      else
        let hot = length (filter (\<lambda>r. er_tier r = Hot \<and> er_status r = Active) (episodes d)) in
        bind_r (documents_tables_present e) (\<lambda>present.
        bind_r (if \<not> present then Inr 0
                else if rfails e RCountChunks then Inl Storage
                else Inr (length (filter (\<lambda>c. doc_active d (cr_doc_id c)) (chunks d)))) (\<lambda>chunk_n.
        let n = vi_len ops i
        in Inr \<lparr>hot_episodes = hot, active_chunks = chunk_n, index_len = n,
                drift_diff = int (hot + chunk_n) - int n\<rparr>)))"

section \<open>Startup\<close>

text \<open>Live pair, then the backup pair, then a fresh index: index, backup used, started fresh.\<close>

definition load_hnsw_with_fallback :: "'i result \<Rightarrow> 'i result \<Rightarrow> 'i \<Rightarrow> 'i \<times> bool \<times> bool" where
  "load_hnsw_with_fallback live bak fresh =
     (case live of
        Inr idx \<Rightarrow> (idx, False, False)
      | Inl _ \<Rightarrow> (case bak of Inr idx \<Rightarrow> (idx, True, False) | Inl _ \<Rightarrow> (fresh, False, True)))"

record 'i StartupOutcome =
  so_hnsw :: 'i
  so_db :: db
  so_replay :: ReplayReport
  so_drift :: DriftReport
  so_used_bak :: bool
  so_started_fresh :: bool
  so_rebuild :: RebuildReport

text \<open>Steps 4 to 8 of \<open>startup::run\<close>, from the loaded snapshots to the drift report.\<close>

definition startup_index ::
  "('i, 'd) vindex \<Rightarrow> renv \<Rightarrow> nat \<Rightarrow> nat \<Rightarrow> 'i result \<Rightarrow> 'i result \<Rightarrow> 'i \<Rightarrow> db \<Rightarrow> 'i StartupOutcome result"
where
  "startup_index ops e dm eid live bak fresh d =
     (let (i0, used_bak, started_fresh) = load_hnsw_with_fallback live bak fresh in
      bind_r (require (started_fresh \<or> vi_dim ops i0 = dm) Storage) (\<lambda>_.
      bind_r (if started_fresh then rebuild_hnsw_from_sql ops e d eid i0
              else Inr (i0, empty_rebuild)) (\<lambda>(i1, rebuild).
      bind_r (if started_fresh then Inr i1
              else bind_r (rebuild_episode_tombstones_from_sql ops e d i1) (\<lambda>(i2, _).
                   bind_r (rebuild_chunk_tombstones_from_sql ops e d i2) (\<lambda>(i3, _). Inr i3))) (\<lambda>i2.
      bind_r (replay_pending_index ops e d i2) (\<lambda>(d', i3, replay).
      bind_r (detect_drift ops e d' i3) (\<lambda>drift.
      Inr \<lparr>so_hnsw = i3, so_db = d', so_replay = replay, so_drift = drift, so_used_bak = used_bak,
           so_started_fresh = started_fresh, so_rebuild = rebuild\<rparr>))))))"

section \<open>Facts\<close>

lemma find_chunk_Some: "find_chunk d cid = Some c \<Longrightarrow> c \<in> set (chunks d) \<and> cr_chunk_id c = cid"
  by (auto simp: find_chunk_def dest: find_Some_in)

text \<open>A selected row is that of an active target of the outbox.\<close>

definition target_row :: "db \<Rightarrow> outbox_row \<Rightarrow> bool" where
  "target_row d x =
     (case fst x of
        PEpisode mid \<Rightarrow> (\<exists>r \<in> set (episodes d). er_memory_id r = mid \<and> er_status r = Active \<and>
                           fst (snd x) = ep_id r)
      | PChunk cid \<Rightarrow> (\<exists>c \<in> set (chunks d). cr_chunk_id c = cid \<and> doc_active d (cr_doc_id c) \<and>
                         fst (snd x) = ch_id c))"

lemma pending_rows_target:
  "x \<in> set (pending_episode_rows d @ pending_chunk_rows d) \<Longrightarrow> target_row d x"
  by (auto simp: pending_episode_rows_def pending_chunk_rows_def target_row_def
      split: ptarget.splits option.splits if_splits
      dest!: find_episode_Some [OF sym] find_chunk_Some [OF sym])

lemma target_row_cong:
  "episodes d' = episodes d \<Longrightarrow> chunks d' = chunks d \<Longrightarrow> documents d' = documents d \<Longrightarrow>
   target_row d' x = target_row d x"
  by (simp add: target_row_def doc_active_def split: ptarget.split)

lemma target_row_active: "target_row d x \<Longrightarrow> fst (snd x) \<in> active_ids d"
  by (auto simp: target_row_def active_ids_epI active_ids_chI split: ptarget.splits)

lemma outbox_delete_target:
  "outbox_ok L d \<Longrightarrow> wf_db d \<Longrightarrow> target_row d x \<Longrightarrow> fst (snd x) \<in> L \<Longrightarrow>
   outbox_ok L (delete_pending (fst x) d)"
  by (auto simp: target_row_def intro: outbox_delete_episode outbox_delete_chunk split: ptarget.splits)

lemma gc_sel [simp]:
  "episodes (gc_episodes d) = episodes d" "chunks (gc_episodes d) = chunks d"
  "documents (gc_episodes d) = documents d" "episodes (gc_chunks d) = episodes d"
  "chunks (gc_chunks d) = chunks d" "documents (gc_chunks d) = documents d"
  by (simp_all add: gc_episodes_def gc_chunks_def)

lemma gc_wf: "wf_db d \<Longrightarrow> wf_db (gc_episodes d)" "wf_db d \<Longrightarrow> wf_db (gc_chunks d)"
  by (auto simp: wf_db_def gc_episodes_def gc_chunks_def intro: distinct_map_filter)

lemma gc_active:
  "active_ids (gc_episodes d) = active_ids d" "active_ids (gc_chunks d) = active_ids d"
  by (simp_all add: active_ids_def doc_active_def)

lemma gc_episodes_targets:
  "t \<in> pending_targets (gc_episodes d) \<longleftrightarrow> t \<in> pending_targets d \<and>
     (case t of PEpisode mid \<Rightarrow> (\<exists>r \<in> set (episodes d). er_memory_id r = mid \<and> er_status r = Active)
      | PChunk _ \<Rightarrow> True)"
  unfolding pending_targets_def gc_episodes_def by auto

lemma gc_chunks_targets:
  "t \<in> pending_targets (gc_chunks d) \<longleftrightarrow> t \<in> pending_targets d \<and>
     (case t of PEpisode _ \<Rightarrow> True
      | PChunk cid \<Rightarrow> (\<exists>c \<in> set (chunks d). cr_chunk_id c = cid \<and> doc_active d (cr_doc_id c)))"
  unfolding pending_targets_def gc_chunks_def by auto

lemmas gc_targets = gc_episodes_targets gc_chunks_targets

lemma gc_outbox:
  "outbox_ok L d \<Longrightarrow> outbox_ok L (gc_episodes d)" "outbox_ok L d \<Longrightarrow> outbox_ok L (gc_chunks d)"
  unfolding outbox_ok_def gc_targets by (auto simp: doc_active_def)

context vector_index
begin

lemma replay_row_inv:
  assumes "replay_row ops e x (d, i, rep) = (d', i', rep')" "target_row d x" "wf_db d"
  shows "wf_db d'" "outbox_ok (live i) d \<Longrightarrow> outbox_ok (live i') d'"
    and "live i \<subseteq> live i'" "live i' \<subseteq> insert (fst (snd x)) (live i)"
    and "episodes d' = episodes d" "chunks d' = chunks d" "documents d' = documents d"
    and "rows_seen rep' = rows_seen rep + 1"
    and "rows_replayed rep' + rows_failed rep' = rows_replayed rep + rows_failed rep + 1"
proof -
  obtain t hid blob dm where x: "x = (t, hid, blob, dm)" by (cases x)
  have "d' = d \<and> i' = i \<and> rep' = failed_row rep \<or>
        (\<exists>v. vi_add ops i hid v = Inr i' \<and> d' = d \<and> rep' = failed_row rep) \<or>
        (\<exists>v. vi_add ops i hid v = Inr i' \<and> d' = delete_pending t d \<and>
             rep' = rep\<lparr>rows_seen := rows_seen rep + 1, rows_replayed := rows_replayed rep + 1\<rparr>)"
    using assms(1) by (auto simp: replay_row_def x split: if_splits option.splits sum.splits)
  then consider (skip) "d' = d" "i' = i" "rep' = failed_row rep"
    | (kept) v where "vi_add ops i hid v = Inr i'" "d' = d" "rep' = failed_row rep"
    | (drained) v where "vi_add ops i hid v = Inr i'" "d' = delete_pending t d"
        "rep' = rep\<lparr>rows_seen := rows_seen rep + 1, rows_replayed := rows_replayed rep + 1\<rparr>"
    by blast
  note cs = this
  show "wf_db d'" using cs assms(3) by cases (auto simp: delete_pending_wf)
  show sub: "live i \<subseteq> live i'" using cs by cases (auto simp: live_add)
  show "live i' \<subseteq> insert (fst (snd x)) (live i)" using cs by cases (auto simp: live_add x)
  show "outbox_ok (live i) d \<Longrightarrow> outbox_ok (live i') d'"
    using cs
  proof cases
    case drained
    then show "outbox_ok (live i) d \<Longrightarrow> ?thesis"
      using outbox_delete_target [of "live i'" d x] outbox_mono [of "live i" d "live i'"] assms(2,3) sub
        live_add [OF drained(1)] by (simp add: x)
  qed (use sub outbox_mono in auto)
  show "episodes d' = episodes d" "chunks d' = chunks d" "documents d' = documents d"
    using cs by (cases; simp)+
  show "rows_seen rep' = rows_seen rep + 1"
    and "rows_replayed rep' + rows_failed rep' = rows_replayed rep + rows_failed rep + 1"
    using cs by (cases; simp add: failed_row_def)+
qed

lemma replay_rows_inv:
  "replay_rows ops e rows (d, i, rep) = (d', i', rep') \<Longrightarrow> \<forall>x \<in> set rows. target_row d x \<Longrightarrow> wf_db d \<Longrightarrow>
   wf_db d' \<and> (outbox_ok (live i) d \<longrightarrow> outbox_ok (live i') d') \<and> live i \<subseteq> live i' \<and>
   live i' \<subseteq> (fst \<circ> snd) ` set rows \<union> live i \<and>
   episodes d' = episodes d \<and> chunks d' = chunks d \<and> documents d' = documents d \<and>
   rows_seen rep' = rows_seen rep + length rows \<and>
   rows_replayed rep' + rows_failed rep' = rows_replayed rep + rows_failed rep + length rows"
proof (induction rows arbitrary: d i rep)
  case Nil
  then show ?case by (simp add: replay_rows_def)
next
  case (Cons x rows)
  obtain d1 i1 rep1 where 1: "replay_row ops e x (d, i, rep) = (d1, i1, rep1)" by (metis prod.exhaust)
  have rest: "replay_rows ops e rows (d1, i1, rep1) = (d', i', rep')"
    using Cons.prems(1) 1 by (simp add: replay_rows_def)
  have t: "target_row d x" using Cons.prems(2) by simp
  note s = replay_row_inv [OF 1 t Cons.prems(3)]
  have "\<forall>y \<in> set rows. target_row d1 y" using Cons.prems(2) target_row_cong [OF s(5-7)] by simp
  note IH = Cons.IH [OF rest this s(1)]
  show ?case using IH s by auto
qed

lemma replay_inv:
  assumes "replay_pending_index ops e d i = Inr (d', i', rep)" "wf_db d"
  shows "wf_db d'" "outbox_ok (live i) d \<Longrightarrow> outbox_ok (live i') d'"
    and "live i \<subseteq> live i'" "live i' \<subseteq> live i \<union> active_ids d" "active_ids d' = active_ids d"
    and "rows_replayed rep + rows_failed rep = rows_seen rep"
proof -
  let ?rows = "pending_episode_rows d @ pending_chunk_rows d"
  obtain d1 where r: "replay_rows ops e ?rows (d, i, \<lparr>rows_seen = 0, rows_replayed = 0, rows_failed = 0\<rparr>)
      = (d1, i', rep)" and
    d': "d' = (let d2 = (if rfails e RGcEpisodes then d1 else gc_episodes d1)
               in if rfails e RGcChunks then d2 else gc_chunks d2)"
    using assms(1) by (auto simp: replay_pending_index_def Let_def split: if_splits prod.splits)
  have t: "\<forall>x \<in> set ?rows. target_row d x" using pending_rows_target by blast
  note s = replay_rows_inv [OF r t assms(2)]
  have ids: "(fst \<circ> snd) ` set ?rows \<subseteq> active_ids d" using t target_row_active by fastforce
  show "wf_db d'" using s by (auto simp: d' Let_def gc_wf)
  show "outbox_ok (live i) d \<Longrightarrow> outbox_ok (live i') d'" using s by (auto simp: d' Let_def gc_outbox)
  show "live i \<subseteq> live i'" using s by blast
  show "live i' \<subseteq> live i \<union> active_ids d" using s ids by blast
  have "active_ids d1 = active_ids d" using s by (simp add: active_ids_def doc_active_def)
  then show "active_ids d' = active_ids d" by (simp add: d' Let_def gc_active)
  show "rows_replayed rep + rows_failed rep = rows_seen rep" using s by simp
qed

end

end
