(* ===== verification/RecoveryFacts.thy ===== *)
theory RecoveryFacts
  imports Recovery
begin

text \<open>
  The rebuild, the tombstones and the whole startup, for any vector index that keeps the
  contract: what ends up in the index, and that nothing is lost on the way.
\<close>

section \<open>The rows of a rebuild\<close>

definition row_ids :: "db \<Rightarrow> i64 set" where
  "row_ids d = ep_id ` set (episodes d) \<union> ch_id ` set (chunks d)"

lemma rebuild_episode_rows_active:
  "x \<in> set (rebuild_episode_rows d eid) \<Longrightarrow> episode_hnsw_id (of_nat (fst x)) \<in> active_ids d"
  using active_ids_epI by (fastforce simp: rebuild_episode_rows_def ep_id_def)

lemma rebuild_chunk_rows_active:
  "x \<in> set (rebuild_chunk_rows d eid) \<Longrightarrow> chunk_hnsw_id (of_nat (fst x)) \<in> active_ids d"
  using active_ids_chI by (fastforce simp: rebuild_chunk_rows_def ch_id_def)

text \<open>A stored vector the rebuild accepts.\<close>

definition good_vector :: "renv \<Rightarrow> nat \<Rightarrow> bytes \<Rightarrow> nat \<Rightarrow> bool" where
  "good_vector e dm blob n = (n = dm \<and> length blob = dm * 4 \<and> raligned e blob)"

lemma good_vector_cast:
  "good_vector e dm blob n \<Longrightarrow> \<exists>v. cast_f32 (raligned e) blob = Some v \<and> length v = dm"
  by (simp add: good_vector_def cast_f32_def length_f32s)

text \<open>
  What the rebuild can restore: every active row that does not wait in the outbox has a stored
  vector for the embedder.
\<close>

definition rebuildable :: "renv \<Rightarrow> nat \<Rightarrow> nat \<Rightarrow> db \<Rightarrow> bool" where
  "rebuildable e eid dm d =
     ((\<forall>r \<in> set (episodes d). er_status r = Active \<longrightarrow>
         PEpisode (er_memory_id r) \<in> pending_targets d \<or>
         (\<exists>m \<in> set (embeddings d). em_memory_id m = er_memory_id r \<and> em_embedder_id m = eid \<and>
            good_vector e dm (em_vector m) (em_dim m))) \<and>
      (\<forall>c \<in> set (chunks d). doc_active d (cr_doc_id c) \<longrightarrow>
         PChunk (cr_chunk_id c) \<in> pending_targets d \<or>
         (\<exists>m \<in> set (chunk_embeddings d). ce_chunk_id m = cr_chunk_id c \<and> ce_embedder_id m = eid \<and>
            good_vector e dm (ce_vector m) (ce_dim m))))"

text \<open>No statement of the rebuild fails and the documents' tables are there.\<close>

definition rebuild_clean :: "renv \<Rightarrow> bool" where
  "rebuild_clean e = (has_documents e \<and> (\<forall>n. \<not> rfails e (RDecodeEpisode n) \<and> \<not> rfails e (RDecodeChunk n)))"

lemma rebuild_episode_rowsI:
  assumes "r \<in> set (episodes d)" "er_status r = Active" "m \<in> set (embeddings d)"
    and "em_memory_id m = er_memory_id r" "em_embedder_id m = eid"
  shows "(er_rowid r, em_vector m, em_dim m) \<in> set (rebuild_episode_rows d eid)"
  using assms unfolding rebuild_episode_rows_def by force

lemma rebuild_chunk_rowsI:
  assumes "c \<in> set (chunks d)" "doc_active d (cr_doc_id c)" "m \<in> set (chunk_embeddings d)"
    and "ce_chunk_id m = cr_chunk_id c" "ce_embedder_id m = eid"
  shows "(cr_rowid c, ce_vector m, ce_dim m) \<in> set (rebuild_chunk_rows d eid)"
  using assms unfolding rebuild_chunk_rows_def by force

section \<open>The contract of a step that adds one row\<close>

text \<open>
  One step of either loop: it adds at most the id of its row, keeps the dimension, counts the
  row, and adds it when nothing is in the way.
\<close>

context vector_index
begin

lemma add_rebuild_row_live:
  "add_rebuild_row ops e hid blob n i = Some i' \<Longrightarrow>
   live i' = insert hid (live i) \<and> vi_dim ops i' = vi_dim ops i"
  by (auto simp: add_rebuild_row_def ok_opt_def live_add dim_add split: if_splits option.splits sum.splits)

lemma rebuild_episode_step:
  assumes "rebuild_episode ops e x (i, rep) = (i', rep')"
  shows "live i \<subseteq> live i'" "live i' \<subseteq> insert (episode_hnsw_id (of_nat (fst x))) (live i)"
    and "vi_dim ops i' = vi_dim ops i" "rb_seen rep' = rb_seen rep + 1"
    and "rb_added rep' + rb_skipped rep' = rb_added rep + rb_skipped rep + 1"
  using assms add_rebuild_row_live [of e "episode_hnsw_id (of_nat (fst x))" "fst (snd x)" "snd (snd x)" i]
  by (auto simp: rebuild_episode_def Let_def split: prod.splits option.splits if_splits)

lemma rebuild_chunk_step:
  assumes "rebuild_chunk ops e x (i, rep) = (i', rep')"
  shows "live i \<subseteq> live i'" "live i' \<subseteq> insert (chunk_hnsw_id (of_nat (fst x))) (live i)"
    and "vi_dim ops i' = vi_dim ops i" "rb_seen rep' = rb_seen rep + 1"
    and "rb_added rep' + rb_skipped rep' = rb_added rep + rb_skipped rep + 1"
  using assms add_rebuild_row_live [of e "chunk_hnsw_id (of_nat (fst x))" "fst (snd x)" "snd (snd x)" i]
  by (auto simp: rebuild_chunk_def Let_def split: prod.splits option.splits if_splits)

lemma fold_rebuild:
  fixes step :: "nat \<times> bytes \<times> nat \<Rightarrow> 'i \<times> RebuildReport \<Rightarrow> 'i \<times> RebuildReport"
  assumes step: "\<And>x i rep i' rep'. step x (i, rep) = (i', rep') \<Longrightarrow>
      live i \<subseteq> live i' \<and> live i' \<subseteq> insert (idf x) (live i) \<and> vi_dim ops i' = vi_dim ops i \<and>
      rb_seen rep' = rb_seen rep + 1 \<and>
      rb_added rep' + rb_skipped rep' = rb_added rep + rb_skipped rep + 1"
  shows "fold step rows (i, rep) = (i', rep') \<Longrightarrow>
    live i \<subseteq> live i' \<and> live i' \<subseteq> idf ` set rows \<union> live i \<and> vi_dim ops i' = vi_dim ops i \<and>
    rb_seen rep' = rb_seen rep + length rows \<and>
    rb_added rep' + rb_skipped rep' = rb_added rep + rb_skipped rep + length rows"
proof (induction rows arbitrary: i rep)
  case (Cons x rows)
  obtain i1 rep1 where 1: "step x (i, rep) = (i1, rep1)" by fastforce
  then have "fold step rows (i1, rep1) = (i', rep')" using Cons.prems by simp
  from Cons.IH [OF this] step [OF 1] show ?case by auto
qed simp

lemma rebuild_split:
  assumes "rebuild_hnsw_from_sql ops e d eid i = Inr (i', rep)"
  obtains i1 rep1 where "fold (rebuild_episode ops e) (rebuild_episode_rows d eid) (i, empty_rebuild) = (i1, rep1)"
    and "(has_documents e \<and> fold (rebuild_chunk ops e) (rebuild_chunk_rows d eid) (i1, rep1) = (i', rep)) \<or>
         (\<not> has_documents e \<and> (i', rep) = (i1, rep1))"
  using assms that
  by (cases "fold (rebuild_episode ops e) (rebuild_episode_rows d eid) (i, empty_rebuild)")
    (auto simp: rebuild_hnsw_from_sql_def documents_tables_present_def Let_def result_simps split: if_splits)

lemma rebuild_inv:
  assumes "rebuild_hnsw_from_sql ops e d eid i = Inr (i', rep)"
  shows "live i \<subseteq> live i'" "live i' \<subseteq> live i \<union> active_ids d" "vi_dim ops i' = vi_dim ops i"
    and "rb_added rep + rb_skipped rep = rb_seen rep"
proof -
  obtain i1 rep1 where 1: "fold (rebuild_episode ops e) (rebuild_episode_rows d eid) (i, empty_rebuild) = (i1, rep1)"
    and 2: "(has_documents e \<and> fold (rebuild_chunk ops e) (rebuild_chunk_rows d eid) (i1, rep1) = (i', rep)) \<or>
         (\<not> has_documents e \<and> (i', rep) = (i1, rep1))"
    using rebuild_split [OF assms] by metis
  have eps: "live i \<subseteq> live i1 \<and> live i1 \<subseteq> (\<lambda>x. episode_hnsw_id (of_nat (fst x))) ` set (rebuild_episode_rows d eid) \<union> live i \<and>
      vi_dim ops i1 = vi_dim ops i \<and> rb_seen rep1 = 0 + length (rebuild_episode_rows d eid) \<and>
      rb_added rep1 + rb_skipped rep1 = 0 + length (rebuild_episode_rows d eid)"
    using fold_rebuild [of "rebuild_episode ops e" "\<lambda>x. episode_hnsw_id (of_nat (fst x))", OF _ 1]
      rebuild_episode_step by (simp add: empty_rebuild_def)
  have chs: "live i1 \<subseteq> live i' \<and> live i' \<subseteq> (\<lambda>x. chunk_hnsw_id (of_nat (fst x))) ` set (rebuild_chunk_rows d eid) \<union> live i1 \<and>
      vi_dim ops i' = vi_dim ops i1 \<and> rb_added rep + rb_skipped rep = rb_seen rep"
    using 2 fold_rebuild [of "rebuild_chunk ops e" "\<lambda>x. chunk_hnsw_id (of_nat (fst x))"
        "rebuild_chunk_rows d eid" i1 rep1 i' rep] rebuild_chunk_step eps by auto
  show "live i \<subseteq> live i'" "vi_dim ops i' = vi_dim ops i" "rb_added rep + rb_skipped rep = rb_seen rep"
    using eps chs by auto
  show "live i' \<subseteq> live i \<union> active_ids d"
    using eps chs rebuild_episode_rows_active rebuild_chunk_rows_active by (auto dest!: subsetD)
qed

end

section \<open>Completeness of the rebuild\<close>

context full_index
begin

lemma fold_rebuild_adds:
  fixes step :: "nat \<times> bytes \<times> nat \<Rightarrow> 'i \<times> RebuildReport \<Rightarrow> 'i \<times> RebuildReport"
  assumes step: "\<And>x i rep i' rep'. step x (i, rep) = (i', rep') \<Longrightarrow>
      live i \<subseteq> live i' \<and> vi_dim ops i' = vi_dim ops i"
    and adds: "\<And>x i rep i' rep'. step x (i, rep) = (i', rep') \<Longrightarrow> ok x \<Longrightarrow> vi_dim ops i = dm \<Longrightarrow> idf x \<in> live i'"
  shows "fold step rows (i, rep) = (i', rep') \<Longrightarrow> vi_dim ops i = dm \<Longrightarrow>
    live i \<subseteq> live i' \<and> (\<forall>x \<in> set rows. ok x \<longrightarrow> idf x \<in> live i')"
proof (induction rows arbitrary: i rep)
  case (Cons x rows)
  obtain i1 rep1 where 1: "step x (i, rep) = (i1, rep1)" by fastforce
  then have rest: "fold step rows (i1, rep1) = (i', rep')" using Cons.prems by simp
  have "vi_dim ops i1 = dm" using step [OF 1] Cons.prems(2) by simp
  from Cons.IH [OF rest this] step [OF 1] adds [OF 1 _ Cons.prems(2)] show ?case by auto
qed simp

lemma add_rebuild_row_good:
  assumes "good_vector e (vi_dim ops i) blob n" "0 \<le> sint hid"
  shows "\<exists>i'. add_rebuild_row ops e hid blob n i = Some i' \<and> hid \<in> live i'"
proof -
  obtain v where v: "cast_f32 (raligned e) blob = Some v" "length v = vi_dim ops i"
    using good_vector_cast [OF assms(1)] by blast
  obtain i' where "vi_add ops i hid v = Inr i'" "live i' = insert hid (live i)"
    using add_obtain [OF assms(2) v(2)] by blast
  then show ?thesis using v assms(1) by (simp add: add_rebuild_row_def good_vector_def)
qed

lemma rebuild_complete:
  assumes "rebuild_hnsw_from_sql ops e d eid i = Inr (i', rep)" "rebuild_clean e"
    and "wf_db d" "rowids_fit d" "rebuildable e eid (vi_dim ops i) d"
  shows "outbox_ok (live i') d"
proof -
  let ?dm = "vi_dim ops i"
  define ok where "ok = (\<lambda>x::nat \<times> bytes \<times> nat. fst x < 2 ^ 62 \<and> good_vector e ?dm (fst (snd x)) (snd (snd x)))"
  obtain i1 rep1 where 1: "fold (rebuild_episode ops e) (rebuild_episode_rows d eid) (i, empty_rebuild) = (i1, rep1)"
    and 2: "fold (rebuild_chunk ops e) (rebuild_chunk_rows d eid) (i1, rep1) = (i', rep)"
    using rebuild_split [OF assms(1)] assms(2) unfolding rebuild_clean_def by metis
  have nofail: "\<not> rfails e (RDecodeEpisode n)" "\<not> rfails e (RDecodeChunk n)" for n
    using assms(2) by (simp_all add: rebuild_clean_def)
  have ep: "episode_hnsw_id (of_nat (fst x)) \<in> live j'"
    if "rebuild_episode ops e x (j, rp) = (j', rp')" "ok x" "vi_dim ops j = ?dm" for x j rp j' rp'
    using that add_rebuild_row_good [of e j "fst (snd x)" "snd (snd x)" "episode_hnsw_id (of_nat (fst x))"]
      nofail by (auto simp: rebuild_episode_def ok_def episode_hnsw_id_def sint_of_nat_rowid Let_def
        split: prod.splits)
  have ch: "chunk_hnsw_id (of_nat (fst x)) \<in> live j'"
    if "rebuild_chunk ops e x (j, rp) = (j', rp')" "ok x" "vi_dim ops j = ?dm" for x j rp j' rp'
    using that add_rebuild_row_good [of e j "fst (snd x)" "snd (snd x)" "chunk_hnsw_id (of_nat (fst x))"]
      nofail by (auto simp: rebuild_chunk_def ok_def sint_chunk_id_nonneg Let_def split: prod.splits)
  have dim1: "vi_dim ops i1 = ?dm"
    using fold_rebuild [of "rebuild_episode ops e" "\<lambda>x. episode_hnsw_id (of_nat (fst x))", OF _ 1]
      rebuild_episode_step by simp
  have A: "\<forall>x \<in> set (rebuild_episode_rows d eid). ok x \<longrightarrow> episode_hnsw_id (of_nat (fst x)) \<in> live i1"
    using fold_rebuild_adds [of "rebuild_episode ops e" ok ?dm "\<lambda>x. episode_hnsw_id (of_nat (fst x))", OF _ _ 1 refl]
      rebuild_episode_step(1,3) ep by blast
  have B: "live i1 \<subseteq> live i' \<and>
      (\<forall>x \<in> set (rebuild_chunk_rows d eid). ok x \<longrightarrow> chunk_hnsw_id (of_nat (fst x)) \<in> live i')"
    using fold_rebuild_adds [of "rebuild_chunk ops e" ok ?dm "\<lambda>x. chunk_hnsw_id (of_nat (fst x))", OF _ _ 2 dim1]
      rebuild_chunk_step(1,3) ch by blast
  have "ep_id r \<in> live i' \<or> PEpisode (er_memory_id r) \<in> pending_targets d"
    if r: "r \<in> set (episodes d)" "er_status r = Active" for r
  proof (cases "PEpisode (er_memory_id r) \<in> pending_targets d")
    case False
    then obtain m where m: "m \<in> set (embeddings d)" "em_memory_id m = er_memory_id r" "em_embedder_id m = eid"
      "good_vector e ?dm (em_vector m) (em_dim m)"
      using assms(5) r unfolding rebuildable_def by metis
    have "ok (er_rowid r, em_vector m, em_dim m)"
      using m(4) row_fits [OF assms(3,4) r(1)] by (simp add: ok_def)
    then have "episode_hnsw_id (of_nat (er_rowid r)) \<in> live i1"
      using A rebuild_episode_rowsI [OF r m(1-3)] by fastforce
    then show ?thesis using B by (auto simp: ep_id_def)
  qed simp
  moreover have "ch_id c \<in> live i' \<or> PChunk (cr_chunk_id c) \<in> pending_targets d"
    if c: "c \<in> set (chunks d)" "doc_active d (cr_doc_id c)" for c
  proof (cases "PChunk (cr_chunk_id c) \<in> pending_targets d")
    case False
    then obtain m where m: "m \<in> set (chunk_embeddings d)" "ce_chunk_id m = cr_chunk_id c" "ce_embedder_id m = eid"
      "good_vector e ?dm (ce_vector m) (ce_dim m)"
      using assms(5) c unfolding rebuildable_def by metis
    have "ok (cr_rowid c, ce_vector m, ce_dim m)"
      using m(4) chunk_fits [OF assms(3,4) c(1)] by (simp add: ok_def)
    then have "chunk_hnsw_id (of_nat (cr_rowid c)) \<in> live i'"
      using B rebuild_chunk_rowsI [OF c m(1-3)] by fastforce
    then show ?thesis by (simp add: ch_id_def)
  qed simp
  ultimately show ?thesis by (simp add: outbox_ok_def)
qed

section \<open>Tombstones\<close>

lemma remove_ids_live: "remove_ids ops rs i = Inr i' \<Longrightarrow> live i' = live i - set rs"
proof (induction rs arbitrary: i)
  case (Cons r rs)
  obtain i1 where "vi_remove ops i r = Inr i1" "live i1 = live i - {r}" by (rule remove_obtain)
  with Cons show ?case by auto
qed simp

end

definition forgotten_ids :: "db \<Rightarrow> i64 set" where
  "forgotten_ids d = ep_id ` {r \<in> set (episodes d). er_status r = Forgotten} \<union>
     ch_id ` {c \<in> set (chunks d). doc_forgotten d (cr_doc_id c)}"

text \<open>Every chunk's document is either active or forgotten, never both.\<close>

lemma doc_forgotten_iff:
  assumes "wf_db d" "c \<in> set (chunks d)"
  shows "doc_forgotten d (cr_doc_id c) \<longleftrightarrow> \<not> doc_active d (cr_doc_id c)"
proof -
  have "cr_doc_id c \<in> dr_doc_id ` set (documents d)"
    using assms by (simp add: wf_db_def)
  then obtain r where r: "r \<in> set (documents d)" "dr_doc_id r = cr_doc_id c" by auto
  have "inj_on dr_doc_id (set (documents d))"
    using assms(1) by (simp add: wf_db_def distinct_map)
  then have uniq: "r' = r" if "r' \<in> set (documents d)" "dr_doc_id r' = cr_doc_id c" for r'
    using r that by (metis inj_onD)
  have "doc_forgotten d (cr_doc_id c) \<longleftrightarrow> dr_status r = Forgotten"
    unfolding doc_forgotten_def using r uniq by metis
  moreover have "doc_active d (cr_doc_id c) \<longleftrightarrow> dr_status r = Active"
    unfolding doc_active_def using r uniq by metis
  ultimately show ?thesis by (cases "dr_status r") simp_all
qed

text \<open>Without the forgotten ids, the ids of the rows are the active ones.\<close>

lemma row_ids_minus_forgotten:
  assumes "wf_db d"
  shows "row_ids d - forgotten_ids d \<subseteq> active_ids d"
proof -
  have "ep_id r \<in> active_ids d \<or> ep_id r \<in> forgotten_ids d" if "r \<in> set (episodes d)" for r
    using that active_ids_epI by (cases "er_status r") (auto simp: forgotten_ids_def)
  moreover have "ch_id c \<in> active_ids d \<or> ch_id c \<in> forgotten_ids d" if "c \<in> set (chunks d)" for c
    using that active_ids_chI doc_forgotten_iff [OF assms that] by (auto simp: forgotten_ids_def)
  ultimately show ?thesis unfolding row_ids_def by blast
qed

lemma forgotten_not_active:
  assumes "wf_db d" "rowids_fit d"
  shows "forgotten_ids d \<inter> active_ids d = {}"
  using active_ids_ep [OF assms] active_ids_ch [OF assms] doc_forgotten_iff [OF assms(1)]
  unfolding forgotten_ids_def by auto

lemma outbox_minus_forgotten:
  assumes "wf_db d" "rowids_fit d" "outbox_ok L d"
  shows "outbox_ok (L - forgotten_ids d) d"
  using assms(3) forgotten_not_active [OF assms(1,2)] active_ids_epI active_ids_chI
  unfolding outbox_ok_def by blast

section \<open>Startup\<close>

context full_index
begin

lemma tombstones_live:
  assumes "rebuild_episode_tombstones_from_sql ops e d i = Inr (i1, n)"
    and "rebuild_chunk_tombstones_from_sql ops e d i1 = Inr (i2, m)"
  shows "live i2 = live i - forgotten_ids d"
  using assms
  by (auto simp: rebuild_episode_tombstones_from_sql_def rebuild_chunk_tombstones_from_sql_def Let_def
      result_simps forgotten_ids_def dest!: remove_ids_live split: if_splits)

lemma startup_split:
  assumes "startup_index ops e dm eid lv bak fresh d = Inr out"
  obtains (fresh) i1 where "so_started_fresh out" "so_replay out = so_replay out"
      "rebuild_hnsw_from_sql ops e d eid fresh = Inr (i1, so_rebuild out)"
      "replay_pending_index ops e d i1 = Inr (so_db out, so_hnsw out, so_replay out)"
    | (loaded) i0 i1 n i2 m where "\<not> so_started_fresh out" "lv = Inr i0 \<or> (bak = Inr i0 \<and> \<not> is_ok lv)"
      "vi_dim ops i0 = dm"
      "rebuild_episode_tombstones_from_sql ops e d i0 = Inr (i1, n)"
      "rebuild_chunk_tombstones_from_sql ops e d i1 = Inr (i2, m)"
      "replay_pending_index ops e d i2 = Inr (so_db out, so_hnsw out, so_replay out)"
proof -
  obtain i0 used_bak started_fresh where ld: "load_hnsw_with_fallback lv bak fresh = (i0, used_bak, started_fresh)"
    by (metis prod.exhaust)
  show thesis
  proof (cases started_fresh)
    case True
    then have "i0 = fresh" using ld by (auto simp: load_hnsw_with_fallback_def split: sum.splits)
    with True show ?thesis using assms fresh
      by (auto simp: startup_index_def ld result_simps)
  next
    case False
    then have src: "lv = Inr i0 \<or> (bak = Inr i0 \<and> \<not> is_ok lv)"
      using ld by (auto simp: load_hnsw_with_fallback_def split: sum.splits)
    from False assms loaded [OF _ src] show ?thesis
      by (auto simp: startup_index_def ld result_simps)
  qed
qed

lemma startup_live:
  assumes "startup_index ops e dm eid lv bak fresh d = Inr out" "wf_db d"
    and "live fresh = {}" "\<And>i. lv = Inr i \<or> bak = Inr i \<Longrightarrow> live i \<subseteq> row_ids d"
  shows "live (so_hnsw out) \<subseteq> active_ids (so_db out) \<and> wf_db (so_db out)"
  using assms(1)
proof (cases rule: startup_split)
  case (fresh i1)
  note rb = rebuild_inv [OF fresh(3)] and rp = replay_inv [OF fresh(4) assms(2)]
  show ?thesis using rb rp assms(3) by auto
next
  case (loaded i0 i1 n i2 m)
  note rp = replay_inv [OF loaded(6) assms(2)]
  have "live i2 \<subseteq> active_ids d"
    using tombstones_live [OF loaded(4,5)] assms(4) [of i0] loaded(2) row_ids_minus_forgotten [OF assms(2)]
    by auto
  then show ?thesis using rp by auto
qed

lemma startup_outbox:
  assumes "startup_index ops e dm eid lv bak fresh d = Inr out" "wf_db d" "rowids_fit d"
    and "rebuild_clean e" "vi_dim ops fresh = dm" "rebuildable e eid dm d"
    and "\<And>i. lv = Inr i \<or> bak = Inr i \<Longrightarrow> outbox_ok (live i) d"
  shows "outbox_ok (live (so_hnsw out)) (so_db out)"
  using assms(1)
proof (cases rule: startup_split)
  case (fresh i1)
  have "outbox_ok (live i1) d"
    using rebuild_complete [OF fresh(3) assms(4,2,3)] assms(5,6) by simp
  then show ?thesis using replay_inv(2) [OF fresh(4) assms(2)] by simp
next
  case (loaded i0 i1 n i2 m)
  have "outbox_ok (live i2) d"
    using tombstones_live [OF loaded(4,5)] assms(7) [of i0] loaded(2)
      outbox_minus_forgotten [OF assms(2,3)] by auto
  then show ?thesis using replay_inv(2) [OF loaded(6) assms(2)] by simp
qed

end

end
