(* ===== verification/ReplayFacts.thy ===== *)
theory ReplayFacts
  imports RecoveryFacts
begin

text \<open>
  A replay in which nothing fails: every row of the outbox that has an active target is in the
  index and the outbox is empty; and the startup that ends with such a replay.
\<close>

section \<open>A clean replay\<close>

text \<open>Every pending row has a vector the index accepts, and no statement of the replay fails.\<close>

definition replayable :: "renv \<Rightarrow> nat \<Rightarrow> db \<Rightarrow> bool" where
  "replayable e dm d = (\<forall>p \<in> set (pending d). good_vector e dm (pe_embedding p) (pe_dim p))"

definition replay_clean :: "renv \<Rightarrow> bool" where
  "replay_clean e = ((\<forall>t. \<not> rfails e (RDelete t)) \<and> \<not> rfails e RGcEpisodes \<and> \<not> rfails e RGcChunks)"

definition good_row :: "renv \<Rightarrow> nat \<Rightarrow> outbox_row \<Rightarrow> bool" where
  "good_row e dm x = (0 \<le> sint (fst (snd x)) \<and> good_vector e dm (fst (snd (snd x))) (snd (snd (snd x))))"

lemma pending_episode_rows_iff:
  "x \<in> set (pending_episode_rows d) \<longleftrightarrow>
     (\<exists>p mid r. p \<in> set (pending d) \<and> pe_target p = PEpisode mid \<and> find_episode d mid = Some r \<and>
        er_status r = Active \<and> x = (PEpisode mid, ep_id r, pe_embedding p, pe_dim p))"
  by (auto simp: pending_episode_rows_def split: ptarget.splits option.splits if_splits; metis)

lemma pending_chunk_rows_iff:
  "x \<in> set (pending_chunk_rows d) \<longleftrightarrow>
     (\<exists>p cid c. p \<in> set (pending d) \<and> pe_target p = PChunk cid \<and> find_chunk d cid = Some c \<and>
        doc_active d (cr_doc_id c) \<and> x = (PChunk cid, ch_id c, pe_embedding p, pe_dim p))"
  by (auto simp: pending_chunk_rows_def split: ptarget.splits option.splits if_splits; metis)

lemma pending_rows_good:
  assumes "wf_db d" "rowids_fit d" "replayable e dm d"
    and "x \<in> set (pending_episode_rows d @ pending_chunk_rows d)"
  shows "good_row e dm x"
  using assms row_fits [OF assms(1,2)] chunk_fits [OF assms(1,2)]
  by (auto simp: pending_episode_rows_iff pending_chunk_rows_iff good_row_def replayable_def ep_id_def
      ch_id_def sint_chunk_id_nonneg episode_hnsw_id_def sint_of_nat_rowid
      dest!: find_episode_Some find_chunk_Some)

text \<open>A pending row that is not selected has no active target, so the collection removes it.\<close>

lemma find_episode_uniq:
  assumes "wf_db d" "r \<in> set (episodes d)" shows "find_episode d (er_memory_id r) = Some r"
proof -
  obtain r' where r': "find_episode d (er_memory_id r) = Some r'"
    using assms(2) by (cases "find_episode d (er_memory_id r)") (auto simp: find_episode_def find_None_iff)
  have "inj_on er_memory_id (set (episodes d))" using assms(1) by (simp add: wf_db_def distinct_map)
  then have "r' = r" using find_episode_Some [OF r'] assms(2) by (metis inj_onD)
  with r' show ?thesis by simp
qed

lemma find_chunk_uniq:
  assumes "wf_db d" "c \<in> set (chunks d)" shows "find_chunk d (cr_chunk_id c) = Some c"
proof -
  obtain c' where c': "find_chunk d (cr_chunk_id c) = Some c'"
    using assms(2) by (cases "find_chunk d (cr_chunk_id c)") (auto simp: find_chunk_def find_None_iff)
  have "inj_on cr_chunk_id (set (chunks d))" using assms(1) by (simp add: wf_db_def distinct_map)
  then have "c' = c" using find_chunk_Some [OF c'] assms(2) by (metis inj_onD)
  with c' show ?thesis by simp
qed

lemma active_target_selected:
  assumes "wf_db d" "p \<in> set (pending d)"
    and "(\<exists>r \<in> set (episodes d). pe_target p = PEpisode (er_memory_id r) \<and> er_status r = Active) \<or>
         (\<exists>c \<in> set (chunks d). pe_target p = PChunk (cr_chunk_id c) \<and> doc_active d (cr_doc_id c))"
  shows "pe_target p \<in> fst ` set (pending_episode_rows d @ pending_chunk_rows d)"
  using assms(3)
proof
  assume "\<exists>r \<in> set (episodes d). pe_target p = PEpisode (er_memory_id r) \<and> er_status r = Active"
  then obtain r where r: "r \<in> set (episodes d)" "pe_target p = PEpisode (er_memory_id r)" "er_status r = Active"
    by blast
  have "(pe_target p, ep_id r, pe_embedding p, pe_dim p) \<in> set (pending_episode_rows d)"
    using assms(2) r find_episode_uniq [OF assms(1) r(1)] by (auto simp: pending_episode_rows_iff)
  then show ?thesis by force
next
  assume "\<exists>c \<in> set (chunks d). pe_target p = PChunk (cr_chunk_id c) \<and> doc_active d (cr_doc_id c)"
  then obtain c where c: "c \<in> set (chunks d)" "pe_target p = PChunk (cr_chunk_id c)" "doc_active d (cr_doc_id c)"
    by blast
  have "(pe_target p, ch_id c, pe_embedding p, pe_dim p) \<in> set (pending_chunk_rows d)"
    using assms(2) c find_chunk_uniq [OF assms(1) c(1)] by (auto simp: pending_chunk_rows_iff)
  then show ?thesis by force
qed

lemma gc_pending:
  assumes "p \<in> set (pending (gc_chunks (gc_episodes d)))"
  shows "p \<in> set (pending d) \<and>
    ((\<exists>r \<in> set (episodes d). pe_target p = PEpisode (er_memory_id r) \<and> er_status r = Active) \<or>
     (\<exists>c \<in> set (chunks d). pe_target p = PChunk (cr_chunk_id c) \<and> doc_active d (cr_doc_id c)))"
  using assms by (auto simp: gc_chunks_def gc_episodes_def doc_active_def split: ptarget.splits)

context full_index
begin

lemma replay_row_good:
  assumes "good_row e (vi_dim ops i) x" "\<forall>t. \<not> rfails e (RDelete t)"
  shows "\<exists>i'. replay_row ops e x (d, i, rep) = (delete_pending (fst x) d, i',
      rep\<lparr>rows_seen := rows_seen rep + 1, rows_replayed := rows_replayed rep + 1\<rparr>) \<and>
      live i' = insert (fst (snd x)) (live i) \<and> vi_dim ops i' = vi_dim ops i"
proof -
  obtain t hid blob n where x: "x = (t, hid, blob, n)" by (cases x)
  have g: "good_vector e (vi_dim ops i) blob n" "0 \<le> sint hid" using assms(1) by (simp_all add: good_row_def x)
  obtain v where v: "cast_f32 (raligned e) blob = Some v" "length v = vi_dim ops i"
    using good_vector_cast [OF g(1)] by blast
  obtain i' where "vi_add ops i hid v = Inr i'" "live i' = insert hid (live i)" "vi_dim ops i' = vi_dim ops i"
    using add_obtain [OF g(2) v(2)] by blast
  then show ?thesis using assms(2) v g(1) by (simp add: replay_row_def x good_vector_def)
qed

lemma replay_rows_good:
  "replay_rows ops e rows (d, i, rep) = (d', i', rep') \<Longrightarrow> \<forall>x \<in> set rows. good_row e (vi_dim ops i) x \<Longrightarrow>
   \<forall>t. \<not> rfails e (RDelete t) \<Longrightarrow>
   rows_failed rep' = rows_failed rep \<and> live i' = (fst \<circ> snd) ` set rows \<union> live i \<and>
   pending d' = filter (\<lambda>p. pe_target p \<notin> fst ` set rows) (pending d)"
proof (induction rows arbitrary: d i rep)
  case Nil
  then show ?case by (simp add: replay_rows_def)
next
  case (Cons x rows)
  from Cons.prems(2) have "good_row e (vi_dim ops i) x" by simp
  then obtain i1 where 1: "replay_row ops e x (d, i, rep) = (delete_pending (fst x) d, i1,
      rep\<lparr>rows_seen := rows_seen rep + 1, rows_replayed := rows_replayed rep + 1\<rparr>)"
    "live i1 = insert (fst (snd x)) (live i)" "vi_dim ops i1 = vi_dim ops i"
    using replay_row_good Cons.prems(3) by blast
  have rest: "replay_rows ops e rows (delete_pending (fst x) d, i1,
      rep\<lparr>rows_seen := rows_seen rep + 1, rows_replayed := rows_replayed rep + 1\<rparr>) = (d', i', rep')"
    using Cons.prems(1) 1(1) by (simp add: replay_rows_def)
  have "\<forall>y \<in> set rows. good_row e (vi_dim ops i1) y" using Cons.prems(2) 1(3) by simp
  from Cons.IH [OF rest this Cons.prems(3)] 1(2) show ?case
    by (auto simp: delete_pending_def intro!: filter_cong)
qed

lemma replay_complete:
  assumes "replay_pending_index ops e d i = Inr (d', i', rep)" "wf_db d" "rowids_fit d"
    and "replay_clean e" "replayable e (vi_dim ops i) d"
  shows "pending d' = []" "rows_failed rep = 0"
proof -
  let ?rows = "pending_episode_rows d @ pending_chunk_rows d"
  obtain d1 where r: "replay_rows ops e ?rows (d, i, \<lparr>rows_seen = 0, rows_replayed = 0, rows_failed = 0\<rparr>)
      = (d1, i', rep)" and d': "d' = gc_chunks (gc_episodes d1)"
    using assms(1,4) by (auto simp: replay_pending_index_def replay_clean_def Let_def split: if_splits prod.splits)
  have good: "\<forall>x \<in> set ?rows. good_row e (vi_dim ops i) x"
    using pending_rows_good [OF assms(2,3,5)] by blast
  have cl: "\<forall>t. \<not> rfails e (RDelete t)" using assms(4) by (simp add: replay_clean_def)
  note s = replay_rows_good [OF r good cl]
  have t: "\<forall>x \<in> set ?rows. target_row d x" using pending_rows_target by blast
  note f = replay_rows_inv [OF r t assms(2)]
  show "rows_failed rep = 0" using s by simp
  have "p \<notin> set (pending d')" for p
  proof
    assume "p \<in> set (pending d')"
    then have p: "p \<in> set (pending d1)" "(\<exists>r \<in> set (episodes d). pe_target p = PEpisode (er_memory_id r) \<and> er_status r = Active) \<or>
         (\<exists>c \<in> set (chunks d). pe_target p = PChunk (cr_chunk_id c) \<and> doc_active d (cr_doc_id c))"
      using gc_pending [of p d1] f by (auto simp: d' doc_active_def)
    have "p \<in> set (pending d)" "pe_target p \<notin> fst ` set ?rows" using p(1) s by auto
    then show False using active_target_selected [OF assms(2) _ p(2)] by blast
  qed
  then show "pending d' = []" by (cases "pending d'") auto
qed


lemma remove_ids_dim: "remove_ids ops rs i = Inr i' \<Longrightarrow> vi_dim ops i' = vi_dim ops i"
proof (induction rs arbitrary: i)
  case (Cons r rs)
  then obtain i1 where "vi_remove ops i r = Inr i1" "remove_ids ops rs i1 = Inr i'"
    by (auto simp: result_simps)
  with Cons.IH show ?case using dim_remove by metis
qed simp

lemma tombstones_dim:
  assumes "rebuild_episode_tombstones_from_sql ops e d i = Inr (i1, n)"
    and "rebuild_chunk_tombstones_from_sql ops e d i1 = Inr (i2, m)"
  shows "vi_dim ops i2 = vi_dim ops i"
  using assms
  by (auto simp: rebuild_episode_tombstones_from_sql_def rebuild_chunk_tombstones_from_sql_def Let_def
      result_simps dest!: remove_ids_dim split: if_splits)

lemma startup_pending:
  assumes "startup_index ops e dm eid lv bak fresh d = Inr out" "wf_db d" "rowids_fit d"
    and "vi_dim ops fresh = dm" "replay_clean e" "replayable e dm d"
  shows "pending (so_db out) = []" "rows_failed (so_replay out) = 0"
proof -
  obtain i where "vi_dim ops i = dm" "replay_pending_index ops e d i = Inr (so_db out, so_hnsw out, so_replay out)"
    using assms(1)
  proof (cases rule: startup_split)
    case (fresh i1)
    show thesis using rebuild_inv(3) [OF fresh(3)] fresh(4) assms(4) that by metis
  next
    case (loaded i0 i1 n i2 m)
    show thesis using tombstones_dim [OF loaded(4,5)] loaded(3,6) that by metis
  qed
  then show "pending (so_db out) = []" "rows_failed (so_replay out) = 0"
    using replay_complete [of e d i] assms by simp_all
qed

lemma outbox_drained: "outbox_ok L d \<Longrightarrow> pending d = [] \<Longrightarrow> active_ids d \<subseteq> L"
  by (auto simp: outbox_ok_def active_ids_def pending_targets_def)

end

end
