(* ===== verification/RecoveryProps.thy ===== *)
theory RecoveryProps
  imports WriterProps ReplayFacts
begin

text \<open>
  The properties of the startup over the model of \<open>HnswIndex\<close>: the two invariants of the writer
  hold before its first command, a replay accounts for every row and drains what it replays, a
  rebuild adds active rows only, and what a stale snapshot costs.
\<close>

section \<open>A concrete startup\<close>

definition sample_renv :: renv where
  "sample_renv = \<lparr>rfails = (\<lambda>_. False), raligned = (\<lambda>_. True), has_documents = True\<rparr>"

text \<open>Two remembered episodes: the vector of the first is stored, the second waits in the outbox.\<close>

definition sample_row :: "nat \<Rightarrow> nat \<Rightarrow> episode_row" where
  "sample_row mid rowid = (remember_row sample_env None ''hi'' sample_episode rowid)\<lparr>er_memory_id := mid\<rparr>"

definition recovery_db :: db where
  "recovery_db = empty_db\<lparr>episodes := [sample_row 5 1, sample_row 6 2], ep_seq := 2,
     embeddings := [embedding_row_of sample_env 5 1 sample_embedding],
     pending := [pending_row_of sample_env (PEpisode 6) sample_embedding]\<rparr>"

abbreviation sample_startup :: "HnswIndex result \<Rightarrow> HnswIndex StartupOutcome result" where
  "sample_startup lv \<equiv> startup_index sample_ops sample_renv 1 1 lv (Inl Storage)
     (hnsw_new 1 default_params) recovery_db"

lemma recovery_wf: "wf_db recovery_db" "rowids_fit recovery_db"
  by (simp_all add: recovery_db_def sample_row_def remember_row_def wf_db_def rowids_fit_def empty_db_def
      pending_row_of_def embedding_row_of_def)

lemmas startup_eval = startup_index_def load_hnsw_with_fallback_def rebuild_hnsw_from_sql_def
  rebuild_episode_rows_def rebuild_chunk_rows_def rebuild_episode_def add_rebuild_row_def
  documents_tables_present_def replay_pending_index_def replay_rows_def replay_row_def
  pending_episode_rows_def pending_chunk_rows_def find_episode_def gc_episodes_def gc_chunks_def
  detect_drift_def delete_pending_def sample_renv_def recovery_db_def sample_row_def remember_row_def
  embedding_row_of_def pending_row_of_def sample_embedding_def sample_episode_def empty_db_def
  cast_f32_def hnsw_add_def hnsw_new_def episode_hnsw_id_def ep_id_def ok_opt_def empty_rebuild_def
  hnsw_len_def rebuild_episode_tombstones_from_sql_def rebuild_chunk_tombstones_from_sql_def
  sample_env_def sample_lib_def result_simps



section \<open>After startup\<close>

text \<open>The writer that the daemon spawns on what the startup returns.\<close>

definition started :: "HnswIndex StartupOutcome \<Rightarrow> HnswIndex writer \<Rightarrow> HnswIndex writer" where
  "started out w = w\<lparr>wdb := so_db out, hnsw := so_hnsw out\<rparr>"

text \<open>The ids of the snapshots that belong to no row, of a principal's erased rows for instance.\<close>

definition strays :: "HnswIndex result \<Rightarrow> HnswIndex result \<Rightarrow> db \<Rightarrow> i64 set" where
  "strays lv bak d = {hid. \<exists>i. (lv = Inr i \<or> bak = Inr i) \<and> hid \<in> hnsw_live i} - row_ids d"

context full_index
begin

lemma startup_live_strays:
  assumes "startup_index ops e dm eid lv bak fresh d = Inr out" "wf_db d" "live fresh = {}"
  shows "live (so_hnsw out) \<subseteq> active_ids (so_db out) \<union> ({hid. \<exists>i. (lv = Inr i \<or> bak = Inr i) \<and> hid \<in> live i} - row_ids d)"
    "wf_db (so_db out)"
proof -
  have "live (so_hnsw out) \<subseteq> active_ids (so_db out) \<union> ({hid. \<exists>i. (lv = Inr i \<or> bak = Inr i) \<and> hid \<in> live i} - row_ids d) \<and>
      wf_db (so_db out)"
    using assms(1)
  proof (cases rule: startup_split)
    case (fresh i1)
    show ?thesis using rebuild_inv [OF fresh(3)] replay_inv [OF fresh(4) assms(2)] assms(3) by auto
  next
    case (loaded i0 i1 n i2 m)
    have "live i2 \<subseteq> active_ids d \<union> (live i0 - row_ids d)"
      using tombstones_live [OF loaded(4,5)] row_ids_minus_forgotten [OF assms(2)] by blast
    then show ?thesis using replay_inv [OF loaded(6) assms(2)] loaded(2) by auto
  qed
  then show "live (so_hnsw out) \<subseteq> active_ids (so_db out) \<union> ({hid. \<exists>i. (lv = Inr i \<or> bak = Inr i) \<and> hid \<in> live i} - row_ids d)"
    "wf_db (so_db out)" by blast+
qed

end

text \<open>
  C4: whatever statements of the startup fail, and whichever of the live pair, the backup pair
  and the rebuild it starts from, when it hands over an index, that index finds active rows only,
  besides the ids of a loaded snapshot that belong to no row at all. When the
  snapshots hold no such id, the writer starts with its invariant.
\<close>

theorem startup_restores_live:
  assumes "startup_index (hnsw_vindex lib) e dm eid lv bak (hnsw_new dm params) d = Inr out" "wf_db d"
  shows "wf_db (so_db out) \<and> hnsw_live (so_hnsw out) \<subseteq> active_ids (so_db out) \<union> strays lv bak d \<and>
    (strays lv bak d = {} \<longrightarrow> live_inv hnsw_live (started out w))"
proof -
  have new: "hnsw_live (hnsw_new dm params) = {}" by (simp add: hnsw_new_def hnsw_live_def)
  note out = hnsw_full.startup_live_strays [OF assms new, folded strays_def]
  then show ?thesis unfolding live_inv_def started_def by auto
qed

text \<open>
  A snapshot with the vector of the first row, of a row that was forgotten since and of no row, the
  backup is not read.
\<close>

definition sample_snapshot :: HnswIndex where
  "sample_snapshot = from_inner [(1, f32s_of_bytes ''abcd''), (3, f32s_of_bytes ''abcd''), (77, f32s_of_bytes ''abcd'')] 1"

definition forgotten_db :: db where
  "forgotten_db = recovery_db\<lparr>episodes := [sample_row 5 1, sample_row 6 2, (sample_row 7 3)\<lparr>er_status := Forgotten\<rparr>], ep_seq := 3\<rparr>"

lemma forgotten_wf: "wf_db forgotten_db"
  by (simp add: forgotten_db_def recovery_db_def sample_row_def remember_row_def wf_db_def empty_db_def
      pending_row_of_def embedding_row_of_def)

lemma forgotten_strays: "strays (Inr sample_snapshot) (Inl er) forgotten_db = {77}"
  by (auto simp: strays_def sample_snapshot_def from_inner_def hnsw_live_def row_ids_def forgotten_db_def recovery_db_def
      ep_id_def sample_row_def remember_row_def episode_hnsw_id_def empty_db_def)

theorem startup_restores_live_witness:
  "\<exists>out. startup_index sample_ops sample_renv 1 1 (Inr sample_snapshot) (Inl Storage) (hnsw_new 1 default_params) forgotten_db = Inr out \<and>
     hnsw_live (so_hnsw out) \<subseteq> active_ids (so_db out) \<union> {77}"
proof -
  have "\<exists>out. startup_index sample_ops sample_renv 1 1 (Inr sample_snapshot) (Inl Storage) (hnsw_new 1 default_params) forgotten_db = Inr out"
    by (simp add: startup_eval forgotten_db_def sample_snapshot_def from_inner_def hnsw_remove_def Let_def)
  then obtain out where out: "startup_index sample_ops sample_renv 1 1 (Inr sample_snapshot) (Inl Storage) (hnsw_new 1 default_params) forgotten_db = Inr out"
    by blast
  with startup_restores_live [OF out forgotten_wf] show ?thesis unfolding forgotten_strays by blast
qed





text \<open>
  A replay accounts for every row it reads and loses nothing: each row is replayed or
  failed, the index keeps what it had and gains ids of active rows only, and a row that cannot
  be applied or deleted stays in the outbox.
\<close>

theorem replay_accounts:
  assumes "replay_pending_index (hnsw_vindex lib) e d i = Inr (d', i', rep)" "wf_db d"
  shows "rows_replayed rep + rows_failed rep = rows_seen rep \<and>
         hnsw_live i \<subseteq> hnsw_live i' \<and> hnsw_live i' \<subseteq> hnsw_live i \<union> active_ids d \<and>
         (outbox_ok (hnsw_live i) d \<longrightarrow> outbox_ok (hnsw_live i') d')"
  using hnsw.replay_inv [OF assms] by blast

theorem replay_accounts_witness:
  "\<exists>d' i' rep. replay_pending_index sample_ops sample_renv recovery_db (hnsw_new 1 default_params) = Inr (d', i', rep) \<and>
     rows_replayed rep + rows_failed rep = rows_seen rep"
proof -
  have "\<exists>x. replay_pending_index sample_ops sample_renv recovery_db (hnsw_new 1 default_params) = Inr x"
    by (simp add: startup_eval Let_def)
  then obtain d' i' rep where
    run: "replay_pending_index sample_ops sample_renv recovery_db (hnsw_new 1 default_params) = Inr (d', i', rep)"
    by (metis prod.exhaust)
  show ?thesis using replay_accounts [OF run recovery_wf(1)] run by blast
qed

text \<open>
  The rebuild adds active rows only and counts every row it reads as added or skipped; a
  skipped row does not stop it.
\<close>

theorem rebuild_accounts:
  assumes "rebuild_hnsw_from_sql (hnsw_vindex lib) e d eid i = Inr (i', rep)"
  shows "rb_added rep + rb_skipped rep = rb_seen rep \<and> hnsw_live i \<subseteq> hnsw_live i' \<and>
         hnsw_live i' \<subseteq> hnsw_live i \<union> active_ids d"
  using hnsw.rebuild_inv [OF assms] by blast

theorem rebuild_accounts_witness:
  "\<exists>i' rep. rebuild_hnsw_from_sql sample_ops sample_renv recovery_db 1 (hnsw_new 1 default_params) = Inr (i', rep) \<and>
     rb_added rep + rb_skipped rep = rb_seen rep"
proof -
  have "\<exists>x. rebuild_hnsw_from_sql sample_ops sample_renv recovery_db 1 (hnsw_new 1 default_params) = Inr x"
    by (simp add: startup_eval Let_def)
  then obtain i' rep where
    run: "rebuild_hnsw_from_sql sample_ops sample_renv recovery_db 1 (hnsw_new 1 default_params) = Inr (i', rep)"
    by (metis prod.exhaust)
  show ?thesis using rebuild_accounts [OF run] run by blast
qed

section \<open>A stale snapshot\<close>

lemma replayed_ids_pending:
  "x \<in> set (pending_episode_rows d @ pending_chunk_rows d) \<Longrightarrow> fst (snd x) \<in> pending_ids d"
proof -
  assume "x \<in> set (pending_episode_rows d @ pending_chunk_rows d)"
  then consider p mid r where "p \<in> set (pending d)" "pe_target p = PEpisode mid" "find_episode d mid = Some r"
      "fst (snd x) = ep_id r"
    | p cid c where "p \<in> set (pending d)" "pe_target p = PChunk cid" "find_chunk d cid = Some c"
      "fst (snd x) = ch_id c"
    by (auto simp: pending_episode_rows_iff pending_chunk_rows_iff)
  then show ?thesis
  proof cases
    case 1
    have "PEpisode mid \<in> pending_targets d" using 1(1,2) unfolding pending_targets_def by (metis imageI)
    then show ?thesis using find_episode_Some [OF 1(3)] 1(4) unfolding pending_ids_def by blast
  next
    case 2
    have "PChunk cid \<in> pending_targets d" using 2(1,2) unfolding pending_targets_def by (metis imageI)
    then show ?thesis using find_chunk_Some [OF 2(3)] 2(4) unfolding pending_ids_def by blast
  qed
qed

text \<open>
  A startup from a loaded snapshot never rebuilds: a row that is in neither the snapshot nor
  the outbox stays out of the index, however the startup ends.
\<close>

theorem stale_snapshot_not_rebuilt:
  assumes "startup_index (hnsw_vindex lib) e dm eid (Inr snap) bak fresh d = Inr out" "wf_db d"
    and "hid \<notin> hnsw_live snap" "hid \<notin> pending_ids d"
  shows "hid \<notin> hnsw_live (so_hnsw out)"
  using assms(1)
proof (cases rule: hnsw_full.startup_split)
  case (fresh i1)
  then show ?thesis using assms(1)
    by (auto simp: startup_index_def load_hnsw_with_fallback_def result_simps)
next
  case (loaded i0 i1 n i2 m)
  then have "i0 = snap" by simp
  then have i2: "hid \<notin> hnsw_live i2" using hnsw_full.tombstones_live [OF loaded(4,5)] assms(3) by simp
  obtain d1 where r: "replay_rows (hnsw_vindex lib) e (pending_episode_rows d @ pending_chunk_rows d)
      (d, i2, \<lparr>rows_seen = 0, rows_replayed = 0, rows_failed = 0\<rparr>) = (d1, so_hnsw out, so_replay out)"
    using loaded(6) by (auto simp: replay_pending_index_def Let_def split: if_splits prod.splits)
  have "hnsw_live (so_hnsw out) \<subseteq> (fst \<circ> snd) ` set (pending_episode_rows d @ pending_chunk_rows d) \<union> hnsw_live i2"
    using hnsw.replay_rows_inv [OF r _ assms(2)] pending_rows_target by blast
  then show ?thesis using i2 assms(4) replayed_ids_pending by fastforce
qed

theorem stale_snapshot_not_rebuilt_witness:
  "\<exists>out. sample_startup (Inr (hnsw_new 1 default_params)) = Inr out \<and>
     ep_id (sample_row 5 1) \<in> active_ids recovery_db \<and> drift_diff (so_drift out) = 1 \<and>
     ep_id (sample_row 5 1) \<notin> hnsw_live (so_hnsw out)"
proof -
  have "\<exists>out. sample_startup (Inr (hnsw_new 1 default_params)) = Inr out \<and> drift_diff (so_drift out) = 1"
    by (simp add: startup_eval Let_def)
  then obtain out where out: "sample_startup (Inr (hnsw_new 1 default_params)) = Inr out"
    "drift_diff (so_drift out) = 1" by blast
  have "ep_id (sample_row 5 1) \<notin> hnsw_live (so_hnsw out)"
    by (rule stale_snapshot_not_rebuilt [OF out(1) recovery_wf(1)])
      (auto simp: pending_ids_def pending_targets_def recovery_db_def empty_db_def pending_row_of_def
        ep_id_def sample_row_def remember_row_def episode_hnsw_id_def)
  moreover have "ep_id (sample_row 5 1) \<in> active_ids recovery_db"
    by (rule active_ids_epI) (simp_all add: recovery_db_def sample_row_def remember_row_def)
  ultimately show ?thesis using out by blast
qed

end
