(* ===== verification/Files.thy ===== *)
theory Files
  imports Prelude
begin

text \<open>
  The file system as the storage code uses it (\<open>std::fs\<close>): files by path, directories, and a
  fault plan that decides for every operation, in the order they run, whether it succeeds, is
  refused before it does anything, or breaks after writing some bytes. A crash is a plan that
  refuses every operation from some point on, so a statement about all plans is a statement
  about all crashes too. What reaches the disk after a crash is what was written in program
  order; the tests for existence do not fail. An advisory lock on a file is the name of the
  operation that holds it.
\<close>

named_theorems hoare_intro \<open>rules of the triples over file operations\<close>

section \<open>State and faults\<close>

text \<open>A path is the list of its components, the last one first.\<close>

type_synonym path = "string list"

datatype fault = Fine | Refused | Broke nat

datatype io_error = EntryNotFound | DirectoryNotEmpty | OtherIo

record disk =
  files :: "path \<Rightarrow> string option"
  dirs :: "path set"
  locks :: "path \<Rightarrow> string option"
  clock :: nat

type_synonym plan = "nat \<Rightarrow> fault"
type_synonym ('e, 'a) op = "disk \<Rightarrow> ('e + 'a) \<times> disk"
type_synonym 'a io = "(io_error, 'a) op"

definition tick :: "disk \<Rightarrow> disk" where
  "tick s = s\<lparr>clock := Suc (clock s)\<rparr>"

definition set_file :: "path \<Rightarrow> string option \<Rightarrow> disk \<Rightarrow> disk" where
  "set_file p c s = s\<lparr>files := (files s)(p := c)\<rparr>"

lemma tick_sel [simp]: "files (tick s) = files s" "dirs (tick s) = dirs s" "locks (tick s) = locks s" "clock (tick s) = Suc (clock s)"
  by (simp_all add: tick_def)

lemma set_file_sel [simp]:
  "files (set_file p c s) = (files s)(p := c)" "dirs (set_file p c s) = dirs s" "locks (set_file p c s) = locks s"
  "clock (set_file p c s) = clock s"
  by (simp_all add: set_file_def)

section \<open>Sequencing\<close>

definition ret :: "'a \<Rightarrow> ('e, 'a) op" where
  "ret x s = (Inr x, s)"

definition raise :: "'e \<Rightarrow> ('e, 'a) op" where
  "raise e s = (Inl e, s)"

definition bind_io :: "('e, 'a) op \<Rightarrow> ('a \<Rightarrow> ('e, 'b) op) \<Rightarrow> ('e, 'b) op" where
  "bind_io m f s = (case m s of (Inl e, s') \<Rightarrow> (Inl e, s') | (Inr x, s') \<Rightarrow> f x s')"

text \<open>\<open>map_err\<close>, \<open>let _ = op\<close> and \<open>match op\<close>.\<close>

definition map_err :: "('e \<Rightarrow> 'f) \<Rightarrow> ('e, 'a) op \<Rightarrow> ('f, 'a) op" where
  "map_err g m s = (case m s of (Inl e, s') \<Rightarrow> (Inl (g e), s') | (Inr x, s') \<Rightarrow> (Inr x, s'))"

definition attempt :: "('e, 'a) op \<Rightarrow> ('f, 'e + 'a) op" where
  "attempt m s = (case m s of (r, s') \<Rightarrow> (Inr r, s'))"

definition lift_r :: "'e + 'a \<Rightarrow> ('e, 'a) op" where
  "lift_r r s = (r, s)"

section \<open>Operations\<close>

definition remove_file :: "plan \<Rightarrow> path \<Rightarrow> unit io" where
  "remove_file o' p s =
     (case o' (clock s) of
        Fine \<Rightarrow> (case files s p of
                  None \<Rightarrow> (Inl EntryNotFound, tick s)
                | Some _ \<Rightarrow> (Inr (), tick (set_file p None s)))
      | _ \<Rightarrow> (Inl OtherIo, tick s))"

definition rename_file :: "plan \<Rightarrow> path \<Rightarrow> path \<Rightarrow> unit io" where
  "rename_file o' p q s =
     (case o' (clock s) of
        Fine \<Rightarrow> (case files s p of
                  None \<Rightarrow> (Inl EntryNotFound, tick s)
                | Some c \<Rightarrow> (Inr (), tick (set_file q (Some c) (set_file p None s))))
      | _ \<Rightarrow> (Inl OtherIo, tick s))"

text \<open>\<open>fs::write\<close> truncates, then writes; a break leaves a prefix.\<close>

definition write_file :: "plan \<Rightarrow> path \<Rightarrow> string \<Rightarrow> unit io" where
  "write_file o' p bs s =
     (case o' (clock s) of
        Fine \<Rightarrow> (Inr (), tick (set_file p (Some bs) s))
      | Refused \<Rightarrow> (Inl OtherIo, tick s)
      | Broke n \<Rightarrow> (Inl OtherIo, tick (set_file p (Some (take n bs)) s)))"

definition contents :: "string option \<Rightarrow> string" where
  "contents c = (case c of None \<Rightarrow> [] | Some bs \<Rightarrow> bs)"

text \<open>Opening for append creates the file; a break leaves a prefix of the new bytes.\<close>

definition append_file :: "plan \<Rightarrow> path \<Rightarrow> string \<Rightarrow> unit io" where
  "append_file o' p bs s =
     (case o' (clock s) of
        Fine \<Rightarrow> (Inr (), tick (set_file p (Some (contents (files s p) @ bs)) s))
      | Refused \<Rightarrow> (Inl OtherIo, tick s)
      | Broke n \<Rightarrow> (Inl OtherIo, tick (set_file p (Some (contents (files s p) @ take n bs)) s)))"

definition copy_file :: "plan \<Rightarrow> path \<Rightarrow> path \<Rightarrow> unit io" where
  "copy_file o' p q s =
     (case files s p of
        None \<Rightarrow> (Inl (if o' (clock s) = Fine then EntryNotFound else OtherIo), tick s)
      | Some bs \<Rightarrow> write_file o' q bs s)"

text \<open>\<open>set_len\<close> on an existing file: truncation, or extension with zero bytes.\<close>

definition set_len :: "plan \<Rightarrow> path \<Rightarrow> nat \<Rightarrow> unit io" where
  "set_len o' p n s =
     (case o' (clock s) of
        Fine \<Rightarrow> (case files s p of
                  None \<Rightarrow> (Inl EntryNotFound, tick s)
                | Some bs \<Rightarrow> (Inr (), tick (set_file p (Some (take n bs @ replicate (n - length bs) (CHR 0x00))) s)))
      | _ \<Rightarrow> (Inl OtherIo, tick s))"

definition read_file :: "plan \<Rightarrow> path \<Rightarrow> string io" where
  "read_file o' p s =
     (case o' (clock s) of
        Fine \<Rightarrow> (case files s p of None \<Rightarrow> (Inl EntryNotFound, tick s) | Some bs \<Rightarrow> (Inr bs, tick s))
      | _ \<Rightarrow> (Inl OtherIo, tick s))"

definition file_size :: "plan \<Rightarrow> path \<Rightarrow> nat io" where
  "file_size o' p = bind_io (read_file o' p) (\<lambda>bs. ret (length bs))"

text \<open>An \<open>fsync\<close> of a file opens it, so it must exist; it changes no content.\<close>

definition sync_file :: "plan \<Rightarrow> path \<Rightarrow> unit io" where
  "sync_file o' p = bind_io (read_file o' p) (\<lambda>_. ret ())"

definition sync_dir :: "plan \<Rightarrow> path \<Rightarrow> unit io" where
  "sync_dir o' p s = ((if o' (clock s) = Fine then Inr () else Inl OtherIo), tick s)"

text \<open>The directory and the ones above it.\<close>

primrec with_parents :: "path \<Rightarrow> path set" where
  "with_parents [] = {[]}"
| "with_parents (n # p) = insert (n # p) (with_parents p)"

definition create_dir_all :: "plan \<Rightarrow> path \<Rightarrow> unit io" where
  "create_dir_all o' p s =
     (if o' (clock s) = Fine then (Inr (), tick (s\<lparr>dirs := with_parents p \<union> dirs s\<rparr>))
      else (Inl OtherIo, tick s))"

definition remove_dir :: "plan \<Rightarrow> path \<Rightarrow> unit io" where
  "remove_dir o' p s =
     (if o' (clock s) \<noteq> Fine then (Inl OtherIo, tick s)
      else if p \<notin> dirs s then (Inl EntryNotFound, tick s)
      else if (\<exists>q \<in> dom (files s). tl q = p \<and> q \<noteq> []) then (Inl DirectoryNotEmpty, tick s)
      else (Inr (), tick (s\<lparr>dirs := dirs s - {p}\<rparr>)))"

definition is_file :: "path \<Rightarrow> disk \<Rightarrow> bool" where
  "is_file p s = (files s p \<noteq> None)"

section \<open>Triples\<close>

text \<open>
  From a state in \<open>P\<close> the operation ends in \<open>Q\<close> with its value when it succeeds, and in \<open>E\<close> when
  it fails.
\<close>

definition triple :: "(disk \<Rightarrow> bool) \<Rightarrow> ('e, 'a) op \<Rightarrow> ('a \<Rightarrow> disk \<Rightarrow> bool) \<Rightarrow> (disk \<Rightarrow> bool) \<Rightarrow> bool" where
  "triple P m Q E =
     (\<forall>s. P s \<longrightarrow> (case m s of (Inl _, s') \<Rightarrow> E s' | (Inr x, s') \<Rightarrow> Q x s'))"

lemma tripleD:
  assumes "triple P m Q E" "P s"
  shows "m s = (Inr x, s') \<Longrightarrow> Q x s'" "m s = (Inl e, s') \<Longrightarrow> E s'"
  using assms by (auto simp: triple_def)

lemma triple_cases:
  assumes "triple P m Q E" "P s" "m s = (r, s')"
  shows "(\<exists>x. r = Inr x \<and> Q x s') \<or> (\<exists>e. r = Inl e \<and> E s')"
  using assms by (cases r) (auto simp: triple_def)

lemma triple_conseq:
  "triple P' m Q' E' \<Longrightarrow> (\<And>s. P s \<Longrightarrow> P' s) \<Longrightarrow> (\<And>x s. Q' x s \<Longrightarrow> Q x s) \<Longrightarrow> (\<And>s. E' s \<Longrightarrow> E s) \<Longrightarrow> triple P m Q E"
  unfolding triple_def by (fastforce split: prod.splits sum.splits)

lemma triple_bind [hoare_intro]:
  assumes "triple P m R E" "\<And>x. triple (R x) (f x) Q E"
  shows "triple P (bind_io m f) Q E"
  unfolding triple_def
proof (intro allI impI)
  fix s assume s: "P s"
  obtain r s1 where m: "m s = (r, s1)" by fastforce
  show "case bind_io m f s of (Inl _, s') \<Rightarrow> E s' | (Inr x, s') \<Rightarrow> Q x s'"
  proof (cases r)
    case (Inl e)
    then show ?thesis using tripleD(2) [OF assms(1) s] m by (auto simp: bind_io_def)
  next
    case (Inr x)
    then have "R x s1" using tripleD(1) [OF assms(1) s] m by simp
    then show ?thesis using assms(2) [of x] m Inr by (auto simp: bind_io_def triple_def)
  qed
qed

lemma triple_ret: "(\<And>s. P s \<Longrightarrow> Q x s) \<Longrightarrow> triple P (ret x) Q E"
  by (simp add: triple_def ret_def)

lemma triple_raise: "(\<And>s. P s \<Longrightarrow> E s) \<Longrightarrow> triple P (raise e) Q E"
  by (simp add: triple_def raise_def)

lemma triple_map_err [hoare_intro]: "triple P m Q E \<Longrightarrow> triple P (map_err g m) Q E"
  unfolding triple_def map_err_def by (fastforce split: prod.splits sum.splits)

lemma triple_attempt: "triple P m (\<lambda>x. Q (Inr x)) (\<lambda>s. \<forall>e. Q (Inl e) s) \<Longrightarrow> triple P (attempt m) Q E"
  unfolding triple_def attempt_def by (fastforce split: prod.splits sum.splits)

lemma triple_lift: "(\<And>s x. P s \<Longrightarrow> r = Inr x \<Longrightarrow> Q x s) \<Longrightarrow> (\<And>s. P s \<Longrightarrow> E s) \<Longrightarrow> triple P (lift_r r) Q E"
  by (auto simp: triple_def lift_r_def split: sum.split)

text \<open>
  The operations, for predicates of the files alone. An operation that touches no file outside
  \<open>p\<close> keeps every such predicate that does not depend on \<open>p\<close>.
\<close>

lemma remove_file_triple:
  "(\<And>s. P s \<Longrightarrow> E (tick s)) \<Longrightarrow> (\<And>s. P s \<Longrightarrow> Q (tick (set_file p None s))) \<Longrightarrow>
   triple P (remove_file o' p) (\<lambda>_. Q) E"
  by (auto simp: triple_def remove_file_def split: fault.split option.split)

lemma rename_file_triple:
  "(\<And>s. P s \<Longrightarrow> E (tick s)) \<Longrightarrow>
   (\<And>s c. P s \<Longrightarrow> files s p = Some c \<Longrightarrow> Q (tick (set_file q (Some c) (set_file p None s)))) \<Longrightarrow>
   triple P (rename_file o' p q) (\<lambda>_. Q) E"
  by (auto simp: triple_def rename_file_def split: fault.split option.split)

lemma write_file_triple:
  "(\<And>s. P s \<Longrightarrow> E (tick s)) \<Longrightarrow> (\<And>s n. P s \<Longrightarrow> E (tick (set_file p (Some (take n bs)) s))) \<Longrightarrow>
   (\<And>s. P s \<Longrightarrow> Q (tick (set_file p (Some bs) s))) \<Longrightarrow> triple P (write_file o' p bs) (\<lambda>_. Q) E"
  by (auto simp: triple_def write_file_def split: fault.split)

lemma append_file_triple:
  "(\<And>s. P s \<Longrightarrow> E (tick s)) \<Longrightarrow>
   (\<And>s n. P s \<Longrightarrow> E (tick (set_file p (Some (contents (files s p) @ take n bs)) s))) \<Longrightarrow>
   (\<And>s. P s \<Longrightarrow> Q (tick (set_file p (Some (contents (files s p) @ bs)) s))) \<Longrightarrow>
   triple P (append_file o' p bs) (\<lambda>_. Q) E"
  by (auto simp: triple_def append_file_def split: fault.split)

lemma copy_file_triple:
  "(\<And>s. P s \<Longrightarrow> E (tick s)) \<Longrightarrow> (\<And>s n bs. P s \<Longrightarrow> E (tick (set_file q (Some (take n bs)) s))) \<Longrightarrow>
   (\<And>s bs. P s \<Longrightarrow> files s p = Some bs \<Longrightarrow> Q (tick (set_file q (Some bs) s))) \<Longrightarrow>
   triple P (copy_file o' p q) (\<lambda>_. Q) E"
  by (auto simp: triple_def copy_file_def write_file_def split: fault.split option.split)

lemma set_len_triple:
  "(\<And>s. P s \<Longrightarrow> E (tick s)) \<Longrightarrow>
   (\<And>s bs. P s \<Longrightarrow> files s p = Some bs \<Longrightarrow>
      Q (tick (set_file p (Some (take n bs @ replicate (n - length bs) (CHR 0x00))) s))) \<Longrightarrow>
   triple P (set_len o' p n) (\<lambda>_. Q) E"
  by (auto simp: triple_def set_len_def split: fault.split option.split)

lemma read_file_triple:
  "(\<And>s. P s \<Longrightarrow> E (tick s)) \<Longrightarrow> (\<And>s bs. P s \<Longrightarrow> files s p = Some bs \<Longrightarrow> Q bs (tick s)) \<Longrightarrow>
   triple P (read_file o' p) Q E"
  by (auto simp: triple_def read_file_def split: fault.split option.split)

lemma sync_file_triple:
  "(\<And>s. P s \<Longrightarrow> E (tick s)) \<Longrightarrow> (\<And>s. P s \<Longrightarrow> Q (tick s)) \<Longrightarrow> triple P (sync_file o' p) (\<lambda>_. Q) E"
  unfolding sync_file_def by (intro hoare_intro read_file_triple triple_ret) auto

lemma file_size_triple:
  "(\<And>s. P s \<Longrightarrow> E (tick s)) \<Longrightarrow> (\<And>s bs. P s \<Longrightarrow> files s p = Some bs \<Longrightarrow> Q (length bs) (tick s)) \<Longrightarrow>
   triple P (file_size o' p) Q E"
  unfolding file_size_def
  by (rule triple_bind [where R = "\<lambda>bs s. Q (length bs) s"]) (auto intro: read_file_triple triple_ret)

lemma sync_dir_triple:
  "(\<And>s. P s \<Longrightarrow> E (tick s)) \<Longrightarrow> (\<And>s. P s \<Longrightarrow> Q (tick s)) \<Longrightarrow> triple P (sync_dir o' p) (\<lambda>_. Q) E"
  by (auto simp: triple_def sync_dir_def)

lemma create_dir_triple:
  "(\<And>s. P s \<Longrightarrow> E (tick s)) \<Longrightarrow> (\<And>s. P s \<Longrightarrow> Q (tick (s\<lparr>dirs := with_parents p \<union> dirs s\<rparr>))) \<Longrightarrow>
   triple P (create_dir_all o' p) (\<lambda>_. Q) E"
  by (auto simp: triple_def create_dir_all_def)

lemma remove_dir_triple:
  "(\<And>s. P s \<Longrightarrow> E (tick s)) \<Longrightarrow> (\<And>s. P s \<Longrightarrow> Q (tick (s\<lparr>dirs := dirs s - {p}\<rparr>))) \<Longrightarrow>
   triple P (remove_dir o' p) (\<lambda>_. Q) E"
  by (auto simp: triple_def remove_dir_def)

end
