(* ===== verification/Snapshot.thy ===== *)
theory Snapshot
  imports Files VectorIndexModel
begin

text \<open>
  \<open>crates/solo-storage/src/snapshot.rs\<close>: the two files of an index snapshot, their replacement
  with a backup of the previous pair, and what the startup loads. Writing and parsing the two
  files is the library \<open>hnsw_rs\<close>, a parameter.
\<close>

section \<open>Files of a snapshot\<close>

definition LIVE_BASENAME :: string where "LIVE_BASENAME = ''hnsw_episodes''"
definition BAK_BASENAME :: string where "BAK_BASENAME = ''hnsw_episodes_bak''"
definition TMP_BASENAME :: string where "TMP_BASENAME = ''hnsw_episodes_tmp''"
definition DATA_SUFFIX :: string where "DATA_SUFFIX = ''.hnsw.data''"
definition GRAPH_SUFFIX :: string where "GRAPH_SUFFIX = ''.hnsw.graph''"

definition data_path :: "path \<Rightarrow> string \<Rightarrow> path" where
  "data_path dir basename = (basename @ DATA_SUFFIX) # dir"

definition graph_path :: "path \<Rightarrow> string \<Rightarrow> path" where
  "graph_path dir basename = (basename @ GRAPH_SUFFIX) # dir"

definition pair_exists :: "path \<Rightarrow> string \<Rightarrow> disk \<Rightarrow> bool" where
  "pair_exists dir basename s = (is_file (data_path dir basename) s \<and> is_file (graph_path dir basename) s)"

fun remove_all :: "plan \<Rightarrow> path list \<Rightarrow> unit io" where
  "remove_all o' [] = ret ()"
| "remove_all o' (p # ps) =
     bind_io (attempt (remove_file o' p)) (\<lambda>r. case r of
         Inr _ \<Rightarrow> remove_all o' ps
       | Inl EntryNotFound \<Rightarrow> remove_all o' ps
       | Inl e \<Rightarrow> raise e)"

definition remove_pair :: "plan \<Rightarrow> path \<Rightarrow> string \<Rightarrow> unit io" where
  "remove_pair o' dir basename = remove_all o' [data_path dir basename, graph_path dir basename]"

definition copy_pair :: "plan \<Rightarrow> path \<Rightarrow> string \<Rightarrow> string \<Rightarrow> unit io" where
  "copy_pair o' dir src dst =
     bind_io (copy_file o' (data_path dir src) (data_path dir dst)) (\<lambda>_.
     copy_file o' (graph_path dir src) (graph_path dir dst))"

definition rename_pair :: "plan \<Rightarrow> path \<Rightarrow> string \<Rightarrow> string \<Rightarrow> unit io" where
  "rename_pair o' dir src dst =
     bind_io (rename_file o' (data_path dir src) (data_path dir dst)) (\<lambda>_.
     rename_file o' (graph_path dir src) (graph_path dir dst))"

definition fsync_pair :: "plan \<Rightarrow> path \<Rightarrow> string \<Rightarrow> unit io" where
  "fsync_pair o' dir basename =
     bind_io (sync_file o' (data_path dir basename)) (\<lambda>_. sync_file o' (graph_path dir basename))"

text \<open>\<open>delete_all_pairs\<close>, with every error as a vector index error.\<close>

definition vi_err :: "'a io \<Rightarrow> (error, 'a) op" where
  "vi_err m = map_err (\<lambda>_. VectorIndex) m"

definition delete_all_pairs :: "plan \<Rightarrow> path \<Rightarrow> (error, unit) op" where
  "delete_all_pairs o' dir =
     bind_io (vi_err (remove_pair o' dir LIVE_BASENAME)) (\<lambda>_.
     bind_io (vi_err (remove_pair o' dir BAK_BASENAME)) (\<lambda>_.
     vi_err (remove_pair o' dir TMP_BASENAME)))"

section \<open>Saving and loading\<close>

text \<open>
  \<open>file_dump\<close> writes the two files of a basename; \<open>load_pair\<close> is what \<open>load_description\<close> and
  \<open>load_hnsw\<close> make of the contents of the two files: the graph and its dimension.
\<close>

record hnsw_files =
  file_dump :: "graph \<Rightarrow> path \<Rightarrow> string \<Rightarrow> unit io"
  load_pair :: "string \<Rightarrow> string \<Rightarrow> (graph \<times> nat) option"

definition promote_live :: "plan \<Rightarrow> path \<Rightarrow> (error, unit) op" where
  "promote_live o' dir s =
     (if pair_exists dir LIVE_BASENAME s
      then bind_io (vi_err (remove_pair o' dir BAK_BASENAME)) (\<lambda>_.
           bind_io (vi_err (copy_pair o' dir LIVE_BASENAME BAK_BASENAME)) (\<lambda>_.
           bind_io (vi_err (fsync_pair o' dir BAK_BASENAME)) (\<lambda>_.
           vi_err (sync_dir o' dir)))) s
      else ret () s)"

definition save :: "hnsw_files \<Rightarrow> 'd hnsw_rs \<Rightarrow> plan \<Rightarrow> HnswIndex \<Rightarrow> path \<Rightarrow> (error, unit) op" where
  "save io lib o' idx dir =
     (if raw_len lib idx = 0 then ret ()
      else
        bind_io (vi_err (create_dir_all o' dir)) (\<lambda>_.
        bind_io (vi_err (remove_pair o' dir TMP_BASENAME)) (\<lambda>_.
        bind_io (vi_err (file_dump io (inner idx) dir TMP_BASENAME)) (\<lambda>_.
        bind_io (vi_err (fsync_pair o' dir TMP_BASENAME)) (\<lambda>_.
        bind_io (vi_err (sync_dir o' dir)) (\<lambda>_.
        bind_io (promote_live o' dir) (\<lambda>_.
        bind_io (vi_err (rename_pair o' dir TMP_BASENAME LIVE_BASENAME)) (\<lambda>_.
        vi_err (sync_dir o' dir)))))))))"

definition load_inner_from_basename :: "hnsw_files \<Rightarrow> path \<Rightarrow> string \<Rightarrow> disk \<Rightarrow> HnswIndex result" where
  "load_inner_from_basename io dir basename s =
     (case load_pair io (contents (files s (data_path dir basename)))
                        (contents (files s (graph_path dir basename))) of
        None \<Rightarrow> Inl VectorIndex
      | Some (g, d) \<Rightarrow> Inr (from_inner g d))"

definition load :: "hnsw_files \<Rightarrow> path \<Rightarrow> disk \<Rightarrow> HnswIndex result" where
  "load io dir s =
     (if \<not> pair_exists dir LIVE_BASENAME s then Inl VectorIndex
      else load_inner_from_basename io dir LIVE_BASENAME s)"

definition load_bak :: "hnsw_files \<Rightarrow> path \<Rightarrow> disk \<Rightarrow> HnswIndex result" where
  "load_bak io dir s =
     (if \<not> pair_exists dir BAK_BASENAME s then Inl VectorIndex
      else load_inner_from_basename io dir BAK_BASENAME s)"

section \<open>Facts\<close>

lemma path_ne:
  "data_path dir b \<noteq> graph_path dir' b'"
  "data_path dir LIVE_BASENAME \<noteq> data_path dir' BAK_BASENAME" "data_path dir LIVE_BASENAME \<noteq> data_path dir' TMP_BASENAME"
  "data_path dir BAK_BASENAME \<noteq> data_path dir' TMP_BASENAME" "graph_path dir LIVE_BASENAME \<noteq> graph_path dir' BAK_BASENAME"
  "graph_path dir LIVE_BASENAME \<noteq> graph_path dir' TMP_BASENAME" "graph_path dir BAK_BASENAME \<noteq> graph_path dir' TMP_BASENAME"
proof -
  have "last (b @ DATA_SUFFIX) \<noteq> last (b' @ GRAPH_SUFFIX)"
    by (simp add: DATA_SUFFIX_def GRAPH_SUFFIX_def)
  then show "data_path dir b \<noteq> graph_path dir' b'" by (auto simp: data_path_def graph_path_def)
qed (simp_all add: data_path_def graph_path_def LIVE_BASENAME_def BAK_BASENAME_def TMP_BASENAME_def
    DATA_SUFFIX_def GRAPH_SUFFIX_def)

lemmas path_ne_sym = path_ne [symmetric]
lemmas path_nes = path_ne path_ne_sym

text \<open>A pair of files with these contents.\<close>

definition pair_is :: "path \<Rightarrow> string \<Rightarrow> string \<Rightarrow> string \<Rightarrow> disk \<Rightarrow> bool" where
  "pair_is dir b d g s = (files s (data_path dir b) = Some d \<and> files s (graph_path dir b) = Some g)"

lemma pair_is_tick [simp]: "pair_is dir b d g (tick s) = pair_is dir b d g s"
  by (simp add: pair_is_def)

lemma pair_is_dirs [simp]: "pair_is dir b d g (s\<lparr>dirs := ds\<rparr>) = pair_is dir b d g s"
  by (simp add: pair_is_def)

lemma pair_is_other [simp]:
  "p \<noteq> data_path dir b \<Longrightarrow> p \<noteq> graph_path dir b \<Longrightarrow> pair_is dir b d g (set_file p c s) = pair_is dir b d g s"
  by (simp add: pair_is_def)

lemma pair_is_exists: "pair_is dir b d g s \<Longrightarrow> pair_exists dir b s"
  by (simp add: pair_is_def pair_exists_def is_file_def)

text \<open>An operation that touches only the files of one pair keeps what is known of the others.\<close>

definition stable :: "path \<Rightarrow> string \<Rightarrow> (disk \<Rightarrow> bool) \<Rightarrow> bool" where
  "stable dir b P =
     ((\<forall>s. P s \<longrightarrow> P (tick s)) \<and> (\<forall>s ds. P s \<longrightarrow> P (s\<lparr>dirs := ds\<rparr>)) \<and>
      (\<forall>s c. P s \<longrightarrow> P (set_file (data_path dir b) c s)) \<and> (\<forall>s c. P s \<longrightarrow> P (set_file (graph_path dir b) c s)))"

lemma stable_intros:
  "stable dir BAK_BASENAME (pair_is dir LIVE_BASENAME d g)" "stable dir TMP_BASENAME (pair_is dir LIVE_BASENAME d g)"
  "stable dir TMP_BASENAME (pair_is dir BAK_BASENAME d g)" "stable dir BAK_BASENAME (pair_is dir TMP_BASENAME d g)"
  by (simp_all add: stable_def path_nes)

lemma stable_conj: "stable dir b P \<Longrightarrow> stable dir b Q \<Longrightarrow> stable dir b (\<lambda>s. P s \<and> Q s)"
  by (simp add: stable_def)

lemma stable_true: "stable dir b (\<lambda>_. True)"
  by (simp add: stable_def)

lemma stableD:
  assumes "stable dir b P" "P s"
  shows "P (tick s)" "P (s\<lparr>dirs := ds\<rparr>)" "P (set_file (data_path dir b) c s)" "P (set_file (graph_path dir b) c s)"
  using assms unfolding stable_def by blast+

lemma file_ops_stable:
  assumes "stable dir b P" "p = data_path dir b \<or> p = graph_path dir b"
  shows "triple P (attempt (remove_file o' p)) (\<lambda>_. P) E" "triple P (sync_file o' p) (\<lambda>_. P) P"
    "triple P (copy_file o' q p) (\<lambda>_. P) P"
proof -
  note st = stableD [OF assms(1)]
  have set: "P (set_file p c s)" if "P s" for s c using assms(2) st(3,4) [OF that] by blast
  show "triple P (attempt (remove_file o' p)) (\<lambda>_. P) E"
    by (rule triple_attempt, rule remove_file_triple [where P = P]) (simp_all add: set st)
  show "triple P (sync_file o' p) (\<lambda>_. P) P" by (rule sync_file_triple [where P = P]) (simp_all add: st)
  show "triple P (copy_file o' q p) (\<lambda>_. P) P"
    by (rule copy_file_triple [where P = P]) (simp_all add: set st)
qed

lemma remove_pair_stable:
  assumes "stable dir b P" shows "triple P (remove_pair o' dir b) (\<lambda>_. P) P"
proof -
  have all: "triple P (remove_all o' ps) (\<lambda>_. P) P" if "set ps \<subseteq> {data_path dir b, graph_path dir b}" for ps
    using that
  proof (induction ps)
    case (Cons p ps)
    show ?case
      unfolding remove_all.simps
    proof (rule triple_bind)
      show "triple P (attempt (remove_file o' p)) (\<lambda>_. P) P" using Cons.prems file_ops_stable [OF assms] by auto
      show "triple P (case r of Inr _ \<Rightarrow> remove_all o' ps | Inl EntryNotFound \<Rightarrow> remove_all o' ps | Inl e \<Rightarrow> raise e)
              (\<lambda>_. P) P" for r
        using Cons by (auto intro: triple_raise split: sum.split io_error.split)
    qed
  qed (auto intro: triple_ret)
  show ?thesis unfolding remove_pair_def by (rule all) simp
qed

lemma sync_stable:
  assumes "stable dir b P"
  shows "triple P (fsync_pair o' dir b) (\<lambda>_. P) P" "triple P (sync_dir o' dir) (\<lambda>_. P) P"
    "triple P (create_dir_all o' dir) (\<lambda>_. P) P"
proof -
  note st = stableD [OF assms]
  show "triple P (fsync_pair o' dir b) (\<lambda>_. P) P"
    unfolding fsync_pair_def by (rule triple_bind [where R = "\<lambda>_. P"]) (use file_ops_stable [OF assms] in auto)
  show "triple P (sync_dir o' dir) (\<lambda>_. P) P" by (rule sync_dir_triple [where P = P]) (simp_all add: st)
  show "triple P (create_dir_all o' dir) (\<lambda>_. P) P" by (rule create_dir_triple [where P = P]) (simp_all add: st)
qed

section \<open>The save\<close>

text \<open>
  What is relied on of the library: a dump that succeeds has written this pair, one that fails
  has touched no other file; the loader accepts the pair of one dump and refuses a mixed one.
\<close>

definition dumps :: "hnsw_files \<Rightarrow> graph \<Rightarrow> string \<Rightarrow> string \<Rightarrow> bool" where
  "dumps io gr d g =
     (\<forall>dir b s. case file_dump io gr dir b s of
        (Inr _, s') \<Rightarrow> files s' = (files s)(data_path dir b := Some d, graph_path dir b := Some g)
      | (Inl _, s') \<Rightarrow> (\<forall>p. p \<noteq> data_path dir b \<longrightarrow> p \<noteq> graph_path dir b \<longrightarrow> files s' p = files s p))"

definition loads :: "hnsw_files \<Rightarrow> graph \<Rightarrow> nat \<Rightarrow> string \<Rightarrow> string \<Rightarrow> bool" where
  "loads io gr n d g = (load_pair io d g = Some (gr, n))"

text \<open>A predicate of the files outside the temporary pair survives the dump.\<close>

definition file_pred :: "(disk \<Rightarrow> bool) \<Rightarrow> bool" where
  "file_pred P = (\<forall>s s'. files s = files s' \<longrightarrow> P s = P s')"

lemma live_pair_file_pred: "file_pred (pair_is dir b d g)"
  by (simp add: file_pred_def pair_is_def)

lemma dump_triple:
  assumes "dumps io gr d g"
  shows "triple (pair_is dir LIVE_BASENAME d0 g0) (file_dump io gr dir TMP_BASENAME)
           (\<lambda>_ s. pair_is dir LIVE_BASENAME d0 g0 s \<and> pair_is dir TMP_BASENAME d g s) (pair_is dir LIVE_BASENAME d0 g0)"
    and "triple (\<lambda>_. True) (file_dump io gr dir TMP_BASENAME) (\<lambda>_. pair_is dir TMP_BASENAME d g) (\<lambda>_. True)"
proof -
  have dm: "case file_dump io gr dir TMP_BASENAME s of
      (Inr _, s') \<Rightarrow> files s' = (files s)(data_path dir TMP_BASENAME := Some d, graph_path dir TMP_BASENAME := Some g)
    | (Inl _, s') \<Rightarrow> (\<forall>p. p \<noteq> data_path dir TMP_BASENAME \<longrightarrow> p \<noteq> graph_path dir TMP_BASENAME \<longrightarrow> files s' p = files s p)"
    for s by (rule assms [unfolded dumps_def, THEN spec, THEN spec, THEN spec])
  show "triple (pair_is dir LIVE_BASENAME d0 g0) (file_dump io gr dir TMP_BASENAME)
           (\<lambda>_ s. pair_is dir LIVE_BASENAME d0 g0 s \<and> pair_is dir TMP_BASENAME d g s) (pair_is dir LIVE_BASENAME d0 g0)"
    unfolding triple_def
  proof (intro allI impI)
    fix s assume "pair_is dir LIVE_BASENAME d0 g0 s"
    then show "case file_dump io gr dir TMP_BASENAME s of (Inl _, s') \<Rightarrow> pair_is dir LIVE_BASENAME d0 g0 s'
        | (Inr _, s') \<Rightarrow> pair_is dir LIVE_BASENAME d0 g0 s' \<and> pair_is dir TMP_BASENAME d g s'"
      using dm [of s] by (auto simp: pair_is_def path_nes split: prod.splits sum.splits)
  qed
  show "triple (\<lambda>_. True) (file_dump io gr dir TMP_BASENAME) (\<lambda>_. pair_is dir TMP_BASENAME d g) (\<lambda>_. True)"
    unfolding triple_def
  proof (intro allI impI)
    fix s
    show "case file_dump io gr dir TMP_BASENAME s of (Inl _, s') \<Rightarrow> True | (Inr _, s') \<Rightarrow> pair_is dir TMP_BASENAME d g s'"
      using dm [of s] by (auto simp: pair_is_def path_nes split: prod.splits sum.splits)
  qed
qed

text \<open>The backup is the old live pair once the promotion has succeeded.\<close>

lemma promote_live_triple:
  "triple (\<lambda>s. pair_is dir LIVE_BASENAME d0 g0 s \<and> pair_is dir TMP_BASENAME d1 g1 s) (promote_live o' dir)
     (\<lambda>_ s. (pair_is dir LIVE_BASENAME d0 g0 s \<and> pair_is dir TMP_BASENAME d1 g1 s) \<and> pair_is dir BAK_BASENAME d0 g0 s)
     (\<lambda>s. pair_is dir LIVE_BASENAME d0 g0 s \<and> pair_is dir TMP_BASENAME d1 g1 s)"
    (is "triple ?P _ (\<lambda>_ s. ?P s \<and> ?B s) ?P")
proof -
  have st: "stable dir BAK_BASENAME ?P" by (intro stable_conj stable_intros)
  have copy: "triple ?P (copy_pair o' dir LIVE_BASENAME BAK_BASENAME) (\<lambda>_ s. ?P s \<and> ?B s) ?P"
    unfolding copy_pair_def
  proof (rule triple_bind)
    show "triple ?P (copy_file o' (data_path dir LIVE_BASENAME) (data_path dir BAK_BASENAME))
            (\<lambda>_ s. ?P s \<and> files s (data_path dir BAK_BASENAME) = Some d0) ?P"
      by (rule copy_file_triple [where P = ?P]) (auto simp: path_nes pair_is_def)
    show "triple (\<lambda>s. ?P s \<and> files s (data_path dir BAK_BASENAME) = Some d0)
            (copy_file o' (graph_path dir LIVE_BASENAME) (graph_path dir BAK_BASENAME)) (\<lambda>_ s. ?P s \<and> ?B s) ?P"
      by (rule copy_file_triple [where P = "\<lambda>s. ?P s \<and> files s (data_path dir BAK_BASENAME) = Some d0"])
        (auto simp: path_nes pair_is_def)
  qed
  have sync: "triple (\<lambda>s. ?P s \<and> ?B s) (sync_dir o' dir) (\<lambda>_ s. ?P s \<and> ?B s) ?P"
    by (rule sync_dir_triple [where P = "\<lambda>s. ?P s \<and> ?B s"]) simp_all
  have fsync: "triple (\<lambda>s. ?P s \<and> ?B s) (fsync_pair o' dir BAK_BASENAME) (\<lambda>_ s. ?P s \<and> ?B s) ?P"
    unfolding fsync_pair_def
    by (rule triple_bind [where R = "\<lambda>_ s. ?P s \<and> ?B s"];
        rule sync_file_triple [where P = "\<lambda>s. ?P s \<and> ?B s"]; simp)
  have "triple ?P (bind_io (vi_err (remove_pair o' dir BAK_BASENAME)) (\<lambda>_.
           bind_io (vi_err (copy_pair o' dir LIVE_BASENAME BAK_BASENAME)) (\<lambda>_.
           bind_io (vi_err (fsync_pair o' dir BAK_BASENAME)) (\<lambda>_.
           vi_err (sync_dir o' dir))))) (\<lambda>_ s. ?P s \<and> ?B s) ?P"
    unfolding vi_err_def
    by (intro triple_bind [OF triple_map_err [OF remove_pair_stable [OF st]]]
        triple_bind [OF triple_map_err [OF copy]] triple_bind [OF triple_map_err [OF fsync]] triple_map_err [OF sync])
  then show ?thesis
    unfolding triple_def promote_live_def by (auto simp: pair_is_exists)
qed

end
