(* ===== verification/SnapshotProps.thy ===== *)
theory SnapshotProps
  imports Snapshot RecoveryProps
begin

text \<open>
  The properties of the snapshot: what a save leaves on the disk whenever it stops, as the
  startup of \<open>Recovery\<close> sees it.
\<close>

section \<open>The states a save passes through\<close>

definition recoverable :: "path \<Rightarrow> string \<Rightarrow> string \<Rightarrow> string \<Rightarrow> string \<Rightarrow> disk \<Rightarrow> bool" where
  "recoverable dir d0 g0 d1 g1 s =
     (pair_is dir LIVE_BASENAME d0 g0 s \<or>
      (files s (data_path dir LIVE_BASENAME) = Some d1 \<and> files s (graph_path dir LIVE_BASENAME) = Some g0 \<and>
       pair_is dir BAK_BASENAME d0 g0 s) \<or>
      pair_is dir LIVE_BASENAME d1 g1 s)"

lemma rename_live_triple:
  "triple (\<lambda>s. (pair_is dir LIVE_BASENAME d0 g0 s \<and> pair_is dir TMP_BASENAME d1 g1 s) \<and> pair_is dir BAK_BASENAME d0 g0 s)
     (rename_pair o' dir TMP_BASENAME LIVE_BASENAME) (\<lambda>_. pair_is dir LIVE_BASENAME d1 g1)
     (recoverable dir d0 g0 d1 g1)" (is "triple ?P _ _ _")
  unfolding rename_pair_def
proof (rule triple_bind)
  let ?M = "\<lambda>s. files s (data_path dir LIVE_BASENAME) = Some d1 \<and> files s (graph_path dir LIVE_BASENAME) = Some g0 \<and>
     files s (graph_path dir TMP_BASENAME) = Some g1 \<and> pair_is dir BAK_BASENAME d0 g0 s"
  show "triple ?P (rename_file o' (data_path dir TMP_BASENAME) (data_path dir LIVE_BASENAME)) (\<lambda>_. ?M)
          (recoverable dir d0 g0 d1 g1)"
    by (rule rename_file_triple [where P = ?P]) (auto simp: path_nes pair_is_def recoverable_def)
  show "triple ?M (rename_file o' (graph_path dir TMP_BASENAME) (graph_path dir LIVE_BASENAME))
          (\<lambda>_. pair_is dir LIVE_BASENAME d1 g1) (recoverable dir d0 g0 d1 g1)"
    by (rule rename_file_triple [where P = ?M]) (auto simp: path_nes pair_is_def recoverable_def)
qed

lemma recoverable_weaken:
  "triple P m Q E \<Longrightarrow> (\<And>s. E s \<Longrightarrow> pair_is dir LIVE_BASENAME d0 g0 s) \<Longrightarrow> triple P m Q (recoverable dir d0 g0 d1 g1)"
  by (erule triple_conseq) (auto simp: recoverable_def)

lemma save_triple:
  assumes "dumps io (inner idx) d1 g1" "raw_len lib idx \<noteq> 0"
  shows "triple (pair_is dir LIVE_BASENAME d0 g0) (save io lib o' idx dir) (\<lambda>_. pair_is dir LIVE_BASENAME d1 g1)
           (recoverable dir d0 g0 d1 g1)"
proof -
  let ?L = "pair_is dir LIVE_BASENAME d0 g0" and ?T = "pair_is dir TMP_BASENAME d1 g1"
  let ?R = "recoverable dir d0 g0 d1 g1"
  note weaken = recoverable_weaken [where ?d1.0 = d1 and ?g1.0 = g1]
  have st: "stable dir TMP_BASENAME ?L" by (rule stable_intros)
  have create: "triple ?L (create_dir_all o' dir) (\<lambda>_. ?L) ?R"
    by (rule weaken [OF sync_stable(3) [OF st]])
  have clean: "triple ?L (remove_pair o' dir TMP_BASENAME) (\<lambda>_. ?L) ?R"
    by (rule weaken [OF remove_pair_stable [OF st]])
  have dump: "triple ?L (file_dump io (inner idx) dir TMP_BASENAME) (\<lambda>_ s. ?L s \<and> ?T s) ?R"
    by (rule weaken [OF dump_triple(1) [OF assms(1)]])
  have sync: "triple (\<lambda>s. ?L s \<and> ?T s) (sync_dir o' dir) (\<lambda>_ s. ?L s \<and> ?T s) ?R"
    by (rule sync_dir_triple [where P = "\<lambda>s. ?L s \<and> ?T s"]) (simp_all add: recoverable_def)
  have fsync: "triple (\<lambda>s. ?L s \<and> ?T s) (fsync_pair o' dir TMP_BASENAME) (\<lambda>_ s. ?L s \<and> ?T s) ?R"
    unfolding fsync_pair_def
    by (rule triple_bind [where R = "\<lambda>_ s. ?L s \<and> ?T s"];
        rule sync_file_triple [where P = "\<lambda>s. ?L s \<and> ?T s"]; simp add: recoverable_def)
  have promote: "triple (\<lambda>s. ?L s \<and> ?T s) (promote_live o' dir)
      (\<lambda>_ s. (?L s \<and> ?T s) \<and> pair_is dir BAK_BASENAME d0 g0 s) ?R"
    by (rule recoverable_weaken [OF promote_live_triple]) simp
  have final: "triple (pair_is dir LIVE_BASENAME d1 g1) (sync_dir o' dir) (\<lambda>_. pair_is dir LIVE_BASENAME d1 g1) ?R"
    by (rule sync_dir_triple [where P = "pair_is dir LIVE_BASENAME d1 g1"]) (simp_all add: recoverable_def)
  note steps = triple_bind [OF triple_map_err [OF create]] triple_bind [OF triple_map_err [OF clean]]
    triple_bind [OF triple_map_err [OF dump]] triple_bind [OF triple_map_err [OF fsync]]
    triple_bind [OF triple_map_err [OF sync]] triple_bind [OF promote]
    triple_bind [OF triple_map_err [OF rename_live_triple]] triple_map_err [OF final]
  show ?thesis
    unfolding save_def vi_err_def if_not_P [OF assms(2)] by (rule steps)+
qed

section \<open>Crash safety\<close>

text \<open>
  C29: where a snapshot that loads is live before the save, wherever the save stops, by an error or a
  crash, the next startup loads a snapshot: the previous one, the new one, or, when the save stopped
  between its two last renames, whatever the loader makes of the new data file beside the
  previous graph file; in that case the previous snapshot is whole in the backup, and is
  what the startup loads when the loader refuses the mixed pair.
\<close>

theorem snapshot_crash_safe:
  assumes "dumps io (inner idx) d1 g1" "pair_is dir LIVE_BASENAME d0 g0 s"
    and "loads io old n d0 g0" "loads io (inner idx) m d1 g1"
    and "s' = snd (save io lib o' idx dir s)"
  shows "\<exists>i used. load_hnsw_with_fallback (load io dir s') (load_bak io dir s') fresh = (i, used, False) \<and>
     (i = from_inner old n \<or> i = from_inner (inner idx) m \<or>
      pair_is dir LIVE_BASENAME d1 g0 s' \<and> pair_is dir BAK_BASENAME d0 g0 s' \<and>
        (\<exists>gr k. load_pair io d1 g0 = Some (gr, k) \<and> i = from_inner gr k))"
proof -
  let ?s = "snd (save io lib o' idx dir s)"
  have "recoverable dir d0 g0 d1 g1 ?s"
  proof (cases "raw_len lib idx = 0")
    case True
    then show ?thesis using assms(2) by (simp add: save_def ret_def recoverable_def)
  next
    case False
    obtain r s' where run: "save io lib o' idx dir s = (r, s')" by fastforce
    from triple_cases [OF save_triple [OF assms(1) False] assms(2) run]
    show ?thesis by (auto simp: run recoverable_def)
  qed
  then consider "pair_is dir LIVE_BASENAME d0 g0 ?s" | "pair_is dir LIVE_BASENAME d1 g0 ?s" "pair_is dir BAK_BASENAME d0 g0 ?s"
    | "pair_is dir LIVE_BASENAME d1 g1 ?s" by (auto simp: recoverable_def pair_is_def)
  then show ?thesis
  proof cases
    case 2
    note mixed = this
    then show ?thesis
      using assms(3) by (cases "load_pair io d1 g0") (auto simp: assms(5) load_hnsw_with_fallback_def load_def load_bak_def
        pair_is_exists load_inner_from_basename_def pair_is_def loads_def contents_def)
  qed (use assms(3-4) in \<open>auto simp: assms(5) load_hnsw_with_fallback_def load_def load_bak_def pair_is_exists
      load_inner_from_basename_def pair_is_def loads_def contents_def\<close>)
qed

text \<open>Without anything known of the disk, a success still leaves the new pair.\<close>

lemma save_fresh_triple:
  assumes "dumps io (inner idx) d1 g1" "raw_len lib idx \<noteq> 0"
  shows "triple (\<lambda>_. True) (save io lib o' idx dir) (\<lambda>_. pair_is dir LIVE_BASENAME d1 g1) (\<lambda>_. True)"
proof -
  let ?T = "pair_is dir TMP_BASENAME d1 g1"
  have any: "triple P m (\<lambda>_ _. True) (\<lambda>_. True)" for P and m :: "unit io"
    by (auto simp: triple_def split: prod.split sum.split)
  have sync: "triple ?T (sync_dir o' dir) (\<lambda>_. ?T) (\<lambda>_. True)"
    by (rule sync_dir_triple [where P = ?T]) simp_all
  have fsync: "triple ?T (fsync_pair o' dir b) (\<lambda>_. ?T) (\<lambda>_. True)" for b
    unfolding fsync_pair_def
    by (rule triple_bind [where R = "\<lambda>_. ?T"]; rule sync_file_triple [where P = ?T]; simp)
  have st: "stable dir BAK_BASENAME ?T" by (rule stable_intros)
  have copy: "triple ?T (copy_pair o' dir LIVE_BASENAME BAK_BASENAME) (\<lambda>_. ?T) (\<lambda>_. True)"
    unfolding copy_pair_def
    by (rule triple_bind [where R = "\<lambda>_. ?T"]; rule triple_conseq [OF file_ops_stable(3) [OF st]]; simp)
  have rm: "triple ?T (remove_pair o' dir BAK_BASENAME) (\<lambda>_. ?T) (\<lambda>_. True)"
    by (rule triple_conseq [OF remove_pair_stable [OF st]]) simp_all
  have "triple ?T (bind_io (vi_err (remove_pair o' dir BAK_BASENAME)) (\<lambda>_.
           bind_io (vi_err (copy_pair o' dir LIVE_BASENAME BAK_BASENAME)) (\<lambda>_.
           bind_io (vi_err (fsync_pair o' dir BAK_BASENAME)) (\<lambda>_.
           vi_err (sync_dir o' dir))))) (\<lambda>_. ?T) (\<lambda>_. True)"
    unfolding vi_err_def
    by (intro triple_bind [OF triple_map_err [OF rm]] triple_bind [OF triple_map_err [OF copy]]
        triple_bind [OF triple_map_err [OF fsync]] triple_map_err [OF sync])
  then have promote: "triple ?T (promote_live o' dir) (\<lambda>_. ?T) (\<lambda>_. True)"
    unfolding triple_def promote_live_def by (auto simp: ret_def)
  let ?M = "\<lambda>s. files s (data_path dir LIVE_BASENAME) = Some d1 \<and> files s (graph_path dir TMP_BASENAME) = Some g1"
  have rename: "triple ?T (rename_pair o' dir TMP_BASENAME LIVE_BASENAME) (\<lambda>_. pair_is dir LIVE_BASENAME d1 g1) (\<lambda>_. True)"
    unfolding rename_pair_def
  proof (rule triple_bind)
    show "triple ?T (rename_file o' (data_path dir TMP_BASENAME) (data_path dir LIVE_BASENAME)) (\<lambda>_. ?M) (\<lambda>_. True)"
      by (rule rename_file_triple [where P = ?T]) (auto simp: path_nes pair_is_def)
    show "triple ?M (rename_file o' (graph_path dir TMP_BASENAME) (graph_path dir LIVE_BASENAME))
            (\<lambda>_. pair_is dir LIVE_BASENAME d1 g1) (\<lambda>_. True)"
      by (rule rename_file_triple [where P = ?M]) (auto simp: path_nes pair_is_def)
  qed
  have final: "triple (pair_is dir LIVE_BASENAME d1 g1) (sync_dir o' dir) (\<lambda>_. pair_is dir LIVE_BASENAME d1 g1) (\<lambda>_. True)"
    by (rule sync_dir_triple [where P = "pair_is dir LIVE_BASENAME d1 g1"]) simp_all
  note steps = triple_bind [OF triple_map_err [OF any]] triple_bind [OF triple_map_err [OF dump_triple(2) [OF assms(1)]]]
    triple_bind [OF triple_map_err [OF fsync]]
    triple_bind [OF triple_map_err [OF sync]] triple_bind [OF promote]
    triple_bind [OF triple_map_err [OF rename]] triple_map_err [OF final]
  show ?thesis
    unfolding save_def vi_err_def if_not_P [OF assms(2)]
    by (rule steps(1), rule steps(1), rule steps(2), rule steps(3), rule steps(4), rule steps(5), rule steps(6), rule steps(7))
qed

text \<open>
  C30: a save that reports success, whatever was on the disk before: an index nothing was ever
  inserted into is not written and nothing changes; otherwise the next startup loads the live
  pair, not the backup, and gets the graph of the saved index with all its vectors, the removed ones
  included, and no tombstone.
\<close>

theorem save_then_load:
  assumes "dumps io (inner idx) d1 g1" "loads io (inner idx) m d1 g1"
    and "save io lib o' idx dir s = (Inr u, s')"
  shows "if raw_len lib idx = 0 then s' = s
    else load_hnsw_with_fallback (load io dir s') (load_bak io dir s') fresh = (from_inner (inner idx) m, False, False)"
proof (cases "raw_len lib idx = 0")
  case True
  then show ?thesis using assms(3) by (simp add: save_def ret_def)
next
  case False
  have "pair_is dir LIVE_BASENAME d1 g1 s'"
    using tripleD(1) [OF save_fresh_triple [OF assms(1) False] TrueI assms(3)] .
  then have "load io dir s' = Inr (from_inner (inner idx) m)"
    using assms(2) by (auto simp: load_def pair_is_exists load_inner_from_basename_def pair_is_def loads_def contents_def)
  with False show ?thesis by (simp add: load_hnsw_with_fallback_def)
qed

section \<open>A concrete save\<close>

definition sample_old :: graph where "sample_old = [(1, [7])]"
definition sample_new :: graph where "sample_new = [(1, [7]), (2, [9])]"

definition sample_io :: hnsw_files where
  "sample_io =
     \<lparr>file_dump = (\<lambda>g dir b s. (Inr (), s\<lparr>files := (files s)(data_path dir b := Some ''d1'', graph_path dir b := Some ''g1'')\<rparr>)),
      load_pair = (\<lambda>d g. if d = ''d1'' \<and> g = ''g1'' then Some (sample_new, 1)
                        else if d = ''d0'' \<and> g = ''g0'' then Some (sample_old, 1) else None)\<rparr>"

definition sample_disk :: disk where
  "sample_disk = \<lparr>files = (\<lambda>_. None)(data_path [] LIVE_BASENAME := Some ''d0'', graph_path [] LIVE_BASENAME := Some ''g0''),
     dirs = {}, locks = (\<lambda>_. None), clock = 0\<rparr>"

text \<open>The crash between the two renames: operation 14 and all later ones do not happen.\<close>

definition crash_at :: "nat \<Rightarrow> plan" where
  "crash_at k n = (if n < k then Fine else Refused)"

lemma sample_io_facts:
  "dumps sample_io g ''d1'' ''g1''" "loads sample_io sample_new 1 ''d1'' ''g1''" "loads sample_io sample_old 1 ''d0'' ''g0''"
  "load_pair sample_io ''d1'' ''g0'' = None"
  by (simp_all add: dumps_def loads_def sample_io_def)

text \<open>A loader that looks at the two files apart takes the mixed pair.\<close>

definition lenient_io :: hnsw_files where
  "lenient_io = sample_io\<lparr>load_pair := (\<lambda>d g. Some (if g = ''g1'' then sample_new else if d = ''d1'' then [(1, [9])] else sample_old, 1))\<rparr>"

lemmas save_eval = save_def raw_len_def sample_lib_def from_inner_def sample_new_def bind_io_def vi_err_def map_err_def
  create_dir_all_def with_parents.simps remove_pair_def attempt_def remove_file_def sample_disk_def sample_io_def
  fsync_pair_def sync_file_def read_file_def ret_def sync_dir_def promote_live_def pair_exists_def is_file_def
  copy_pair_def copy_file_def write_file_def rename_pair_def rename_file_def path_nes

lemma mixed_pair_is_loaded:
  "load_hnsw_with_fallback
     (load lenient_io [] (snd (save lenient_io sample_lib (crash_at 14) (from_inner sample_new 1) [] sample_disk)))
     (load_bak lenient_io [] (snd (save lenient_io sample_lib (crash_at 14) (from_inner sample_new 1) [] sample_disk)))
     (hnsw_new 1 default_params) = (from_inner [(1, [9])] 1, False, False)"
  by (simp add: save_eval lenient_io_def crash_at_def load_hnsw_with_fallback_def load_def load_inner_from_basename_def
      contents_def sample_old_def)

theorem snapshot_crash_safe_witness:
  "\<exists>i used. load_hnsw_with_fallback
     (load sample_io [] (snd (save sample_io sample_lib (crash_at 14) (from_inner sample_new 1) [] sample_disk)))
     (load_bak sample_io [] (snd (save sample_io sample_lib (crash_at 14) (from_inner sample_new 1) [] sample_disk)))
     (hnsw_new 1 default_params) = (i, used, False) \<and> (i = from_inner sample_old 1 \<or> i = from_inner sample_new 1)"
proof -
  have live: "pair_is [] LIVE_BASENAME ''d0'' ''g0'' sample_disk"
    by (simp add: sample_disk_def pair_is_def path_nes)
  have new: "loads sample_io (inner (from_inner sample_new 1)) 1 ''d1'' ''g1''"
    using sample_io_facts(2) by (simp add: from_inner_def)
  show ?thesis
    using snapshot_crash_safe [OF sample_io_facts(1) live sample_io_facts(3) new refl,
      where lib = sample_lib and o' = "crash_at 14" and fresh = "hnsw_new 1 default_params"]
    by (simp add: sample_io_facts(4)) (simp add: from_inner_def)
qed

theorem save_then_load_witness:
  "load_hnsw_with_fallback
     (load sample_io [] (snd (save sample_io sample_lib (\<lambda>_. Fine) (from_inner sample_new 1) [] sample_disk)))
     (load_bak sample_io [] (snd (save sample_io sample_lib (\<lambda>_. Fine) (from_inner sample_new 1) [] sample_disk)))
     (hnsw_new 1 default_params) = (from_inner sample_new 1, False, False)"
proof -
  have "\<exists>s'. save sample_io sample_lib (\<lambda>_. Fine) (from_inner sample_new 1) [] sample_disk = (Inr (), s')"
    by (simp add: save_eval)
  then obtain s' where run: "save sample_io sample_lib (\<lambda>_. Fine) (from_inner sample_new 1) [] sample_disk = (Inr (), s')" by blast
  have new: "loads sample_io (inner (from_inner sample_new 1)) 1 ''d1'' ''g1''"
    using sample_io_facts(2) by (simp add: from_inner_def)
  have full: "raw_len sample_lib (from_inner sample_new 1) \<noteq> 0"
    by (simp add: from_inner_def raw_len_def sample_lib_def sample_new_def)
  have "inner (from_inner sample_new 1) = sample_new" by (simp add: from_inner_def)
  with save_then_load [OF sample_io_facts(1) new run, where fresh = "hnsw_new 1 default_params"] full
  show ?thesis by (simp only: run snd_conv if_False)
qed

end
