(* ===== verification/UploadBase.thy ===== *)
theory UploadBase
  imports Files
begin

text \<open>
  The data and the pure helpers of \<open>crates/solo-api/src/document_upload.rs\<close>: the manifest of a
  resumable upload, its status, the checks of a request and the names of the files. The parsing
  of UUIDs, the JSON of a manifest and SHA-256 are libraries, parameters of the environment.
\<close>

section \<open>Constants\<close>

definition MAX_UPLOAD_BYTES :: nat where "MAX_UPLOAD_BYTES = 100 * 1024 * 1024"
definition RECOMMENDED_CHUNK_BYTES :: nat where "RECOMMENDED_CHUNK_BYTES = 8 * 1024 * 1024"
definition UPLOAD_TTL_SECS :: int where "UPLOAD_TTL_SECS = 60 * 60"
definition TERMINAL_RECEIPT_TTL_SECS :: int where "TERMINAL_RECEIPT_TTL_SECS = 24 * 60 * 60"
definition STAGED_URI_PREFIX :: string where "STAGED_URI_PREFIX = ''solo-staged://upload/''"

section \<open>Requests, manifests, responses\<close>

record UploadPrepareRequest =
  pr_filename :: string
  pr_mime_type :: "string option"
  pr_size_bytes :: nat
  pr_sha256 :: "string option"

datatype UploadStatus = Open | Busy | Committed | Ingested | Expired | Aborted

text \<open>Of the receipt of an ingest the upload code itself reads only these fields.\<close>

record StagedIngestResponse =
  si_staged_uri :: string
  si_deleted_staged_file :: bool
  si_retained_source_file :: bool
  si_idempotent_replay :: bool
  si_ingest_completed_at_ms :: int

record UploadManifest =
  um_upload_id :: string
  um_filename :: string
  um_sanitized_filename :: string
  um_mime_type :: string
  um_size_bytes :: nat
  um_expected_sha256 :: "string option"
  um_actual_sha256 :: "string option"
  um_bytes_received :: nat
  um_status :: UploadStatus
  um_created_at_ms :: int
  um_expires_at_ms :: int
  um_ingest_result :: "StagedIngestResponse option"

record UploadCommitResponse =
  cr_upload_id :: string
  cr_staged_uri :: string
  cr_filename :: string
  cr_mime_type :: string
  cr_size_bytes :: nat
  cr_sha256 :: string

record UploadStatusResponse =
  sr_upload_id :: string
  sr_status :: UploadStatus
  sr_bytes_received :: nat
  sr_size_bytes :: nat
  sr_next_offset :: nat
  sr_expires_at_ms :: int
  sr_operation_in_progress :: bool
  sr_active_operation :: "string option"
  sr_staged_uri :: "string option"
  sr_commit_result :: "UploadCommitResponse option"
  sr_ingest_result :: "StagedIngestResponse option"
  sr_terminal :: bool

record UploadAbortResponse =
  ab_upload_id :: string
  ab_status :: UploadStatus
  ab_cleanup_performed :: bool
  ab_already_aborted :: bool
  ab_removed_partial_file :: bool
  ab_removed_staged_file :: bool

text \<open>The clock is read as a function of the number of file operations done so far.\<close>

record uenv =
  io_plan :: plan
  time_ms :: "nat \<Rightarrow> int"
  uuid_ok :: "string \<Rightarrow> bool"
  new_uuid :: string
  to_json :: "UploadManifest \<Rightarrow> string"
  from_json :: "string \<Rightarrow> UploadManifest option"
  sha256_of :: "string \<Rightarrow> string"
  owner_json :: "string \<Rightarrow> string"

definition now_ms :: "uenv \<Rightarrow> disk \<Rightarrow> int" where
  "now_ms e s = time_ms e (clock s)"

section \<open>Names\<close>

definition sanitize_char :: "char \<Rightarrow> char" where
  "sanitize_char c =
     (if is_ascii_alphanumeric c \<or> c = CHR ''.'' \<or> c = CHR ''-'' \<or> c = CHR ''_'' then c else CHR ''_'')"

text \<open>
  One character of the source is one byte sequence: a character beyond ASCII becomes one
  underscore, so the continuation bytes are dropped.
\<close>

definition sanitize_path_segment :: "string \<Rightarrow> string" where
  "sanitize_path_segment s =
     trim_end_char (CHR ''.'') (trim_start_char (CHR ''.'')
       (map sanitize_char (filter (\<lambda>c. \<not> is_cont c) s)))"

definition sanitize_filename :: "string \<Rightarrow> string" where
  "sanitize_filename filename =
     (let leaf = (case file_name filename of None \<Rightarrow> filename | Some n \<Rightarrow> n);
          sanitized = sanitize_path_segment leaf
      in if sanitized = [] then ''upload'' else take 160 sanitized)"

definition has_allowed_extension :: "string \<Rightarrow> string list \<Rightarrow> bool" where
  "has_allowed_extension filename allowed_extensions =
     (case file_extension filename of
        None \<Rightarrow> False
      | Some ext \<Rightarrow>
          let ext' = trim_start_char (CHR ''.'') ext in
          list_ex (\<lambda>a. to_ascii_lowercase (trim_start_char (CHR ''.'') a) = to_ascii_lowercase ext')
            allowed_extensions)"

definition normalize_sha256 :: "string option \<Rightarrow> string option result" where
  "normalize_sha256 value =
     (case value of
        None \<Rightarrow> Inr None
      | Some v \<Rightarrow>
          let v' = to_ascii_lowercase (trim v) in
          if v' = [] then Inr None
          else if length v' \<noteq> 64 \<or> \<not> list_all is_ascii_hexdigit v' then Inl InvalidInput
          else Inr (Some v'))"

definition validate_upload_id :: "uenv \<Rightarrow> string \<Rightarrow> unit result" where
  "validate_upload_id e upload_id = require (uuid_ok e upload_id) InvalidInput"

definition parse_staged_uri :: "uenv \<Rightarrow> string \<Rightarrow> string result" where
  "parse_staged_uri e uri =
     (if starts_with STAGED_URI_PREFIX uri
      then let upload_id = drop (length STAGED_URI_PREFIX) uri in
           bind_r (validate_upload_id e upload_id) (\<lambda>_. Inr upload_id)
      else Inl InvalidInput)"

definition staged_uri :: "string \<Rightarrow> string" where
  "staged_uri upload_id = STAGED_URI_PREFIX @ upload_id"

record UploadPaths =
  up_dir :: path
  up_manifest :: path
  up_part :: path
  up_final :: path
  up_lock :: path

definition upload_lock_path :: "path \<Rightarrow> string \<Rightarrow> path" where
  "upload_lock_path data_dir upload_id = (upload_id @ ''.lock'') # ''staged-documents'' # data_dir"

definition upload_paths :: "path \<Rightarrow> string \<Rightarrow> string \<Rightarrow> UploadPaths" where
  "upload_paths data_dir upload_id sanitized_filename =
     (let dir = ''staged-documents'' # data_dir; upload_dir = upload_id # dir in
      \<lparr>up_dir = upload_dir, up_manifest = (upload_id @ ''.json'') # dir,
       up_part = ''upload.part'' # upload_dir, up_final = sanitized_filename # upload_dir,
       up_lock = upload_lock_path data_dir upload_id\<rparr>)"

text \<open>\<open>Path::with_extension\<close> replaces what follows the last dot of the file name.\<close>

definition with_extension :: "string \<Rightarrow> path \<Rightarrow> path" where
  "with_extension ext p =
     (case p of
        [] \<Rightarrow> []
      | n # d \<Rightarrow>
          (case rsplit_dot n of
             None \<Rightarrow> (n @ ''.'' @ ext) # d
           | Some (b, _) \<Rightarrow> (if b = [] then n @ ''.'' @ ext else b @ ''.'' @ ext) # d))"

definition manifest_recovery_paths :: "path \<Rightarrow> path list" where
  "manifest_recovery_paths p = [with_extension ''json.tmp'' p, p, with_extension ''json.bak'' p]"

definition strip_suffix :: "string \<Rightarrow> string \<Rightarrow> string option" where
  "strip_suffix suf s = (if ends_with suf s then Some (take (length s - length suf) s) else None)"

definition upload_id_from_manifest_entry :: "string \<Rightarrow> string option" where
  "upload_id_from_manifest_entry filename =
     (case strip_suffix ''.json'' filename of
        Some i \<Rightarrow> Some i
      | None \<Rightarrow> (case strip_suffix ''.json.tmp'' filename of
                  Some i \<Rightarrow> Some i
                | None \<Rightarrow> strip_suffix ''.json.bak'' filename))"

section \<open>Status\<close>

definition validate_prepare_request :: "UploadPrepareRequest \<Rightarrow> string list \<Rightarrow> bool \<Rightarrow> unit result" where
  "validate_prepare_request request allowed_extensions allow_asset_only_uploads =
     (if trim (pr_filename request) = [] then Inl InvalidInput
      else if pr_size_bytes request = 0 then Inl InvalidInput
      else if pr_size_bytes request > MAX_UPLOAD_BYTES then Inl InvalidInput
      else let filename = sanitize_filename (pr_filename request) in
           if \<not> allow_asset_only_uploads \<and> \<not> has_allowed_extension filename allowed_extensions
           then Inl InvalidInput
           else bind_r (normalize_sha256 (pr_sha256 request)) (\<lambda>_. Inr ()))"

definition upload_is_expired_at :: "UploadManifest \<Rightarrow> int \<Rightarrow> bool" where
  "upload_is_expired_at m now =
     (um_status m \<in> {Open, Committed, Ingested, Aborted} \<and> now > um_expires_at_ms m)"

definition terminal_receipt_expires_at_ms :: "int \<Rightarrow> int" where
  "terminal_receipt_expires_at_ms now = sat_add_i64 now (TERMINAL_RECEIPT_TTL_SECS * 1000)"

definition commit_response_from_manifest :: "UploadManifest \<Rightarrow> UploadCommitResponse result" where
  "commit_response_from_manifest m =
     (case um_actual_sha256 m of
        None \<Rightarrow> Inl Storage
      | Some sha \<Rightarrow>
          Inr \<lparr>cr_upload_id = um_upload_id m, cr_staged_uri = staged_uri (um_upload_id m),
               cr_filename = um_filename m, cr_mime_type = um_mime_type m,
               cr_size_bytes = um_size_bytes m, cr_sha256 = sha\<rparr>)"

definition status_from_manifest :: "UploadManifest \<Rightarrow> int \<Rightarrow> UploadStatusResponse" where
  "status_from_manifest m now =
     (let status = (if upload_is_expired_at m now then Expired else um_status m);
          commit_result = (if status \<in> {Committed, Ingested}
                           then ok_opt (commit_response_from_manifest m) else None)
      in \<lparr>sr_upload_id = um_upload_id m, sr_status = status, sr_bytes_received = um_bytes_received m,
          sr_size_bytes = um_size_bytes m, sr_next_offset = um_bytes_received m,
          sr_expires_at_ms = um_expires_at_ms m, sr_operation_in_progress = False,
          sr_active_operation = None, sr_staged_uri = map_option cr_staged_uri commit_result,
          sr_commit_result = commit_result, sr_ingest_result = um_ingest_result m,
          sr_terminal = status \<in> {Ingested, Expired, Aborted}\<rparr>)"

definition ensure_open :: "UploadManifest \<Rightarrow> int \<Rightarrow> unit result" where
  "ensure_open m now =
     (if sr_status (status_from_manifest m now) = Expired then Inl InvalidInput
      else if um_status m \<noteq> Open then Inl Conflict
      else Inr ())"

section \<open>Facts about names\<close>

lemma sanitize_char_safe: "sanitize_char c \<noteq> CHR ''/''"
  by (auto simp: sanitize_char_def is_ascii_alphanumeric_def is_ascii_upper_def is_ascii_lower_def is_ascii_digit_def byte_def)

lemma trim_char_subset:
  "set (trim_start_char c s) \<subseteq> set s" "set (trim_end_char c s) \<subseteq> set s"
  by (auto simp: trim_start_char_def trim_end_char_def dest: set_dropWhileD)

lemma trim_start_char_hd: "trim_start_char c s \<noteq> [] \<Longrightarrow> hd (trim_start_char c s) \<noteq> c"
  unfolding trim_start_char_def using hd_dropWhile [of "\<lambda>x. x = c" s] by blast

lemma trim_end_char_prefix: "\<exists>n. trim_end_char c s = take n s"
  by (metis trim_end_char_def rev_rev_ident dropWhile_eq_drop rev_drop)

lemma hd_trim_end_char: "trim_end_char c s \<noteq> [] \<Longrightarrow> hd (trim_end_char c s) = hd s"
  using trim_end_char_prefix [of c s] by (metis hd_take take_eq_Nil neq0_conv)

lemma sanitize_path_segment_safe:
  "CHR ''/'' \<notin> set (sanitize_path_segment s)"
  "sanitize_path_segment s \<noteq> [] \<Longrightarrow> hd (sanitize_path_segment s) \<noteq> CHR ''.''"
proof -
  let ?m = "map sanitize_char (filter (\<lambda>c. \<not> is_cont c) s)"
  have "set (sanitize_path_segment s) \<subseteq> set ?m"
    unfolding sanitize_path_segment_def using trim_char_subset by blast
  moreover have "CHR ''/'' \<notin> set ?m" using sanitize_char_safe by (metis (no_types, lifting) ex_map_conv)
  ultimately show "CHR ''/'' \<notin> set (sanitize_path_segment s)" by blast
  assume ne: "sanitize_path_segment s \<noteq> []"
  then have "hd (sanitize_path_segment s) = hd (trim_start_char (CHR ''.'') ?m)"
    unfolding sanitize_path_segment_def by (rule hd_trim_end_char)
  moreover have "trim_start_char (CHR ''.'') ?m \<noteq> []"
    using ne unfolding sanitize_path_segment_def by (auto simp: trim_end_char_def)
  ultimately show "hd (sanitize_path_segment s) \<noteq> CHR ''.''" using trim_start_char_hd by metis
qed

text \<open>
  Whatever name the client sends, the staged file is a plain name in its own directory: not
  empty, at most 160 bytes, with no separator, and not hidden, so neither \<open>.\<close> nor \<open>..\<close>.
\<close>

lemma sanitize_filename_safe:
  "sanitize_filename s \<noteq> [] \<and> length (sanitize_filename s) \<le> 160 \<and>
   CHR ''/'' \<notin> set (sanitize_filename s) \<and> hd (sanitize_filename s) \<noteq> CHR ''.''"
proof -
  let ?n = "sanitize_path_segment (case file_name s of None \<Rightarrow> s | Some n \<Rightarrow> n)"
  show ?thesis
  proof (cases "?n = []")
    case True
    then show ?thesis by (simp add: sanitize_filename_def)
  next
    case False
    then have "sanitize_filename s = take 160 ?n" by (simp add: sanitize_filename_def Let_def)
    then show ?thesis
      using False sanitize_path_segment_safe [of "case file_name s of None \<Rightarrow> s | Some n \<Rightarrow> n"]
      by (auto dest: in_set_takeD)
  qed
qed

end
