(* ===== verification/Upload.thy ===== *)
theory Upload
  imports UploadBase
begin

text \<open>
  The operations of \<open>crates/solo-api/src/document_upload.rs\<close> on the staging directory: the manifest
  with its replacement and recovery, the per-upload lock, and the life of an upload from its
  preparation over its chunks to the commit, the abort and the sweep.
\<close>

section \<open>Small file operations\<close>

definition st :: "'a io \<Rightarrow> (error, 'a) op" where
  "st m = map_err (\<lambda>_. Storage) m"

definition remove_if_exists :: "uenv \<Rightarrow> path \<Rightarrow> (error, unit) op" where
  "remove_if_exists e p =
     bind_io (attempt (remove_file (io_plan e) p)) (\<lambda>r. case r of
         Inr _ \<Rightarrow> ret ()
       | Inl EntryNotFound \<Rightarrow> ret ()
       | Inl _ \<Rightarrow> raise Storage)"

definition remove_dir_if_empty :: "uenv \<Rightarrow> path \<Rightarrow> (error, unit) op" where
  "remove_dir_if_empty e p =
     bind_io (attempt (remove_dir (io_plan e) p)) (\<lambda>r. case r of
         Inr _ \<Rightarrow> ret ()
       | Inl EntryNotFound \<Rightarrow> ret ()
       | Inl DirectoryNotEmpty \<Rightarrow> ret ()
       | Inl _ \<Rightarrow> raise Storage)"

text \<open>\<open>let _ = op\<close> and an error that is only logged.\<close>

definition ignore :: "('e, 'a) op \<Rightarrow> ('f, unit) op" where
  "ignore m = bind_io (attempt m) (\<lambda>_. ret ())"

section \<open>The manifest\<close>

text \<open>The tail of \<open>write_manifest\<close> after the temporary file is complete.\<close>

definition replace_manifest :: "uenv \<Rightarrow> path \<Rightarrow> path \<Rightarrow> path \<Rightarrow> bool \<Rightarrow> (error, unit) op" where
  "replace_manifest e p tmp backup had_existing =
     bind_io (attempt (rename_file (io_plan e) tmp p)) (\<lambda>r. case r of
         Inl _ \<Rightarrow>
           bind_io (\<lambda>s. (if had_existing \<and> \<not> is_file p s
                         then ignore (rename_file (io_plan e) backup p) else ret ()) s) (\<lambda>_.
           bind_io (ignore (remove_if_exists e tmp)) (\<lambda>_. raise Storage))
       | Inr _ \<Rightarrow>
           if had_existing then ignore (remove_if_exists e backup) else ret ())"

definition write_manifest :: "uenv \<Rightarrow> path \<Rightarrow> UploadManifest \<Rightarrow> (error, unit) op" where
  "write_manifest e p m =
     bind_io (st (create_dir_all (io_plan e) (tl p))) (\<lambda>_.
     let tmp = with_extension ''json.tmp'' p; backup = with_extension ''json.bak'' p in
     bind_io (remove_if_exists e tmp) (\<lambda>_.
     bind_io (st (write_file (io_plan e) tmp (to_json e m))) (\<lambda>_.
     bind_io (\<lambda>s. ret (is_file p s) s) (\<lambda>had_existing.
     if had_existing
     then bind_io (remove_if_exists e backup) (\<lambda>_.
          bind_io (attempt (rename_file (io_plan e) p backup)) (\<lambda>r. case r of
              Inl _ \<Rightarrow> bind_io (ignore (remove_if_exists e tmp)) (\<lambda>_. raise Storage)
            | Inr _ \<Rightarrow> replace_manifest e p tmp backup True))
     else replace_manifest e p tmp backup False))))"

fun load_candidates :: "uenv \<Rightarrow> string \<Rightarrow> bool \<Rightarrow> path list \<Rightarrow> (error, UploadManifest) op" where
  "load_candidates e upload_id found [] = raise (if \<not> found then NotFound else Storage)"
| "load_candidates e upload_id found (c # cs) =
     bind_io (attempt (read_file (io_plan e) c)) (\<lambda>r. case r of
         Inl EntryNotFound \<Rightarrow> load_candidates e upload_id found cs
       | Inl _ \<Rightarrow> load_candidates e upload_id True cs
       | Inr raw \<Rightarrow>
           (case from_json e raw of
              None \<Rightarrow> load_candidates e upload_id True cs
            | Some m \<Rightarrow> if um_upload_id m \<noteq> upload_id then raise Storage else ret m))"

definition load_manifest_for_upload :: "uenv \<Rightarrow> path \<Rightarrow> string \<Rightarrow> (error, UploadManifest) op" where
  "load_manifest_for_upload e data_dir upload_id =
     bind_io (lift_r (validate_upload_id e upload_id)) (\<lambda>_.
     load_candidates e upload_id False
       (manifest_recovery_paths (up_manifest (upload_paths data_dir upload_id ''upload''))))"

section \<open>The lock of an upload\<close>

definition unlock :: "path \<Rightarrow> disk \<Rightarrow> disk" where
  "unlock p s = s\<lparr>locks := (locks s)(p := None)\<rparr>"

definition take_lock :: "uenv \<Rightarrow> path \<Rightarrow> string \<Rightarrow> (error, bool) op" where
  "take_lock e p operation s =
     (if locks s p \<noteq> None then (Inr False, s)
      else if io_plan e (clock s) \<noteq> Fine then (Inl Storage, tick s)
      else (Inr True, tick (s\<lparr>locks := (locks s)(p := Some operation)\<rparr>)))"

definition write_owner :: "uenv \<Rightarrow> path \<Rightarrow> string \<Rightarrow> unit io" where
  "write_owner e p operation =
     bind_io (set_len (io_plan e) p 0) (\<lambda>_.
     bind_io (append_file (io_plan e) p (owner_json e operation)) (\<lambda>_.
     sync_file (io_plan e) p))"

definition try_acquire_upload_lock :: "uenv \<Rightarrow> path \<Rightarrow> string \<Rightarrow> (error, bool) op" where
  "try_acquire_upload_lock e p operation =
     bind_io (st (create_dir_all (io_plan e) (tl p))) (\<lambda>_.
     bind_io (st (append_file (io_plan e) p [])) (\<lambda>_.
     bind_io (take_lock e p operation) (\<lambda>got.
     if \<not> got then ret False
     else bind_io (attempt (write_owner e p operation)) (\<lambda>r. case r of
             Inr _ \<Rightarrow> ret True
           | Inl _ \<Rightarrow> (\<lambda>s. (Inl Storage, unlock p s))))))"

definition acquire_upload_lock :: "uenv \<Rightarrow> path \<Rightarrow> string \<Rightarrow> (error, unit) op" where
  "acquire_upload_lock e p operation =
     bind_io (try_acquire_upload_lock e p operation) (\<lambda>got. if got then ret () else raise Conflict)"

text \<open>The guard is dropped at the end of the operation, on every path.\<close>

definition release_after :: "path \<Rightarrow> ('e, 'a) op \<Rightarrow> ('e, 'a) op" where
  "release_after p m s = (case m s of (r, s') \<Rightarrow> (r, unlock p s'))"

definition with_lock :: "uenv \<Rightarrow> path \<Rightarrow> string \<Rightarrow> (error, 'a) op \<Rightarrow> (error, 'a) op" where
  "with_lock e p operation body =
     bind_io (acquire_upload_lock e p operation) (\<lambda>_. release_after p body)"

definition read_upload_lock_operation :: "path \<Rightarrow> disk \<Rightarrow> string" where
  "read_upload_lock_operation p s =
     (case locks s p of
        Some operation \<Rightarrow>
          if operation \<in> {''append'', ''commit'', ''ingest'', ''abort'', ''sweep''} then operation else ''unknown''
      | None \<Rightarrow> ''unknown'')"

section \<open>Sweep\<close>

definition remove_upload_paths :: "uenv \<Rightarrow> UploadPaths \<Rightarrow> (error, unit) op" where
  "remove_upload_paths e paths =
     bind_io (remove_if_exists e (up_part paths)) (\<lambda>_.
     bind_io (remove_if_exists e (up_final paths)) (\<lambda>_.
     bind_io (remove_if_exists e (with_extension ''json.tmp'' (up_manifest paths))) (\<lambda>_.
     bind_io (remove_if_exists e (up_manifest paths)) (\<lambda>_.
     bind_io (remove_if_exists e (with_extension ''json.bak'' (up_manifest paths))) (\<lambda>_.
     remove_dir_if_empty e (up_dir paths))))))"

definition sweep_locked :: "uenv \<Rightarrow> path \<Rightarrow> string \<Rightarrow> (error, bool) op" where
  "sweep_locked e data_dir upload_id =
     bind_io (attempt (load_manifest_for_upload e data_dir upload_id)) (\<lambda>r. case r of
         Inl _ \<Rightarrow> ret False
       | Inr m \<Rightarrow>
           (\<lambda>s. (if \<not> upload_is_expired_at m (now_ms e s) then ret False
                 else bind_io (remove_upload_paths e (upload_paths data_dir upload_id (um_sanitized_filename m)))
                        (\<lambda>_. ret True)) s))"

definition sweep_one :: "uenv \<Rightarrow> path \<Rightarrow> int \<Rightarrow> string \<Rightarrow> (error, bool) op" where
  "sweep_one e data_dir now upload_id =
     bind_io (attempt (load_manifest_for_upload e data_dir upload_id)) (\<lambda>r. case r of
         Inl _ \<Rightarrow> ret False
       | Inr m \<Rightarrow>
           if \<not> upload_is_expired_at m now then ret False
           else
             let lock = up_lock (upload_paths data_dir upload_id (um_sanitized_filename m)) in
             bind_io (try_acquire_upload_lock e lock ''sweep'') (\<lambda>got.
             if \<not> got then ret False else release_after lock (sweep_locked e data_dir upload_id)))"

text \<open>The entries of \<open>read_dir\<close>, in any order, some of them unreadable.\<close>

fun sweep_entries :: "uenv \<Rightarrow> path \<Rightarrow> int \<Rightarrow> string list \<Rightarrow> nat \<Rightarrow> (unit + string) list \<Rightarrow> (error, nat) op" where
  "sweep_entries e data_dir now seen swept [] = ret swept"
| "sweep_entries e data_dir now seen swept (Inl _ # es) = raise Storage"
| "sweep_entries e data_dir now seen swept (Inr name # es) =
     (case upload_id_from_manifest_entry name of
        None \<Rightarrow> sweep_entries e data_dir now seen swept es
      | Some upload_id \<Rightarrow>
          if upload_id \<in> set seen then sweep_entries e data_dir now seen swept es
          else bind_io (sweep_one e data_dir now upload_id) (\<lambda>removed.
                 sweep_entries e data_dir now (upload_id # seen) (if removed then swept + 1 else swept) es))"

definition sweep_expired_uploads :: "uenv \<Rightarrow> path \<Rightarrow> (unit + string) list \<Rightarrow> (error, nat) op" where
  "sweep_expired_uploads e data_dir entries s =
     (if io_plan e (clock s) \<noteq> Fine then (Inl Storage, tick s)
      else if ''staged-documents'' # data_dir \<notin> dirs s then (Inr 0, tick s)
      else sweep_entries e data_dir (now_ms e (tick s)) [] 0 entries (tick s))"

section \<open>Prepare\<close>

record UploadPrepareResponse =
  pp_upload_id :: string
  pp_upload_path :: string
  pp_size_bytes :: nat
  pp_expires_at_ms :: int

definition prepared_manifest :: "uenv \<Rightarrow> UploadPrepareRequest \<Rightarrow> string option \<Rightarrow> int \<Rightarrow> UploadManifest" where
  "prepared_manifest e request sha created_at_ms =
     \<lparr>um_upload_id = new_uuid e, um_filename = pr_filename request,
      um_sanitized_filename = sanitize_filename (pr_filename request),
      um_mime_type = (case pr_mime_type request of
          None \<Rightarrow> ''application/octet-stream''
        | Some v \<Rightarrow> if trim v = [] then ''application/octet-stream'' else trim v),
      um_size_bytes = pr_size_bytes request, um_expected_sha256 = sha, um_actual_sha256 = None,
      um_bytes_received = 0, um_status = Open, um_created_at_ms = created_at_ms,
      um_expires_at_ms = sat_add_i64 created_at_ms (UPLOAD_TTL_SECS * 1000), um_ingest_result = None\<rparr>"

definition prepare_upload ::
  "uenv \<Rightarrow> path \<Rightarrow> (unit + string) list \<Rightarrow> UploadPrepareRequest \<Rightarrow> string list \<Rightarrow> bool \<Rightarrow> (error, UploadPrepareResponse) op"
where
  "prepare_upload e data_dir entries request allowed_extensions default_store_original_file =
     bind_io (lift_r (validate_prepare_request request allowed_extensions default_store_original_file)) (\<lambda>_.
     bind_io (ignore (sweep_expired_uploads e data_dir entries)) (\<lambda>_.
     bind_io (\<lambda>s. ret (now_ms e s) s) (\<lambda>created_at_ms.
     bind_io (lift_r (normalize_sha256 (pr_sha256 request))) (\<lambda>sha.
     let m = prepared_manifest e request sha created_at_ms;
         paths = upload_paths data_dir (um_upload_id m) (um_sanitized_filename m) in
     bind_io (st (create_dir_all (io_plan e) (up_dir paths))) (\<lambda>_.
     bind_io (write_manifest e (up_manifest paths) m) (\<lambda>_.
     ret \<lparr>pp_upload_id = um_upload_id m, pp_upload_path = ''/uploads/'' @ um_upload_id m,
          pp_size_bytes = pr_size_bytes request, pp_expires_at_ms = um_expires_at_ms m\<rparr>))))))"

section \<open>Append\<close>

definition rollback_upload_part :: "uenv \<Rightarrow> path \<Rightarrow> nat \<Rightarrow> (error, unit) op" where
  "rollback_upload_part e p n = ignore (set_len (io_plan e) p n)"

definition part_len :: "uenv \<Rightarrow> path \<Rightarrow> (error, nat) op" where
  "part_len e p =
     bind_io (attempt (file_size (io_plan e) p)) (\<lambda>r. case r of
         Inr n \<Rightarrow> ret n
       | Inl EntryNotFound \<Rightarrow> ret 0
       | Inl _ \<Rightarrow> raise Storage)"

text \<open>The checks between the load of the manifest and the first file operation.\<close>

definition check_append :: "UploadManifest \<Rightarrow> int \<Rightarrow> nat \<Rightarrow> nat option \<Rightarrow> string \<Rightarrow> nat result" where
  "check_append m now offset upload_length bs =
     bind_r (ensure_open m now) (\<lambda>_.
     if (case upload_length of None \<Rightarrow> False | Some n \<Rightarrow> n \<noteq> um_size_bytes m) then Inl InvalidInput
     else if offset \<noteq> um_bytes_received m then Inl Conflict
     else let next_offset = um_bytes_received m + length bs in
          if next_offset > u64_max then Inl InvalidInput
          else if next_offset > um_size_bytes m then Inl InvalidInput
          else if next_offset > MAX_UPLOAD_BYTES then Inl InvalidInput
          else Inr next_offset)"

definition append_body ::
  "uenv \<Rightarrow> path \<Rightarrow> string \<Rightarrow> nat \<Rightarrow> nat option \<Rightarrow> string \<Rightarrow> (error, UploadStatusResponse) op" where
  "append_body e data_dir upload_id offset upload_length bs =
     bind_io (load_manifest_for_upload e data_dir upload_id) (\<lambda>m.
     bind_io (\<lambda>s. lift_r (check_append m (now_ms e s) offset upload_length bs) s) (\<lambda>next_offset.
     let paths = upload_paths data_dir upload_id (um_sanitized_filename m);
         m' = m\<lparr>um_bytes_received := next_offset\<rparr> in
     bind_io (part_len e (up_part paths)) (\<lambda>current_len.
     bind_io (lift_r (require (current_len = um_bytes_received m) Conflict)) (\<lambda>_.
     bind_io (st (append_file (io_plan e) (up_part paths) bs)) (\<lambda>_.
     bind_io (st (sync_dir (io_plan e) (up_part paths))) (\<lambda>_.
     bind_io (attempt (write_manifest e (up_manifest paths) m')) (\<lambda>r. case r of
         Inl er \<Rightarrow> bind_io (rollback_upload_part e (up_part paths) (um_bytes_received m)) (\<lambda>_. raise er)
       | Inr _ \<Rightarrow> (\<lambda>s. ret (status_from_manifest m' (now_ms e s)) s))))))))"

definition append_upload_chunk ::
  "uenv \<Rightarrow> path \<Rightarrow> string \<Rightarrow> nat \<Rightarrow> nat option \<Rightarrow> string \<Rightarrow> (error, UploadStatusResponse) op" where
  "append_upload_chunk e data_dir upload_id offset upload_length bs =
     bind_io (lift_r (validate_upload_id e upload_id)) (\<lambda>_.
     if bs = [] then raise InvalidInput
     else if length bs > RECOMMENDED_CHUNK_BYTES then raise InvalidInput
     else with_lock e (upload_lock_path data_dir upload_id) ''append''
            (append_body e data_dir upload_id offset upload_length bs))"

section \<open>Status and abort\<close>

definition upload_status :: "uenv \<Rightarrow> path \<Rightarrow> string \<Rightarrow> (error, UploadStatusResponse) op" where
  "upload_status e data_dir upload_id =
     bind_io (lift_r (validate_upload_id e upload_id)) (\<lambda>_.
     let lock = upload_lock_path data_dir upload_id in
     bind_io (try_acquire_upload_lock e lock ''status'') (\<lambda>got.
     if got
     then release_after lock
            (bind_io (load_manifest_for_upload e data_dir upload_id) (\<lambda>m s. ret (status_from_manifest m (now_ms e s)) s))
     else bind_io (load_manifest_for_upload e data_dir upload_id) (\<lambda>m s.
            ret ((status_from_manifest m (now_ms e s))
                   \<lparr>sr_status := Busy, sr_operation_in_progress := True,
                    sr_active_operation := Some (read_upload_lock_operation lock s), sr_terminal := False\<rparr>) s)))"

definition abort_body :: "uenv \<Rightarrow> path \<Rightarrow> string \<Rightarrow> (error, UploadAbortResponse) op" where
  "abort_body e data_dir upload_id =
     bind_io (load_manifest_for_upload e data_dir upload_id) (\<lambda>m.
     if um_status m = Ingested then raise Conflict
     else if um_status m = Aborted
     then ret \<lparr>ab_upload_id = upload_id, ab_status = Aborted, ab_cleanup_performed = False,
               ab_already_aborted = True, ab_removed_partial_file = False, ab_removed_staged_file = False\<rparr>
     else
       let paths = upload_paths data_dir upload_id (um_sanitized_filename m) in
       bind_io (\<lambda>s. ret (is_file (up_part paths) s, is_file (up_final paths) s) s) (\<lambda>(partial, staged).
       bind_io (remove_if_exists e (up_part paths)) (\<lambda>_.
       bind_io (remove_if_exists e (up_final paths)) (\<lambda>_.
       bind_io (remove_dir_if_empty e (up_dir paths)) (\<lambda>_.
       bind_io (\<lambda>s. ret (terminal_receipt_expires_at_ms (now_ms e s)) s) (\<lambda>expires.
       bind_io (write_manifest e (up_manifest paths)
                  (m\<lparr>um_status := Aborted, um_expires_at_ms := expires, um_ingest_result := None\<rparr>)) (\<lambda>_.
       ret \<lparr>ab_upload_id = upload_id, ab_status = Aborted, ab_cleanup_performed = (partial \<or> staged),
            ab_already_aborted = False, ab_removed_partial_file = partial, ab_removed_staged_file = staged\<rparr>)))))))"

definition abort_upload :: "uenv \<Rightarrow> path \<Rightarrow> string \<Rightarrow> (error, UploadAbortResponse) op" where
  "abort_upload e data_dir upload_id =
     bind_io (lift_r (validate_upload_id e upload_id)) (\<lambda>_.
     with_lock e (upload_lock_path data_dir upload_id) ''abort'' (abort_body e data_dir upload_id))"

section \<open>Commit\<close>

definition check_commit :: "UploadManifest \<Rightarrow> int \<Rightarrow> unit result" where
  "check_commit m now =
     bind_r (ensure_open m now) (\<lambda>_. require (um_bytes_received m = um_size_bytes m) Conflict)"

definition commit_open :: "uenv \<Rightarrow> path \<Rightarrow> string \<Rightarrow> string option \<Rightarrow> UploadManifest \<Rightarrow> (error, UploadCommitResponse) op" where
  "commit_open e data_dir upload_id sha256 m =
     bind_io (\<lambda>s. lift_r (check_commit m (now_ms e s)) s) (\<lambda>_.
     let paths = upload_paths data_dir upload_id (um_sanitized_filename m) in
     bind_io (st (file_size (io_plan e) (up_part paths))) (\<lambda>n.
     bind_io (lift_r (require (n = um_size_bytes m) Conflict)) (\<lambda>_.
     bind_io (st (read_file (io_plan e) (up_part paths))) (\<lambda>bs.
     let actual = sha256_of e bs in
     bind_io (lift_r (normalize_sha256 sha256)) (\<lambda>requested.
     let expected = (case requested of None \<Rightarrow> um_expected_sha256 m | Some x \<Rightarrow> Some x) in
     bind_io (lift_r (require (expected = None \<or> expected = Some actual) InvalidInput)) (\<lambda>_.
     bind_io (st (create_dir_all (io_plan e) (up_dir paths))) (\<lambda>_.
     bind_io (\<lambda>s. (if is_file (up_final paths) s then remove_if_exists e (up_final paths) else ret ()) s) (\<lambda>_.
     bind_io (st (rename_file (io_plan e) (up_part paths) (up_final paths))) (\<lambda>_.
     let m' = m\<lparr>um_actual_sha256 := Some actual, um_status := Committed\<rparr> in
     bind_io (attempt (write_manifest e (up_manifest paths) m')) (\<lambda>r. case r of
         Inl er \<Rightarrow> bind_io (ignore (rename_file (io_plan e) (up_final paths) (up_part paths))) (\<lambda>_. raise er)
       | Inr _ \<Rightarrow> lift_r (commit_response_from_manifest m')))))))))))"

definition commit_body :: "uenv \<Rightarrow> path \<Rightarrow> string \<Rightarrow> string option \<Rightarrow> (error, UploadCommitResponse) op" where
  "commit_body e data_dir upload_id sha256 =
     bind_io (load_manifest_for_upload e data_dir upload_id) (\<lambda>m s.
     (if upload_is_expired_at m (now_ms e s) then raise InvalidInput
      else (case um_status m of
              Committed \<Rightarrow> lift_r (commit_response_from_manifest m)
            | Ingested \<Rightarrow> lift_r (commit_response_from_manifest m)
            | Aborted \<Rightarrow> raise Conflict
            | Busy \<Rightarrow> raise Conflict
            | Expired \<Rightarrow> raise Conflict
            | Open \<Rightarrow> commit_open e data_dir upload_id sha256 m)) s)"

definition commit_upload :: "uenv \<Rightarrow> path \<Rightarrow> string \<Rightarrow> string option \<Rightarrow> (error, UploadCommitResponse) op" where
  "commit_upload e data_dir upload_id sha256 =
     bind_io (lift_r (validate_upload_id e upload_id)) (\<lambda>_.
     with_lock e (upload_lock_path data_dir upload_id) ''commit'' (commit_body e data_dir upload_id sha256))"

end
