(* ===== verification/FileRuns.thy ===== *)
theory FileRuns
  imports Files
begin

text \<open>
  What a success of a file operation means and which files an operation may touch, for the
  components that run programs on the disk.
\<close>

named_theorems run_simps \<open>inversion of successful runs\<close>
named_theorems touches_intro \<open>the files an operation may touch\<close>

section \<open>Successful runs\<close>

lemma bind_io_Inr [run_simps]:
  "bind_io m f s = (Inr y, s') \<longleftrightarrow> (\<exists>x s1. m s = (Inr x, s1) \<and> f x s1 = (Inr y, s'))"
  by (auto simp: bind_io_def split: prod.splits sum.splits)

lemma ret_Inr [run_simps]: "ret x s = (Inr y, s') \<longleftrightarrow> y = x \<and> s' = s"
  by (auto simp: ret_def)

lemma raise_Inr [run_simps]: "raise e s = (Inr y, s') \<longleftrightarrow> False"
  by (simp add: raise_def)

lemma lift_Inr [run_simps]: "lift_r r s = (Inr y, s') \<longleftrightarrow> r = Inr y \<and> s' = s"
  by (auto simp: lift_r_def)

lemma map_err_Inr [run_simps]: "map_err g m s = (Inr y, s') \<longleftrightarrow> m s = (Inr y, s')"
  by (auto simp: map_err_def split: prod.splits sum.splits)

lemma attempt_Inr [run_simps]: "attempt m s = (Inr r, s') \<longleftrightarrow> m s = (r, s')"
  by (auto simp: attempt_def split: prod.splits)

lemma read_file_Inr [run_simps]:
  "read_file o' p s = (Inr bs, s') \<longleftrightarrow> o' (clock s) = Fine \<and> files s p = Some bs \<and> s' = tick s"
  by (auto simp: read_file_def split: fault.split option.split)

lemma file_size_Inr [run_simps]:
  "file_size o' p s = (Inr n, s') \<longleftrightarrow> o' (clock s) = Fine \<and> (\<exists>bs. files s p = Some bs \<and> n = length bs) \<and> s' = tick s"
  by (auto simp: file_size_def run_simps)

lemma append_file_Inr [run_simps]:
  "append_file o' p bs s = (Inr u, s') \<longleftrightarrow>
     o' (clock s) = Fine \<and> s' = tick (set_file p (Some (contents (files s p) @ bs)) s)"
  by (auto simp: append_file_def split: fault.split)

lemma rename_file_Inr [run_simps]:
  "rename_file o' p q s = (Inr u, s') \<longleftrightarrow>
     o' (clock s) = Fine \<and> (\<exists>c. files s p = Some c \<and> s' = tick (set_file q (Some c) (set_file p None s)))"
  by (auto simp: rename_file_def split: fault.split option.split)

lemma sync_dir_Inr [run_simps]: "sync_dir o' p s = (Inr u, s') \<longleftrightarrow> o' (clock s) = Fine \<and> s' = tick s"
  by (auto simp: sync_dir_def)

lemma create_dir_Inr [run_simps]:
  "create_dir_all o' p s = (Inr u, s') \<longleftrightarrow> o' (clock s) = Fine \<and> s' = tick (s\<lparr>dirs := with_parents p \<union> dirs s\<rparr>)"
  by (auto simp: create_dir_all_def)

section \<open>Frames\<close>

text \<open>On every outcome, no file outside \<open>T\<close> changes.\<close>

definition touches :: "path set \<Rightarrow> ('e, 'a) op \<Rightarrow> bool" where
  "touches T m = (\<forall>s r s'. m s = (r, s') \<longrightarrow> (\<forall>p. p \<notin> T \<longrightarrow> files s' p = files s p))"

lemma touchesD: "touches T m \<Longrightarrow> m s = (r, s') \<Longrightarrow> p \<notin> T \<Longrightarrow> files s' p = files s p"
  by (simp add: touches_def)

lemma touches_bind [touches_intro]: "touches T m \<Longrightarrow> (\<And>x. touches T (f x)) \<Longrightarrow> touches T (bind_io m f)"
  unfolding touches_def bind_io_def by (fastforce split: prod.splits sum.splits)

lemma touches_pure [touches_intro]:
  "touches T (ret x)" "touches T (raise er)" "touches T (lift_r r)" "touches T (\<lambda>s. ret (g s) s)"
  "touches T (\<lambda>s. lift_r (h s) s)"
  by (simp_all add: touches_def ret_def raise_def lift_r_def)

lemma touches_map_err [touches_intro]: "touches T m \<Longrightarrow> touches T (map_err g m)"
  unfolding touches_def map_err_def by (fastforce split: prod.splits sum.splits)

lemma touches_attempt [touches_intro]: "touches T m \<Longrightarrow> touches T (attempt m)"
  unfolding touches_def attempt_def by (fastforce split: prod.splits)

lemma touches_state_if [touches_intro]:
  "touches T m \<Longrightarrow> touches T m' \<Longrightarrow> touches T (\<lambda>s. (if b s then m else m') s)"
  by (auto simp: touches_def)

lemma touches_if [touches_intro]:
  "touches T m \<Longrightarrow> touches T m' \<Longrightarrow> touches T (if b then m else m')"
  by simp

lemma touches_none [touches_intro]:
  "touches T (read_file o' p)" "touches T (sync_dir o' p)" "touches T (create_dir_all o' p)" "touches T (remove_dir o' p)"
  by (auto simp: touches_def read_file_def sync_dir_def create_dir_all_def remove_dir_def
      split: fault.splits option.splits if_splits)

lemma touches_size [touches_intro]: "touches T (file_size o' p)" "touches T (sync_file o' p)"
  unfolding file_size_def sync_file_def by (intro touches_intro)+

lemma touches_one [touches_intro]:
  "p \<in> T \<Longrightarrow> touches T (remove_file o' p)" "p \<in> T \<Longrightarrow> touches T (write_file o' p bs)"
  "p \<in> T \<Longrightarrow> touches T (append_file o' p bs)" "p \<in> T \<Longrightarrow> touches T (set_len o' p n)"
  by (auto simp: touches_def remove_file_def write_file_def append_file_def set_len_def
      split: fault.splits option.splits)

lemma touches_rename [touches_intro]: "p \<in> T \<Longrightarrow> q \<in> T \<Longrightarrow> touches T (rename_file o' p q)"
  by (auto simp: touches_def rename_file_def split: fault.splits option.splits)

end
