(* ===== verification/UploadFacts.thy ===== *)
theory UploadFacts
  imports Upload FileRuns
begin

text \<open>
  Facts about the upload operations: which files an operation may touch, what a success of the
  small operations means, and what the replacement of the manifest leaves when it stops.
\<close>

section \<open>Steps of the upload operations\<close>

lemma st_Inr [run_simps]: "st m s = (Inr y, s') \<longleftrightarrow> m s = (Inr y, s')"
  by (simp add: st_def run_simps)

lemma touches_st [touches_intro]: "touches T m \<Longrightarrow> touches T (st m)"
  unfolding st_def by (rule touches_map_err)

lemma touches_ignore [touches_intro]: "touches T m \<Longrightarrow> touches T (ignore m)"
  unfolding ignore_def by (intro touches_intro)

lemma touches_remove_if_exists [touches_intro]: "p \<in> T \<Longrightarrow> touches T (remove_if_exists e p)"
  unfolding remove_if_exists_def
  by (intro touches_bind touches_attempt touches_one) (auto intro: touches_intro split: sum.split io_error.split)

lemma touches_remove_dir [touches_intro]: "touches T (remove_dir_if_empty e p)"
  unfolding remove_dir_if_empty_def
  by (intro touches_bind touches_attempt touches_none) (auto intro: touches_intro split: sum.split io_error.split)

lemma touches_candidates: "touches T (load_candidates e i found cs)"
proof (induction cs arbitrary: found)
  case (Cons c cs)
  show ?case
    unfolding load_candidates.simps
    by (intro touches_bind touches_attempt touches_none)
      (auto intro: touches_intro Cons.IH split: sum.split io_error.split option.split)
qed (auto intro: touches_intro)

lemma touches_load [touches_intro]: "touches T (load_manifest_for_upload e d i)"
  unfolding load_manifest_for_upload_def by (intro touches_intro touches_candidates)

definition manifest_files :: "path \<Rightarrow> path set" where
  "manifest_files p = set (manifest_recovery_paths p)"

lemma touches_replace [touches_intro]:
  "{p, tmp, backup} \<subseteq> T \<Longrightarrow> touches T (replace_manifest e p tmp backup had)"
  unfolding replace_manifest_def
  by (intro touches_bind touches_attempt touches_rename) (auto intro!: touches_intro split: sum.split)

lemma touches_write_manifest [touches_intro]: "manifest_files p \<subseteq> T \<Longrightarrow> touches T (write_manifest e p m)"
  unfolding write_manifest_def Let_def manifest_files_def manifest_recovery_paths_def
  by (intro touches_bind touches_if touches_st touches_none touches_remove_if_exists touches_one touches_pure touches_attempt
      touches_rename touches_replace; (auto intro!: touches_intro split: sum.split)?)

lemma touches_release [touches_intro]: "touches T m \<Longrightarrow> touches T (release_after p m)"
  unfolding touches_def release_after_def by (fastforce simp: unlock_def split: prod.splits)

lemma touches_try_acquire [touches_intro]: "p \<in> T \<Longrightarrow> touches T (try_acquire_upload_lock e p opn)"
proof -
  assume p: "p \<in> T"
  have "touches T (take_lock e p opn)" by (auto simp: touches_def take_lock_def split: if_splits)
  moreover have "touches T (write_owner e p opn)" unfolding write_owner_def using p by (intro touches_intro)
  moreover have "touches T (\<lambda>s. (Inl Storage, unlock p s))" by (simp add: touches_def unlock_def)
  ultimately show ?thesis
    unfolding try_acquire_upload_lock_def using p
    by (intro touches_bind touches_if) (auto intro!: touches_intro split: sum.split)
qed

lemma touches_with_lock [touches_intro]: "p \<in> T \<Longrightarrow> touches T body \<Longrightarrow> touches T (with_lock e p opn body)"
  unfolding with_lock_def acquire_upload_lock_def
  by (intro touches_bind) (auto intro: touches_intro)

section \<open>Names of the files of an upload\<close>

lemma rsplit_dot_append: "CHR ''.'' \<notin> set ext \<Longrightarrow> rsplit_dot (n @ ''.'' @ ext) = Some (n, ext)"
proof -
  assume "CHR ''.'' \<notin> set ext"
  then have all: "takeWhile (\<lambda>c. c \<noteq> CHR ''.'') (rev ext) = rev ext" by (auto simp: takeWhile_eq_all_conv)
  have "takeWhile (\<lambda>c. c \<noteq> CHR ''.'') (rev ext @ CHR ''.'' # rev n) = takeWhile (\<lambda>c. c \<noteq> CHR ''.'') (rev ext)"
    by (rule takeWhile_tail) simp
  with all have tw: "takeWhile (\<lambda>c. c \<noteq> CHR ''.'') (rev (n @ ''.'' @ ext)) = rev ext" by simp
  show ?thesis unfolding rsplit_dot_def tw Let_def by simp
qed

lemma manifest_tmp_bak:
  assumes "i \<noteq> []"
  shows "with_extension ext ((i @ ''.json'') # d) = (i @ ''.'' @ ext) # d"
proof -
  have "rsplit_dot (i @ ''.json'') = Some (i, ''json'')" using rsplit_dot_append [of "''json''" i] by simp
  then show ?thesis using assms by (simp add: with_extension_def)
qed

lemma upload_files:
  assumes "i \<noteq> []"
  shows "manifest_files (up_manifest (upload_paths d i f)) =
    {(i @ ''.json.tmp'') # ''staged-documents'' # d, (i @ ''.json'') # ''staged-documents'' # d,
     (i @ ''.json.bak'') # ''staged-documents'' # d}"
  by (auto simp: manifest_files_def manifest_recovery_paths_def upload_paths_def Let_def manifest_tmp_bak [OF assms])

lemma upload_paths_sel [simp]:
  "up_manifest (upload_paths d i f) = (i @ ''.json'') # ''staged-documents'' # d"
  "up_part (upload_paths d i f) = ''upload.part'' # i # ''staged-documents'' # d"
  "up_final (upload_paths d i f) = f # i # ''staged-documents'' # d"
  "up_dir (upload_paths d i f) = i # ''staged-documents'' # d"
  "up_lock (upload_paths d i f) = (i @ ''.lock'') # ''staged-documents'' # d"
  by (simp_all add: upload_paths_def upload_lock_path_def Let_def)

section \<open>Replacing the manifest\<close>

text \<open>A success has written the new manifest, whatever was on the disk.\<close>

lemma any_triple: "triple P m (\<lambda>_ _. True) (\<lambda>_. True)"
  by (auto simp: triple_def split: prod.split sum.split)

lemma touches_triple:
  assumes "touches T m" "p \<notin> T"
  shows "triple (\<lambda>s. files s p = c) m (\<lambda>_ s. files s p = c) (\<lambda>s. files s p = c)"
  using assms by (auto simp: triple_def touches_def split: prod.split sum.split)

lemma ignore_triple: "triple P m (\<lambda>_. Q) Q \<Longrightarrow> triple P (ignore m) (\<lambda>_. Q) E"
  unfolding ignore_def by (rule triple_bind [where R = "\<lambda>_. Q"]) (auto intro: triple_attempt triple_ret)

lemma is_file_triple:
  "(\<And>s. P s \<Longrightarrow> Q (is_file p s) s) \<Longrightarrow> triple P (\<lambda>s. ret (is_file p s) s) Q E"
  by (auto simp: triple_def ret_def)

lemma replace_manifest_writes:
  assumes "tmp \<noteq> p" "backup \<noteq> p"
  shows "triple (\<lambda>s. files s tmp = Some c) (replace_manifest e p tmp backup had) (\<lambda>_ s. files s p = Some c) (\<lambda>_. True)"
proof -
  let ?P = "\<lambda>s. files s tmp = Some c"
  have ren: "triple ?P (attempt (rename_file (io_plan e) tmp p))
      (\<lambda>r s. case r of Inr _ \<Rightarrow> files s p = Some c | Inl _ \<Rightarrow> True) (\<lambda>_. True)"
    by (rule triple_attempt, simp only: sum.case, rule rename_file_triple [where P = ?P]) auto
  have bak: "triple (\<lambda>s. files s p = Some c) (ignore (remove_if_exists e backup)) (\<lambda>_ s. files s p = Some c) (\<lambda>_. True)"
    using assms by (intro ignore_triple touches_triple [where T = "{backup}"] touches_intro) auto
  have bad: "triple P (bind_io (f :: (error, unit) op) (\<lambda>_. bind_io (g :: (error, unit) op) (\<lambda>_. raise Storage))) Q (\<lambda>_. True)"
    for P f g and Q :: "unit \<Rightarrow> disk \<Rightarrow> bool"
    by (intro triple_bind [OF any_triple] triple_raise) simp
  show ?thesis
    unfolding replace_manifest_def
  proof (rule triple_bind [OF ren])
    fix r
    show "triple (\<lambda>s. case r of Inr _ \<Rightarrow> files s p = Some c | Inl _ \<Rightarrow> True)
        (case r of Inl _ \<Rightarrow> bind_io (\<lambda>s. (if had \<and> \<not> is_file p s then ignore (rename_file (io_plan e) backup p) else ret ()) s)
             (\<lambda>_. bind_io (ignore (remove_if_exists e tmp)) (\<lambda>_. raise Storage))
         | Inr _ \<Rightarrow> if had then ignore (remove_if_exists e backup) else ret ())
        (\<lambda>_ s. files s p = Some c) (\<lambda>_. True)"
      by (cases r) (auto intro: bad bak triple_ret)
  qed
qed

definition manifest_path :: "path \<Rightarrow> bool" where
  "manifest_path p = (with_extension ''json.tmp'' p \<noteq> p \<and> with_extension ''json.bak'' p \<noteq> p \<and>
     with_extension ''json.tmp'' p \<noteq> with_extension ''json.bak'' p)"

lemma upload_manifest_path: "i \<noteq> [] \<Longrightarrow> manifest_path ((i @ ''.json'') # d)"
  by (simp add: manifest_path_def manifest_tmp_bak)

lemma write_manifest_writes:
  assumes "manifest_path p"
  shows "triple (\<lambda>_. True) (write_manifest e p m) (\<lambda>_ s. files s p = Some (to_json e m)) (\<lambda>_. True)"
proof -
  let ?tmp = "with_extension ''json.tmp'' p" and ?bak = "with_extension ''json.bak'' p"
  let ?T = "\<lambda>s. files s ?tmp = Some (to_json e m)"
  have ne: "?tmp \<noteq> p" "?bak \<noteq> p" "?tmp \<noteq> ?bak" using assms by (auto simp: manifest_path_def)
  have wr: "triple (\<lambda>_. True) (st (write_file (io_plan e) ?tmp (to_json e m))) (\<lambda>_. ?T) (\<lambda>_. True)"
    unfolding st_def by (rule triple_map_err, rule write_file_triple [where P = "\<lambda>_. True"]) simp_all
  have rm: "triple ?T (remove_if_exists e ?bak) (\<lambda>_. ?T) (\<lambda>_. True)"
    using touches_triple [of "{?bak}" "remove_if_exists e ?bak" ?tmp] ne by (auto intro: touches_intro triple_conseq)
  have ren: "triple ?T (attempt (rename_file (io_plan e) p ?bak)) (\<lambda>_. ?T) (\<lambda>_. True)"
    using ne by (intro triple_attempt rename_file_triple [where P = ?T]) auto
  note rep = replace_manifest_writes [OF ne(1,2)]
  have bad: "triple P (bind_io (g :: (error, unit) op) (\<lambda>_. raise Storage)) Q (\<lambda>_. True)"
    for P g and Q :: "unit \<Rightarrow> disk \<Rightarrow> bool"
    by (intro triple_bind [OF any_triple] triple_raise) simp
  have had: "triple ?T (bind_io (remove_if_exists e ?bak) (\<lambda>_.
          bind_io (attempt (rename_file (io_plan e) p ?bak)) (\<lambda>r. case r of
              Inl _ \<Rightarrow> bind_io (ignore (remove_if_exists e ?tmp)) (\<lambda>_. raise Storage)
            | Inr _ \<Rightarrow> replace_manifest e p ?tmp ?bak True))) (\<lambda>_ s. files s p = Some (to_json e m)) (\<lambda>_. True)"
    by (rule triple_bind [OF rm], rule triple_bind [OF ren]) (auto intro: bad rep split: sum.split)
  show ?thesis
    unfolding write_manifest_def Let_def
    by (rule triple_bind [OF any_triple], rule triple_bind [OF any_triple], rule triple_bind [OF wr],
        rule triple_bind [OF is_file_triple [where Q = "\<lambda>_. ?T"]], assumption)
      (auto intro: had rep split: sum.split)
qed

end
