(* ===== verification/UploadRuns.thy ===== *)
theory UploadRuns
  imports UploadFacts
begin

text \<open>
  Runs of the upload operations: what they do when nothing fails, which states the replacement of
  a manifest passes through, and what a success of an append, a commit or an abort has done.
\<close>

named_theorems fine_simps \<open>runs in which no operation fails\<close>

definition fine :: "uenv \<Rightarrow> bool" where
  "fine e = (io_plan e = (\<lambda>_. Fine))"

lemma fine_prims [fine_simps]:
  assumes "fine e"
  shows "remove_if_exists e p s = (Inr (), tick (set_file p None s))"
    "write_file (io_plan e) p bs s = (Inr (), tick (set_file p (Some bs) s))"
    "append_file (io_plan e) p bs s = (Inr (), tick (set_file p (Some (contents (files s p) @ bs)) s))"
    "create_dir_all (io_plan e) p s = (Inr (), tick (s\<lparr>dirs := with_parents p \<union> dirs s\<rparr>))"
    "sync_dir (io_plan e) p s = (Inr (), tick s)"
    "files s p = Some c \<Longrightarrow> rename_file (io_plan e) p q s = (Inr (), tick (set_file q (Some c) (set_file p None s)))"
    "files s p = Some c \<Longrightarrow> read_file (io_plan e) p s = (Inr c, tick s)"
    "files s p = None \<Longrightarrow> read_file (io_plan e) p s = (Inl EntryNotFound, tick s)"
    "files s p = Some c \<Longrightarrow> set_len (io_plan e) p 0 s = (Inr (), tick (set_file p (Some []) s))"
proof -
  have idem: "files s p = None \<Longrightarrow> set_file p None s = s" by (simp add: set_file_def fun_upd_idem)
  show "remove_if_exists e p s = (Inr (), tick (set_file p None s))"
    using assms idem
    by (cases "files s p") (auto simp: fine_def remove_if_exists_def bind_io_def attempt_def remove_file_def ret_def)
qed (use assms in \<open>simp_all add: fine_def write_file_def append_file_def create_dir_all_def sync_dir_def rename_file_def
    read_file_def set_len_def\<close>)

lemma fine_seq [fine_simps]:
  "bind_io m f s = (case m s of (Inl er, s') \<Rightarrow> (Inl er, s') | (Inr x, s') \<Rightarrow> f x s')"
  "ret x s = (Inr x, s)" "raise er s = (Inl er, s)" "lift_r r s = (r, s)"
  "attempt m s = (case m s of (r, s') \<Rightarrow> (Inr r, s'))"
  "st m' s = (case m' s of (Inl er, s') \<Rightarrow> (Inl Storage, s') | (Inr x, s') \<Rightarrow> (Inr x, s'))"
  "ignore m s = (Inr (), snd (m s))"
  by (simp_all add: bind_io_def ret_def raise_def lift_r_def attempt_def st_def map_err_def ignore_def split: prod.split)

lemma is_file_iff [fine_simps]: "is_file p s \<longleftrightarrow> files s p \<noteq> None"
  by (simp add: is_file_def)

lemma write_manifest_fine:
  assumes "fine e" "manifest_path p"
  shows "\<exists>s'. write_manifest e p m s = (Inr (), s') \<and> locks s' = locks s \<and>
    files s' = (files s)(with_extension ''json.tmp'' p := None, p := Some (to_json e m), 
      with_extension ''json.bak'' p := (if files s p = None then files s (with_extension ''json.bak'' p) else None))"
proof (cases "files s p")
  case None
  then show ?thesis
    using assms by (auto simp: write_manifest_def Let_def replace_manifest_def fine_simps manifest_path_def fun_upd_idem)
next
  case (Some c)
  then show ?thesis
    using assms by (auto simp: write_manifest_def Let_def replace_manifest_def fine_simps manifest_path_def)
qed
text \<open>The files of one upload.\<close>

definition upload_file_set :: "path \<Rightarrow> string \<Rightarrow> path set" where
  "upload_file_set d i = {p. p = (i @ ''.json.tmp'') # ''staged-documents'' # d \<or> p = (i @ ''.json'') # ''staged-documents'' # d \<or>
     p = (i @ ''.json.bak'') # ''staged-documents'' # d \<or> p = (i @ ''.lock'') # ''staged-documents'' # d \<or>
     (\<exists>f. p = f # i # ''staged-documents'' # d)}"

text \<open>The manifest of an upload in the place where it rests between operations.\<close>

definition settled :: "uenv \<Rightarrow> path \<Rightarrow> string \<Rightarrow> UploadManifest \<Rightarrow> disk \<Rightarrow> bool" where
  "settled e d i m s = (i \<noteq> [] \<and> uuid_ok e i \<and> um_upload_id m = i \<and>
     files s ((i @ ''.json.tmp'') # ''staged-documents'' # d) = None \<and>
     (\<exists>raw. files s ((i @ ''.json'') # ''staged-documents'' # d) = Some raw \<and> from_json e raw = Some m) \<and>
     files s ((i @ ''.json.bak'') # ''staged-documents'' # d) = None)"

lemma manifest_candidates:
  assumes "i \<noteq> []"
  shows "manifest_recovery_paths (up_manifest (upload_paths d i f)) =
    [(i @ ''.json.tmp'') # ''staged-documents'' # d, (i @ ''.json'') # ''staged-documents'' # d,
     (i @ ''.json.bak'') # ''staged-documents'' # d]"
  by (simp add: manifest_recovery_paths_def manifest_tmp_bak [OF assms])

lemma read_absent: "files s p = None \<Longrightarrow> \<exists>x. read_file o' p s = (Inl x, tick s)"
  by (simp add: read_file_def split: fault.split)

lemma load_skip:
  assumes "files s c = None" "load_candidates e i b (c # cs) s = (Inr m', s')"
  shows "\<exists>b'. load_candidates e i b' cs (tick s) = (Inr m', s')"
proof -
  obtain x where "read_file (io_plan e) c s = (Inl x, tick s)" using read_absent [OF assms(1)] by blast
  then show ?thesis using assms(2) by (cases x) (auto simp: bind_io_def attempt_def)
qed

lemma load_hit:
  assumes "files s c = Some raw" "from_json e raw = Some m" "um_upload_id m = i"
    "load_candidates e i b (c # cs) s = (Inr m', s')"
  shows "(m' = m \<and> s' = tick s) \<or> (\<exists>b'. load_candidates e i b' cs (tick s) = (Inr m', s'))"
  using assms by (auto simp: bind_io_def attempt_def ret_def read_file_def split: fault.splits)

lemma load_settled:
  assumes "settled e d i m s" "load_manifest_for_upload e d i s = (Inr m', s')"
  shows "m' = m \<and> files s' = files s \<and> locks s' = locks s"
proof -
  let ?c = "\<lambda>x. (i @ x) # ''staged-documents'' # d"
  have n: "i \<noteq> []" "uuid_ok e i" "um_upload_id m = i" "files s (?c ''.json.tmp'') = None" "files s (?c ''.json.bak'') = None"
    using assms(1) by (auto simp: settled_def)
  obtain raw where raw: "files s (?c ''.json'') = Some raw" "from_json e raw = Some m"
    using assms(1) by (auto simp: settled_def)
  have "load_candidates e i False [?c ''.json.tmp'', ?c ''.json'', ?c ''.json.bak''] s = (Inr m', s')"
    using assms(2) n manifest_candidates [OF n(1), of d "''upload''"]
    by (simp add: load_manifest_for_upload_def validate_upload_id_def require_def bind_io_def lift_r_def)
  from load_skip [OF n(4) this]
  obtain b where "load_candidates e i b [?c ''.json'', ?c ''.json.bak''] (tick s) = (Inr m', s')" ..
  then consider "m' = m" "s' = tick (tick s)" | b' where "load_candidates e i b' [?c ''.json.bak''] (tick (tick s)) = (Inr m', s')"
    using load_hit [of "tick s" "?c ''.json''" raw e m i b "[?c ''.json.bak'']" m' s'] raw n(3) by auto
  then show ?thesis
  proof cases
    case 2
    then show ?thesis using load_skip [of "tick (tick s)" "?c ''.json.bak''" e i b' "[]" m' s'] n(5) by (simp add: raise_def)
  qed simp
qed

lemma load_fine:
  assumes "fine e" "settled e d i m s"
  shows "\<exists>s'. load_manifest_for_upload e d i s = (Inr m, s') \<and> files s' = files s \<and> locks s' = locks s \<and> dirs s' = dirs s"
  using assms manifest_candidates [of i d "''upload''"]
  by (auto simp: settled_def load_manifest_for_upload_def validate_upload_id_def require_def fine_simps)

section \<open>The manifest survives a crash\<close>

text \<open>Between the old content \<open>u\<close> and the new content \<open>v\<close> of a manifest.\<close>

definition between :: "path \<Rightarrow> string \<Rightarrow> string \<Rightarrow> disk \<Rightarrow> bool" where
  "between p u v s =
     ((files s (with_extension ''json.tmp'' p) = None \<or> (\<exists>k. files s (with_extension ''json.tmp'' p) = Some (take k v))) \<and>
      (files s p = Some u \<or> files s p = None \<and> files s (with_extension ''json.bak'' p) = Some u \<or>
       files s p = Some v \<and> files s (with_extension ''json.tmp'' p) = None))"

definition swapped :: "path \<Rightarrow> string \<Rightarrow> string \<Rightarrow> disk \<Rightarrow> bool" where
  "swapped p u v s =
     (files s (with_extension ''json.tmp'' p) = Some v \<and> files s p = None \<and> files s (with_extension ''json.bak'' p) = Some u)"

lemma swapped_between: "swapped p u v s \<Longrightarrow> between p u v s"
  unfolding swapped_def between_def by (metis order_refl take_all)

lemma if_state_triple:
  "triple (\<lambda>s. P s \<and> b s) m Q E \<Longrightarrow> triple (\<lambda>s. P s \<and> \<not> b s) m' Q E \<Longrightarrow> triple P (\<lambda>s. (if b s then m else m') s) Q E"
  by (auto simp: triple_def)

lemma remove_if_exists_triple:
  assumes "\<And>s. P s \<Longrightarrow> P (tick s)" "\<And>s. P s \<Longrightarrow> P (tick (set_file p None s))"
  shows "triple P (remove_if_exists e p) (\<lambda>_. P) P"
  unfolding remove_if_exists_def
  by (rule triple_bind [where R = "\<lambda>_. P"], rule triple_attempt, rule remove_file_triple [where P = P])
    (use assms in \<open>auto intro: triple_ret triple_raise split: sum.split io_error.split\<close>)

lemma replace_manifest_between:
  assumes "manifest_path p"
  shows "triple (swapped p u v) (replace_manifest e p (with_extension ''json.tmp'' p) (with_extension ''json.bak'' p) True)
    (\<lambda>_ s. files s p = Some v \<and> files s (with_extension ''json.tmp'' p) = None) (between p u v)"
proof -
  let ?tmp = "with_extension ''json.tmp'' p" and ?bak = "with_extension ''json.bak'' p"
  let ?D = "\<lambda>s. files s p = Some v \<and> files s ?tmp = None"
  let ?S = "swapped p u v" and ?J = "\<lambda>s. between p u v s \<and> (files s p = Some u \<or> files s p = None)"
  have ne: "?tmp \<noteq> p" "?bak \<noteq> p" "?tmp \<noteq> ?bak" using assms by (auto simp: manifest_path_def)
  have ren: "triple ?S (attempt (rename_file (io_plan e) ?tmp p)) (\<lambda>r s. case r of Inr _ \<Rightarrow> ?D s | Inl _ \<Rightarrow> ?S s) (between p u v)"
    using ne by (intro triple_attempt, simp only: sum.case, intro rename_file_triple [where P = ?S]) (auto simp: swapped_def)
  have fin: "triple ?D (ignore (remove_if_exists e ?bak)) (\<lambda>_. ?D) (between p u v)"
    using ne by (intro ignore_triple remove_if_exists_triple) auto
  have restore: "triple ?S (\<lambda>s. (if \<not> is_file p s then ignore (rename_file (io_plan e) ?bak p) else ret ()) s) (\<lambda>_. ?J) (between p u v)"
    using ne
    by (intro if_state_triple ignore_triple rename_file_triple triple_ret)
      (auto simp: swapped_def between_def is_file_def intro: exI [of _ "length v"])
  have clean: "triple ?J (ignore (remove_if_exists e ?tmp) :: (error, unit) op) (\<lambda>_. ?J) (between p u v)"
    using ne by (intro ignore_triple remove_if_exists_triple) (auto simp: between_def)
  show ?thesis
    unfolding replace_manifest_def
    by (rule triple_bind [OF ren])
      (auto intro: fin triple_bind [OF restore] triple_bind [OF clean] triple_raise split: sum.split)
qed

lemma write_manifest_between:
  assumes "manifest_path p"
  shows "triple (\<lambda>s. files s (with_extension ''json.tmp'' p) = None \<and> files s p = Some u) (write_manifest e p m)
    (\<lambda>_ s. files s p = Some (to_json e m) \<and> files s (with_extension ''json.tmp'' p) = None) (between p u (to_json e m))"
proof -
  let ?tmp = "with_extension ''json.tmp'' p" and ?bak = "with_extension ''json.bak'' p" and ?v = "to_json e m"
  let ?A = "\<lambda>s. files s ?tmp = None \<and> files s p = Some u" and ?B = "\<lambda>s. files s ?tmp = Some ?v \<and> files s p = Some u"
  let ?J = "between p u ?v" and ?Q = "\<lambda>(_::unit) s. files s p = Some ?v \<and> files s ?tmp = None"
  have ne: "?tmp \<noteq> p" "?bak \<noteq> p" "?tmp \<noteq> ?bak" using assms by (auto simp: manifest_path_def)
  have BJ: "?B s \<Longrightarrow> ?J s" for s by (auto simp: between_def intro: exI [of _ "length ?v"])
  have mk: "triple ?A (st (create_dir_all (io_plan e) (tl p))) (\<lambda>_. ?A) ?J"
    unfolding st_def by (rule triple_map_err, rule create_dir_triple [where P = ?A]) (auto simp: between_def)
  have rt: "triple ?A (remove_if_exists e ?tmp) (\<lambda>_. ?A) ?J"
    by (rule triple_conseq [OF remove_if_exists_triple [where P = ?A]]) (use ne in \<open>auto simp: between_def\<close>)
  have wr: "triple ?A (st (write_file (io_plan e) ?tmp ?v)) (\<lambda>_. ?B) ?J"
    unfolding st_def using ne by (intro triple_map_err write_file_triple [where P = ?A]) (auto simp: between_def)
  have rb: "triple ?B (remove_if_exists e ?bak) (\<lambda>_. ?B) ?J"
    by (rule triple_conseq [OF remove_if_exists_triple [where P = ?B]]) (use ne BJ in auto)
  have ren: "triple ?B (attempt (rename_file (io_plan e) p ?bak)) (\<lambda>r s. case r of Inr _ \<Rightarrow> swapped p u ?v s | Inl _ \<Rightarrow> ?B s) ?J"
    using ne by (intro triple_attempt, simp only: sum.case, intro rename_file_triple [where P = ?B]) (auto simp: swapped_def)
  have clean: "triple ?B (ignore (remove_if_exists e ?tmp) :: (error, unit) op) (\<lambda>_. ?J) ?J"
    using ne
    by (intro ignore_triple triple_conseq [OF remove_if_exists_triple [where P = "\<lambda>s. ?J s \<and> files s p = Some u"]])
      (auto simp: between_def intro: exI [of _ "length ?v"])
  have tail: "triple ?B (bind_io (remove_if_exists e ?bak) (\<lambda>_. bind_io (attempt (rename_file (io_plan e) p ?bak)) (\<lambda>r. case r of
              Inl _ \<Rightarrow> bind_io (ignore (remove_if_exists e ?tmp)) (\<lambda>_. raise Storage)
            | Inr _ \<Rightarrow> replace_manifest e p ?tmp ?bak True))) ?Q ?J"
    by (rule triple_bind [OF rb], rule triple_bind [OF ren])
      (auto intro: triple_bind [OF clean] triple_raise replace_manifest_between [OF assms] split: sum.split)
  have no: "triple (\<lambda>s. \<not> had \<and> ?B s \<and> had) (replace_manifest e p ?tmp ?bak False) ?Q ?J" for had
    unfolding triple_def by blast
  show ?thesis
    unfolding write_manifest_def Let_def
    by (rule triple_bind [OF mk], rule triple_bind [OF rt], rule triple_bind [OF wr],
        rule triple_bind [OF is_file_triple [where P = ?B and Q = "\<lambda>had s. had \<and> ?B s"]])
      (auto simp: is_file_def intro: tail triple_conseq [OF tail] simp: triple_def [of "\<lambda>_. False"])
qed

text \<open>Every state in between loads as one of the two manifests, when the disk answers again.\<close>

lemma load_between:
  assumes "fine e" "i \<noteq> []" "uuid_ok e i" "um_upload_id old = i" "um_upload_id new = i"
    "from_json e u = Some old" "from_json e (to_json e new) = Some new"
    "\<And>k. k < length (to_json e new) \<Longrightarrow> from_json e (take k (to_json e new)) = None"
    "between ((i @ ''.json'') # ''staged-documents'' # d) u (to_json e new) s"
  shows "\<exists>m s'. load_manifest_for_upload e d i s = (Inr m, s') \<and> m \<in> {old, new} \<and>
     (files s ((i @ ''.json'') # ''staged-documents'' # d) = Some (to_json e new) \<longrightarrow> m = new)"
proof -
  let ?c = "\<lambda>x. (i @ x) # ''staged-documents'' # d" and ?v = "to_json e new"
  have part: "from_json e (take k ?v) = (if k < length ?v then None else Some new)" for k
    using assms(7,8) by (cases "k < length ?v") simp_all
  have cs: "load_manifest_for_upload e d i s = load_candidates e i False [?c ''.json.tmp'', ?c ''.json'', ?c ''.json.bak''] s"
    using manifest_candidates [OF assms(2), of d "''upload''"] assms(3)
    by (simp add: load_manifest_for_upload_def validate_upload_id_def require_def fine_simps)
  have b: "files s (?c ''.json.tmp'') = None \<or> (\<exists>k. files s (?c ''.json.tmp'') = Some (take k ?v))"
    "files s (?c ''.json'') = Some u \<or> files s (?c ''.json'') = None \<and> files s (?c ''.json.bak'') = Some u \<or>
     files s (?c ''.json'') = Some ?v \<and> files s (?c ''.json.tmp'') = None"
    using assms(9) manifest_tmp_bak [OF assms(2)] by (simp_all add: between_def)
  have tail: "\<exists>m s'. load_candidates e i f [?c ''.json'', ?c ''.json.bak''] (tick s) = (Inr m, s') \<and> m \<in> {old, new} \<and>
     (files s (?c ''.json'') = Some ?v \<longrightarrow> m = new)" for f
    using b(2) assms(1,4-7) by (auto simp: fine_simps)
  show ?thesis
  proof (cases "files s (?c ''.json.tmp'')")
    case None
    then show ?thesis using tail [of False] assms(1) by (simp add: cs fine_simps)
  next
    case (Some raw)
    then obtain k where k: "raw = take k ?v" using b(1) by auto
    show ?thesis
    proof (cases "k < length ?v")
      case True
      then show ?thesis using Some k part tail [of True] assms(1) by (simp add: cs fine_simps)
    next
      case False
      then show ?thesis using Some k part assms by (simp add: cs fine_simps)
    qed
  qed
qed

section \<open>Successful operations\<close>

lemma require_Inr: "require b er = Inr u \<longleftrightarrow> b"
  by (simp add: require_def)

lemmas seq_simps = require_Inr bind_io_Inr ret_Inr raise_Inr lift_Inr st_Inr attempt_Inr

lemma acquire_touches: "touches {lp} (acquire_upload_lock e lp opn)"
  unfolding acquire_upload_lock_def by (intro touches_bind) (auto intro: touches_intro)

lemma release_run: "release_after lp m s = (r, s') \<longleftrightarrow> (\<exists>s1. m s = (r, s1) \<and> s' = unlock lp s1)"
  by (auto simp: release_after_def split: prod.splits)

lemma unlock_sel [simp]: "files (unlock lp s) = files s" "locks (unlock lp s) = (locks s)(lp := None)" "clock (unlock lp s) = clock s"
  by (simp_all add: unlock_def)

text \<open>The body of a locked operation runs in a state that differs in the lock only.\<close>

lemma with_lock_Inr:
  assumes "with_lock e lp opn body s = (Inr y, s')"
  shows "\<exists>s1 s2. (\<forall>p. p \<noteq> lp \<longrightarrow> files s1 p = files s p) \<and> body s1 = (Inr y, s2) \<and> files s' = files s2"
proof -
  obtain u s1 where a: "acquire_upload_lock e lp opn s = (Inr u, s1)" and r: "release_after lp body s1 = (Inr y, s')"
    using assms by (auto simp: with_lock_def run_simps)
  from r obtain s2 where "body s1 = (Inr y, s2)" "s' = unlock lp s2" by (auto simp: release_run)
  then show ?thesis using touchesD [OF acquire_touches a] by auto
qed

lemma settled_cong:
  assumes "settled e d i m s" "\<And>x. x \<in> {''.json.tmp'', ''.json'', ''.json.bak''} \<Longrightarrow>
     files s' ((i @ x) # ''staged-documents'' # d) = files s ((i @ x) # ''staged-documents'' # d)"
  shows "settled e d i m s'"
  using assms by (simp add: settled_def)

lemma settled_locked:
  assumes "settled e d i m s" "\<And>p. p \<noteq> (i @ ''.lock'') # D \<Longrightarrow> files s' p = files s p"
  shows "settled e d i m s'"
  using assms(1) by (rule settled_cong) (auto intro!: assms(2))

lemma written_manifest:
  assumes "i \<noteq> []" "write_manifest e ((i @ ''.json'') # d) m s = (Inr u, s')"
  shows "files s' ((i @ ''.json'') # d) = Some (to_json e m)"
  using tripleD(1) [OF write_manifest_writes [OF upload_manifest_path [OF assms(1)]] TrueI assms(2)] .

lemma write_manifest_frame:
  assumes "i \<noteq> []" "write_manifest e ((i @ ''.json'') # d) m s = (r, s')"
    "p \<notin> {(i @ ''.json.tmp'') # d, (i @ ''.json'') # d, (i @ ''.json.bak'') # d}"
  shows "files s' p = files s p"
proof (rule touchesD [OF touches_write_manifest assms(2) assms(3)])
  show "manifest_files ((i @ ''.json'') # d) \<subseteq> {(i @ ''.json.tmp'') # d, (i @ ''.json'') # d, (i @ ''.json.bak'') # d}"
    by (auto simp: manifest_files_def manifest_recovery_paths_def manifest_tmp_bak [OF assms(1)])
qed

lemma remove_if_exists_Inr: "remove_if_exists e p s = (Inr u, s') \<Longrightarrow> files s' = (files s)(p := None)"
  by (cases "io_plan e (clock s)"; cases "files s p")
    (auto simp: remove_if_exists_def bind_io_def attempt_def remove_file_def ret_def raise_def fun_upd_idem)

lemma part_len_Inr:
  assumes "part_len e p s = (Inr n, s')"
  shows "n = length (contents (files s p)) \<and> files s' = files s"
proof -
  have no: "file_size o' p s = (Inl EntryNotFound, s1) \<Longrightarrow> files s p = None \<and> s1 = tick s" for o' s1
    by (auto simp: file_size_def bind_io_def read_file_def ret_def split: fault.splits option.splits)
  obtain r s1 where r: "file_size (io_plan e) p s = (r, s1)" by fastforce
  show ?thesis
  proof (cases r)
    case (Inl x)
    then show ?thesis using assms r
      by (cases x) (auto simp: part_len_def bind_io_def attempt_def ret_def raise_def contents_def dest: no)
  next
    case (Inr k)
    then show ?thesis using assms r by (auto simp: part_len_def bind_io_def attempt_def ret_def file_size_Inr contents_def)
  qed
qed

lemma check_append_Inr:
  "check_append m now off ul bs = Inr n \<longleftrightarrow>
     um_status m = Open \<and> now \<le> um_expires_at_ms m \<and> (ul = None \<or> ul = Some (um_size_bytes m)) \<and> off = um_bytes_received m \<and>
     n = um_bytes_received m + length bs \<and> n \<le> u64_max \<and> n \<le> um_size_bytes m \<and> n \<le> MAX_UPLOAD_BYTES"
  by (cases ul) (auto simp: check_append_def ensure_open_def status_from_manifest_def Let_def upload_is_expired_at_def bind_r_def
      split: if_splits)

lemma append_body_success:
  assumes "settled e d i m s" "append_body e d i off ul bs s = (Inr resp, s')"
  shows "um_status m = Open \<and> off = um_bytes_received m \<and> length (contents (files s (''upload.part'' # i # ''staged-documents'' # d))) = off \<and>
    off + length bs \<le> um_size_bytes m \<and> um_size_bytes m \<le> um_size_bytes m \<and> files s' (''upload.part'' # i # ''staged-documents'' # d) = Some (contents (files s (''upload.part'' # i # ''staged-documents'' # d)) @ bs) \<and>
    files s' ((i @ ''.json'') # ''staged-documents'' # d) = Some (to_json e (m\<lparr>um_bytes_received := off + length bs\<rparr>)) \<and>
    sr_next_offset resp = off + length bs"
proof -
  let ?part = "''upload.part'' # i # ''staged-documents'' # d"
  have ne: "i \<noteq> []" using assms(1) by (simp add: settled_def)
  obtain m1 s1 next_o n s2 u3 s3 u4 s4 r s5 where
    l: "load_manifest_for_upload e d i s = (Inr m1, s1)" and
    c: "check_append m1 (now_ms e s1) off ul bs = Inr next_o" and
    p: "part_len e ?part s1 = (Inr n, s2)" and q: "n = um_bytes_received m1" and
    a: "append_file (io_plan e) ?part bs s2 = (Inr u3, s3)" and y: "sync_dir (io_plan e) ?part s3 = (Inr u4, s4)" and
    w: "write_manifest e ((i @ ''.json'') # ''staged-documents'' # d) (m1\<lparr>um_bytes_received := next_o\<rparr>) s4 = (r, s5)" and
    z: "(case r of Inl er \<Rightarrow> bind_io (rollback_upload_part e ?part (um_bytes_received m1)) (\<lambda>_. raise er)
       | Inr _ \<Rightarrow> (\<lambda>s. ret (status_from_manifest (m1\<lparr>um_bytes_received := next_o\<rparr>) (now_ms e s)) s)) s5 = (Inr resp, s')"
    using assms(2) by (auto simp: append_body_def seq_simps Let_def require_def split: if_splits)
  have m1: "m1 = m" "files s1 = files s" using load_settled [OF assms(1) l] by auto
  obtain u where r: "r = Inr u" "s' = s5" "resp = status_from_manifest (m\<lparr>um_bytes_received := next_o\<rparr>) (now_ms e s5)"
    using z m1(1) by (cases r) (auto simp: run_simps)
  have s4: "files s4 ?part = Some (contents (files s ?part) @ bs)" "n = length (contents (files s ?part))"
    using part_len_Inr [OF p] a y m1(2) by (auto simp: run_simps)
  have "files s' ?part = files s4 ?part"
    using write_manifest_frame [OF ne w] r(2) by (simp add: )
  then show ?thesis
    using c q s4 m1(1) r written_manifest [OF ne w [unfolded r(1)]]
    by (auto simp: check_append_Inr status_from_manifest_def Let_def)
qed

lemma append_success:
  assumes "settled e d i m s" "append_upload_chunk e d i off ul bs s = (Inr resp, s')"
  shows "bs \<noteq> [] \<and> um_status m = Open \<and> off = um_bytes_received m \<and> length (contents (files s (''upload.part'' # i # ''staged-documents'' # d))) = off \<and>
    off + length bs \<le> um_size_bytes m \<and> files s' (''upload.part'' # i # ''staged-documents'' # d) = Some (contents (files s (''upload.part'' # i # ''staged-documents'' # d)) @ bs) \<and>
    files s' ((i @ ''.json'') # ''staged-documents'' # d) = Some (to_json e (m\<lparr>um_bytes_received := off + length bs\<rparr>)) \<and>
    sr_next_offset resp = off + length bs"
proof -
  let ?part = "''upload.part'' # i # ''staged-documents'' # d"
  have bs: "bs \<noteq> []" and l: "with_lock e (upload_lock_path d i) ''append'' (append_body e d i off ul bs) s = (Inr resp, s')"
    using assms(2) by (auto simp: append_upload_chunk_def run_simps split: if_splits)
  obtain s1 s2 where s1: "\<And>p. p \<noteq> upload_lock_path d i \<Longrightarrow> files s1 p = files s p"
    and b: "append_body e d i off ul bs s1 = (Inr resp, s2)" and s2: "files s' = files s2"
    using with_lock_Inr [OF l] by blast
  have "settled e d i m s1" by (rule settled_locked [OF assms(1), where D = "''staged-documents'' # d"]) (simp add: s1 upload_lock_path_def)
  moreover have "files s1 ?part = files s ?part" by (rule s1) (simp add: upload_lock_path_def)
  ultimately show ?thesis using append_body_success [OF _ b, of m] bs s2 assms(1) by auto
qed

lemma check_commit_Inr:
  "check_commit m now = Inr u \<longleftrightarrow> um_status m = Open \<and> now \<le> um_expires_at_ms m \<and> um_bytes_received m = um_size_bytes m"
  by (auto simp: check_commit_def ensure_open_def status_from_manifest_def Let_def upload_is_expired_at_def bind_r_def require_def
      split: if_splits)

lemma commit_open_success:
  assumes "i \<noteq> []" "commit_open e d i sha m s = (Inr resp, s')"
  shows "(um_sanitized_filename m # i # ''staged-documents'' # d) \<noteq> (''upload.part'' # i # ''staged-documents'' # d) \<and> um_bytes_received m = um_size_bytes m \<and>
    (\<exists>bs. files s (''upload.part'' # i # ''staged-documents'' # d) = Some bs \<and> length bs = um_size_bytes m \<and> files s' (um_sanitized_filename m # i # ''staged-documents'' # d) = Some bs \<and> files s' (''upload.part'' # i # ''staged-documents'' # d) = None \<and>
       (um_expected_sha256 m \<noteq> None \<and> sha = None \<longrightarrow> um_expected_sha256 m = Some (sha256_of e bs)) \<and> cr_sha256 resp = sha256_of e bs \<and>
       files s' ((i @ ''.json'') # ''staged-documents'' # d) =
         Some (to_json e (m\<lparr>um_actual_sha256 := Some (sha256_of e bs), um_status := Committed\<rparr>)))"
proof -
  let ?part = "''upload.part'' # i # ''staged-documents'' # d" and ?final = "um_sanitized_filename m # i # ''staged-documents'' # d"
  obtain n s1 bs s2 requested s3 s4 u4 s5 u5 s6 r s7 where
    c: "check_commit m (now_ms e s) = Inr ()" and
    n: "file_size (io_plan e) ?part s = (Inr n, s1)" "n = um_size_bytes m" and
    b: "read_file (io_plan e) ?part s1 = (Inr bs, s2)" and
    q: "normalize_sha256 sha = Inr requested" and
    x: "(case requested of None \<Rightarrow> um_expected_sha256 m | Some x \<Rightarrow> Some x) = None \<or>
        (case requested of None \<Rightarrow> um_expected_sha256 m | Some x \<Rightarrow> Some x) = Some (sha256_of e bs)" and
    k: "create_dir_all (io_plan e) (i # ''staged-documents'' # d) s2 = (Inr s3, s4)" and
    f: "(if is_file ?final s4 then remove_if_exists e ?final else ret ()) s4 = (Inr u4, s5)" and
    rn: "rename_file (io_plan e) ?part ?final s5 = (Inr u5, s6)" and
    w: "write_manifest e ((i @ ''.json'') # ''staged-documents'' # d)
          (m\<lparr>um_actual_sha256 := Some (sha256_of e bs), um_status := Committed\<rparr>) s6 = (r, s7)" and
    z: "(case r of Inl er \<Rightarrow> bind_io (ignore (rename_file (io_plan e) ?final ?part)) (\<lambda>_. raise er)
       | Inr _ \<Rightarrow> lift_r (commit_response_from_manifest (m\<lparr>um_actual_sha256 := Some (sha256_of e bs), um_status := Committed\<rparr>))) s7 =
         (Inr resp, s')"
    using assms(2) by (auto simp: commit_open_def seq_simps Let_def cong: if_cong)
  have sb: "files s2 = files s" "files s ?part = Some bs" "length bs = um_size_bytes m" using n b by (auto simp: run_simps)
  have s4: "files s4 = files s" using k sb by (auto simp: run_simps)
  have fp: "files s5 p = files s4 p" if "p \<noteq> ?final" for p
    using f touchesD [OF touches_remove_if_exists [of ?final "{?final}" e] _, of s4 "Inr u4" s5 p] that
    by (auto simp: ret_def split: if_splits)
  note gone = remove_if_exists_Inr [of e ?final s4]
  have ne: "?final \<noteq> ?part"
  proof
    assume eq: "?final = ?part"
    then have "is_file ?final s4" using sb s4 by (simp add: is_file_def)
    then have "files s5 ?part = None" using f gone [of u4 s5] eq by simp
    then show False using rn by (auto simp: run_simps)
  qed
  have s6: "files s6 ?final = Some bs" "files s6 ?part = None"
    using rn fp [of ?part] ne sb s4 by (auto simp: run_simps)
  obtain u where r: "r = Inr u" "s' = s7" "cr_sha256 resp = sha256_of e bs"
    using z by (cases r) (auto simp: run_simps commit_response_from_manifest_def)
  have fr: "files s' p = files s6 p" if "p \<in> {?final, ?part}" for p
    using write_manifest_frame [OF assms(1) w] that r(2) by (auto simp: )
  have mp: "files s' ((i @ ''.json'') # ''staged-documents'' # d) =
      Some (to_json e (m\<lparr>um_actual_sha256 := Some (sha256_of e bs), um_status := Committed\<rparr>))"
    using written_manifest [OF assms(1) w [unfolded r(1)]] r(2) by simp
  have ex: "um_expected_sha256 m \<noteq> None \<and> sha = None \<longrightarrow> um_expected_sha256 m = Some (sha256_of e bs)"
    using x q by (auto simp: normalize_sha256_def)
  show ?thesis using ne c sb fr [of ?final] fr [of ?part] s6 r(3) mp ex by (auto simp: check_commit_Inr)
qed

lemma commit_success:
  assumes "settled e d i m s" "commit_upload e d i sha s = (Inr resp, s')" "um_status m = Open"
  shows "um_sanitized_filename m \<noteq> ''upload.part'' \<and> um_bytes_received m = um_size_bytes m \<and>
    (\<exists>bs. files s (''upload.part'' # i # ''staged-documents'' # d) = Some bs \<and> length bs = um_size_bytes m \<and>
       files s' (um_sanitized_filename m # i # ''staged-documents'' # d) = Some bs \<and>
       files s' (''upload.part'' # i # ''staged-documents'' # d) = None \<and>
       (um_expected_sha256 m \<noteq> None \<and> sha = None \<longrightarrow> um_expected_sha256 m = Some (sha256_of e bs)) \<and>
       cr_sha256 resp = sha256_of e bs \<and>
       files s' ((i @ ''.json'') # ''staged-documents'' # d) =
         Some (to_json e (m\<lparr>um_actual_sha256 := Some (sha256_of e bs), um_status := Committed\<rparr>)))"
proof -
  have l: "with_lock e (upload_lock_path d i) ''commit'' (commit_body e d i sha) s = (Inr resp, s')"
    using assms(2) by (auto simp: commit_upload_def seq_simps)
  obtain s1 s2 where s1: "\<And>p. p \<noteq> upload_lock_path d i \<Longrightarrow> files s1 p = files s p"
    and b: "commit_body e d i sha s1 = (Inr resp, s2)" and s2: "files s' = files s2"
    using with_lock_Inr [OF l] by blast
  have st: "settled e d i m s1" by (rule settled_locked [OF assms(1), where D = "''staged-documents'' # d"]) (simp add: s1 upload_lock_path_def)
  obtain m1 s3 where ld: "load_manifest_for_upload e d i s1 = (Inr m1, s3)" and
    b2: "(if upload_is_expired_at m1 (now_ms e s3) then raise InvalidInput
      else (case um_status m1 of
              Committed \<Rightarrow> lift_r (commit_response_from_manifest m1)
            | Ingested \<Rightarrow> lift_r (commit_response_from_manifest m1)
            | Aborted \<Rightarrow> raise Conflict
            | Busy \<Rightarrow> raise Conflict
            | Expired \<Rightarrow> raise Conflict
            | Open \<Rightarrow> commit_open e d i sha m1)) s3 = (Inr resp, s2)"
    using b by (auto simp: commit_body_def bind_io_Inr)
  have m1: "m1 = m" "files s3 = files s1" using load_settled [OF st ld] by auto
  then have "commit_open e d i sha m s3 = (Inr resp, s2)"
    using b2 assms(3) by (auto simp: raise_Inr split: if_splits)
  from commit_open_success [OF _ this] show ?thesis
    using assms(1) m1(2) s2 s1 [of "''upload.part'' # i # ''staged-documents'' # d"] by (auto simp: settled_def upload_lock_path_def)
qed

lemma abort_body_success:
  assumes "settled e d i m s" "abort_body e d i s = (Inr resp, s')"
  shows "um_status m \<noteq> Ingested \<and> ab_status resp = Aborted \<and>
    (um_status m = Aborted \<and> files s' = files s \<or>
     um_status m \<noteq> Aborted \<and> files s' (''upload.part'' # i # ''staged-documents'' # d) = None \<and>
       files s' (um_sanitized_filename m # i # ''staged-documents'' # d) = None \<and>
       (\<exists>t. files s' ((i @ ''.json'') # ''staged-documents'' # d) =
         Some (to_json e (m\<lparr>um_status := Aborted, um_expires_at_ms := t, um_ingest_result := None\<rparr>))))"
proof -
  let ?part = "''upload.part'' # i # ''staged-documents'' # d" and ?final = "um_sanitized_filename m # i # ''staged-documents'' # d"
    and ?mp = "(i @ ''.json'') # ''staged-documents'' # d"
  have ne: "i \<noteq> []" using assms(1) by (simp add: settled_def)
  obtain m1 s1 where ld: "load_manifest_for_upload e d i s = (Inr m1, s1)"
    using assms(2) by (auto simp: abort_body_def bind_io_Inr)
  have m1: "m1 = m" "files s1 = files s" using load_settled [OF assms(1) ld] by auto
  show ?thesis
  proof (cases "um_status m = Aborted \<or> um_status m = Ingested")
    case True
    then show ?thesis using assms(2) ld m1 by (auto simp: abort_body_def bind_io_Inr ret_Inr raise_Inr)
  next
    case False
    then obtain s2 s3 s4 u t where
      r1: "remove_if_exists e ?part s1 = (Inr (), s2)" and r2: "remove_if_exists e ?final s2 = (Inr (), s3)" and
      r3: "remove_dir_if_empty e (i # ''staged-documents'' # d) s3 = (Inr (), s4)" and
      w: "write_manifest e ?mp (m\<lparr>um_status := Aborted, um_expires_at_ms := t, um_ingest_result := None\<rparr>) s4 = (Inr u, s')" and
      resp: "ab_status resp = Aborted"
      using assms(2) ld m1 by (auto simp: abort_body_def seq_simps Let_def)
    have "files s4 = files s3" using touchesD [OF touches_remove_dir r3, of _ "{}"] by auto
    then have s4: "files s4 ?part = None" "files s4 ?final = None"
      using remove_if_exists_Inr [OF r1] remove_if_exists_Inr [OF r2] by auto
    have "files s' p = files s4 p" if "p \<in> {?part, ?final}" for p
      using write_manifest_frame [OF ne w] that by auto
    then show ?thesis using s4 False written_manifest [OF ne w] resp by auto
  qed
qed

lemma commit_replay:
  assumes "settled e d i m s" "commit_upload e d i sha s = (Inr resp, s')" "um_status m \<noteq> Open"
  shows "um_status m \<in> {Committed, Ingested} \<and> (\<forall>p. p \<noteq> (i @ ''.lock'') # ''staged-documents'' # d \<longrightarrow> files s' p = files s p)"
proof -
  have l: "with_lock e (upload_lock_path d i) ''commit'' (commit_body e d i sha) s = (Inr resp, s')"
    using assms(2) by (auto simp: commit_upload_def seq_simps)
  obtain s1 s2 where s1: "\<And>p. p \<noteq> upload_lock_path d i \<Longrightarrow> files s1 p = files s p"
    and b: "commit_body e d i sha s1 = (Inr resp, s2)" and s2: "files s' = files s2"
    using with_lock_Inr [OF l] by blast
  have st: "settled e d i m s1" by (rule settled_locked [OF assms(1), where D = "''staged-documents'' # d"]) (simp add: s1 upload_lock_path_def)
  obtain m1 s3 where ld: "load_manifest_for_upload e d i s1 = (Inr m1, s3)"
    using b by (auto simp: commit_body_def bind_io_Inr)
  have "m1 = m" "files s3 = files s1" using load_settled [OF st ld] by auto
  then have "um_status m \<in> {Committed, Ingested} \<and> files s2 = files s1"
    using b ld assms(3) by (auto simp: commit_body_def bind_io_def raise_def lift_Inr split: if_splits UploadStatus.splits)
  then show ?thesis using s1 s2 by (simp add: upload_lock_path_def)
qed

end
