(* ===== verification/UploadProps.thy ===== *)
theory UploadProps
  imports UploadRuns
begin

text \<open>
  Properties of the uploads: the manifest survives a crash, an upload refines a byte stream and
  completes when the disk works, a failed append loses nothing, the lock excludes, and the sweep
  spares the living.
\<close>

section \<open>The manifest\<close>

text \<open>
  C31: from a state in which no \<open>.tmp\<close> or \<open>.bak\<close> of an earlier stop is beside the manifest, replacing
  it is atomic: wherever \<open>write_manifest\<close> stops, by an error of any operation, a torn write or a
  crash, the next load finds the old manifest or the new one, and the new one after a success. It is
  relied on that no proper prefix of the new manifest's JSON is valid JSON. What a second stop does
  to the leftovers of a first one is \<open>second_stop_loses_manifest\<close>.
\<close>

theorem manifest_write_is_atomic:
  assumes "settled e d i old s" "um_upload_id new = i" "from_json e (to_json e new) = Some new"
    "\<And>k. k < length (to_json e new) \<Longrightarrow> from_json e (take k (to_json e new)) = None"
    "write_manifest e (up_manifest (upload_paths d i f)) new s = (r, s')"
  shows "\<exists>m s2. load_manifest_for_upload (e\<lparr>io_plan := (\<lambda>_. Fine)\<rparr>) d i s' = (Inr m, s2) \<and> m \<in> {old, new} \<and>
    (r = Inr () \<longrightarrow> m = new)"
proof -
  let ?e = "e\<lparr>io_plan := (\<lambda>_. Fine)\<rparr>" and ?mp = "(i @ ''.json'') # ''staged-documents'' # d"
  have i: "i \<noteq> []" "uuid_ok e i" "um_upload_id old = i" using assms(1) by (auto simp: settled_def)
  obtain u where u: "files s ?mp = Some u" "from_json e u = Some old" "files s ((i @ ''.json.tmp'') # ''staged-documents'' # d) = None"
    using assms(1) by (auto simp: settled_def)
  have w: "triple (\<lambda>s. files s ((i @ ''.json.tmp'') # ''staged-documents'' # d) = None \<and> files s ?mp = Some u) (write_manifest e ?mp new)
    (\<lambda>_ s. files s ?mp = Some (to_json e new) \<and> files s ((i @ ''.json.tmp'') # ''staged-documents'' # d) = None)
    (between ?mp u (to_json e new))"
    using write_manifest_between [OF upload_manifest_path [OF i(1)], of "''staged-documents'' # d" u e new]
    by (simp add: manifest_tmp_bak [OF i(1)])
  have b: "between ?mp u (to_json ?e new) s'" "r = Inr () \<Longrightarrow> files s' ?mp = Some (to_json ?e new)"
    using triple_cases [OF w conjI [OF u(3,1)], of r s'] assms(5)
    by (auto simp: between_def manifest_tmp_bak [OF i(1)])
  have "fine ?e" by (simp add: fine_def)
  from load_between [OF this i(1) _ i(3) assms(2), of u d s'] show ?thesis
    using assms(3,4) i u b by auto
qed

section \<open>The abstract upload\<close>

datatype upload_view = Receiving string nat | Staged string | Consumed | Gone

datatype upload_call = Append nat "nat option" string | Commit "string option" | Abort

text \<open>What an upload promises: bytes arrive in order, and the whole of them is staged.\<close>

definition spec_step :: "upload_call \<Rightarrow> upload_view \<Rightarrow> upload_view option" where
  "spec_step c v = (case c of
     Append off _ bs \<Rightarrow> (case v of
         Receiving got n \<Rightarrow> (if off = length got \<and> bs \<noteq> [] \<and> length got + length bs \<le> n then Some (Receiving (got @ bs) n) else None)
       | _ \<Rightarrow> None)
   | Commit _ \<Rightarrow> (case v of
         Receiving got n \<Rightarrow> (if length got = n then Some (Staged got) else None)
       | Staged got \<Rightarrow> Some (Staged got)
       | Consumed \<Rightarrow> Some Consumed
       | Gone \<Rightarrow> None)
   | Abort \<Rightarrow> (case v of Consumed \<Rightarrow> None | _ \<Rightarrow> Some Gone))"

definition view_of :: "path \<Rightarrow> string \<Rightarrow> UploadManifest \<Rightarrow> disk \<Rightarrow> upload_view" where
  "view_of d i m s = (case um_status m of
     Open \<Rightarrow> Receiving (contents (files s (''upload.part'' # i # ''staged-documents'' # d))) (um_size_bytes m)
   | Committed \<Rightarrow> Staged (contents (files s (um_sanitized_filename m # i # ''staged-documents'' # d)))
   | Ingested \<Rightarrow> Consumed
   | _ \<Rightarrow> Gone)"

definition view :: "uenv \<Rightarrow> path \<Rightarrow> string \<Rightarrow> disk \<Rightarrow> upload_view option" where
  "view e d i s = (case files s ((i @ ''.json'') # ''staged-documents'' # d) of
     None \<Rightarrow> None
   | Some raw \<Rightarrow> map_option (\<lambda>m. view_of d i m s) (from_json e raw))"

definition run_call :: "uenv \<Rightarrow> path \<Rightarrow> string \<Rightarrow> upload_call \<Rightarrow> (error, unit) op" where
  "run_call e d i c = (case c of
     Append off ul bs \<Rightarrow> bind_io (append_upload_chunk e d i off ul bs) (\<lambda>_. ret ())
   | Commit sha \<Rightarrow> bind_io (commit_upload e d i sha) (\<lambda>_. ret ())
   | Abort \<Rightarrow> bind_io (abort_upload e d i) (\<lambda>_. ret ()))"

lemma view_settled: "settled e d i m s \<Longrightarrow> view e d i s = Some (view_of d i m s)"
  by (auto simp: settled_def view_def)

lemma view_written:
  "\<lbrakk>files s ((i @ ''.json'') # ''staged-documents'' # d) = Some (to_json e m); from_json e (to_json e m) = Some m\<rbrakk> \<Longrightarrow>
   view e d i s = Some (view_of d i m s)"
  by (simp add: view_def)

lemma view_same:
  assumes "settled e d i m s" "\<And>p. p \<noteq> (i @ ''.lock'') # ''staged-documents'' # d \<Longrightarrow> files s' p = files s p"
  shows "view e d i s' = view e d i s"
  using assms(2) by (simp add: view_def view_of_def cong: UploadStatus.case_cong option.case_cong)

text \<open>The JSON of every manifest the calls on an upload write reads back as that manifest.\<close>

definition json_ok :: "uenv \<Rightarrow> UploadManifest \<Rightarrow> bool" where
  "json_ok e m =
     (\<forall>n. let m' = m\<lparr>um_bytes_received := n\<rparr> in
        from_json e (to_json e m') = Some m' \<and>
        (\<forall>h. let c = m'\<lparr>um_actual_sha256 := Some h, um_status := Committed\<rparr> in from_json e (to_json e c) = Some c) \<and>
        (\<forall>t. let a = m'\<lparr>um_status := Aborted, um_expires_at_ms := t, um_ingest_result := None\<rparr> in
             from_json e (to_json e a) = Some a))"

lemma received_id [simp]: "m\<lparr>um_bytes_received := um_bytes_received m\<rparr> = m"
  by (cases m) simp

lemma json_okD:
  assumes "json_ok e m"
  shows "from_json e (to_json e (m\<lparr>um_bytes_received := n\<rparr>)) = Some (m\<lparr>um_bytes_received := n\<rparr>)"
    "from_json e (to_json e (m\<lparr>um_actual_sha256 := Some h, um_status := Committed\<rparr>)) =
       Some (m\<lparr>um_actual_sha256 := Some h, um_status := Committed\<rparr>)"
    "from_json e (to_json e (m\<lparr>um_status := Aborted, um_expires_at_ms := t, um_ingest_result := None\<rparr>)) =
       Some (m\<lparr>um_status := Aborted, um_expires_at_ms := t, um_ingest_result := None\<rparr>)"
  using assms [unfolded json_ok_def, THEN spec, of n] assms [unfolded json_ok_def, THEN spec, of "um_bytes_received m"]
  by (simp_all add: Let_def)

lemma json_ok_received: "json_ok e m \<Longrightarrow> json_ok e (m\<lparr>um_bytes_received := n\<rparr>)"
  by (simp add: json_ok_def)

text \<open>
  C32: an upload refines a byte stream. Whatever fails inside it, a call that reports success has
  done to the abstract upload what the specification says: the chunk was appended at its offset
  within the announced size, the whole of the bytes was staged, or they are gone.
\<close>

theorem upload_refines_stream:
  assumes "settled e d i m s" "json_ok e m"
    "run_call e d i c s = (Inr (), s')"
  shows "\<exists>v'. view e d i s' = Some v' \<and> spec_step c (view_of d i m s) = Some v'"
proof (cases c)
  case (Append off ul bs)
  then obtain resp where r: "append_upload_chunk e d i off ul bs s = (Inr resp, s')"
    using assms(3) by (auto simp: run_call_def seq_simps)
  show ?thesis
    using append_success [OF assms(1) r] view_written [OF _ json_okD(1) [OF assms(2)]] Append
    by (auto simp: spec_step_def view_of_def contents_def)
next
  case (Commit sha)
  then obtain resp where r: "commit_upload e d i sha s = (Inr resp, s')"
    using assms(3) by (auto simp: run_call_def seq_simps)
  show ?thesis
  proof (cases "um_status m = Open")
    case True
    then show ?thesis
      using commit_success [OF assms(1) r True] view_written [OF _ json_okD(2) [OF assms(2)]] Commit
      by (auto simp: spec_step_def view_of_def contents_def)
  next
    case False
    then have "\<And>p. p \<noteq> (i @ ''.lock'') # ''staged-documents'' # d \<Longrightarrow> files s' p = files s p" "um_status m \<in> {Committed, Ingested}"
      using commit_replay [OF assms(1) r False] by auto
    then show ?thesis
      using view_same [OF assms(1)] view_settled [OF assms(1)] Commit False
      by (auto simp: spec_step_def view_of_def)
  qed
next
  case Abort
  then obtain resp where r: "abort_upload e d i s = (Inr resp, s')"
    using assms(3) by (auto simp: run_call_def seq_simps)
  then have l: "with_lock e (upload_lock_path d i) ''abort'' (abort_body e d i) s = (Inr resp, s')"
    by (auto simp: abort_upload_def seq_simps)
  obtain s1 s2 where s1: "\<And>p. p \<noteq> upload_lock_path d i \<Longrightarrow> files s1 p = files s p"
    and b: "abort_body e d i s1 = (Inr resp, s2)" and s2: "files s' = files s2"
    using with_lock_Inr [OF l] by blast
  have st: "settled e d i m s1" by (rule settled_locked [OF assms(1), where D = "''staged-documents'' # d"]) (simp add: s1 upload_lock_path_def)
  from abort_body_success [OF st b] show ?thesis
  proof (elim conjE disjE exE)
    assume a: "um_status m = Aborted" and f: "files s2 = files s1"
    have "view e d i s' = view e d i s"
      by (rule view_same [OF assms(1)]) (simp add: s2 f s1 upload_lock_path_def)
    then show ?thesis using view_settled [OF assms(1)] a Abort by (simp add: spec_step_def view_of_def)
  next
    fix t assume "um_status m \<noteq> Ingested"
      "files s2 ((i @ ''.json'') # ''staged-documents'' # d) =
       Some (to_json e (m\<lparr>um_status := Aborted, um_expires_at_ms := t, um_ingest_result := None\<rparr>))"
    then show ?thesis
      using view_written [OF _ json_okD(3) [OF assms(2)], of s' i d t] s2 Abort
      by (cases "um_status m") (auto simp: spec_step_def view_of_def)
  qed
qed

lemma touches_keep:
  assumes "touches T m" "p \<notin> T"
  shows "triple (\<lambda>s. R (files s p)) m (\<lambda>_ s. R (files s p)) (\<lambda>s. R (files s p))"
  using assms by (auto simp: triple_def touches_def split: prod.split sum.split)

lemma touches_keep_weak:
  assumes "touches T m" "p \<notin> T" "\<And>c. R c \<Longrightarrow> R' c"
  shows "triple (\<lambda>s. R (files s p)) m (\<lambda>_ s. R (files s p)) (\<lambda>s. R' (files s p))"
  by (rule triple_conseq [OF touches_keep [where R = R, OF assms(1,2)]]) (use assms(3) in auto)

lemma triple_if:
  "(b \<Longrightarrow> triple P m Q E) \<Longrightarrow> (\<not> b \<Longrightarrow> triple P m' Q E) \<Longrightarrow> triple P (if b then m else m') Q E"
  by simp

lemma touches_part_len [touches_intro]: "touches T (part_len e p)"
  unfolding part_len_def
  by (intro touches_bind touches_attempt touches_size) (auto intro: touches_intro split: sum.split io_error.split)

lemma files_same: "touches {} m \<Longrightarrow> m s = (r, s') \<Longrightarrow> files s' = files s"
  by (auto simp: touches_def)

lemma part_len_triple:
  "triple (\<lambda>s. R (files s p)) (part_len e p) (\<lambda>n s. R (files s p) \<and> n = length (contents (files s p))) (\<lambda>s. R (files s p))"
  unfolding triple_def
proof (intro allI impI)
  fix s :: disk assume s: "R (files s p)"
  obtain r s' where r: "part_len e p s = (r, s')" by fastforce
  have "files s' = files s" by (rule files_same [OF touches_part_len r])
  then show "case part_len e p s of (Inl _, s') \<Rightarrow> R (files s' p)
      | (Inr n, s') \<Rightarrow> R (files s' p) \<and> n = length (contents (files s' p))"
    using s r part_len_Inr [of e p s _ s'] by (cases r) auto
qed

text \<open>The bytes already received are a prefix of the part file, whatever an append does.\<close>

definition grown :: "string \<Rightarrow> string \<Rightarrow> string option \<Rightarrow> bool" where
  "grown old bs c = (\<exists>k. contents c = old @ take k bs)"

lemma grown_same: "contents c = old \<Longrightarrow> grown old bs c"
  unfolding grown_def by (rule exI [of _ 0]) simp

lemma append_body_keeps:
  fixes d :: path
  assumes "i \<noteq> []"
  defines "p \<equiv> ''upload.part'' # i # ''staged-documents'' # d"
  shows "triple (\<lambda>s. contents (files s p) = old) (append_body e d i off ul bs) (\<lambda>_ s. grown old bs (files s p)) (\<lambda>s. grown old bs (files s p))"
proof -
  let ?O = "\<lambda>s. contents (files s p) = old" and ?G = "\<lambda>s. grown old bs (files s p)"
  have OG: "?O s \<Longrightarrow> ?G s" for s by (rule grown_same)
  have ld: "triple ?O (load_manifest_for_upload e d i) (\<lambda>_. ?O) ?G"
    using grown_same by (intro touches_keep_weak [OF touches_load [where T = "{}"]]) auto
  have ck: "triple ?O (\<lambda>s. lift_r (check_append m (now_ms e s) off ul bs) s) (\<lambda>_. ?O) ?G" for m
    using grown_same by (intro touches_keep_weak [OF touches_pure(5) [where T = "{}"]]) auto
  have pl: "triple ?O (part_len e p) (\<lambda>n s. ?O s \<and> n = length old) ?G"
    using OG by (intro triple_conseq [OF part_len_triple [where R = "\<lambda>c. contents c = old"]]) auto
  have rq: "triple (\<lambda>s. ?O s \<and> n = length old) (lift_r (require (n = k) Conflict)) (\<lambda>_ s. ?O s \<and> k = length old) ?G" for n k
    using OG by (auto simp: triple_def lift_r_def require_def)
  have ap: "triple (\<lambda>s. ?O s \<and> k = length old) (st (append_file (io_plan e) p bs)) (\<lambda>_ s. ?G s \<and> k = length old) ?G" for k
    unfolding st_def grown_def
    by (rule triple_map_err, rule append_file_triple [where P = "\<lambda>s. ?O s \<and> k = length old"])
      (auto simp: contents_def intro: exI [of _ 0] exI [of _ "length bs"])
  have sy: "triple (\<lambda>s. ?G s \<and> k = length old) (st (sync_dir (io_plan e) p)) (\<lambda>_ s. ?G s \<and> k = length old) ?G" for k
    unfolding st_def by (rule triple_map_err, rule sync_dir_triple) auto
  have wr: "triple (\<lambda>s. ?G s \<and> k = length old) (attempt (write_manifest e ((i @ ''.json'') # ''staged-documents'' # d) m))
      (\<lambda>_ s. ?G s \<and> k = length old) ?G" for m k
  proof -
    have "manifest_files ((i @ ''.json'') # ''staged-documents'' # d) \<subseteq> - {p}"
      by (auto simp: manifest_files_def manifest_recovery_paths_def manifest_tmp_bak [OF assms(1)] p_def)
    from touches_keep_weak [OF touches_attempt [OF touches_write_manifest [OF this]], of p "\<lambda>c. grown old bs c \<and> k = length old" "grown old bs"]
    show ?thesis by simp
  qed
  have rb: "triple (\<lambda>s. ?G s \<and> k = length old) (bind_io (rollback_upload_part e p k) (\<lambda>_. raise er)) Q ?G"
    for k er and Q :: "UploadStatusResponse \<Rightarrow> disk \<Rightarrow> bool"
    unfolding rollback_upload_part_def
    by (rule triple_bind [where R = "\<lambda>_. ?G"], rule ignore_triple, rule set_len_triple)
      (auto simp: grown_def contents_def intro: exI [of _ 0] triple_raise)
  show ?thesis
    unfolding append_body_def Let_def upload_paths_sel p_def [symmetric]
    by (rule triple_bind [OF ld], rule triple_bind [OF ck], rule triple_bind [OF pl], rule triple_bind [OF rq],
        rule triple_bind [OF ap], rule triple_bind [OF sy], rule triple_bind [OF wr], split sum.split, intro conjI allI impI rb)
      (simp add: triple_def ret_def)
qed

text \<open>
  C33: a chunk that fails loses nothing that was received. Wherever an append stops, by an error,
  a torn write, a failed manifest or a crash, the part file holds every byte it held, followed by
  some prefix of the chunk.
\<close>

theorem append_keeps_received:
  assumes "i \<noteq> []" "append_upload_chunk e d i off ul bs s = (r, s')"
  shows "\<exists>k. contents (files s' (''upload.part'' # i # ''staged-documents'' # d)) =
    contents (files s (''upload.part'' # i # ''staged-documents'' # d)) @ take k bs"
proof -
  let ?p = "''upload.part'' # i # ''staged-documents'' # d" and ?lp = "upload_lock_path d i"
  let ?old = "contents (files s ?p)"
  let ?O = "\<lambda>s. contents (files s ?p) = ?old" and ?G = "\<lambda>s. grown ?old bs (files s ?p)"
  have OG: "?O t \<Longrightarrow> ?G t" for t by (rule grown_same)
  have aq: "triple ?O (acquire_upload_lock e ?lp ''append'') (\<lambda>_. ?O) ?G"
    using grown_same by (intro touches_keep_weak [OF acquire_touches]) (auto simp: upload_lock_path_def)
  have rel: "triple P m (\<lambda>_. ?G) ?G \<Longrightarrow> triple P (release_after ?lp m) (\<lambda>_. ?G) ?G" for P and m :: "(error, UploadStatusResponse) op"
    by (fastforce simp: triple_def release_after_def split: prod.splits sum.splits)
  have v: "triple ?O (lift_r (validate_upload_id e i)) (\<lambda>_. ?O) ?G" using OG by (intro triple_lift)
  have "triple ?O (append_upload_chunk e d i off ul bs) (\<lambda>_. ?G) ?G"
    unfolding append_upload_chunk_def with_lock_def
    by (rule triple_bind [OF v]; intro triple_if triple_raise OG triple_bind [OF aq] rel append_body_keeps [OF assms(1)])
  from triple_cases [OF this _ assms(2)] show ?thesis by (auto simp: grown_def)
qed

text \<open>
  An upload whose part file is longer or shorter than its manifest says, as a torn append
  leaves it, takes no further chunk: every append replies an error, whatever its offset and
  whatever the disk does, and changes neither the part file nor the manifest. Only an abort or
  the expiry ends it.
\<close>

theorem torn_append_is_stuck:
  assumes "settled e d i m s"
    "length (contents (files s (''upload.part'' # i # ''staged-documents'' # d))) \<noteq> um_bytes_received m"
    "append_upload_chunk e d i off ul bs s = (r, s')"
  shows "isl r \<and> settled e d i m s' \<and>
    files s' (''upload.part'' # i # ''staged-documents'' # d) = files s (''upload.part'' # i # ''staged-documents'' # d)"
proof -
  let ?p = "''upload.part'' # i # ''staged-documents'' # d" and ?lp = "upload_lock_path d i"
  let ?I = "\<lambda>t. settled e d i m t \<and> files t ?p = files s ?p"
  have fr: "triple ?I op (\<lambda>_. ?I) ?I" if "touches {?lp} op" for op :: "(error, 'x) op"
    unfolding triple_def
  proof (intro allI impI)
    fix t assume t: "?I t"
    obtain r t' where r: "op t = (r, t')" by fastforce
    have "?I t'" using t touchesD [OF that r] settled_locked [of e d i m t "''staged-documents'' # d" t']
      by (auto simp: upload_lock_path_def)
    then show "case op t of (Inl _, s') \<Rightarrow> ?I s' | (Inr x, s') \<Rightarrow> ?I s'" using r by (cases r) auto
  qed
  have ld: "triple ?I (load_manifest_for_upload e d i) (\<lambda>m' t. ?I t \<and> m' = m) ?I"
    unfolding triple_def
  proof (intro allI impI)
    fix t assume t: "?I t"
    obtain r t' where r: "load_manifest_for_upload e d i t = (r, t')" by fastforce
    have "files t' = files t" by (rule files_same [OF touches_load r])
    then show "case load_manifest_for_upload e d i t of (Inl _, s') \<Rightarrow> ?I s' | (Inr m', s') \<Rightarrow> ?I s' \<and> m' = m"
      using t r load_settled [of e d i m t _ t'] by (cases r) (auto simp: settled_def)
  qed
  have ck: "triple ?I (\<lambda>s. lift_r (check_append m' (now_ms e s) off ul bs) s) (\<lambda>_. ?I) ?I" for m'
    by (auto simp: triple_def lift_r_def split: sum.split)
  have pl: "triple ?I (part_len e ?p) (\<lambda>n t. ?I t \<and> n = length (contents (files s ?p))) ?I"
    unfolding triple_def
  proof (intro allI impI)
    fix t assume t: "?I t"
    obtain r t' where r: "part_len e ?p t = (r, t')" by fastforce
    have "files t' = files t" by (rule files_same [OF touches_part_len r])
    then show "case part_len e ?p t of (Inl _, s') \<Rightarrow> ?I s' | (Inr n, s') \<Rightarrow> ?I s' \<and> n = length (contents (files s ?p))"
      using t r part_len_Inr [of e ?p t _ t'] by (cases r) (auto simp: settled_def)
  qed
  have rq: "triple (\<lambda>t. ?I t \<and> n = length (contents (files s ?p)))
      (bind_io (lift_r (require (n = um_bytes_received m) Conflict)) f) (\<lambda>_ _. False) ?I"
    for n and f :: "unit \<Rightarrow> (error, UploadStatusResponse) op"
    using assms(2) by (auto simp: triple_def bind_io_def lift_r_def require_def)
  have body: "triple ?I (append_body e d i off ul bs) (\<lambda>_ _. False) ?I"
    unfolding append_body_def Let_def upload_paths_sel
    apply (rule triple_bind [OF ld])
    subgoal for m'
      by (cases "m' = m")
        (auto intro!: triple_bind [OF ck] triple_bind [OF pl] rq simp: triple_def [of "\<lambda>_. False"])
    done
  have rel: "triple ?I (release_after ?lp (append_body e d i off ul bs)) (\<lambda>_ _. False) ?I"
    using body by (fastforce simp: triple_def release_after_def settled_def split: prod.splits sum.splits)
  have "triple ?I (append_upload_chunk e d i off ul bs) (\<lambda>_ _. False) ?I"
    unfolding append_upload_chunk_def with_lock_def
    by (rule triple_bind [OF fr [OF touches_pure(3)]])
      (auto intro: triple_raise triple_bind [OF fr [OF acquire_touches]] rel)
  from triple_cases [OF this _ assms(3)] assms(1) show ?thesis by auto
qed

text \<open>
  While one operation holds the lock of an upload, an append, a commit or an abort of it
  fails, and neither the part file, the staged file nor the manifest changes; the holder keeps
  the lock.
\<close>

theorem lock_excludes:
  assumes "locks s (upload_lock_path d i) = Some opn" "run_call e d i c s = (r, s')"
  shows "isl r \<and> locks s' = locks s \<and> (\<forall>p. p \<noteq> upload_lock_path d i \<longrightarrow> files s' p = files s p)"
proof -
  let ?lp = "upload_lock_path d i"
  let ?I = "\<lambda>t. locks t = locks s \<and> (\<forall>p. p \<noteq> ?lp \<longrightarrow> files t p = files s p)"
  have mk: "triple ?I (st (create_dir_all (io_plan e) (tl ?lp))) (\<lambda>_. ?I) ?I"
    unfolding st_def by (rule triple_map_err, rule create_dir_triple [where P = ?I]) auto
  have opn: "triple ?I (st (append_file (io_plan e) ?lp [])) (\<lambda>_. ?I) ?I"
    unfolding st_def by (rule triple_map_err, rule append_file_triple [where P = ?I]) auto
  have tk: "triple ?I (take_lock e ?lp x) (\<lambda>got t. ?I t \<and> \<not> got) ?I" for x
    using assms(1) by (auto simp: triple_def take_lock_def)
  have "triple ?I (try_acquire_upload_lock e ?lp x) (\<lambda>got t. ?I t \<and> \<not> got) ?I" for x
    unfolding try_acquire_upload_lock_def
    by (rule triple_bind [OF mk], rule triple_bind [OF opn], rule triple_bind [OF tk])
      (auto simp: triple_def ret_def)
  then have aq: "triple ?I (acquire_upload_lock e ?lp x) (\<lambda>_ _. False) ?I" for x
    unfolding acquire_upload_lock_def by (rule triple_bind) (auto simp: triple_def ret_def raise_def)
  have wl: "triple ?I (with_lock e ?lp x body) (\<lambda>_ _. False) ?I" for x and body :: "(error, 'x) op"
    unfolding with_lock_def by (rule triple_bind [OF aq]) (simp add: triple_def)
  have v: "triple ?I (lift_r (validate_upload_id e i)) (\<lambda>_. ?I) ?I" by (rule triple_lift)
  have tail: "triple P m (\<lambda>_ _. False) ?I \<Longrightarrow> triple P (bind_io m f) (\<lambda>_ _. False) ?I"
    for P and m :: "(error, 'x) op" and f :: "'x \<Rightarrow> (error, unit) op"
    by (erule triple_bind) (simp add: triple_def)
  have ap: "triple ?I (append_upload_chunk e d i off ul bs) (\<lambda>_ _. False) ?I" for off ul bs
    unfolding append_upload_chunk_def by (rule triple_bind [OF v]) (auto intro: triple_raise wl)
  have cm: "triple ?I (commit_upload e d i sha) (\<lambda>_ _. False) ?I" for sha
    unfolding commit_upload_def by (rule triple_bind [OF v], rule wl)
  have ab: "triple ?I (abort_upload e d i) (\<lambda>_ _. False) ?I"
    unfolding abort_upload_def by (rule triple_bind [OF v], rule wl)
  have "triple ?I (run_call e d i c) (\<lambda>_ _. False) ?I"
    unfolding run_call_def using ap cm ab
    by (cases c) (auto intro: triple_bind [where R = "\<lambda>_ _. False"] simp: triple_def [of "\<lambda>_. False"])
  from triple_cases [OF this _ assms(2)] show ?thesis by auto
qed

section \<open>The sweep\<close>

lemma touches_remove_paths:
  assumes "j \<noteq> []"
  shows "touches (upload_file_set d j) (remove_upload_paths e (upload_paths d j f))"
  unfolding remove_upload_paths_def upload_paths_sel manifest_tmp_bak [OF assms]
  by (intro touches_bind touches_remove_if_exists touches_remove_dir) (auto simp: upload_file_set_def)

lemma touches_sweep_one:
  assumes "j \<noteq> []"
  shows "touches (upload_file_set d j) (sweep_one e d now j)"
proof -
  have t: "touches (upload_file_set d j) (\<lambda>s. (if \<not> upload_is_expired_at m (now_ms e s) then ret False
      else bind_io (remove_upload_paths e (upload_paths d j (um_sanitized_filename m))) (\<lambda>_. ret True)) s)" for m
    by (intro touches_state_if touches_bind touches_pure touches_remove_paths assms)
  have "touches (upload_file_set d j) (sweep_locked e d j)"
    unfolding sweep_locked_def
    by (intro touches_bind touches_attempt touches_load; split sum.split; auto intro: t touches_pure)
  then show ?thesis
    unfolding sweep_one_def Let_def upload_paths_sel
    by (intro touches_bind touches_attempt touches_load; split sum.split)
      (auto intro!: touches_intro simp: upload_file_set_def)
qed

lemma manifest_in_upload:
  "x \<in> {''.json.tmp'', ''.json'', ''.json.bak''} \<Longrightarrow> (i @ x) # ''staged-documents'' # d \<in> upload_file_set d i"
  by (auto simp: upload_file_set_def)

lemma upload_files_disjoint: "i \<noteq> j \<Longrightarrow> upload_file_set d i \<inter> upload_file_set d j = {}"
  by (auto simp: upload_file_set_def dest: arg_cong [where f = rev])

text \<open>
  The sweep removes nothing of an upload that has not expired, whatever else is in the
  staging directory and whatever fails: its part file, staged file, manifest and lock file stay
  as they are.
\<close>

theorem sweep_keeps_live_upload:
  assumes "settled e d i m s" "\<And>t. \<not> upload_is_expired_at m (time_ms e t)" "\<not> uuid_ok e []"
    "sweep_expired_uploads e d entries s = (r, s')"
  shows "\<forall>p \<in> upload_file_set d i. files s' p = files s p"
proof -
  let ?I = "\<lambda>t :: disk. \<forall>p \<in> upload_file_set d i. files t p = files s p"
  have live: "\<not> upload_is_expired_at m (now_ms e t)" for t using assms(2) by (simp add: now_ms_def)
  have st: "?I t \<Longrightarrow> settled e d i m t" for t
    by (rule settled_cong [OF assms(1)]) (use manifest_in_upload in blast)
  have one: "triple ?I (sweep_one e d (now_ms e t0) j) (\<lambda>_. ?I) ?I" for j t0
    unfolding triple_def
  proof (intro allI impI)
    fix t :: disk assume t: "?I t"
    obtain r1 t1 where r1: "sweep_one e d (now_ms e t0) j t = (r1, t1)" by fastforce
    have "?I t1"
    proof (cases "j = i")
      case True
      obtain r2 t2 where l: "load_manifest_for_upload e d i t = (r2, t2)" by fastforce
      then have f2: "files t2 = files t" by (rule files_same [OF touches_load])
      have "t1 = t2"
      proof (cases r2)
        case (Inl er)
        then show ?thesis using True r1 l by (simp add: sweep_one_def bind_io_def attempt_def ret_def)
      next
        case (Inr m')
        then have "m' = m" using load_settled [OF st [OF t]] l by simp
        then show ?thesis using True r1 l Inr live [of t0] by (simp add: sweep_one_def bind_io_def attempt_def ret_def)
      qed
      then show ?thesis using t f2 by simp
    next
      case False
      show ?thesis
      proof (cases "uuid_ok e j")
        case True
        then have "j \<noteq> []" using assms(3) by auto
        then show ?thesis
          using touchesD [OF touches_sweep_one r1, of _] upload_files_disjoint [OF False, of d] t by fastforce
      next
        case no: False
        then show ?thesis
          using r1 t by (auto simp: sweep_one_def bind_io_def attempt_def ret_def load_manifest_for_upload_def
              validate_upload_id_def require_def lift_r_def)
      qed
    qed
    then show "case sweep_one e d (now_ms e t0) j t of (Inl _, s') \<Rightarrow> ?I s' | (Inr x, s') \<Rightarrow> ?I s'"
      using r1 by (cases r1) auto
  qed
  have ent: "triple ?I (sweep_entries e d (now_ms e t0) seen n entries) (\<lambda>_. ?I) ?I" for t0 seen n
  proof (induction entries arbitrary: seen n)
    case (Cons x xs)
    show ?case
    proof (cases x)
      case (Inr name)
      then show ?thesis using Cons.IH one
        by (auto intro: triple_bind [where R = "\<lambda>_. ?I"] split: option.split)
    qed (auto intro: triple_raise)
  qed (auto intro: triple_ret)
  show ?thesis
    using assms(4) triple_cases [OF ent, of "tick s" "tick s" "[]" 0 r s']
    by (auto simp: sweep_expired_uploads_def split: if_splits)
qed

section \<open>An upload that completes\<close>

text \<open>The calls of a client: the chunks one after the other, each at the offset reached, then the commit.\<close>

fun send_chunks :: "uenv \<Rightarrow> path \<Rightarrow> string \<Rightarrow> nat \<Rightarrow> string list \<Rightarrow> (error, unit) op" where
  "send_chunks e d i off [] = ret ()"
| "send_chunks e d i off (bs # rest) =
     bind_io (append_upload_chunk e d i off None bs) (\<lambda>resp. send_chunks e d i (sr_next_offset resp) rest)"

definition run_upload :: "uenv \<Rightarrow> path \<Rightarrow> string \<Rightarrow> string list \<Rightarrow> (error, UploadCommitResponse) op" where
  "run_upload e d i chunks = bind_io (send_chunks e d i 0 chunks) (\<lambda>_. commit_upload e d i None)"

text \<open>An open upload that has received \<open>got\<close> and that nobody works on.\<close>

definition receiving :: "uenv \<Rightarrow> path \<Rightarrow> string \<Rightarrow> UploadManifest \<Rightarrow> string \<Rightarrow> disk \<Rightarrow> bool" where
  "receiving e d i m got s = (settled e d i m s \<and> um_status m = Open \<and> um_bytes_received m = length got \<and>
     contents (files s (''upload.part'' # i # ''staged-documents'' # d)) = got \<and> locks s (upload_lock_path d i) = None)"

lemma take_lock_fine [fine_simps]:
  "fine e \<Longrightarrow> locks s p = None \<Longrightarrow> take_lock e p opn s = (Inr True, tick (s\<lparr>locks := (locks s)(p := Some opn)\<rparr>))"
  by (simp add: fine_def take_lock_def)

lemma acquire_fine:
  assumes "fine e" "locks s lp = None"
  shows "\<exists>s1 c. acquire_upload_lock e lp opn s = (Inr (), s1) \<and> files s1 = (files s)(lp := Some c) \<and>
    locks s1 = (locks s)(lp := Some opn)"
  using assms
  by (simp add: acquire_upload_lock_def try_acquire_upload_lock_def write_owner_def sync_file_def fine_simps contents_def)
    (rule exI, rule refl)

lemma write_manifest_settled:
  assumes "fine e" "i \<noteq> []" "files s ((i @ ''.json.tmp'') # d) = None" "files s ((i @ ''.json.bak'') # d) = None"
  shows "\<exists>s'. write_manifest e ((i @ ''.json'') # d) m s = (Inr (), s') \<and> locks s' = locks s \<and>
    files s' = (files s)((i @ ''.json'') # d := Some (to_json e m))"
proof -
  have "(files s)((i @ ''.json.tmp'') # d := None) = files s" using assms(3) by (rule fun_upd_idem)
  moreover have "((files s)((i @ ''.json'') # d := Some (to_json e m)))((i @ ''.json.bak'') # d := None) =
      (files s)((i @ ''.json'') # d := Some (to_json e m))"
    using assms(4) by (intro fun_upd_idem) simp
  ultimately show ?thesis
    using write_manifest_fine [OF assms(1) upload_manifest_path [OF assms(2)], of d m s] assms(4)
    by (simp add: manifest_tmp_bak [OF assms(2)] cong: if_cong)
qed

lemma with_lock_fine:
  assumes "fine e" "locks s lp = None"
  shows "\<exists>s1 c. with_lock e lp opn body s = (case body s1 of (r, s2) \<Rightarrow> (r, unlock lp s2)) \<and>
    files s1 = (files s)(lp := Some c) \<and> locks s1 = (locks s)(lp := Some opn)"
  using acquire_fine [OF assms, of opn] by (auto simp: with_lock_def bind_io_def release_after_def)

lemma part_len_fine:
  assumes "fine e"
  shows "part_len e p s = (Inr (length (contents (files s p))), tick s)"
  using assms by (cases "files s p") (simp_all add: part_len_def file_size_def fine_simps contents_def)

lemma append_fine:
  assumes e: "fine e" and json: "json_ok e m"
    and live: "\<And>t. time_ms e t \<le> um_expires_at_ms m" and r: "receiving e d i m got s"
    and bs: "bs \<noteq> []" "length bs \<le> RECOMMENDED_CHUNK_BYTES" "length got + length bs \<le> um_size_bytes m"
      "um_size_bytes m \<le> MAX_UPLOAD_BYTES"
  shows "\<exists>resp s'. append_upload_chunk e d i (length got) None bs s = (Inr resp, s') \<and> sr_next_offset resp = length (got @ bs) \<and>
    receiving e d i (m\<lparr>um_bytes_received := length (got @ bs)\<rparr>) (got @ bs) s'"
proof -
  let ?p = "''upload.part'' # i # ''staged-documents'' # d" and ?lp = "upload_lock_path d i"
    and ?mp = "(i @ ''.json'') # ''staged-documents'' # d" and ?m = "m\<lparr>um_bytes_received := length (got @ bs)\<rparr>"
  have s: "settled e d i m s" "um_status m = Open" "um_bytes_received m = length got" "contents (files s ?p) = got" "locks s ?lp = None"
    using r by (auto simp: receiving_def)
  have ne: "i \<noteq> []" "uuid_ok e i" "um_upload_id m = i" using s(1) by (auto simp: settled_def)
  obtain s1 c where wl: "with_lock e ?lp ''append'' (append_body e d i (length got) None bs) s =
      (case append_body e d i (length got) None bs s1 of (r, s2) \<Rightarrow> (r, unlock ?lp s2))"
    and s1: "files s1 = (files s)(?lp := Some c)"
    using with_lock_fine [OF e s(5)] by blast
  have st1: "settled e d i m s1" by (rule settled_locked [OF s(1), where D = "''staged-documents'' # d"]) (simp add: s1 upload_lock_path_def)
  obtain s2 where ld: "load_manifest_for_upload e d i s1 = (Inr m, s2)" and s2: "files s2 = files s1"
    using load_fine [OF e st1] by blast
  have ck: "check_append m (now_ms e s2) (length got) None bs = Inr (length (got @ bs))"
    using s(2,3) bs live by (simp add: check_append_Inr now_ms_def u64_max_def MAX_UPLOAD_BYTES_def)
  have p2: "contents (files s2 ?p) = got" using s(4) s2 s1 by (simp add: upload_lock_path_def)
  obtain s3 where w: "write_manifest e ?mp ?m (tick (tick (set_file ?p (Some (got @ bs)) (tick s2)))) = (Inr (), s3)"
    and s3: "files s3 = (files (set_file ?p (Some (got @ bs)) s2))(?mp := Some (to_json e ?m))"
    using write_manifest_settled [OF e ne(1), of "tick (tick (set_file ?p (Some (got @ bs)) (tick s2)))" "''staged-documents'' # d" ?m]
      st1 s2
    by (auto simp: settled_def)
  have body: "append_body e d i (length got) None bs s1 = (Inr (status_from_manifest ?m (now_ms e s3)), s3)"
    using e ld ck w p2 s(3) by (simp add: append_body_def fine_simps part_len_fine require_def Let_def)
  let ?s = "unlock ?lp s3"
  have "append_upload_chunk e d i (length got) None bs s = (Inr (status_from_manifest ?m (now_ms e s3)), ?s)"
    using bs ne wl body by (simp add: append_upload_chunk_def fine_simps validate_upload_id_def require_def)
  moreover have "settled e d i ?m ?s"
    using st1 s3 json_okD(1) [OF json] s2 ne by (simp add: settled_def)
  ultimately show ?thesis
    using s3 s by (auto simp: receiving_def status_from_manifest_def Let_def contents_def)
qed

lemma send_chunks_fine:
  assumes e: "fine e" and "json_ok e m" "um_size_bytes m \<le> MAX_UPLOAD_BYTES" "\<And>t. time_ms e t \<le> um_expires_at_ms m" "receiving e d i m got s"
    "\<forall>bs \<in> set chunks. bs \<noteq> [] \<and> length bs \<le> RECOMMENDED_CHUNK_BYTES" "length got + length (concat chunks) \<le> um_size_bytes m"
  shows "\<exists>s'. send_chunks e d i (length got) chunks s = (Inr (), s') \<and>
    receiving e d i (m\<lparr>um_bytes_received := length (got @ concat chunks)\<rparr>) (got @ concat chunks) s'"
  using assms(2-)
proof (induction chunks arbitrary: m got s)
  case Nil
  then have "m\<lparr>um_bytes_received := length got\<rparr> = m" by (metis receiving_def received_id)
  then show ?case using Nil by (simp add: ret_def)
next
  case (Cons bs rest)
  have "length got + length bs \<le> um_size_bytes m" "bs \<noteq> []" "length bs \<le> RECOMMENDED_CHUNK_BYTES" using Cons.prems by auto
  from append_fine [OF e Cons.prems(1,3,4) this(2,3,1) Cons.prems(2)]
  obtain resp s1 where a: "append_upload_chunk e d i (length got) None bs s = (Inr resp, s1)"
    "sr_next_offset resp = length (got @ bs)" "receiving e d i (m\<lparr>um_bytes_received := length (got @ bs)\<rparr>) (got @ bs) s1"
    by blast
  have "\<exists>s'. send_chunks e d i (length (got @ bs)) rest s1 = (Inr (), s') \<and>
      receiving e d i (m\<lparr>um_bytes_received := length (got @ bs), um_bytes_received := length ((got @ bs) @ concat rest)\<rparr>)
        ((got @ bs) @ concat rest) s'"
    by (rule Cons.IH) (use Cons.prems a(3) in \<open>auto intro: json_ok_received\<close>)
  then show ?case using a by (auto simp: bind_io_def)
qed

lemma commit_fine:
  assumes e: "fine e"
    and live: "\<And>t. time_ms e t \<le> um_expires_at_ms m" and r: "receiving e d i m got s"
    and m: "length got = um_size_bytes m" "got \<noteq> []" "um_expected_sha256 m \<in> {None, Some (sha256_of e got)}"
      "um_sanitized_filename m \<noteq> ''upload.part''"
  shows "\<exists>resp s'. commit_upload e d i None s = (Inr resp, s') \<and> cr_sha256 resp = sha256_of e got \<and>
     cr_size_bytes resp = length got \<and> cr_staged_uri resp = staged_uri i \<and>
     files s' (um_sanitized_filename m # i # ''staged-documents'' # d) = Some got"
proof -
  let ?p = "''upload.part'' # i # ''staged-documents'' # d" and ?lp = "upload_lock_path d i"
    and ?f = "um_sanitized_filename m # i # ''staged-documents'' # d"
    and ?mp = "(i @ ''.json'') # ''staged-documents'' # d" and ?m = "m\<lparr>um_actual_sha256 := Some (sha256_of e got), um_status := Committed\<rparr>"
  have s: "settled e d i m s" "um_status m = Open" "um_bytes_received m = length got" "files s ?p = Some got" "locks s ?lp = None"
    using r m(2) by (auto simp: receiving_def contents_def split: option.splits)
  have ne: "i \<noteq> []" "uuid_ok e i" "um_upload_id m = i" using s(1) by (auto simp: settled_def)
  obtain s1 c where wl: "with_lock e ?lp ''commit'' (commit_body e d i None) s =
      (case commit_body e d i None s1 of (r, s2) \<Rightarrow> (r, unlock ?lp s2))"
    and s1: "files s1 = (files s)(?lp := Some c)"
    using with_lock_fine [OF e s(5)] by blast
  have st1: "settled e d i m s1" by (rule settled_locked [OF s(1), where D = "''staged-documents'' # d"]) (simp add: s1 upload_lock_path_def)
  obtain s2 where ld: "load_manifest_for_upload e d i s1 = (Inr m, s2)" and s2: "files s2 = files s1"
    using load_fine [OF e st1] by blast
  have ck: "check_commit m (now_ms e s2) = Inr ()" "\<not> upload_is_expired_at m (now_ms e s2)"
    using s(2,3) m(1) live by (auto simp: check_commit_Inr now_ms_def upload_is_expired_at_def not_less)
  have p2: "files s2 ?p = Some got" using s(4) s2 s1 by (simp add: upload_lock_path_def)
  obtain s4 where cd: "(\<lambda>s. (if is_file ?f s then remove_if_exists e ?f else ret ()) s)
      (tick ((tick (tick s2))\<lparr>dirs := with_parents (i # ''staged-documents'' # d) \<union> dirs s2\<rparr>)) = (Inr (), s4)"
    and s4: "files s4 ?p = Some got" "\<And>q. q \<noteq> ?f \<Longrightarrow> files s4 q = files s2 q"
    using e p2 m(4) by (cases "files s2 ?f") (simp_all add: fine_simps)
  obtain s5 where w: "write_manifest e ?mp ?m (tick (set_file ?f (Some got) (set_file ?p None s4))) = (Inr (), s5)"
    using write_manifest_fine [OF e upload_manifest_path [OF ne(1)]] by blast
  have "files s5 ?f = files (tick (set_file ?f (Some got) (set_file ?p None s4))) ?f"
    by (rule write_manifest_frame [OF ne(1) w]) auto
  then have f5: "files s5 ?f = Some got" by simp
  have sha: "um_expected_sha256 m = None \<or> um_expected_sha256 m = Some (sha256_of e got)" using m(3) by auto
  have op: "commit_open e d i None m s2 = (commit_response_from_manifest ?m, s5)"
    unfolding commit_open_def Let_def upload_paths_sel
    using e ck p2 cd s4(1) w m(1) sha
    by (simp add: fine_simps file_size_def require_def normalize_sha256_def)
  then have "commit_body e d i None s1 = (commit_response_from_manifest ?m, s5)"
    using ld ck s(2) by (simp add: commit_body_def bind_io_def)
  then have "commit_upload e d i None s = (commit_response_from_manifest ?m, unlock ?lp s5)"
    using ne wl by (simp add: commit_upload_def fine_simps validate_upload_id_def require_def)
  then show ?thesis using f5 ne m(1) by (simp add: commit_response_from_manifest_def)
qed

text \<open>
  C34: an upload that is prepared and has received nothing completes when the disk works, no operation
  comes after its expiry, each chunk is neither empty nor over the recommended size, the chunks add up to
  the announced size, which is positive and within the limit, the announced digest is absent or
  theirs, and the file is not named like the part file (\<open>upload.part\<close>, for which the commit loses
  the bytes): every append and the commit succeed, and the staged file is the concatenation of the chunks.
\<close>

theorem upload_completes:
  assumes "fine e" "json_ok e m" "receiving e d i m [] s"
    "\<And>t. time_ms e t \<le> um_expires_at_ms m" "um_size_bytes m \<le> MAX_UPLOAD_BYTES"
    "\<forall>bs \<in> set chunks. bs \<noteq> [] \<and> length bs \<le> RECOMMENDED_CHUNK_BYTES"
    "length (concat chunks) = um_size_bytes m" "0 < um_size_bytes m"
    "um_expected_sha256 m \<in> {None, Some (sha256_of e (concat chunks))}" "um_sanitized_filename m \<noteq> ''upload.part''"
  shows "\<exists>resp s'. run_upload e d i chunks s = (Inr resp, s') \<and> cr_staged_uri resp = staged_uri i \<and>
    cr_size_bytes resp = length (concat chunks) \<and> cr_sha256 resp = sha256_of e (concat chunks) \<and>
    files s' (um_sanitized_filename m # i # ''staged-documents'' # d) = Some (concat chunks)"
proof -
  obtain s1 where c: "send_chunks e d i 0 chunks s = (Inr (), s1)"
    "receiving e d i (m\<lparr>um_bytes_received := length (concat chunks)\<rparr>) (concat chunks) s1"
    using send_chunks_fine [OF assms(1,2,5,4,3,6)] assms(7) by auto
  have ne: "concat chunks \<noteq> []" using assms(7,8) by force
  show ?thesis
    using commit_fine [OF assms(1) _ c(2)] assms(4,7,9,10) ne c(1) by (auto simp: run_upload_def bind_io_def)
qed

section \<open>Examples\<close>

text \<open>An upload of three bytes and an environment whose JSON is a small injective encoding.\<close>

definition ex_manifest :: UploadManifest where
  "ex_manifest = \<lparr>um_upload_id = ''u'', um_filename = ''a.txt'', um_sanitized_filename = ''a.txt'', um_mime_type = ''t'',
     um_size_bytes = 3, um_expected_sha256 = None, um_actual_sha256 = None, um_bytes_received = 0, um_status = Open,
     um_created_at_ms = 0, um_expires_at_ms = 100, um_ingest_result = None\<rparr>"

definition ex_json :: "UploadManifest \<Rightarrow> string" where
  "ex_json m = replicate (um_bytes_received m) (CHR ''x'') @
     (case um_status m of
        Committed \<Rightarrow> ''C'' @ (case um_actual_sha256 m of None \<Rightarrow> [] | Some h \<Rightarrow> h)
      | Aborted \<Rightarrow> (if um_expires_at_ms m < 0 then ''-'' else ''+'') @ replicate (nat \<bar>um_expires_at_ms m\<bar>) (CHR ''x'')
      | _ \<Rightarrow> ''}'')"

definition ex_parse :: "string \<Rightarrow> UploadManifest option" where
  "ex_parse s =
     (let m = ex_manifest\<lparr>um_bytes_received := length (takeWhile (\<lambda>c. c = CHR ''x'') s)\<rparr> in
      case dropWhile (\<lambda>c. c = CHR ''x'') s of
        [] \<Rightarrow> None
      | c # r \<Rightarrow>
          if c = CHR ''}'' then Some m
          else if c = CHR ''C'' then Some (m\<lparr>um_actual_sha256 := Some r, um_status := Committed\<rparr>)
          else Some (m\<lparr>um_status := Aborted, um_ingest_result := None,
                       um_expires_at_ms := (if c = CHR ''-'' then - int (length r) else int (length r))\<rparr>))"

definition ex_env :: "plan \<Rightarrow> uenv" where
  "ex_env o' = \<lparr>io_plan = o', time_ms = (\<lambda>_. 7), uuid_ok = (\<lambda>i. i \<noteq> []), new_uuid = ''u'', to_json = ex_json,
     from_json = ex_parse, sha256_of = (\<lambda>s. ''h'' @ s), owner_json = (\<lambda>op. op)\<rparr>"

definition ex_disk :: "string option \<Rightarrow> disk" where
  "ex_disk part = \<lparr>files = (\<lambda>_. None)([''u.json'', ''staged-documents''] := Some (''}''),
       [''upload.part'', ''u'', ''staged-documents''] := part),
     dirs = {[''staged-documents'']}, locks = (\<lambda>_. None), clock = 0\<rparr>"

lemma ex_json_ok: "json_ok (ex_env o') ex_manifest"
proof -
  have tw: "c \<noteq> CHR ''x'' \<Longrightarrow> takeWhile (\<lambda>c. c = CHR ''x'') (replicate n (CHR ''x'') @ c # r) = replicate n (CHR ''x'')"
    "c \<noteq> CHR ''x'' \<Longrightarrow> dropWhile (\<lambda>c. c = CHR ''x'') (replicate n (CHR ''x'') @ c # r) = c # r" for n c r
    by (induction n) simp_all
  show ?thesis
    by (auto simp: json_ok_def Let_def ex_env_def ex_json_def ex_parse_def ex_manifest_def tw cong: if_cong)
qed

lemma ex_settled: "settled (ex_env o') [] ''u'' ex_manifest (ex_disk part)"
  by (simp add: settled_def ex_env_def ex_disk_def ex_manifest_def ex_parse_def)

lemma ex_receiving: "receiving (ex_env o') [] ''u'' ex_manifest [] (ex_disk None)"
  unfolding receiving_def by (intro conjI ex_settled) (simp_all add: ex_disk_def ex_manifest_def contents_def)

theorem upload_completes_witness:
  "\<exists>resp s'. run_upload (ex_env (\<lambda>_. Fine)) [] ''u'' [''ab'', ''c''] (ex_disk None) = (Inr resp, s') \<and>
    cr_sha256 resp = ''habc'' \<and> files s' [''a.txt'', ''u'', ''staged-documents''] = Some ''abc''"
proof -
  have "\<exists>resp s'. run_upload (ex_env (\<lambda>_. Fine)) [] ''u'' [''ab'', ''c''] (ex_disk None) = (Inr resp, s') \<and>
      cr_staged_uri resp = staged_uri ''u'' \<and> cr_size_bytes resp = length (concat [''ab'', ''c'']) \<and>
      cr_sha256 resp = sha256_of (ex_env (\<lambda>_. Fine)) (concat [''ab'', ''c'']) \<and>
      files s' (um_sanitized_filename ex_manifest # ''u'' # ''staged-documents'' # []) = Some (concat [''ab'', ''c''])"
    by (rule upload_completes [OF _ ex_json_ok ex_receiving])
      (simp_all add: fine_def ex_env_def ex_manifest_def MAX_UPLOAD_BYTES_def RECOMMENDED_CHUNK_BYTES_def)
  then show ?thesis by (simp add: ex_manifest_def ex_env_def) blast
qed

text \<open>A write that breaks after two of the three bytes, and the state it leaves.\<close>

definition torn_state :: disk where
  "torn_state = snd (append_upload_chunk (ex_env (\<lambda>t. if t = 9 then Broke 2 else Fine)) [] ''u'' 0 None ''abc'' (ex_disk None))"

lemma torn_parts:
  "files torn_state [''upload.part'', ''u'', ''staged-documents''] = Some ''ab''"
  "files torn_state [''u.json'', ''staged-documents''] = Some ''}''"
  "files torn_state [''u.json.tmp'', ''staged-documents''] = None"
  "files torn_state [''u.json.bak'', ''staged-documents''] = None"
  by code_simp+

lemma torn_settled: "settled (ex_env o') [] ''u'' ex_manifest torn_state"
  using torn_parts by (simp add: settled_def ex_env_def ex_manifest_def ex_parse_def)

theorem torn_append_is_stuck_witness:
  "isl (fst (append_upload_chunk (ex_env (\<lambda>_. Fine)) [] ''u'' 0 None ''abc'' torn_state)) \<and>
   files (snd (append_upload_chunk (ex_env (\<lambda>_. Fine)) [] ''u'' 0 None ''abc'' torn_state))
     [''upload.part'', ''u'', ''staged-documents''] = Some ''ab''"
proof -
  have ne: "length (contents (files torn_state [''upload.part'', ''u'', ''staged-documents''])) \<noteq> um_bytes_received ex_manifest"
    using torn_parts by (simp add: contents_def ex_manifest_def)
  show ?thesis
    using torn_append_is_stuck [OF torn_settled ne surjective_pairing] torn_parts(1) by simp
qed

theorem append_keeps_received_witness:
  "\<exists>k. contents (files torn_state [''upload.part'', ''u'', ''staged-documents'']) = [] @ take k ''abc''"
  using append_keeps_received [of "''u''" "ex_env (\<lambda>t. if t = 9 then Broke 2 else Fine)" "[]" 0 None "''abc''"
      "ex_disk None" _ torn_state]
  by (auto simp: torn_state_def ex_disk_def contents_def prod_eq_iff)

theorem lock_excludes_witness:
  "isl (fst (run_call (ex_env (\<lambda>_. Fine)) [] ''u'' Abort ((ex_disk None)\<lparr>locks := [[''u.lock'', ''staged-documents''] \<mapsto> ''append'']\<rparr>)))"
  using lock_excludes [of "(ex_disk None)\<lparr>locks := [[''u.lock'', ''staged-documents''] \<mapsto> ''append'']\<rparr>" "[]" "''u''" "''append''",
      OF _ surjective_pairing [of "run_call (ex_env (\<lambda>_. Fine)) [] ''u'' Abort _"]]
  by (simp add: upload_lock_path_def)

theorem sweep_keeps_live_upload_witness:
  "files (snd (sweep_expired_uploads (ex_env (\<lambda>_. Fine)) [] [Inr ''u.json'', Inr ''v.json''] (ex_disk (Some ''ab''))))
     [''upload.part'', ''u'', ''staged-documents''] = Some ''ab''"
proof -
  have "\<forall>p \<in> upload_file_set [] ''u''.
      files (snd (sweep_expired_uploads (ex_env (\<lambda>_. Fine)) [] [Inr ''u.json'', Inr ''v.json''] (ex_disk (Some ''ab'')))) p =
      files (ex_disk (Some ''ab'')) p"
    by (rule sweep_keeps_live_upload [OF ex_settled _ _ surjective_pairing])
      (simp_all add: upload_is_expired_at_def ex_env_def ex_manifest_def)
  moreover have "[''upload.part'', ''u'', ''staged-documents''] \<in> upload_file_set [] ''u''" by (simp add: upload_file_set_def)
  ultimately show ?thesis by (simp add: ex_disk_def)
qed

theorem upload_refines_stream_witness:
  "\<exists>s'. run_call (ex_env (\<lambda>_. Fine)) [] ''u'' (Append 0 None ''ab'') (ex_disk None) = (Inr (), s') \<and>
    view (ex_env (\<lambda>_. Fine)) [] ''u'' s' = Some (Receiving ''ab'' 3)"
proof -
  let ?r = "run_call (ex_env (\<lambda>_. Fine)) [] ''u'' (Append 0 None ''ab'') (ex_disk None)"
  have "\<not> isl (fst (append_upload_chunk (ex_env (\<lambda>_. Fine)) [] ''u'' 0 None ''ab'' (ex_disk None)))" by code_simp
  then have "fst ?r = Inr ()" by (auto simp: run_call_def bind_io_def ret_def split: prod.split sum.split)
  then have r: "?r = (Inr (), snd ?r)" by (simp add: prod_eq_iff)
  obtain v where "view (ex_env (\<lambda>_. Fine)) [] ''u'' (snd ?r) = Some v"
    "spec_step (Append 0 None ''ab'') (view_of [] ''u'' ex_manifest (ex_disk None)) = Some v"
    using upload_refines_stream [OF ex_settled ex_json_ok r] by blast
  then show ?thesis using r by (auto simp: spec_step_def view_of_def ex_manifest_def ex_disk_def contents_def)
qed

text \<open>
  Two stops in a row go back behind what was loaded in between: after the first one the complete \<open>.tmp\<close>
  is what is loaded, the second write removes it before it writes its own, and when that one stops
  there, the manifest of before the first write is loaded again.
\<close>

lemma second_stop_loses_manifest:
  "let old = ex_manifest; newer = ex_manifest\<lparr>um_bytes_received := 2\<rparr>; newest = ex_manifest\<lparr>um_bytes_received := 3\<rparr>;
       p = [''u.json'', ''staged-documents''];
       s1 = snd (write_manifest (ex_env (\<lambda>t. if t < 3 then Fine else Refused)) p newer (ex_disk None));
       s2 = snd (write_manifest (ex_env (\<lambda>t. if t < 2 then Fine else Refused)) p newest (s1\<lparr>clock := 0\<rparr>))
   in fst (load_manifest_for_upload (ex_env (\<lambda>_. Fine)) [] ''u'' s1) = Inr newer \<and>
      fst (load_manifest_for_upload (ex_env (\<lambda>_. Fine)) [] ''u'' s2) = Inr old"
  by code_simp

theorem manifest_write_is_atomic_witness:
  "\<exists>m s2. load_manifest_for_upload (ex_env (\<lambda>_. Fine)) [] ''u''
     (snd (write_manifest (ex_env (\<lambda>t. if t < 5 then Fine else Refused)) [''u.json'', ''staged-documents'']
       (ex_manifest\<lparr>um_bytes_received := 2\<rparr>) (ex_disk None))) = (Inr m, s2) \<and>
     m \<in> {ex_manifest, ex_manifest\<lparr>um_bytes_received := 2\<rparr>}"
proof -
  let ?e = "ex_env (\<lambda>t. if t < 5 then Fine else Refused)" and ?m = "ex_manifest\<lparr>um_bytes_received := 2\<rparr>"
  have j: "to_json ?e ?m = ''xx}''" by (simp add: ex_env_def ex_json_def ex_manifest_def numeral_eq_Suc)
  have "k < 3 \<Longrightarrow> from_json ?e (take k ''xx}'') = None" for k :: nat
    by (auto simp: less_Suc_eq numeral_eq_Suc ex_env_def ex_parse_def Let_def)
  then have "\<exists>m s2. load_manifest_for_upload (?e\<lparr>io_plan := (\<lambda>_. Fine)\<rparr>) [] ''u''
      (snd (write_manifest ?e (up_manifest (upload_paths [] ''u'' ''f'')) ?m (ex_disk None))) = (Inr m, s2) \<and>
      m \<in> {ex_manifest, ?m} \<and>
      (fst (write_manifest ?e (up_manifest (upload_paths [] ''u'' ''f'')) ?m (ex_disk None)) = Inr () \<longrightarrow> m = ?m)"
    using j json_okD(1) [OF ex_json_ok, of "\<lambda>t. if t < 5 then Fine else Refused" 2]
    by (intro manifest_write_is_atomic [OF ex_settled _ _ _ surjective_pairing]) (simp_all add: ex_manifest_def)
  then show ?thesis by (auto simp: ex_env_def)
qed

end
