(* ===== verification/Float32.thy ===== *)
theory Float32
  imports CoreTypes
begin

text \<open>
  The \<open>f32\<close> arithmetic the ranking code uses, on the bit patterns: a finite number is a sign and
  a magnitude \<open>m * 2 ^ e\<close>, an operation computes the exact result (a quotient with a sticky bit)
  and rounds it to the nearest, ties to even. A NaN result is the canonical quiet one.
\<close>

section \<open>Values\<close>

datatype fp = FNaN | FInf bool | FFin bool nat int

definition f32_nan :: f32 where "f32_nan = 0x7FC00000"

definition f32_inf :: "bool \<Rightarrow> f32" where "f32_inf s = (if s then 0xFF800000 else 0x7F800000)"

text \<open>The sign, the biased exponent and the fraction.\<close>

definition parts_of :: "bool \<Rightarrow> nat \<Rightarrow> nat \<Rightarrow> fp" where
  "parts_of s e m =
     (if e = 255 then (if m = 0 then FInf s else FNaN)
      else if e = 0 then FFin s m (- 149)
      else FFin s (m + 2 ^ 23) (int e - 150))"

definition f32_parts :: "f32 \<Rightarrow> fp" where
  "f32_parts w = parts_of (2 ^ 31 \<le> unat w) (unat w div 2 ^ 23 mod 256) (unat w mod 2 ^ 23)"

text \<open>The number of binary digits.\<close>

function digits_from :: "nat \<Rightarrow> nat \<Rightarrow> nat" where
  "digits_from p m = (if p = 0 \<or> m < p then 0 else Suc (digits_from (2 * p) m))"
  by pat_completeness auto
termination
  by (relation "measure (\<lambda>(p, m). Suc m - p)") auto

declare digits_from.simps [simp del]

definition bit_length :: "nat \<Rightarrow> nat" where
  "bit_length m = digits_from 1 m"

text \<open>
  The magnitude \<open>m * 2 ^ e\<close> in units of the last place \<open>2 ^ t\<close>. The pattern of a number is
  \<open>(t + 149) * 2 ^ 23 + u\<close> both for a normal \<open>u\<close> and, at \<open>t = -149\<close>, for a subnormal one; a carry
  out of \<open>u\<close> moves into the exponent by itself.
\<close>

definition half_even :: "nat \<Rightarrow> nat \<Rightarrow> nat \<Rightarrow> nat" where
  "half_even u r d = (if 2 * r < d then u else if d < 2 * r then u + 1 else if even u then u else u + 1)"

definition scale_to :: "nat \<Rightarrow> int \<Rightarrow> int \<Rightarrow> nat" where
  "scale_to m e t =
     (if e \<le> t then half_even (m div 2 ^ nat (t - e)) (m mod 2 ^ nat (t - e)) (2 ^ nat (t - e)) else m * 2 ^ nat (e - t))"

definition pack_bits :: "bool \<Rightarrow> nat \<Rightarrow> f32" where
  "pack_bits s bits = (if bits \<ge> 255 * 2 ^ 23 then f32_inf s else of_nat (bits + (if s then 2 ^ 31 else 0)))"

definition pack_at :: "bool \<Rightarrow> nat \<Rightarrow> int \<Rightarrow> int \<Rightarrow> f32" where
  "pack_at s m e t = pack_bits s (nat (t + 149) * 2 ^ 23 + scale_to m e t)"

definition f32_round :: "bool \<Rightarrow> nat \<Rightarrow> int \<Rightarrow> f32" where
  "f32_round s m e = pack_at s m e (if m = 0 then - 149 else max (e + int (bit_length m) - 24) (- 149))"

definition signed :: "bool \<Rightarrow> nat \<Rightarrow> int" where
  "signed s m = (if s then - int m else int m)"

section \<open>Operations\<close>

text \<open>The signed number \<open>x * 2 ^ g\<close>; an exact zero is negative only when both terms were.\<close>

definition round_sum :: "bool \<Rightarrow> int \<Rightarrow> int \<Rightarrow> f32" where
  "round_sum neg x g = (if x = 0 then f32_round neg 0 0 else f32_round (x < 0) (nat \<bar>x\<bar>) g)"

fun fp_add :: "fp \<Rightarrow> fp \<Rightarrow> f32" where
  "fp_add FNaN y = f32_nan"
| "fp_add (FInf s) FNaN = f32_nan"
| "fp_add (FInf s) (FInf t) = (if s = t then f32_inf s else f32_nan)"
| "fp_add (FInf s) (FFin t n f) = f32_inf s"
| "fp_add (FFin s m e) FNaN = f32_nan"
| "fp_add (FFin s m e) (FInf t) = f32_inf t"
| "fp_add (FFin s m e) (FFin t n f) =
     (if m = 0 \<and> n \<noteq> 0 then f32_round t n f
      else if n = 0 \<and> m \<noteq> 0 then f32_round s m e
      else round_sum (s \<and> t) (signed s m * 2 ^ nat (e - min e f) + signed t n * 2 ^ nat (f - min e f)) (min e f))"

definition f32_add :: "f32 \<Rightarrow> f32 \<Rightarrow> f32" where
  "f32_add a b = fp_add (f32_parts a) (f32_parts b)"

fun fp_mul :: "fp \<Rightarrow> fp \<Rightarrow> f32" where
  "fp_mul FNaN y = f32_nan"
| "fp_mul (FInf s) FNaN = f32_nan"
| "fp_mul (FInf s) (FInf t) = f32_inf (s \<noteq> t)"
| "fp_mul (FInf s) (FFin t n f) = (if n = 0 then f32_nan else f32_inf (s \<noteq> t))"
| "fp_mul (FFin s m e) FNaN = f32_nan"
| "fp_mul (FFin s m e) (FInf t) = (if m = 0 then f32_nan else f32_inf (s \<noteq> t))"
| "fp_mul (FFin s m e) (FFin t n f) = f32_round (s \<noteq> t) (m * n) (e + f)"

definition f32_mul :: "f32 \<Rightarrow> f32 \<Rightarrow> f32" where
  "f32_mul a b = fp_mul (f32_parts a) (f32_parts b)"

text \<open>The quotient of two naturals to 64 binary places, with a sticky last bit.\<close>

definition sticky_quotient :: "nat \<Rightarrow> nat \<Rightarrow> nat" where
  "sticky_quotient m n = 2 * (m * 2 ^ 64 div n) + (if m * 2 ^ 64 mod n = 0 then 0 else 1)"

fun fp_div :: "fp \<Rightarrow> fp \<Rightarrow> f32" where
  "fp_div FNaN y = f32_nan"
| "fp_div (FInf s) FNaN = f32_nan"
| "fp_div (FInf s) (FInf t) = f32_nan"
| "fp_div (FInf s) (FFin t n f) = f32_inf (s \<noteq> t)"
| "fp_div (FFin s m e) FNaN = f32_nan"
| "fp_div (FFin s m e) (FInf t) = f32_round (s \<noteq> t) 0 0"
| "fp_div (FFin s m e) (FFin t n f) =
     (if n = 0 then (if m = 0 then f32_nan else f32_inf (s \<noteq> t))
      else f32_round (s \<noteq> t) (sticky_quotient m n) (e - f - 65))"

definition f32_div :: "f32 \<Rightarrow> f32 \<Rightarrow> f32" where
  "f32_div a b = fp_div (f32_parts a) (f32_parts b)"

text \<open>\<open>n as f32\<close> of an unsigned integer, and a decimal literal \<open>p / 10 ^ k\<close>.\<close>

definition f32_of_nat :: "nat \<Rightarrow> f32" where
  "f32_of_nat n = f32_round False n 0"

definition f32_lit :: "nat \<Rightarrow> nat \<Rightarrow> f32" where
  "f32_lit p k = f32_round False (sticky_quotient p (10 ^ k)) (- 65)"

section \<open>Comparisons\<close>

text \<open>\<open>total_cmp\<close> compares the patterns as signed integers after flipping the magnitude of the negative ones.\<close>

definition total_key :: "f32 \<Rightarrow> int" where
  "total_key w = (let i = sint w in if i < 0 then - (2 ^ 31) + (- 1 - i) else i)"

text \<open>The operator \<open><\<close>: false on a NaN, and equal on the two zeros.\<close>

fun fp_lt :: "fp \<Rightarrow> fp \<Rightarrow> bool" where
  "fp_lt FNaN y = False"
| "fp_lt (FInf s) FNaN = False"
| "fp_lt (FInf s) (FInf t) = (s \<and> \<not> t)"
| "fp_lt (FInf s) (FFin t n f) = s"
| "fp_lt (FFin s m e) FNaN = False"
| "fp_lt (FFin s m e) (FInf t) = (\<not> t)"
| "fp_lt (FFin s m e) (FFin t n f) =
     (signed s m * 2 ^ nat (e - min e f) < signed t n * 2 ^ nat (f - min e f))"

definition f32_lt :: "f32 \<Rightarrow> f32 \<Rightarrow> bool" where
  "f32_lt a b = fp_lt (f32_parts a) (f32_parts b)"

definition f32_clamp :: "f32 \<Rightarrow> f32 \<Rightarrow> f32 \<Rightarrow> f32" where
  "f32_clamp lo hi x = (if f32_lt x lo then lo else if f32_lt hi x then hi else x)"

definition f32_is_nan :: "f32 \<Rightarrow> bool" where
  "f32_is_nan w = (case f32_parts w of FNaN \<Rightarrow> True | _ \<Rightarrow> False)"

definition f32_is_finite :: "f32 \<Rightarrow> bool" where
  "f32_is_finite w = (case f32_parts w of FFin _ _ _ \<Rightarrow> True | _ \<Rightarrow> False)"

definition f32_le :: "f32 \<Rightarrow> f32 \<Rightarrow> bool" where
  "f32_le a b = (\<not> f32_is_nan a \<and> \<not> f32_is_nan b \<and> \<not> f32_lt b a)"

text \<open>\<open>f32::max\<close> ignores a NaN.\<close>

definition f32_max :: "f32 \<Rightarrow> f32 \<Rightarrow> f32" where
  "f32_max a b = (if f32_is_nan a then b else if f32_is_nan b then a else if f32_lt a b then b else a)"

definition f32_neg :: "f32 \<Rightarrow> f32" where
  "f32_neg w = w + 0x80000000"

section \<open>Square roots\<close>

text \<open>The integer square root, two bits at a time.\<close>

definition isqrt_step :: "nat \<Rightarrow> nat \<Rightarrow> nat" where
  "isqrt_step n r = (if (r + 1) * (r + 1) \<le> n then r + 1 else r)"

fun isqrt :: "nat \<Rightarrow> nat" where
  "isqrt n = (if n = 0 then 0 else isqrt_step n (2 * isqrt (n div 4)))"

declare isqrt.simps [simp del]

lemma isqrt_bounds: "isqrt n * isqrt n \<le> n \<and> n < (isqrt n + 1) * (isqrt n + 1)"
proof (induction n rule: isqrt.induct)
  case (1 n)
  show ?case
  proof (cases "n = 0")
    case False
    let ?r = "isqrt (n div 4)"
    have IH: "?r * ?r \<le> n div 4" "n div 4 < (?r + 1) * (?r + 1)" using 1 [OF False] by auto
    have q: "4 * (n div 4) \<le> n" "n < 4 * (n div 4) + 4" by simp_all
    have lo: "(2 * ?r) * (2 * ?r) \<le> n" using IH(1) q(1) by simp
    have "4 * (n div 4) + 4 \<le> 4 * ((?r + 1) * (?r + 1))" using IH(2) by linarith
    then have hi: "n < (2 * ?r + 2) * (2 * ?r + 2)" using q(2) by (simp add: algebra_simps)
    have "isqrt n = isqrt_step n (2 * ?r)" using False by (subst isqrt.simps) simp
    then show ?thesis using lo hi by (simp add: isqrt_step_def)
  qed (subst isqrt.simps, simp)+
qed

lemma isqrt_square: "isqrt (k * k) = k"
proof -
  have b: "isqrt (k * k) * isqrt (k * k) \<le> k * k" "k * k < (isqrt (k * k) + 1) * (isqrt (k * k) + 1)"
    using isqrt_bounds [of "k * k"] by auto
  have "isqrt (k * k) \<le> k" using b(1) by (metis mult_le_mono linorder_not_le mult_strict_mono' le_less_trans zero_le)
  moreover have "k < isqrt (k * k) + 1" using b(2) by (metis linorder_not_le mult_le_mono)
  ultimately show ?thesis by linarith
qed

text \<open>The root of \<open>m * 2 ^ e\<close> for an even \<open>e\<close>, to 64 binary places with a sticky last bit.\<close>

definition sqrt_sticky :: "nat \<Rightarrow> nat \<Rightarrow> nat" where
  "sqrt_sticky n r = 2 * r + (if r * r = n then 0 else 1)"

definition scaled_sqrt :: "nat \<Rightarrow> nat" where
  "scaled_sqrt n = sqrt_sticky n (isqrt n)"

definition sqrt_even :: "nat \<Rightarrow> int \<Rightarrow> f32" where
  "sqrt_even m e = f32_round False (scaled_sqrt (m * 2 ^ 128)) (e div 2 - 65)"

fun fp_sqrt :: "fp \<Rightarrow> f32" where
  "fp_sqrt FNaN = f32_nan"
| "fp_sqrt (FInf s) = (if s then f32_nan else f32_inf False)"
| "fp_sqrt (FFin s m e) =
     (if m = 0 then f32_round s 0 0
      else if s then f32_nan
      else if even e then sqrt_even m e else sqrt_even (2 * m) (e - 1))"

definition f32_sqrt :: "f32 \<Rightarrow> f32" where
  "f32_sqrt w = fp_sqrt (f32_parts w)"

section \<open>Bytes\<close>

text \<open>The four bytes of a float, the first one the lowest.\<close>

definition bytes_of_f32 :: "f32 \<Rightarrow> bytes" where
  "bytes_of_f32 w = map (\<lambda>i. char_of (unat w div 256 ^ i)) [0..<4]"

section \<open>Evaluation\<close>

text \<open>The simplifier computes with these on concrete patterns.\<close>

lemmas f32_eval = f32_add_def f32_mul_def f32_div_def f32_lt_def f32_clamp_def f32_parts_def parts_of_def f32_lit_def f32_of_nat_def
  sticky_quotient_def f32_round_def pack_at_def pack_bits_def scale_to_def half_even_def bit_length_def digits_from.simps
  round_sum_def signed_def f32_inf_def total_key_def f32_is_nan_def f32_is_finite_def f32_le_def f32_max_def f32_neg_def
  f32_sqrt_def sqrt_even_def scaled_sqrt_def sqrt_sticky_def isqrt_step_def

lemma total_key_inj: "total_key a = total_key b \<longleftrightarrow> a = b"
proof
  assume k: "total_key a = total_key b"
  have r: "- (2 ^ 31) \<le> sint w \<and> sint w < 2 ^ 31" for w :: f32
    using sint_greater_eq [of w] sint_less [of w] by simp
  have "sint a = sint b"
    using k r [of a] r [of b] unfolding total_key_def Let_def by (auto split: if_splits)
  then show "a = b" by (rule signed_word_eqI)
qed simp

end
