(* ===== verification/Recall.thy ===== *)
theory Recall
  imports Db VectorIndexModel Float32 "HOL-Library.Product_Lexorder"
begin

text \<open>
  \<open>crates/solo-query/src/retrieval.rs\<close> and \<open>recall.rs\<close>: the hybrid search over the memories. The
  embedder, the full-text index of SQLite and the failures of the reader pool are parameters. The
  search over the vector index, the keyword query and the fetch of the rows run one after the
  other while the writer goes on, so each sees its own state: \<open>idx\<close>, \<open>d1\<close> and \<open>d2\<close>.
\<close>

section \<open>The environment of a query\<close>

text \<open>
  \<open>embed\<close> answers nothing when it takes longer than the timeout. \<open>episodes_match d m\<close> and
  \<open>chunks_match d m\<close> are the rowids and scores that \<open>MATCH m\<close> finds, by ascending \<open>bm25\<close>.
  \<open>wide_alnum\<close> and \<open>lower\<close> are \<open>char::is_alphanumeric\<close> beyond ASCII and \<open>str::to_lowercase\<close>,
  whose Unicode tables are not written out.
\<close>

record query_env =
  embed :: "string \<Rightarrow> Embedding result option"
  q_aligned :: "bytes \<Rightarrow> bool"
  episodes_match :: "db \<Rightarrow> string \<Rightarrow> (nat \<times> f32) list"
  chunks_match :: "db \<Rightarrow> string \<Rightarrow> (nat \<times> f32) list"
  read_fails :: "nat \<Rightarrow> bool"
  q_now_ms :: int
  lower :: "string \<Rightarrow> string"
  wide_alnum :: "string \<Rightarrow> bool"

section \<open>Semantic candidates\<close>

datatype RetrievalMode = Hybrid | LexicalOnly

record SemanticCandidates =
  sm_hits :: "(i64 \<times> f32) list"
  sm_mode :: RetrievalMode
  sm_warning :: "string option"

definition semantic_candidates ::
  "query_env \<Rightarrow> ('i, f32) vindex \<Rightarrow> 'i \<Rightarrow> string \<Rightarrow> nat \<Rightarrow> SemanticCandidates result" where
  "semantic_candidates q ops idx query limit =
     (case embed q query of
        Some (Inr emb) \<Rightarrow>
          (case as_f32_slice (q_aligned q) emb of
             None \<Rightarrow> Inl Embedder
           | Some v \<Rightarrow>
               bind_r (vi_search ops idx v limit) (\<lambda>hits.
               Inr \<lparr>sm_hits = hits, sm_mode = Hybrid, sm_warning = None\<rparr>))
      | None \<Rightarrow>
          Inr \<lparr>sm_hits = [], sm_mode = LexicalOnly,
               sm_warning = Some ''Semantic search timed out; results use keyword search only.''\<rparr>
      | Some (Inl e) \<Rightarrow>
          Inr \<lparr>sm_hits = [], sm_mode = LexicalOnly,
               sm_warning = Some ''Semantic search is unavailable; results use keyword search only.''\<rparr>)"

section \<open>Query terms\<close>

text \<open>The characters of a string as their byte sequences.\<close>

function utf8_chars :: "string \<Rightarrow> string list" where
  "utf8_chars [] = []"
| "utf8_chars (c # cs) = (c # takeWhile is_cont cs) # utf8_chars (dropWhile is_cont cs)"
  by pat_completeness auto
termination
  by (relation "measure length") (auto simp: le_imp_less_Suc length_dropWhile_le)

fun split_where :: "('a \<Rightarrow> bool) \<Rightarrow> 'a list \<Rightarrow> 'a list list" where
  "split_where P [] = [[]]"
| "split_where P (x # xs) =
     (if P x then [] # split_where P xs
      else (case split_where P xs of [] \<Rightarrow> [[x]] | l # ls \<Rightarrow> (x # l) # ls))"

definition is_alphanumeric :: "query_env \<Rightarrow> string \<Rightarrow> bool" where
  "is_alphanumeric q c =
     (case c of [b] \<Rightarrow> if byte b < 128 then is_ascii_alphanumeric b else wide_alnum q c | _ \<Rightarrow> wide_alnum q c)"

fun escape_quotes :: "string \<Rightarrow> string" where
  "escape_quotes [] = []"
| "escape_quotes (c # cs) = (if c = CHR 0x22 then [c, c] else [c]) @ escape_quotes cs"

fun collect_terms :: "string list \<Rightarrow> string list \<Rightarrow> string list" where
  "collect_terms terms [] = terms"
| "collect_terms terms (t # ts) =
     (let e = escape_quotes t; terms' = (if e \<in> set terms then terms else terms @ [e])
      in if length terms' \<ge> 8 then terms' else collect_terms terms' ts)"

definition recall_terms :: "query_env \<Rightarrow> string \<Rightarrow> string list option" where
  "recall_terms q query =
     (let words = filter (\<lambda>t. t \<noteq> []) (map (\<lambda>w. trim (concat w))
                    (split_where (\<lambda>c. \<not> is_alphanumeric q c) (utf8_chars query)));
          terms = collect_terms [] words
      in if terms = [] then None else Some (map (lower q) terms))"

fun join_or :: "string list \<Rightarrow> string" where
  "join_or [] = []"
| "join_or [t] = t"
| "join_or (t # ts) = t @ '' OR '' @ join_or ts"

definition build_fts_query :: "query_env \<Rightarrow> string \<Rightarrow> string option" where
  "build_fts_query q query =
     map_option (\<lambda>terms. join_or (map (\<lambda>t. [CHR 0x22] @ t @ [CHR 0x22]) terms)) (recall_terms q query)"

section \<open>Ranks\<close>

text \<open>The hits of one kind with their distance and their rank among all hits.\<close>

definition decode_hits :: "HnswIdKind \<Rightarrow> (i64 \<times> f32) list \<Rightarrow> (i64 \<times> f32 \<times> nat) list" where
  "decode_hits kind hits =
     List.map_filter (\<lambda>(rank, i, score).
       case decode_hnsw_id i of (k, rowid) \<Rightarrow> if k = kind then Some (rowid, score, rank) else None)
       (List.enumerate 1 hits)"

definition rank_rows :: "(nat \<times> f32) list \<Rightarrow> (i64 \<times> f32 \<times> nat) list" where
  "rank_rows rows = map (\<lambda>(rank, rowid, score). (of_nat rowid, score, rank)) (List.enumerate 1 rows)"

definition merge_rowids :: "(i64 \<times> f32 \<times> nat) list \<Rightarrow> (i64 \<times> f32 \<times> nat) list \<Rightarrow> i64 list" where
  "merge_rowids vcs lxs =
     foldl (\<lambda>acc r. if r \<in> set acc then acc else acc @ [r]) [] (map fst vcs @ map fst lxs)"

text \<open>A \<open>HashMap\<close> collected from pairs keeps the last one of a key.\<close>

definition rank_map :: "(i64 \<times> f32 \<times> nat) list \<Rightarrow> i64 \<Rightarrow> (f32 \<times> nat) option" where
  "rank_map xs = map_of (rev xs)"

fun rrf_part :: "nat option \<Rightarrow> f32" where
  "rrf_part None = f32_lit 0 0"
| "rrf_part (Some r) = f32_div (f32_lit 1 0) (f32_add (f32_lit 60 0) (f32_of_nat r))"

definition reciprocal_rank_fusion :: "nat option \<Rightarrow> nat option \<Rightarrow> f32" where
  "reciprocal_rank_fusion vector_rank lexical_rank = f32_add (rrf_part vector_rank) (rrf_part lexical_rank)"

section \<open>Scores\<close>

record RecallScoreComponents =
  rrf_score :: f32
  salience_boost :: f32
  strength_boost :: f32
  tier_boost :: f32
  recency_boost :: f32
  encoding_context_boost :: f32

definition sat_sub_i64 :: "int \<Rightarrow> int \<Rightarrow> int" where
  "sat_sub_i64 a b = max i64_min (min i64_max (a - b))"

definition recency_boost_at :: "int \<Rightarrow> int \<Rightarrow> f32" where
  "recency_boost_at now ts =
     (let age_ms = sat_sub_i64 now ts; day_ms = 86400000
      in if age_ms \<le> 7 * day_ms then f32_lit 6 3
         else if age_ms \<le> 30 * day_ms then f32_lit 3 3
         else f32_lit 0 0)"

definition context_boost :: "query_env \<Rightarrow> string \<Rightarrow> json \<Rightarrow> f32" where
  "context_boost q query ctx =
     (case recall_terms q query of
        None \<Rightarrow> f32_lit 0 0
      | Some terms \<Rightarrow>
          if \<exists>t \<in> set terms. contains_sub t (lower q ctx) then f32_lit 6 3 else f32_lit 0 0)"

definition score_components ::
  "query_env \<Rightarrow> string \<Rightarrow> episode_row \<Rightarrow> nat option \<Rightarrow> nat option \<Rightarrow> RecallScoreComponents" where
  "score_components q query row vr lr =
     \<lparr>rrf_score = reciprocal_rank_fusion vr lr,
      salience_boost = f32_mul (f32_clamp (f32_lit 0 0) (f32_lit 1 0) (er_salience row)) (f32_lit 12 3),
      strength_boost = f32_mul (f32_clamp (f32_lit 0 0) (f32_lit 1 0) (er_strength row)) (f32_lit 8 3),
      tier_boost = (case er_tier row of Hot \<Rightarrow> f32_lit 6 3 | Warm \<Rightarrow> f32_lit 3 3 | Cold \<Rightarrow> f32_lit 0 0),
      recency_boost = recency_boost_at (q_now_ms q) (er_ts_ms row),
      encoding_context_boost = context_boost q query (er_context row)\<rparr>"

definition score_total :: "RecallScoreComponents \<Rightarrow> f32" where
  "score_total c =
     f32_add (f32_add (f32_add (f32_add (f32_add (rrf_score c) (salience_boost c)) (strength_boost c))
       (tier_boost c)) (recency_boost c)) (encoding_context_boost c)"

section \<open>The pipeline\<close>

record RecallHit =
  rh_rowid :: i64
  rh_memory_id :: memory_id
  rh_cos_distance :: f32
  rh_bm25_score :: "f32 option"
  rh_fused_score :: f32
  rh_vector_rank :: "nat option"
  rh_lexical_rank :: "nat option"
  rh_score_components :: RecallScoreComponents
  rh_content :: string
  rh_source_type :: string
  rh_tier :: Tier

record RecallResult =
  rr_hits :: "RecallHit list"
  rr_index_len :: nat
  rr_candidates_considered :: nat
  rr_retrieval_mode :: RetrievalMode
  rr_warning :: "string option"

definition recall_candidate_limit :: "nat \<Rightarrow> nat" where
  "recall_candidate_limit limit = min 200 (max limit (sat_mul_u64 limit 4))"

definition fetch_lexical_episode_hits ::
  "query_env \<Rightarrow> db \<Rightarrow> string \<Rightarrow> nat \<Rightarrow> (i64 \<times> f32 \<times> nat) list result" where
  "fetch_lexical_episode_hits q d query limit =
     (case build_fts_query q query of
        None \<Rightarrow> Inr []
      | Some m \<Rightarrow>
          if read_fails q 0 then Inl Storage
          else Inr (rank_rows (take limit (filter (\<lambda>(rowid, _).
                 \<exists>r \<in> set (episodes d). er_rowid r = rowid \<and> er_status r = Active) (episodes_match q d m)))))"

definition row_i64 :: "episode_row \<Rightarrow> i64" where
  "row_i64 r = of_nat (er_rowid r)"

definition fetch_episodes_by_rowid :: "query_env \<Rightarrow> db \<Rightarrow> i64 list \<Rightarrow> episode_row list result" where
  "fetch_episodes_by_rowid q d rowids =
     (if rowids = [] then Inr []
      else if read_fails q 1 then Inl Storage
      else Inr (filter (\<lambda>r. row_i64 r \<in> set rowids) (episodes d)))"

definition recall_hit ::
  "query_env \<Rightarrow> string \<Rightarrow> episode_row \<Rightarrow> (f32 \<times> nat) option \<Rightarrow> (f32 \<times> nat) option \<Rightarrow> RecallHit" where
  "recall_hit q query row vcs lxs =
     (let c = score_components q query row (map_option snd vcs) (map_option snd lxs) in
      \<lparr>rh_rowid = row_i64 row, rh_memory_id = er_memory_id row,
       rh_cos_distance = (case vcs of None \<Rightarrow> f32_lit 1 0 | Some (s, _) \<Rightarrow> s),
       rh_bm25_score = map_option fst lxs, rh_fused_score = score_total c,
       rh_vector_rank = map_option snd vcs, rh_lexical_rank = map_option snd lxs,
       rh_score_components = c, rh_content = er_content row, rh_source_type = er_source_type row,
       rh_tier = er_tier row\<rparr>)"

definition recall_hits ::
  "query_env \<Rightarrow> string \<Rightarrow> episode_row list \<Rightarrow> (i64 \<times> f32 \<times> nat) list \<Rightarrow> (i64 \<times> f32 \<times> nat) list
     \<Rightarrow> RecallHit list" where
  "recall_hits q query rows vcs lxs =
     List.map_filter (\<lambda>rowid.
       case map_of (rev (map (\<lambda>r. (row_i64 r, r)) rows)) rowid of
         None \<Rightarrow> None
       | Some row \<Rightarrow> if er_status row \<noteq> Active then None
                     else Some (recall_hit q query row (rank_map vcs rowid) (rank_map lxs rowid)))
       (merge_rowids vcs lxs)"

text \<open>The three comparisons of the final \<open>sort_by\<close>, which is stable.\<close>

definition recall_order :: "RecallHit \<Rightarrow> int \<times> int \<times> int" where
  "recall_order h = (- total_key (rh_fused_score h), total_key (rh_cos_distance h), sint (rh_rowid h))"

definition run_recall_inner ::
  "query_env \<Rightarrow> ('i, f32) vindex \<Rightarrow> 'i \<Rightarrow> nat \<Rightarrow> db \<Rightarrow> db \<Rightarrow> string \<Rightarrow> nat \<Rightarrow> RecallResult result" where
  "run_recall_inner q ops idx index_len d1 d2 query limit0 =
     (if trim query = [] then Inl InvalidInput
      else
        let limit = max 1 (min 100 limit0); candidate_limit = recall_candidate_limit limit in
        bind_r (semantic_candidates q ops idx query candidate_limit) (\<lambda>semantic.
        bind_r (fetch_lexical_episode_hits q d1 query candidate_limit) (\<lambda>lxs.
        let considered = length (sm_hits semantic) + length lxs;
            vcs = decode_hits Episode (sm_hits semantic);
            result = (\<lambda>hits. \<lparr>rr_hits = hits, rr_index_len = index_len, rr_candidates_considered = considered,
                              rr_retrieval_mode = sm_mode semantic, rr_warning = sm_warning semantic\<rparr>)
        in if vcs = [] \<and> lxs = [] then Inr (result [])
           else bind_r (fetch_episodes_by_rowid q d2 (merge_rowids vcs lxs)) (\<lambda>rows.
                Inr (result (take limit (sort_key recall_order (recall_hits q query rows vcs lxs))))))))"

text \<open>The transport's entry: the same, with one event for the audit queue.\<close>

definition run_recall ::
  "query_env \<Rightarrow> ('i, f32) vindex \<Rightarrow> 'i \<Rightarrow> nat \<Rightarrow> db \<Rightarrow> db \<Rightarrow> string option \<Rightarrow> string \<Rightarrow> nat
     \<Rightarrow> RecallResult result \<times> AuditEvent" where
  "run_recall q ops idx index_len d1 d2 audit_principal query limit =
     (let res = run_recall_inner q ops idx index_len d1 d2 query limit in
      (res, \<lparr>au_ts_ms = q_now_ms q, au_principal = audit_principal, au_operation = MemoryRecall, au_target = None,
             au_result = (if is_ok res then AuditOk else AuditError),
             au_details = (case res of Inl e \<Rightarrow> Some (DError e) | Inr _ \<Rightarrow> None)\<rparr>))"

section \<open>Facts\<close>

lemma merge_rowids_set: "set (merge_rowids vcs lxs) = fst ` set vcs \<union> fst ` set lxs"
  and merge_rowids_distinct: "distinct (merge_rowids vcs lxs)"
proof -
  have "set (foldl (\<lambda>acc r. if r \<in> set acc then acc else acc @ [r]) acc xs) = set acc \<union> set xs \<and>
      (distinct acc \<longrightarrow> distinct (foldl (\<lambda>acc r. if r \<in> set acc then acc else acc @ [r]) acc xs))"
    for acc xs :: "i64 list"
    by (induction xs arbitrary: acc) auto
  from this [of "[]" "map fst vcs @ map fst lxs"]
  show "set (merge_rowids vcs lxs) = fst ` set vcs \<union> fst ` set lxs" "distinct (merge_rowids vcs lxs)"
    by (auto simp: merge_rowids_def)
qed

lemma distinct_map_filter_inj:
  assumes "distinct xs" "\<And>x y. x \<in> set xs \<Longrightarrow> f x = Some y \<Longrightarrow> g y = h x" "inj_on h (set xs)"
  shows "distinct (map g (List.map_filter f xs))"
  using assms
proof (induction xs)
  case (Cons x xs)
  have IH: "distinct (map g (List.map_filter f xs))" using Cons by simp
  have "g y \<notin> g ` set (List.map_filter f xs)" if "f x = Some y" for y
  proof
    assume "g y \<in> g ` set (List.map_filter f xs)"
    then obtain x' y' where "x' \<in> set xs" "f x' = Some y'" "g y = g y'"
      by (auto simp: List.map_filter_def)
    then have "h x = h x'" using Cons.prems(2) [of x y] Cons.prems(2) [of x' y'] that by simp
    then show False using Cons.prems(1,3) \<open>x' \<in> set xs\<close> by (auto simp: inj_on_def)
  qed
  then show ?case using IH by (cases "f x") (simp_all add: List.map_filter_simps)
qed (simp add: List.map_filter_def)

lemma row_i64_inj:
  assumes "wf_db d" "rowids_fit d" "r \<in> set (episodes d)" "r' \<in> set (episodes d)" "row_i64 r = row_i64 r'"
  shows "r = r'"
proof -
  have "er_rowid r < 2 ^ 62" "er_rowid r' < 2 ^ 62"
    using assms(1-4) by (auto simp: wf_db_def rowids_fit_def)
  then have "er_rowid r = er_rowid r'"
    using assms(5) of_nat_rowid_inj [of "er_rowid r" "er_rowid r'"] by (simp add: row_i64_def)
  then show ?thesis using assms(1,3,4) by (auto simp: wf_db_def distinct_map inj_on_def)
qed

lemma row_lookup:
  assumes "wf_db d" "rowids_fit d"
  shows "map_of (rev (map (\<lambda>r. (row_i64 r, r)) (filter (\<lambda>r. row_i64 r \<in> S) (episodes d)))) i = Some r \<longleftrightarrow>
    r \<in> set (episodes d) \<and> row_i64 r = i \<and> i \<in> S"
proof -
  let ?rows = "filter (\<lambda>r. row_i64 r \<in> S) (episodes d)"
  have "inj_on row_i64 (set ?rows)"
    using row_i64_inj [OF assms] by (auto simp: inj_on_def)
  moreover have "distinct ?rows"
    using assms(1) by (simp add: wf_db_def distinct_map)
  ultimately have "distinct (map row_i64 ?rows)" by (simp add: distinct_map)
  then have "distinct (map fst (rev (map (\<lambda>r. (row_i64 r, r)) ?rows)))"
    by (simp add: rev_map [symmetric] comp_def)
  then show ?thesis by (subst map_of_eq_Some_iff) auto
qed

end
