(* ===== verification/DocSearch.thy ===== *)
theory DocSearch
  imports Recall
begin

text \<open>
  \<open>crates/solo-query/src/doc_search.rs\<close>: the hybrid search over the chunks of documents, and
  \<open>inbox.rs\<close> and \<open>inspect.rs\<close>: the review queue and the lookup of one memory. The search decodes, merges and fuses as the recall does, in its own copy of
  the code; the helpers that are the same text are shared here.
\<close>

section \<open>Document search\<close>

record DocSearchHit =
  dh_chunk_id :: chunk_id
  dh_doc_id :: document_id
  dh_doc_title :: string
  dh_doc_source :: string
  dh_doc_mime_type :: string
  dh_chunk_index :: nat
  dh_content :: string
  dh_cos_distance :: f32
  dh_bm25_score :: "f32 option"
  dh_fused_score :: f32
  dh_vector_rank :: "nat option"
  dh_lexical_rank :: "nat option"
  dh_start_offset :: nat
  dh_end_offset :: nat

record DocSearchResult =
  ds_hits :: "DocSearchHit list"
  ds_retrieval_mode :: RetrievalMode
  ds_warning :: "string option"

definition doc_search_candidate_limit :: "nat \<Rightarrow> nat" where
  "doc_search_candidate_limit limit = min 200 (max limit (sat_mul_u64 limit 4))"

definition chunk_i64 :: "chunk_row \<Rightarrow> i64" where
  "chunk_i64 c = of_nat (cr_rowid c)"

text \<open>The join of the chunks with their active documents.\<close>

definition active_chunks :: "db \<Rightarrow> (chunk_row \<times> document_row) list" where
  "active_chunks d =
     concat (map (\<lambda>c. map (\<lambda>x. (c, x)) (filter (\<lambda>x. dr_doc_id x = cr_doc_id c \<and> dr_status x = Active) (documents d))) (chunks d))"

definition fetch_lexical_chunk_hits ::
  "query_env \<Rightarrow> db \<Rightarrow> string \<Rightarrow> nat \<Rightarrow> (i64 \<times> f32 \<times> nat) list result" where
  "fetch_lexical_chunk_hits q d query limit =
     (case build_fts_query q query of
        None \<Rightarrow> Inr []
      | Some m \<Rightarrow>
          if read_fails q 0 then Inl Storage
          else Inr (rank_rows (take limit (filter (\<lambda>(rowid, _).
                 \<exists>x \<in> set (active_chunks d). cr_rowid (fst x) = rowid) (chunks_match q d m)))))"

definition fetch_chunks_by_rowid :: "query_env \<Rightarrow> db \<Rightarrow> i64 list \<Rightarrow> (chunk_row \<times> document_row) list result" where
  "fetch_chunks_by_rowid q d rowids =
     (if rowids = [] then Inr []
      else if read_fails q 1 then Inl Storage
      else Inr (filter (\<lambda>(c, _). chunk_i64 c \<in> set rowids) (active_chunks d)))"

definition doc_hit ::
  "chunk_row \<Rightarrow> document_row \<Rightarrow> (f32 \<times> nat) option \<Rightarrow> (f32 \<times> nat) option \<Rightarrow> DocSearchHit" where
  "doc_hit c x vcs lxs =
     \<lparr>dh_chunk_id = cr_chunk_id c, dh_doc_id = cr_doc_id c, dh_doc_title = dr_title x, dh_doc_source = dr_source x,
      dh_doc_mime_type = dr_mime_type x, dh_chunk_index = cr_chunk_index c mod 2 ^ 32, dh_content = cr_content c,
      dh_cos_distance = (case vcs of None \<Rightarrow> f32_lit 1 0 | Some (s, _) \<Rightarrow> s),
      dh_bm25_score = map_option fst lxs,
      dh_fused_score = reciprocal_rank_fusion (map_option snd vcs) (map_option snd lxs),
      dh_vector_rank = map_option snd vcs, dh_lexical_rank = map_option snd lxs,
      dh_start_offset = cr_start_offset c mod 2 ^ 32, dh_end_offset = cr_end_offset c mod 2 ^ 32\<rparr>"

definition doc_hits ::
  "(chunk_row \<times> document_row) list \<Rightarrow> (i64 \<times> f32 \<times> nat) list \<Rightarrow> (i64 \<times> f32 \<times> nat) list \<Rightarrow> DocSearchHit list" where
  "doc_hits rows vcs lxs =
     List.map_filter (\<lambda>rowid.
       map_option (\<lambda>(c, x). doc_hit c x (rank_map vcs rowid) (rank_map lxs rowid))
         (map_of (rev (map (\<lambda>y. (chunk_i64 (fst y), y)) rows)) rowid))
       (merge_rowids vcs lxs)"

text \<open>A chunk id is a UUID, whose text compares as its number does.\<close>

definition doc_order :: "DocSearchHit \<Rightarrow> int \<times> int \<times> nat \<times> nat" where
  "doc_order h = (- total_key (dh_fused_score h), total_key (dh_cos_distance h), dh_chunk_index h, dh_chunk_id h)"

definition run_doc_search_with_status_inner ::
  "query_env \<Rightarrow> ('i, f32) vindex \<Rightarrow> 'i \<Rightarrow> db \<Rightarrow> db \<Rightarrow> string \<Rightarrow> nat \<Rightarrow> DocSearchResult result" where
  "run_doc_search_with_status_inner q ops idx d1 d2 query limit0 =
     (if trim query = [] then Inl InvalidInput
      else
        let limit = max 1 (min 100 limit0); candidate_limit = doc_search_candidate_limit limit in
        bind_r (semantic_candidates q ops idx query candidate_limit) (\<lambda>semantic.
        bind_r (fetch_lexical_chunk_hits q d1 query candidate_limit) (\<lambda>lxs.
        let vcs = decode_hits Chunk (sm_hits semantic);
            result = (\<lambda>hits. \<lparr>ds_hits = hits, ds_retrieval_mode = sm_mode semantic, ds_warning = sm_warning semantic\<rparr>)
        in if vcs = [] \<and> lxs = [] then Inr (result [])
           else bind_r (fetch_chunks_by_rowid q d2 (merge_rowids vcs lxs)) (\<lambda>rows.
                Inr (result (take limit (sort_key doc_order (doc_hits rows vcs lxs))))))))"

definition run_doc_search_with_status ::
  "query_env \<Rightarrow> ('i, f32) vindex \<Rightarrow> 'i \<Rightarrow> db \<Rightarrow> db \<Rightarrow> string option \<Rightarrow> string \<Rightarrow> nat \<Rightarrow> DocSearchResult result \<times> AuditEvent"
where
  "run_doc_search_with_status q ops idx d1 d2 audit_principal query limit =
     (let res = run_doc_search_with_status_inner q ops idx d1 d2 query limit in
      (res, \<lparr>au_ts_ms = q_now_ms q, au_principal = audit_principal, au_operation = MemorySearchDocs, au_target = None,
             au_result = (if is_ok res then AuditOk else AuditError),
             au_details = (case res of Inl e \<Rightarrow> Some (DError e) | Inr _ \<Rightarrow> None)\<rparr>))"

section \<open>The inbox\<close>

definition INBOX_LABEL_CHARS :: nat where "INBOX_LABEL_CHARS = 80"
definition INBOX_PREVIEW_CHARS :: nat where "INBOX_PREVIEW_CHARS = 200"
definition INBOX_MAX_LIMIT :: nat where "INBOX_MAX_LIMIT = 200"

record MemoryInboxItem =
  mi_memory_id :: memory_id
  mi_label :: string
  mi_preview :: string
  mi_ts_ms :: int
  mi_source_type :: string
  mi_salience :: f32
  mi_status :: status
  mi_review_state :: "MemoryReviewState option"
  mi_reviewed_at_ms :: "int option"
  mi_review_note :: "string option"

definition truncate_preview :: "string \<Rightarrow> nat \<Rightarrow> string" where
  "truncate_preview s mx =
     (if chars_count s \<le> mx then s else concat (take (mx - 3) (utf8_chars s)) @ ''...'')"

definition episode_label :: "string \<Rightarrow> string" where
  "episode_label txt =
     truncate_preview (case str_lines txt of [] \<Rightarrow> txt | l # _ \<Rightarrow> l) INBOX_LABEL_CHARS"

text \<open>\<open>LEFT JOIN memory_reviews\<close>: its \<open>memory_id\<close> is the primary key.\<close>

definition inbox_item :: "db \<Rightarrow> episode_row \<Rightarrow> MemoryInboxItem" where
  "inbox_item d r =
     (let rv = find (\<lambda>x. rv_memory_id x = er_memory_id r) (reviews d) in
      \<lparr>mi_memory_id = er_memory_id r, mi_label = episode_label (er_content r),
       mi_preview = truncate_preview (er_content r) INBOX_PREVIEW_CHARS, mi_ts_ms = er_ts_ms r,
       mi_source_type = er_source_type r, mi_salience = er_salience r, mi_status = er_status r,
       mi_review_state = map_option rv_state rv, mi_reviewed_at_ms = map_option rv_reviewed_at_ms rv,
       mi_review_note = Option.bind rv rv_note\<rparr>)"

definition memory_inbox_inner :: "query_env \<Rightarrow> db \<Rightarrow> nat \<Rightarrow> MemoryInboxItem list result" where
  "memory_inbox_inner q d limit =
     (if read_fails q 0 then Inl Storage
      else Inr (map (inbox_item d) (take (max 1 (min INBOX_MAX_LIMIT limit))
             (sort_key (\<lambda>r. (- er_ts_ms r, er_memory_id r)) (filter (\<lambda>r. er_status r = Active) (episodes d))))))"

section \<open>Inspecting one memory\<close>

definition inspect_one_inner :: "query_env \<Rightarrow> db \<Rightarrow> memory_id \<Rightarrow> episode_row result" where
  "inspect_one_inner q d mid =
     (if read_fails q 0 then Inl Storage else ok_or (find_episode d mid) NotFound)"

end
