(* ===== verification/Visibility.thy ===== *)
theory Visibility
  imports WriterFacts
begin

text \<open>
  What no command of the writer undoes: a row that is forgotten stays forgotten and keeps its
  identity. The readers rely on it, whose reads fall between the commands.
\<close>

section \<open>Rows that evolve\<close>

text \<open>Rows are added under new keys only, and a row keeps its key and its being forgotten.\<close>

definition evolves :: "('a \<Rightarrow> 'k) \<Rightarrow> ('a \<Rightarrow> status) \<Rightarrow> 'a list \<Rightarrow> 'a list \<Rightarrow> bool" where
  "evolves key st xs ys =
     (key ` set xs \<subseteq> key ` set ys \<and>
      (\<forall>y \<in> set ys. key y \<in> key ` set xs \<longrightarrow>
         (\<exists>x \<in> set xs. key x = key y \<and> (st x = Forgotten \<longrightarrow> st y = Forgotten))))"

definition gone :: "('a \<Rightarrow> 'k) \<Rightarrow> ('a \<Rightarrow> status) \<Rightarrow> 'k \<Rightarrow> 'a list \<Rightarrow> bool" where
  "gone key st k xs = (k \<in> key ` set xs \<and> (\<forall>x \<in> set xs. key x = k \<longrightarrow> st x = Forgotten))"

lemma evolves_refl [simp]: "evolves key st xs xs"
  by (auto simp: evolves_def)

lemma evolves_trans:
  assumes "evolves key st xs ys" "evolves key st ys zs"
  shows "evolves key st xs zs"
  unfolding evolves_def
proof (intro conjI ballI impI)
  show "key ` set xs \<subseteq> key ` set zs" using assms unfolding evolves_def by (metis order_trans)
  fix z assume z: "z \<in> set zs" "key z \<in> key ` set xs"
  then have "key z \<in> key ` set ys" using assms(1) by (auto simp: evolves_def)
  then obtain y where y: "y \<in> set ys" "key y = key z" "st y = Forgotten \<longrightarrow> st z = Forgotten"
    using assms(2) z(1) by (auto simp: evolves_def)
  then obtain x where "x \<in> set xs" "key x = key y" "st x = Forgotten \<longrightarrow> st y = Forgotten"
    using assms(1) z(2) unfolding evolves_def by metis
  then show "\<exists>x \<in> set xs. key x = key z \<and> (st x = Forgotten \<longrightarrow> st z = Forgotten)" using y by auto
qed

lemma evolves_append: "key y \<notin> key ` set xs \<Longrightarrow> evolves key st xs (xs @ [y])"
  by (auto simp: evolves_def)

lemma evolves_map:
  "(\<And>x. key (f x) = key x) \<Longrightarrow> (\<And>x. x \<in> set xs \<Longrightarrow> st x = Forgotten \<Longrightarrow> st (f x) = Forgotten) \<Longrightarrow> evolves key st xs (map f xs)"
  by (auto simp: evolves_def image_iff)

lemma gone_evolves: "gone key st k xs \<Longrightarrow> evolves key st xs ys \<Longrightarrow> gone key st k ys"
  unfolding gone_def evolves_def by (metis subsetD)

section \<open>The tables\<close>

definition tables_evolve :: "db \<Rightarrow> db \<Rightarrow> bool" where
  "tables_evolve d d' =
     (evolves er_memory_id er_status (episodes d) (episodes d') \<and>
      evolves dr_doc_id dr_status (documents d) (documents d'))"

lemma evolve_refl [simp]: "tables_evolve d d"
  by (simp add: tables_evolve_def)

lemma evolve_trans: "tables_evolve d d' \<Longrightarrow> tables_evolve d' d'' \<Longrightarrow> tables_evolve d d''"
  by (auto simp: tables_evolve_def intro: evolves_trans)

lemma evolve_core: "same_core d d' \<Longrightarrow> tables_evolve d d'"
  by (simp add: tables_evolve_def same_core_def)

lemma evolve_cong: "same_core d1 d2 \<Longrightarrow> tables_evolve d d1 \<Longrightarrow> tables_evolve d d2"
  by (simp add: tables_evolve_def same_core_def)

lemma evolve_episode: "added_episode row d d' \<Longrightarrow> tables_evolve d d'"
  by (simp add: added_episode_def tables_evolve_def evolves_append)

lemma evolve_chunk: "added_chunk row d d' \<Longrightarrow> tables_evolve d d'"
  by (simp add: added_chunk_def tables_evolve_def)

lemma evolve_update_episode:
  "(\<And>r. er_memory_id (f r) = er_memory_id r) \<Longrightarrow> (\<And>r. er_status r = Forgotten \<Longrightarrow> er_status (f r) = Forgotten) \<Longrightarrow>
   tables_evolve d (update_episode mid f d)"
  by (auto simp: tables_evolve_def update_episode_def intro!: evolves_map)

lemma evolve_remember_items: "remember_items e w p i items d = Inr (d', ids) \<Longrightarrow> tables_evolve d d'"
  by (induction e w p i items d arbitrary: d' ids rule: remember_items.induct)
    (auto simp: result_simps dest!: remember_item_added evolve_episode intro: evolve_trans)

lemma evolve_chunk_items: "insert_chunk_items e p did dt eid i items d = Inr (d', recs) \<Longrightarrow> tables_evolve d d'"
  by (induction e p did dt eid i items d arbitrary: d' recs rule: insert_chunk_items.induct)
    (auto simp: result_simps dest!: insert_chunk_item_added evolve_chunk intro: evolve_trans)

lemma evolve_tx:
  "remember_tx e w p ep emb d = Inr (d', n) \<Longrightarrow> tables_evolve d d'"
  "remember_batch_tx e w p items d = Inr (d', ids) \<Longrightarrow> tables_evolve d d'"
  "update_tx e w p mid txt ms emb d = Inr (d', n) \<Longrightarrow> tables_evolve d d'"
  "review_tx e p mid state nt d = Inr (d', at) \<Longrightarrow> tables_evolve d d'"
  "forget_tx e p mid reason d = Inr d' \<Longrightarrow> tables_evolve d d'"
  "ingest_tx e p path doc plan d = Inr (d', recs) \<Longrightarrow> tables_evolve d d'"
  "forget_document_tx e p did d = Inr d' \<Longrightarrow> tables_evolve d d'"
proof -
  show "tables_evolve d d'" if "remember_tx e w p ep emb d = Inr (d', n)"
    using remember_tx_added [OF that] evolve_episode by blast
  show "tables_evolve d d'" if "remember_batch_tx e w p items d = Inr (d', ids)"
    using that by (auto simp: remember_batch_tx_def result_simps
        dest!: evolve_remember_items intro: evolve_cong [OF same_core_audit])
  show "tables_evolve d d'" if upd: "update_tx e w p mid txt ms emb d = Inr (d', n)"
  proof -
    let ?f = "\<lambda>r. r\<lparr>er_content := txt, er_updated_at_ms := now_ms e\<rparr>"
    obtain d2 where s: "same_core (update_episode mid ?f d) d2" "same_core (upsert_pending (pending_row_of e (PEpisode mid) emb) d2) d'"
      by (rule update_tx_steps [OF upd])
    have "tables_evolve d (update_episode mid ?f d)" by (rule evolve_update_episode) simp_all
    then have "tables_evolve d d2" by (rule evolve_cong [OF s(1)])
    then have "tables_evolve d (upsert_pending (pending_row_of e (PEpisode mid) emb) d2)" by (simp add: tables_evolve_def)
    then show ?thesis by (rule evolve_cong [OF s(2)])
  qed
  show "tables_evolve d d'" if "review_tx e p mid state nt d = Inr (d', at)"
    by (rule evolve_core [OF review_tx_core [OF that]])
  show "tables_evolve d d'" if "forget_tx e p mid reason d = Inr d'"
    using that by (auto simp: forget_tx_def result_simps
        intro!: evolve_cong [OF same_core_audit] evolve_update_episode)
  show "tables_evolve d d'" if ing: "ingest_tx e p path doc plan d = Inr (d', recs)"
  proof -
    obtain d1 d2 where s: "insert_document (document_row_of e path doc (length (ip_chunks plan) mod 2 ^ 32)) d = Inr d1"
      "insert_chunk_items e p (fresh_doc_id e) (ip_dtype plan) (ip_embedder_id plan) 0 (zip (ip_chunks plan) (ip_embeddings plan)) d1 = Inr (d2, recs)"
      "same_core d2 d'"
      by (rule ingest_tx_steps [OF ing])
    have "tables_evolve d d1"
      using s(1) by (auto simp: insert_document_def tables_evolve_def evolves_append split: if_splits)
    then show ?thesis using evolve_chunk_items [OF s(2)] evolve_core [OF s(3)] by (blast intro: evolve_trans)
  qed
  show "tables_evolve d d'" if "forget_document_tx e p did d = Inr d'"
    using that by (auto simp: forget_document_tx_def result_simps tables_evolve_def update_document_def
        intro!: evolves_map)
qed

section \<open>Commands\<close>

lemma evolve_frames [simp]:
  "tables_evolve d (wdb (emit_audit_best_effort e k oper t r p dt w)) = tables_evolve d (wdb w)"
  "tables_evolve d (wdb (emit_invalidate e reason kind w)) = tables_evolve d (wdb w)"
  "tables_evolve d (wdb (drain e i tg w)) = tables_evolve d (wdb w)"
  by (simp_all add: emit_audit_best_effort_def emit_invalidate_frame drain_def delete_pending_def tables_evolve_def)

lemma evolve_drain_all [simp]: "tables_evolve d (wdb (drain_all e i ts w)) = tables_evolve d (wdb w)"
  by (induction e i ts w rule: drain_all.induct) simp_all

lemma evolve_handlers:
  "tables_evolve (wdb w) (wdb (snd (handle_remember_durable ops e ep emb p w)))"
  "tables_evolve (wdb w) (wdb (snd (handle_remember_batch_durable ops e items p w)))"
  "tables_evolve (wdb w) (wdb (snd (handle_update_durable ops e mid raw emb p w)))"
  "tables_evolve (wdb w) (wdb (snd (handle_memory_review e mid state nt p w)))"
  "tables_evolve (wdb w) (wdb (snd (handle_forget ops e mid reason p w)))"
  "tables_evolve (wdb w) (wdb (snd (handle_ingest_document_durable ops e path cfg p w)))"
  "tables_evolve (wdb w) (wdb (snd (handle_forget_document ops e did p w)))"
  unfolding handle_remember_durable_def handle_remember_batch_durable_def handle_update_durable_def
    handle_memory_review_def handle_forget_def handle_ingest_document_durable_def handle_forget_document_def
    ingest_new_def ingest_dedup_def Let_def
  by (auto split: sum.split option.split QuotaDecision.split prod.split dest: evolve_tx)

lemma evolve_handled:
  "handle_remember_durable ops e ep emb p w = (r1, w') \<Longrightarrow> tables_evolve (wdb w) (wdb w')"
  "handle_remember_batch_durable ops e items p w = (r2, w') \<Longrightarrow> tables_evolve (wdb w) (wdb w')"
  "handle_update_durable ops e mid raw emb p w = (r3, w') \<Longrightarrow> tables_evolve (wdb w) (wdb w')"
  "handle_memory_review e mid state nt p w = (r4, w') \<Longrightarrow> tables_evolve (wdb w) (wdb w')"
  "handle_forget ops e mid reason p w = (r5, w') \<Longrightarrow> tables_evolve (wdb w) (wdb w')"
  "handle_ingest_document_durable ops e path cfg p w = (r6, w') \<Longrightarrow> tables_evolve (wdb w) (wdb w')"
  "handle_forget_document ops e did p w = (r7, w') \<Longrightarrow> tables_evolve (wdb w) (wdb w')"
  by (metis evolve_handlers snd_conv)+

lemma dispatch_evolves: "tables_evolve (wdb w) (wdb (snd (dispatch ops e cmd w)))"
  by (cases cmd)
    (auto simp: dispatch_def dispatch_remember_def dispatch_remember_batch_def dispatch_update_def dispatch_review_def
      dispatch_forget_def dispatch_ingest_document_def dispatch_forget_document_def dispatch_simple_def
      split: sum.split prod.split dest: evolve_handled)

lemma run_evolves: "tables_evolve (wdb w) (wdb (snd (run ops cmds w)))"
proof (induction ops cmds w rule: run.induct)
  case (2 ops e cmd rest w)
  then show ?case
    using dispatch_evolves [of w ops e cmd] by (auto simp: Let_def split: prod.split intro: evolve_trans)
qed simp

end
