(* ===== verification/RecallProps.thy ===== *)
theory RecallProps
  imports Recall Visibility WriterProps
begin

text \<open>
  What a recall returns, alone and after the writer's commands.
\<close>

section \<open>The ranked list\<close>

lemma decode_hits_rows: "fst ` set (decode_hits kind hits) = {r. (kind, r) \<in> decode_hnsw_id ` fst ` set hits}"
proof -
  have "fst ` set (List.map_filter (\<lambda>(rank, i, score).
       case decode_hnsw_id i of (k, rowid) \<Rightarrow> if k = kind then Some (rowid, score, rank) else None)
       (List.enumerate n hits)) = {r. (kind, r) \<in> decode_hnsw_id ` fst ` set hits}" for n
  proof (induction hits arbitrary: n)
    case (Cons h hs)
    show ?case
      using Cons [of "Suc n"] by (cases h; cases "decode_hnsw_id (fst h)") (auto simp: List.map_filter_simps)
  qed (simp add: List.map_filter_def)
  then show ?thesis by (simp add: decode_hits_def)
qed

lemma length_decode_hits: "length (decode_hits kind hits) \<le> length hits"
proof -
  have "length (List.map_filter f (List.enumerate n hits)) \<le> length hits" for f :: "nat \<times> i64 \<times> f32 \<Rightarrow> 'x option" and n
    by (metis length_enumerate length_map length_filter_le List.map_filter_def)
  then show ?thesis by (simp add: decode_hits_def)
qed

lemma length_merge_rowids: "length (merge_rowids vcs lxs) \<le> length vcs + length lxs"
proof -
  have "length (merge_rowids vcs lxs) = card (fst ` set vcs \<union> fst ` set lxs)"
    by (metis distinct_card merge_rowids_distinct merge_rowids_set)
  also have "\<dots> \<le> card (fst ` set vcs) + card (fst ` set lxs)" by (rule card_Un_le)
  also have "\<dots> \<le> length vcs + length lxs"
    by (meson add_mono card_image_le card_length finite_set le_trans)
  finally show ?thesis .
qed

definition ranked_hits ::
  "query_env \<Rightarrow> db \<Rightarrow> string \<Rightarrow> SemanticCandidates \<Rightarrow> (i64 \<times> f32 \<times> nat) list \<Rightarrow> RecallHit list" where
  "ranked_hits q d2 query sem lxs =
     (let vcs = decode_hits Episode (sm_hits sem) in
      sort_key recall_order (recall_hits q query
        (filter (\<lambda>r. row_i64 r \<in> set (merge_rowids vcs lxs)) (episodes d2)) vcs lxs))"

lemma run_recall_cases:
  assumes "run_recall_inner q ops idx n d1 d2 query limit = Inr res"
  obtains sem lxs where
    "semantic_candidates q ops idx query (recall_candidate_limit (max 1 (min 100 limit))) = Inr sem"
    "fetch_lexical_episode_hits q d1 query (recall_candidate_limit (max 1 (min 100 limit))) = Inr lxs"
    "rr_hits res = take (max 1 (min 100 limit)) (ranked_hits q d2 query sem lxs)"
    "rr_candidates_considered res = length (sm_hits sem) + length lxs"
    "rr_retrieval_mode res = sm_mode sem" "rr_warning res = sm_warning sem"
proof -
  let ?L = "max 1 (min 100 limit)"
  from assms obtain sem lxs where s: "semantic_candidates q ops idx query (recall_candidate_limit ?L) = Inr sem"
    "fetch_lexical_episode_hits q d1 query (recall_candidate_limit ?L) = Inr lxs"
    by (auto simp: run_recall_inner_def Let_def result_simps split: if_splits)
  let ?vcs = "decode_hits Episode (sm_hits sem)"
  show ?thesis
  proof (rule that [OF s])
    show "rr_hits res = take ?L (ranked_hits q d2 query sem lxs)"
    proof (cases "merge_rowids ?vcs lxs = []")
      case True
      then have "?vcs = [] \<and> lxs = []" using merge_rowids_set [of ?vcs lxs] by simp
      then show ?thesis using assms s True
        by (auto simp: run_recall_inner_def Let_def ranked_hits_def recall_hits_def List.map_filter_def split: if_splits)
    next
      case False
      then have "\<not> (?vcs = [] \<and> lxs = [])" by (auto simp: merge_rowids_def)
      then show ?thesis using assms s False
        by (auto simp: run_recall_inner_def Let_def ranked_hits_def fetch_episodes_by_rowid_def result_simps split: if_splits)
    qed
    show "rr_candidates_considered res = length (sm_hits sem) + length lxs"
      "rr_retrieval_mode res = sm_mode sem" "rr_warning res = sm_warning sem"
      using assms s by (auto simp: run_recall_inner_def Let_def result_simps split: if_splits)
  qed
qed

lemma recall_hit_sel [simp]: "rh_rowid (recall_hit q query row v l) = row_i64 row"
  "rh_memory_id (recall_hit q query row v l) = er_memory_id row" "rh_content (recall_hit q query row v l) = er_content row"
  by (simp_all add: recall_hit_def Let_def)

lemma recall_hits_rows:
  assumes "h \<in> set (recall_hits q query (filter P (episodes d)) vcs lxs)"
  shows "\<exists>r \<in> set (episodes d). er_status r = Active \<and> rh_memory_id h = er_memory_id r \<and> rh_content h = er_content r"
proof -
  from assms obtain i r where r: "map_of (rev (map (\<lambda>r. (row_i64 r, r)) (filter P (episodes d)))) i = Some r"
    "er_status r = Active" "h = recall_hit q query r (rank_map vcs i) (rank_map lxs i)"
    by (auto simp: recall_hits_def List.map_filter_def split: option.splits if_splits)
  then have "r \<in> set (episodes d)" by (auto dest!: map_of_SomeD)
  then show ?thesis using r by auto
qed

lemma recall_hits_set:
  assumes "wf_db d" "rowids_fit d"
  shows "set (recall_hits q query (filter (\<lambda>r. row_i64 r \<in> set (merge_rowids vcs lxs)) (episodes d)) vcs lxs) =
      (\<lambda>r. recall_hit q query r (rank_map vcs (row_i64 r)) (rank_map lxs (row_i64 r))) `
        {r \<in> set (episodes d). er_status r = Active \<and> row_i64 r \<in> fst ` set vcs \<union> fst ` set lxs}"
    (is "set ?hits = ?f ` ?R")
    "distinct (map rh_rowid (recall_hits q query (filter (\<lambda>r. row_i64 r \<in> set (merge_rowids vcs lxs)) (episodes d)) vcs lxs))"
proof -
  let ?g = "\<lambda>rowid. case map_of (rev (map (\<lambda>r. (row_i64 r, r)) (filter (\<lambda>r. row_i64 r \<in> set (merge_rowids vcs lxs)) (episodes d)))) rowid of
         None \<Rightarrow> None
       | Some row \<Rightarrow> if er_status row \<noteq> Active then None
                     else Some (recall_hit q query row (rank_map vcs rowid) (rank_map lxs rowid))"
  have g: "?g i = Some h \<longleftrightarrow> (\<exists>r \<in> set (episodes d). row_i64 r = i \<and> i \<in> set (merge_rowids vcs lxs) \<and> er_status r = Active \<and> h = ?f r)"
    for i h
  proof -
    let ?m = "map_of (rev (map (\<lambda>r. (row_i64 r, r)) (filter (\<lambda>r. row_i64 r \<in> set (merge_rowids vcs lxs)) (episodes d)))) i"
    note lk = row_lookup [OF assms, of "set (merge_rowids vcs lxs)" i]
    show ?thesis
    proof (cases ?m)
      case None
      then have "\<not> (r \<in> set (episodes d) \<and> row_i64 r = i \<and> i \<in> set (merge_rowids vcs lxs))" for r
        using lk [of r] by simp
      then show ?thesis using None by auto
    next
      case (Some r)
      then have "r' = r \<longleftrightarrow> r' \<in> set (episodes d) \<and> row_i64 r' = i \<and> i \<in> set (merge_rowids vcs lxs)" for r'
        using lk [of r'] by auto
      then have "(\<exists>r' \<in> set (episodes d). row_i64 r' = i \<and> i \<in> set (merge_rowids vcs lxs) \<and> er_status r' = Active \<and> h = ?f r') \<longleftrightarrow>
          er_status r = Active \<and> h = ?f r" and "row_i64 r = i" by metis+
      then show ?thesis using Some by auto
    qed
  qed
  have eq: "?hits = List.map_filter ?g (merge_rowids vcs lxs)" by (simp add: recall_hits_def)
  have "h \<in> set ?hits \<longleftrightarrow> (\<exists>i \<in> set (merge_rowids vcs lxs). ?g i = Some h)" for h
    unfolding eq List.map_filter_def by force
  moreover have "(\<exists>i \<in> set (merge_rowids vcs lxs). \<exists>r \<in> set (episodes d). row_i64 r = i \<and> i \<in> set (merge_rowids vcs lxs) \<and>
      er_status r = Active \<and> h = ?f r) \<longleftrightarrow> h \<in> ?f ` ?R" for h
    by (auto simp: merge_rowids_set)
  ultimately have "h \<in> set ?hits \<longleftrightarrow> h \<in> ?f ` ?R" for h by (simp only: g)
  then show "set ?hits = ?f ` ?R" by blast
  show "distinct (map rh_rowid ?hits)"
    unfolding eq by (rule distinct_map_filter_inj [where h = "\<lambda>i. i"]) (auto simp: merge_rowids_distinct g)
qed

section \<open>Properties\<close>

text \<open>
  C10: a recall returns the best of its candidates and nothing else. Its hits are the first
  \<open>limit\<close> (from 1 to 100) of a list that is sorted by the fused score, then the distance, then the
  rowid, that names no memory twice, and that holds exactly the active episodes, as the tables
  have them when the rows are fetched, whose row the vector search or the keyword search found.
\<close>

theorem recall_ranking:
  assumes "run_recall_inner q ops idx n d1 d2 query limit = Inr res" "wf_db d2" "rowids_fit d2"
  shows "\<exists>sem lxs ranked.
     semantic_candidates q ops idx query (recall_candidate_limit (max 1 (min 100 limit))) = Inr sem \<and>
     fetch_lexical_episode_hits q d1 query (recall_candidate_limit (max 1 (min 100 limit))) = Inr lxs \<and>
     rr_hits res = take (max 1 (min 100 limit)) ranked \<and>
     sorted (map recall_order ranked) \<and> distinct (map rh_rowid ranked) \<and>
     set ranked =
       (\<lambda>r. recall_hit q query r (rank_map (decode_hits Episode (sm_hits sem)) (row_i64 r)) (rank_map lxs (row_i64 r))) `
       {r \<in> set (episodes d2). er_status r = Active \<and>
          ((Episode, row_i64 r) \<in> decode_hnsw_id ` fst ` set (sm_hits sem) \<or> row_i64 r \<in> fst ` set lxs)}"
proof -
  obtain sem lxs where s: "semantic_candidates q ops idx query (recall_candidate_limit (max 1 (min 100 limit))) = Inr sem"
    "fetch_lexical_episode_hits q d1 query (recall_candidate_limit (max 1 (min 100 limit))) = Inr lxs"
    "rr_hits res = take (max 1 (min 100 limit)) (ranked_hits q d2 query sem lxs)"
    using run_recall_cases [OF assms(1)] by metis
  let ?vcs = "decode_hits Episode (sm_hits sem)"
  have "row_i64 r \<in> fst ` set ?vcs \<longleftrightarrow> (Episode, row_i64 r) \<in> decode_hnsw_id ` fst ` set (sm_hits sem)" for r
    by (simp add: decode_hits_rows)
  then have R: "{r \<in> set (episodes d2). er_status r = Active \<and> row_i64 r \<in> fst ` set ?vcs \<union> fst ` set lxs} =
      {r \<in> set (episodes d2). er_status r = Active \<and>
          ((Episode, row_i64 r) \<in> decode_hnsw_id ` fst ` set (sm_hits sem) \<or> row_i64 r \<in> fst ` set lxs)}"
    by auto
  have "sorted (map recall_order (ranked_hits q d2 query sem lxs))" by (simp add: ranked_hits_def Let_def)
  moreover have "distinct (map rh_rowid (ranked_hits q d2 query sem lxs))"
    using recall_hits_set(2) [OF assms(2,3), of q query ?vcs lxs] by (simp add: ranked_hits_def Let_def distinct_map)
  moreover note recall_hits_set(1) [OF assms(2,3), of q query ?vcs lxs, unfolded R]
  ultimately show ?thesis 
    using s by (intro exI [of _ sem] exI [of _ lxs] exI [of _ "ranked_hits q d2 query sem lxs"] conjI)
      (simp_all add: ranked_hits_def Let_def)
qed

text \<open>
  A query outlives its embedder. When the embedder fails or does not answer in time, a recall
  whose reads succeed still returns, says so in its mode and its warning, and every hit comes
  from the keyword search; an index error is not hidden this way, and an empty query is refused
  before anything is asked.
\<close>

theorem recall_degrades:
  "(trim query = [] \<longrightarrow> run_recall_inner q ops idx n d1 d2 query limit = Inl InvalidInput) \<and>
   (trim query \<noteq> [] \<and> (embed q query = None \<or> (\<exists>e. embed q query = Some (Inl e))) \<and> \<not> read_fails q 0 \<and> \<not> read_fails q 1 \<longrightarrow>
     (\<exists>res. run_recall_inner q ops idx n d1 d2 query limit = Inr res \<and> rr_retrieval_mode res = LexicalOnly \<and>
        rr_warning res \<noteq> None \<and> rh_vector_rank ` set (rr_hits res) \<subseteq> {None})) \<and>
   (trim query \<noteq> [] \<and> embed q query = Some (Inr emb) \<and> as_f32_slice (q_aligned q) emb = Some v \<and>
     vi_search ops idx v (recall_candidate_limit (max 1 (min 100 limit))) = Inl er \<longrightarrow>
     run_recall_inner q ops idx n d1 d2 query limit = Inl er)"
proof (intro conjI impI)
  let ?L = "max 1 (min 100 limit)"
  show "run_recall_inner q ops idx n d1 d2 query limit = Inl InvalidInput" if "trim query = []"
    using that by (simp add: run_recall_inner_def)
  show "run_recall_inner q ops idx n d1 d2 query limit = Inl er"
    if "trim query \<noteq> [] \<and> embed q query = Some (Inr emb) \<and> as_f32_slice (q_aligned q) emb = Some v \<and>
      vi_search ops idx v (recall_candidate_limit ?L) = Inl er"
    using that by (simp add: run_recall_inner_def Let_def semantic_candidates_def)
  assume a: "trim query \<noteq> [] \<and> (embed q query = None \<or> (\<exists>e. embed q query = Some (Inl e))) \<and> \<not> read_fails q 0 \<and> \<not> read_fails q 1"
  then obtain w where sem: "semantic_candidates q ops idx query k = Inr \<lparr>sm_hits = [], sm_mode = LexicalOnly, sm_warning = Some w\<rparr>" for k
    by (auto simp: semantic_candidates_def split: option.split)
  obtain lxs where lxs: "fetch_lexical_episode_hits q d1 query (recall_candidate_limit ?L) = Inr lxs"
    using a by (cases "build_fts_query q query") (auto simp: fetch_lexical_episode_hits_def)
  have none: "decode_hits Episode [] = []" by (simp add: decode_hits_def List.map_filter_def)
  have "rank_map [] i = None" for i by (simp add: rank_map_def)
  then have "rh_vector_rank h = None" if "h \<in> set (recall_hits q query rows [] lxs)" for h rows
    using that by (auto simp: recall_hits_def List.map_filter_def recall_hit_def Let_def split: option.splits if_splits)
  then show "\<exists>res. run_recall_inner q ops idx n d1 d2 query limit = Inr res \<and> rr_retrieval_mode res = LexicalOnly \<and>
        rr_warning res \<noteq> None \<and> rh_vector_rank ` set (rr_hits res) \<subseteq> {None}"
    using a lxs by (auto simp: run_recall_inner_def Let_def sem none fetch_episodes_by_rowid_def dest!: in_set_takeD)
qed

lemma forget_gone:
  assumes "dispatch_forget ops e mid reason p w = (Inr (), w1)"
  shows "gone er_memory_id er_status mid (episodes (wdb w1))"
proof -
  obtain row d where row: "find_episode (wdb w) mid = Some row" "forget_tx e p mid reason (wdb w) = Inr d" "episodes (wdb w1) = episodes d"
    using assms by (auto simp: dispatch_forget_def dispatch_simple_def handle_forget_def emit_invalidate_frame result_simps
        split: sum.splits prod.splits)
  let ?f = "\<lambda>r. if er_status r = Forgotten then r else r\<lparr>er_status := Forgotten, er_updated_at_ms := now_ms e\<rparr>"
  have eps: "episodes (wdb w1) = map (\<lambda>r. if er_memory_id r = mid then ?f r else r) (episodes (wdb w))"
    using row(2,3) by (auto simp: forget_tx_def result_simps update_episode_def)
  have "row \<in> set (episodes (wdb w))" "er_memory_id row = mid" using find_episode_Some [OF row(1)] by simp_all
  moreover have "map er_memory_id (episodes (wdb w1)) = map er_memory_id (episodes (wdb w))"
    unfolding eps map_map by (rule map_cong [OF refl]) (simp split: if_split)
  ultimately have "mid \<in> er_memory_id ` set (episodes (wdb w1))" by (metis image_eqI list.set_map)
  moreover have "er_status r = Forgotten" if r: "r \<in> set (episodes (wdb w1))" "er_memory_id r = mid" for r
  proof -
    obtain r0 where "r = (if er_memory_id r0 = mid then ?f r0 else r0)" using r(1) unfolding eps by (auto simp only: set_map)
    then show ?thesis using r(2) by (simp split: if_split_asm)
  qed
  ultimately show ?thesis by (simp add: gone_def)
qed

text \<open>
  C6: a forgotten memory is never recalled again. After a forget that succeeded, and whatever
  commands follow it, a recall that fetches its rows then does not return the memory, whatever
  the index, the keyword search and the embedder answered, even if they were asked before.
\<close>

theorem forgotten_is_never_recalled:
  assumes "dispatch_forget ops e mid reason p w = (Inr (), w1)"
    and "run ops cmds w1 = (replies, w2)"
    and "run_recall_inner q rops idx n d1 (wdb w2) query limit = Inr res"
  shows "mid \<notin> rh_memory_id ` set (rr_hits res)"
proof
  have "tables_evolve (wdb w1) (wdb w2)" using run_evolves [of w1 ops cmds] assms(2) by simp
  then have g: "gone er_memory_id er_status mid (episodes (wdb w2))"
    using gone_evolves [OF forget_gone [OF assms(1)]] by (simp add: tables_evolve_def)
  assume "mid \<in> rh_memory_id ` set (rr_hits res)"
  then obtain h sem lxs where "h \<in> set (ranked_hits q (wdb w2) query sem lxs)" "rh_memory_id h = mid"
    using run_recall_cases [OF assms(3)] by (metis (no_types, lifting) imageE in_set_takeD)
  then obtain r where "r \<in> set (episodes (wdb w2))" "er_status r = Active" "er_memory_id r = mid"
    using recall_hits_rows unfolding ranked_hits_def Let_def by (metis set_sort)
  then show False using g by (simp add: gone_def)
qed

text \<open>
  C7: what was remembered can be recalled. After a remember that succeeded, a recall to which the
  vector search or the keyword search gives the new row, among no more candidates than the limit,
  returns the memory with its redacted text.
\<close>

theorem remembered_is_recalled:
  assumes "dispatch_remember (hnsw_vindex lib) e ep emb p w = (Inr mid, w1)" "wf_db (wdb w1)" "rowids_fit (wdb w1)"
    and "run_recall_inner q ops idx n d1 (wdb w1) query limit = Inr res"
    and "semantic_candidates q ops idx query (recall_candidate_limit (max 1 (min 100 limit))) = Inr sem"
    and "fetch_lexical_episode_hits q d1 query (recall_candidate_limit (max 1 (min 100 limit))) = Inr lxs"
    and "\<And>row. row \<in> set (episodes (wdb w1)) \<Longrightarrow> er_memory_id row = mid \<Longrightarrow>
          ep_id row \<in> fst ` set (sm_hits sem) \<or> row_i64 row \<in> fst ` set lxs"
    and "rr_candidates_considered res \<le> max 1 (min 100 limit)"
  shows "\<exists>h \<in> set (rr_hits res). rh_memory_id h = mid \<and> rh_content h = fst (redact w (content ep))"
proof -
  obtain row where row: "row \<in> set (episodes (wdb w1))" "er_memory_id row = mid" "er_status row = Active"
    "er_content row = fst (redact w (content ep))"
    using remember_stored [OF assms(1)] by blast
  have s: "rr_hits res = take (max 1 (min 100 limit)) (ranked_hits q (wdb w1) query sem lxs)"
    "rr_candidates_considered res = length (sm_hits sem) + length lxs"
    using run_recall_cases [OF assms(4)] assms(5,6) by (metis sum.inject(2))+
  let ?vcs = "decode_hits Episode (sm_hits sem)"
  have "length (ranked_hits q (wdb w1) query sem lxs) \<le> length (merge_rowids ?vcs lxs)"
    unfolding ranked_hits_def Let_def recall_hits_def List.map_filter_def
    by (simp add: length_filter_le)
  also have "\<dots> \<le> length (sm_hits sem) + length lxs"
    using length_merge_rowids [of ?vcs lxs] length_decode_hits [of Episode "sm_hits sem"] by linarith
  finally have all: "rr_hits res = ranked_hits q (wdb w1) query sem lxs" using s assms(8) by simp
  have "\<not> bit (row_i64 row) 62" using row(1) assms(2,3) of_nat_bit62 by (auto simp: row_i64_def wf_db_def rowids_fit_def)
  then have "decode_hnsw_id (ep_id row) = (Episode, row_i64 row)"
    by (simp add: ep_id_def row_i64_def decode_episode)
  then have "ep_id row \<in> fst ` set (sm_hits sem) \<Longrightarrow> (Episode, row_i64 row) \<in> decode_hnsw_id ` fst ` set (sm_hits sem)"
    by (metis image_eqI)
  then have "row_i64 row \<in> fst ` set ?vcs \<union> fst ` set lxs"
    using assms(7) [OF row(1,2)] unfolding decode_hits_rows by blast
  then have "recall_hit q query row (rank_map ?vcs (row_i64 row)) (rank_map lxs (row_i64 row)) \<in> set (rr_hits res)"
    using recall_hits_set(1) [OF assms(2,3), of q query ?vcs lxs] row(1,3) by (simp add: all ranked_hits_def Let_def)
  then show ?thesis using row by (force intro: bexI [rotated])
qed

section \<open>A small world\<close>

definition sample_query :: query_env where
  "sample_query =
     \<lparr>embed = (\<lambda>_. Some (Inr sample_embedding)), q_aligned = (\<lambda>_. True), episodes_match = (\<lambda>_ _. []),
      chunks_match = (\<lambda>_ _. []), read_fails = (\<lambda>_. False), q_now_ms = 5000, lower = to_ascii_lowercase,
      wide_alnum = (\<lambda>_. False)\<rparr>"

definition sample_near :: episode_row where
  "sample_near = remember_row sample_env None ''near'' (sample_episode\<lparr>memory_id := 5, tier := Cold\<rparr>) 1"

definition sample_far :: episode_row where
  "sample_far = remember_row sample_env None ''far''
     (sample_episode\<lparr>memory_id := 6, salience := 0x3F800000, strength := 0x3F800000\<rparr>) 2"

definition sample_rows :: db where
  "sample_rows = empty_db\<lparr>episodes := [sample_near, sample_far], ep_seq := 2\<rparr>"

text \<open>The distances of the two points are 0.1 and 0.9.\<close>

definition sample_flib :: "f32 hnsw_rs" where
  "sample_flib =
     \<lparr>get_nb_point = length,
      graph_search = (\<lambda>g q k ef. take k (map (\<lambda>x. (fst x, if fst x = 1 then 0x3DCCCCCD else 0x3F666666)) g))\<rparr>"

definition sample_index :: HnswIndex where
  "sample_index = \<lparr>inner = [(1, [0]), (2, [0])], hdim = 1, tombstones = {}\<rparr>"

definition sample_recall :: "RecallResult result" where
  "sample_recall = run_recall_inner sample_query (hnsw_vindex sample_flib) sample_index 2 sample_rows sample_rows ''hi'' 5"

lemma sample_candidates:
  "semantic_candidates sample_query (hnsw_vindex sample_flib) sample_index ''hi'' 20 =
     Inr \<lparr>sm_hits = [(1, 0x3DCCCCCD), (2, 0x3F666666)], sm_mode = Hybrid, sm_warning = None\<rparr>"
  by (simp add: semantic_candidates_def sample_query_def as_f32_slice_def sample_embedding_def cast_f32_def hnsw_search_def
      sample_index_def Let_def sample_flib_def)

lemma sample_terms: "trim ''hi'' \<noteq> []" "build_fts_query sample_query ''hi'' = Some [CHR 0x22, CHR ''h'', CHR ''i'', CHR 0x22]"
  by code_simp+

lemma sample_lexical: "fetch_lexical_episode_hits sample_query d ''hi'' k = Inr []"
  by (simp add: fetch_lexical_episode_hits_def sample_terms) (simp add: sample_query_def rank_rows_def)

lemma sample_limit: "recall_candidate_limit (max 1 (min 100 5)) = 20"
  by (simp add: recall_candidate_limit_def sat_mul_u64_def u64_max_def)

lemma sample_decoded: "decode_hits Episode [(1, 0x3DCCCCCD), (2, 0x3F666666)] = [(1, 0x3DCCCCCD, 1), (2, 0x3F666666, 2)]"
  by (simp add: decode_hits_def List.map_filter_def decode_hnsw_id_def HNSW_CHUNK_BIT_def)

lemma sample_fusion:
  "reciprocal_rank_fusion (Some 1) None = 0x3C864B8A" "reciprocal_rank_fusion (Some 2) None = 0x3C842108"
proof -
  have "f32_of_nat 1 = 0x3F800000" "f32_of_nat 2 = 0x40000000" by (simp_all add: f32_eval)
  moreover have "f32_lit 60 0 = 0x42700000" "f32_lit 1 0 = 0x3F800000" "f32_lit 0 0 = 0" by (simp_all add: f32_eval)
  moreover have "f32_add 0x42700000 0x3F800000 = 0x42740000" "f32_add 0x42700000 0x40000000 = 0x42780000" by (simp_all add: f32_eval)
  moreover have "f32_div 0x3F800000 0x42740000 = 0x3C864B8A" "f32_div 0x3F800000 0x42780000 = 0x3C842108" by (simp_all add: f32_eval)
  moreover have "f32_add 0x3C864B8A 0 = 0x3C864B8A" "f32_add 0x3C842108 0 = 0x3C842108" by (simp_all add: f32_eval)
  ultimately show "reciprocal_rank_fusion (Some 1) None = 0x3C864B8A" "reciprocal_rank_fusion (Some 2) None = 0x3C842108"
    by (simp_all only: reciprocal_rank_fusion_def rrf_part.simps)
qed

lemma sample_boosts:
  "score_components sample_query ''hi'' sample_near (Some 1) None =
     \<lparr>rrf_score = 0x3C864B8A, salience_boost = 0, strength_boost = 0, tier_boost = 0, recency_boost = 0x3BC49BA6, encoding_context_boost = 0\<rparr>"
  "score_components sample_query ''hi'' sample_far (Some 2) None =
     \<lparr>rrf_score = 0x3C842108, salience_boost = 0x3C449BA6, strength_boost = 0x3C03126F, tier_boost = 0x3BC49BA6, recency_boost = 0x3BC49BA6,
      encoding_context_boost = 0\<rparr>"
proof -
  have c: "context_boost sample_query ''hi'' ''{}'' = 0" by code_simp
  have t: "recency_boost_at 5000 900 = 0x3BC49BA6" by (simp add: recency_boost_at_def sat_sub_i64_def i64_min_def i64_max_def f32_eval)
  have n: "f32_lit 0 0 = 0" "f32_lit 1 0 = 0x3F800000" "f32_lit 12 3 = 0x3C449BA6" "f32_lit 8 3 = 0x3C03126F" "f32_lit 6 3 = 0x3BC49BA6"
    by (simp_all add: f32_eval)
  have k: "f32_clamp 0 0x3F800000 0 = 0" "f32_clamp 0 0x3F800000 0x3F800000 = 0x3F800000" by (simp_all add: f32_eval)
  have m: "f32_mul 0 0x3C449BA6 = 0" "f32_mul 0 0x3C03126F = 0" "f32_mul 0x3F800000 0x3C449BA6 = 0x3C449BA6"
    "f32_mul 0x3F800000 0x3C03126F = 0x3C03126F"
    by (simp_all add: f32_eval)
  have q: "q_now_ms sample_query = 5000" by (simp add: sample_query_def)
  show "score_components sample_query ''hi'' sample_near (Some 1) None =
     \<lparr>rrf_score = 0x3C864B8A, salience_boost = 0, strength_boost = 0, tier_boost = 0, recency_boost = 0x3BC49BA6, encoding_context_boost = 0\<rparr>"
    using c t sample_fusion by (simp del: One_nat_def add: n k m score_components_def sample_near_def remember_row_def sample_episode_def q)
  show "score_components sample_query ''hi'' sample_far (Some 2) None =
     \<lparr>rrf_score = 0x3C842108, salience_boost = 0x3C449BA6, strength_boost = 0x3C03126F, tier_boost = 0x3BC49BA6, recency_boost = 0x3BC49BA6,
      encoding_context_boost = 0\<rparr>"
    using c t sample_fusion by (simp del: One_nat_def add: n k m score_components_def sample_far_def remember_row_def sample_episode_def q)
qed

lemma sample_totals:
  "total_key (score_total \<lparr>rrf_score = 0x3C864B8A, salience_boost = 0, strength_boost = 0, tier_boost = 0, recency_boost = 0x3BC49BA6,
     encoding_context_boost = 0\<rparr>) = 1018655348"
  "total_key (score_total \<lparr>rrf_score = 0x3C842108, salience_boost = 0x3C449BA6, strength_boost = 0x3C03126F, tier_boost = 0x3BC49BA6,
     recency_boost = 0x3BC49BA6, encoding_context_boost = 0\<rparr>) = 1027941107"
  by (simp_all add: score_total_def f32_eval)

lemma sample_rows_wf: "wf_db sample_rows" "rowids_fit sample_rows"
  by (simp_all add: sample_rows_def wf_db_def rowids_fit_def empty_db_def sample_near_def sample_far_def remember_row_def sample_episode_def)

definition near_hit :: RecallHit where
  "near_hit = recall_hit sample_query ''hi'' sample_near (Some (0x3DCCCCCD, 1)) None"

definition far_hit :: RecallHit where
  "far_hit = recall_hit sample_query ''hi'' sample_far (Some (0x3F666666, 2)) None"

lemma sample_row_ids [simp]: "row_i64 sample_near = 1" "row_i64 sample_far = 2" "er_status sample_near = Active" "er_status sample_far = Active"
  "er_memory_id sample_near = 5" "er_memory_id sample_far = 6" "episodes sample_rows = [sample_near, sample_far]"
  by (simp_all add: row_i64_def sample_near_def sample_far_def remember_row_def sample_rows_def sample_episode_def)

lemma sample_hits: "recall_hits sample_query ''hi'' [sample_near, sample_far] [(1, 0x3DCCCCCD, 1), (2, 0x3F666666, 2)] [] = [near_hit, far_hit]"
  by (simp add: recall_hits_def merge_rowids_def List.map_filter_def near_hit_def far_hit_def rank_map_def)

lemma sample_keys: "recall_order near_hit = (- 1018655348, total_key 0x3DCCCCCD, 1)" "recall_order far_hit = (- 1027941107, total_key 0x3F666666, 2)"
  by (simp_all add: recall_order_def near_hit_def far_hit_def recall_hit_def Let_def sample_boosts sample_totals del: One_nat_def)

lemma sample_recall_eq:
  "sample_recall = Inr \<lparr>rr_hits = [far_hit, near_hit], rr_index_len = 2, rr_candidates_considered = 2, rr_retrieval_mode = Hybrid, rr_warning = None\<rparr>"
proof -
  have m: "set (merge_rowids [(1, 0x3DCCCCCD, 1), (2, 0x3F666666, 2)] []) = {1, 2}" by (simp add: merge_rowids_set)
  then have "merge_rowids [(1, 0x3DCCCCCD, 1), (2, 0x3F666666, 2)] [] \<noteq> []" by auto
  then have "fetch_episodes_by_rowid sample_query sample_rows (merge_rowids [(1, 0x3DCCCCCD, 1), (2, 0x3F666666, 2)] []) = Inr [sample_near, sample_far]"
    by (simp add: fetch_episodes_by_rowid_def m del: One_nat_def) (simp add: sample_query_def)
  moreover have "sort_key recall_order [near_hit, far_hit] = [far_hit, near_hit]" by (simp add: sample_keys)
  ultimately show ?thesis
    unfolding sample_recall_def run_recall_inner_def sample_limit Let_def
    by (simp add: sample_terms sample_candidates sample_lexical sample_decoded sample_hits del: One_nat_def)
qed

theorem recall_ranking_witness:
  "\<exists>res. sample_recall = Inr res \<and> sorted (map recall_order (rr_hits res)) \<and> length (rr_hits res) = 2"
proof -
  obtain res where res: "sample_recall = Inr res" "length (rr_hits res) = 2"
    by (simp add: sample_recall_eq)
  then have "sorted (map recall_order (rr_hits res))"
    using recall_ranking [OF res(1) [unfolded sample_recall_def] sample_rows_wf]
    by (metis sorted_wrt_take take_map)
  then show ?thesis using res by blast
qed

theorem recall_degrades_witness:
  "\<exists>res. run_recall_inner (sample_query\<lparr>embed := \<lambda>_. None\<rparr>) (hnsw_vindex sample_flib) sample_index 2 sample_rows sample_rows ''hi'' 5 = Inr res \<and>
     rr_retrieval_mode res = LexicalOnly"
proof -
  have "trim ''hi'' \<noteq> []" by code_simp
  then show ?thesis
    using recall_degrades [of "''hi''" "sample_query\<lparr>embed := \<lambda>_. None\<rparr>" "hnsw_vindex sample_flib" sample_index 2 sample_rows sample_rows 5]
    by (auto simp: sample_query_def)
qed

text \<open>
  Recall does not order its hits by distance. The comments say that the most similar memory
  comes first; the code sorts by a score whose boosts, up to 0.032 for salience, strength, tier
  and age, outweigh any difference of rank, which is at most 1/61: a memory at distance 0.9 comes before
  one at distance 0.1.
\<close>

theorem recall_order_is_not_distance:
  "\<exists>res. run_recall_inner sample_query (hnsw_vindex sample_flib) sample_index 2 sample_rows sample_rows ''hi'' 5 = Inr res \<and>
     map rh_cos_distance (rr_hits res) = [0x3F666666, 0x3DCCCCCD] \<and> f32_lt 0x3DCCCCCD 0x3F666666"
proof -
  have "f32_lt 0x3DCCCCCD 0x3F666666" by (simp add: f32_eval)
  then show ?thesis
    using sample_recall_eq unfolding sample_recall_def by (simp add: near_hit_def far_hit_def recall_hit_def Let_def)
qed

lemma sample_search:
  assumes "k > 0"
  shows "semantic_candidates sample_query (hnsw_vindex sample_flib) (hnsw sample_after) ''hi'' k =
    Inr \<lparr>sm_hits = [(1, 0x3DCCCCCD)], sm_mode = Hybrid, sm_warning = None\<rparr>"
proof -
  obtain k' where "k = Suc k'" using assms by (cases k) auto
  then show ?thesis
    by (simp add: semantic_candidates_def sample_query_def as_f32_slice_def sample_embedding_def cast_f32_def hnsw_search_def
        sample_after_eq Let_def sample_flib_def min_def)
qed

lemma sample_run:
  "\<exists>res. run_recall_inner sample_query (hnsw_vindex sample_flib) (hnsw sample_after) 1 d1 d2 ''hi'' 5 = Inr res \<and>
     rr_candidates_considered res = 1"
  using sample_search [of 20] sample_lexical [of d1 20] sample_terms(1) sample_limit
  by (auto simp: run_recall_inner_def Let_def fetch_episodes_by_rowid_def) (simp_all add: sample_query_def)

theorem forgotten_is_never_recalled_witness:
  "\<exists>w1 res. dispatch_forget sample_ops sample_env 5 ''old'' None sample_after = (Inr (), w1) \<and>
     run_recall_inner sample_query (hnsw_vindex sample_flib) (hnsw sample_after) 1 (wdb sample_after) (wdb w1) ''hi'' 5 = Inr res \<and>
     5 \<notin> rh_memory_id ` set (rr_hits res)"
proof -
  have "fst (dispatch_forget sample_ops sample_env 5 ''old'' None sample_after) = Inr ()"
    by (simp add: sample_after_eq dispatch_forget_def dispatch_simple_def handle_forget_def forget_tx_def
        find_episode_def stmt_def sample_env_def empty_db_def remember_row_def sample_episode_def)
  then obtain w1 where w1: "dispatch_forget sample_ops sample_env 5 ''old'' None sample_after = (Inr (), w1)"
    by (metis prod.collapse)
  obtain res where res: "run_recall_inner sample_query (hnsw_vindex sample_flib) (hnsw sample_after) 1 (wdb sample_after) (wdb w1) ''hi'' 5 = Inr res"
    using sample_run by blast
  have "run sample_ops [] w1 = ([], w1)" by simp
  from forgotten_is_never_recalled [OF w1 this res] show ?thesis using w1 res by blast
qed

theorem remembered_is_recalled_witness:
  "\<exists>res. run_recall_inner sample_query (hnsw_vindex sample_flib) (hnsw sample_after) 1 (wdb sample_after) (wdb sample_after) ''hi'' 5 = Inr res \<and>
     5 \<in> rh_memory_id ` set (rr_hits res)"
proof -
  obtain res where res: "run_recall_inner sample_query (hnsw_vindex sample_flib) (hnsw sample_after) 1 (wdb sample_after) (wdb sample_after) ''hi'' 5 = Inr res"
    "rr_candidates_considered res = 1"
    using sample_run by blast
  have stored: "dispatch_remember sample_ops sample_env sample_episode sample_embedding None sample_writer = (Inr 5, sample_after)"
    unfolding sample_after_eq
    by (simp add: dispatch_remember_def handle_remember_durable_def
      remember_tx_def remember_item_def sample_env_def sample_writer_def sample_episode_def
      sample_embedding_def empty_db_def stmt_def insert_episode_def insert_embedding_def
      insert_pending_def redaction_audit_def insert_audit_def remember_row_def embedding_row_of_def
      pending_row_of_def validate_def bytes_for_dim_def bytes_per_element_def check_quota_def
      item_growth_def sat_add_u64_def u64_max_def as_f32_slice_def cast_f32_def hnsw_add_def
      hnsw_new_def episode_hnsw_id_def drain_def delete_pending_def note_remembered_def
      emit_invalidate_def Let_def)
  have "\<exists>h \<in> set (rr_hits res). rh_memory_id h = 5 \<and> rh_content h = fst (redact sample_writer (content sample_episode))"
  proof (rule remembered_is_recalled [OF stored _ _ res(1)])
    show "wf_db (wdb sample_after)" "rowids_fit (wdb sample_after)"
      by (simp_all add: sample_after_eq wf_db_def rowids_fit_def empty_db_def remember_row_def)
    show "semantic_candidates sample_query (hnsw_vindex sample_flib) (hnsw sample_after) ''hi'' (recall_candidate_limit (max 1 (min 100 5))) =
        Inr \<lparr>sm_hits = [(1, 0x3DCCCCCD)], sm_mode = Hybrid, sm_warning = None\<rparr>"
      unfolding sample_limit by (rule sample_search) simp
    show "fetch_lexical_episode_hits sample_query (wdb sample_after) ''hi'' (recall_candidate_limit (max 1 (min 100 5))) = Inr []"
      by (rule sample_lexical)
    show "rr_candidates_considered res \<le> max 1 (min 100 5)" by (simp add: res(2))
    show "ep_id row \<in> fst ` set (sm_hits \<lparr>sm_hits = [(1, 0x3DCCCCCD)], sm_mode = Hybrid, sm_warning = None\<rparr>) \<or> row_i64 row \<in> fst ` set []"
      if "row \<in> set (episodes (wdb sample_after))" for row
      using that by (simp add: sample_after_eq empty_db_def ep_id_def remember_row_def episode_hnsw_id_def)
  qed
  then show ?thesis using res(1) by (metis imageI)
qed

end
