(* ===== verification/DocSearchProps.thy ===== *)
theory DocSearchProps
  imports DocSearch RecallProps
begin

text \<open>
  What a document search finds, alone and after the writer's commands.
\<close>

section \<open>The ranked list\<close>

definition ranked_doc_hits :: "db \<Rightarrow> SemanticCandidates \<Rightarrow> (i64 \<times> f32 \<times> nat) list \<Rightarrow> DocSearchHit list" where
  "ranked_doc_hits d2 sem lxs =
     (let vcs = decode_hits Chunk (sm_hits sem) in
      sort_key doc_order (doc_hits (filter (\<lambda>(c, _). chunk_i64 c \<in> set (merge_rowids vcs lxs)) (active_chunks d2)) vcs lxs))"

lemma run_doc_search_cases:
  assumes "run_doc_search_with_status_inner q ops idx d1 d2 query limit = Inr res"
  obtains sem lxs where
    "semantic_candidates q ops idx query (doc_search_candidate_limit (max 1 (min 100 limit))) = Inr sem"
    "fetch_lexical_chunk_hits q d1 query (doc_search_candidate_limit (max 1 (min 100 limit))) = Inr lxs"
    "ds_hits res = take (max 1 (min 100 limit)) (ranked_doc_hits d2 sem lxs)"
proof -
  let ?L = "max 1 (min 100 limit)"
  from assms obtain sem lxs where s: "semantic_candidates q ops idx query (doc_search_candidate_limit ?L) = Inr sem"
    "fetch_lexical_chunk_hits q d1 query (doc_search_candidate_limit ?L) = Inr lxs"
    by (auto simp: run_doc_search_with_status_inner_def Let_def result_simps split: if_splits)
  let ?vcs = "decode_hits Chunk (sm_hits sem)"
  show ?thesis
  proof (rule that [OF s])
    show "ds_hits res = take ?L (ranked_doc_hits d2 sem lxs)"
    proof (cases "merge_rowids ?vcs lxs = []")
      case True
      then have "?vcs = [] \<and> lxs = []" using merge_rowids_set [of ?vcs lxs] by simp
      then show ?thesis using assms s True
        by (auto simp: run_doc_search_with_status_inner_def Let_def ranked_doc_hits_def doc_hits_def List.map_filter_def
            split: if_splits)
    next
      case False
      then have "\<not> (?vcs = [] \<and> lxs = [])" by (auto simp: merge_rowids_def)
      then show ?thesis using assms s False
        by (auto simp: run_doc_search_with_status_inner_def Let_def ranked_doc_hits_def fetch_chunks_by_rowid_def result_simps
            split: if_splits)
    qed
  qed
qed

lemma active_chunks_set:
  "set (active_chunks d) = {(c, x). c \<in> set (chunks d) \<and> x \<in> set (documents d) \<and> dr_doc_id x = cr_doc_id c \<and> dr_status x = Active}"
  by (auto simp: active_chunks_def)

lemma doc_hits_rows:
  assumes "h \<in> set (doc_hits (filter P (active_chunks d)) vcs lxs)"
  shows "\<exists>c \<in> set (chunks d). \<exists>x \<in> set (documents d). dr_doc_id x = cr_doc_id c \<and> dr_status x = Active \<and>
      dh_doc_id h = dr_doc_id x \<and> dh_content h = cr_content c \<and> chunk_i64 c \<in> fst ` set vcs \<union> fst ` set lxs"
proof -
  from assms obtain i c x where r: "i \<in> set (merge_rowids vcs lxs)"
    "map_of (rev (map (\<lambda>y. (chunk_i64 (fst y), y)) (filter P (active_chunks d)))) i = Some (c, x)"
    "h = doc_hit c x (rank_map vcs i) (rank_map lxs i)"
    by (auto simp: doc_hits_def List.map_filter_def)
  then have "(c, x) \<in> set (active_chunks d)" "chunk_i64 c = i" by (auto dest!: map_of_SomeD)
  then show ?thesis using r(1,3) unfolding active_chunks_set merge_rowids_set
    by (intro bexI [of _ c] bexI [of _ x]) (auto simp: doc_hit_def)
qed

lemma forget_document_gone:
  assumes "dispatch_forget_document ops e did p w = (Inr rep, w1)"
  shows "gone dr_doc_id dr_status did (documents (wdb w1))"
proof -
  obtain row d where row: "find_document (wdb w) did = Some row" "forget_document_tx e p did (wdb w) = Inr d"
    "documents (wdb w1) = documents d"
    using assms by (auto simp: dispatch_forget_document_def dispatch_simple_def handle_forget_document_def emit_invalidate_frame
        result_simps Let_def split: sum.splits prod.splits)
  have docs: "documents (wdb w1) = map (\<lambda>r. if dr_doc_id r = did then r\<lparr>dr_status := Forgotten\<rparr> else r) (documents (wdb w))"
    using row(2,3) by (auto simp: forget_document_tx_def result_simps update_document_def)
  have "row \<in> set (documents (wdb w))" "dr_doc_id row = did"
    using row(1) by (auto simp: find_document_def find_Some_iff)
  then have "did \<in> dr_doc_id ` set (documents (wdb w1))"
    unfolding docs set_map by (intro image_eqI [OF _ imageI [of row]]) simp_all
  moreover have "dr_status r = Forgotten" if r: "r \<in> set (documents (wdb w1))" "dr_doc_id r = did" for r
  proof -
    obtain r0 where "r = (if dr_doc_id r0 = did then r0\<lparr>dr_status := Forgotten\<rparr> else r0)"
      using r(1) unfolding docs by (auto simp only: set_map)
    then show ?thesis using r(2) by (simp split: if_split_asm)
  qed
  ultimately show ?thesis by (simp add: gone_def)
qed

section \<open>Properties\<close>

text \<open>
  C11: a forgotten document is never found again. After a forget that succeeded, and whatever
  commands follow it, a search that fetches its rows then returns no chunk of the document,
  whatever the index, the keyword search and the embedder answered. Every hit is a chunk of
  a document that is active when the rows are fetched.
\<close>

theorem forgotten_document_is_never_found:
  assumes "dispatch_forget_document ops e did p w = (Inr rep, w1)"
    and "run ops cmds w1 = (replies, w2)"
    and "run_doc_search_with_status_inner q rops idx d1 (wdb w2) query limit = Inr res"
  shows "did \<notin> dh_doc_id ` set (ds_hits res) \<and>
    dh_doc_id ` set (ds_hits res) \<subseteq> {dr_doc_id x | x. x \<in> set (documents (wdb w2)) \<and> dr_status x = Active}"
proof -
  have "tables_evolve (wdb w1) (wdb w2)" using run_evolves [of w1 ops cmds] assms(2) by simp
  then have g: "gone dr_doc_id dr_status did (documents (wdb w2))"
    using gone_evolves [OF forget_document_gone [OF assms(1)]] by (simp add: tables_evolve_def)
  have hit: "\<exists>x \<in> set (documents (wdb w2)). dr_status x = Active \<and> dh_doc_id h = dr_doc_id x" if "h \<in> set (ds_hits res)" for h
  proof -
    obtain sem lxs where "ds_hits res = take (max 1 (min 100 limit)) (ranked_doc_hits (wdb w2) sem lxs)"
      by (rule run_doc_search_cases [OF assms(3)])
    then have "h \<in> set (ranked_doc_hits (wdb w2) sem lxs)" using that by (auto dest: in_set_takeD)
    then show ?thesis using doc_hits_rows unfolding ranked_doc_hits_def Let_def by (metis set_sort)
  qed
  have "dh_doc_id h \<noteq> did" if "h \<in> set (ds_hits res)" for h
    using hit [OF that] g by (auto simp: gone_def)
  then show ?thesis using hit by blast
qed

section \<open>A small world\<close>

definition sample_doc_writer :: "HnswIndex writer" where
  "sample_doc_writer = sample_writer\<lparr>wdb := empty_db
     \<lparr>documents := [document_row_of sample_env ''a.txt'' (the (parse_file sample_env ''a.txt'')) 1],
      chunks := [chunk_row_of sample_env None (fresh_doc_id sample_env) 0
        \<lparr>cs_content = ''hello world'', start_offset = 0, end_offset = 11, token_count = 2\<rparr> 1]\<rparr>\<rparr>"

definition sample_doc_query :: query_env where
  "sample_doc_query = sample_query\<lparr>embed := \<lambda>_. None, chunks_match := \<lambda>_ _. [(1, 0)]\<rparr>"

lemma sample_doc_search:
  "\<exists>res. run_doc_search_with_status_inner sample_doc_query ops idx d1 d2 ''hi'' 5 = Inr res"
proof -
  have t: "trim ''hi'' \<noteq> []" "build_fts_query sample_doc_query ''hi'' = Some [CHR 0x22, CHR ''h'', CHR ''i'', CHR 0x22]"
    by code_simp+
  have r: "read_fails sample_doc_query = (\<lambda>_. False)" by (simp add: sample_doc_query_def sample_query_def)
  have "\<exists>sem. semantic_candidates sample_doc_query ops idx ''hi'' k = Inr sem" for k
    by (simp add: semantic_candidates_def sample_doc_query_def)
  then show ?thesis
    using t by (auto simp: run_doc_search_with_status_inner_def Let_def fetch_lexical_chunk_hits_def fetch_chunks_by_rowid_def r
        result_simps dest!: spec)
qed

theorem forgotten_document_is_never_found_witness:
  "\<exists>rep w1 res. dispatch_forget_document sample_ops sample_env (fresh_doc_id sample_env) None sample_doc_writer = (Inr rep, w1) \<and>
     run_doc_search_with_status_inner sample_doc_query (hnsw_vindex sample_flib)
       sample_index (wdb sample_doc_writer) (wdb w1) ''hi'' 5 = Inr res \<and>
     fresh_doc_id sample_env \<notin> dh_doc_id ` set (ds_hits res)"
proof -
  have "\<exists>rep. fst (dispatch_forget_document sample_ops sample_env (fresh_doc_id sample_env) None sample_doc_writer) = Inr rep"
    by (simp add: dispatch_forget_document_def dispatch_simple_def handle_forget_document_def forget_document_tx_def
        find_document_def stmt_def sample_doc_writer_def sample_env_def empty_db_def document_row_of_def Let_def)
  then obtain rep w1 where w1: "dispatch_forget_document sample_ops sample_env (fresh_doc_id sample_env) None sample_doc_writer = (Inr rep, w1)"
    by (metis prod.collapse)
  obtain res where res: "run_doc_search_with_status_inner sample_doc_query (hnsw_vindex sample_flib) sample_index
      (wdb sample_doc_writer) (wdb w1) ''hi'' 5 = Inr res"
    using sample_doc_search [of "hnsw_vindex sample_flib" sample_index "wdb sample_doc_writer" "wdb w1"] by (elim exE)
  have "run sample_ops [] w1 = ([], w1)" by simp
  from forgotten_document_is_never_found [OF w1 this res] show ?thesis using w1 res by blast
qed

end
