(* ===== verification/Session.thy ===== *)
theory Session
  imports CoreTypes
begin

text \<open>
  \<open>crates/solo-api/src/mcp_session.rs\<close>, \<open>mcp_notify.rs\<close> and \<open>mcp_progress.rs\<close>: the sessions of the MCP
  transport with their expiry, their event ids, replay buffer and cancellations, the store of the
  sessions, the bridge that turns invalidations into messages and the progress reports. JSON is
  a datatype. The broadcast channel of a session is kept as the list of the events sent into it;
  what a receiver gets of them is the subject of the theory Stream.
\<close>

section \<open>JSON values\<close>

datatype jv = JNull | JBool bool | JNum int | JStr string | JArr "jv list" | JObj "(string \<times> jv) list"

definition jget :: "string \<Rightarrow> jv \<Rightarrow> jv option" where
  "jget k v = (case v of JObj kvs \<Rightarrow> map_of kvs k | _ \<Rightarrow> None)"

section \<open>Events and sessions\<close>

definition MCP_SESSION_INACTIVITY_TTL_MS :: int where "MCP_SESSION_INACTIVITY_TTL_MS = 30 * 60 * 1000"
definition MCP_SESSION_ABSOLUTE_TTL_MS :: int where "MCP_SESSION_ABSOLUTE_TTL_MS = 4 * 60 * 60 * 1000"
definition MCP_SESSION_EVENT_BUFFER_CAPACITY :: nat where "MCP_SESSION_EVENT_BUFFER_CAPACITY = 256"

datatype McpEventKind = Init | Message | Progress | Lagged | Heartbeat

definition event_name :: "McpEventKind \<Rightarrow> string" where
  "event_name k = (case k of Init \<Rightarrow> ''init'' | Message \<Rightarrow> ''message'' | Progress \<Rightarrow> ''progress''
     | Lagged \<Rightarrow> ''lagged'' | Heartbeat \<Rightarrow> ''heartbeat'')"

record McpStreamEvent =
  ev_id :: nat
  ev_event :: McpEventKind
  ev_data :: jv

record SessionState =
  principal :: "string option"
  created_at_ms :: int
  last_accessed_at_ms :: int
  event_tx :: "McpStreamEvent list"
  next_event_id :: nat
  event_replay_buffer :: "McpStreamEvent list"
  cancelled_requests :: "string \<rightharpoonup> string"

definition session_new :: "string option \<Rightarrow> int \<Rightarrow> SessionState" where
  "session_new p now =
     \<lparr>principal = p, created_at_ms = now, last_accessed_at_ms = now, event_tx = [], next_event_id = 1,
      event_replay_buffer = [], cancelled_requests = Map.empty\<rparr>"

definition is_expired :: "SessionState \<Rightarrow> int \<Rightarrow> bool" where
  "is_expired s now =
     (if now \<ge> sat_add_i64 (created_at_ms s) MCP_SESSION_ABSOLUTE_TTL_MS then True
      else now \<ge> sat_add_i64 (last_accessed_at_ms s) MCP_SESSION_INACTIVITY_TTL_MS)"

definition touch :: "int \<Rightarrow> SessionState \<Rightarrow> SessionState" where
  "touch now s = s\<lparr>last_accessed_at_ms := now\<rparr>"

subsection \<open>Publishing\<close>

text \<open>
  The three effects of \<open>publish_event\<close>, in their order: the id is drawn with a wrapping
  \<open>fetch_add\<close>, the event goes to the ring buffer, and then into the channel.
\<close>

definition alloc_id :: "SessionState \<Rightarrow> nat \<times> SessionState" where
  "alloc_id s = (next_event_id s, s\<lparr>next_event_id := (next_event_id s + 1) mod 2 ^ 64\<rparr>)"

definition push_replay :: "McpStreamEvent \<Rightarrow> SessionState \<Rightarrow> SessionState" where
  "push_replay e s =
     (let b = event_replay_buffer s;
          b' = (if length b \<ge> MCP_SESSION_EVENT_BUFFER_CAPACITY then tl b else b)
      in s\<lparr>event_replay_buffer := b' @ [e]\<rparr>)"

definition send_event :: "McpStreamEvent \<Rightarrow> SessionState \<Rightarrow> SessionState" where
  "send_event e s = s\<lparr>event_tx := event_tx s @ [e]\<rparr>"

definition publish_event :: "McpEventKind \<Rightarrow> jv \<Rightarrow> SessionState \<Rightarrow> nat \<times> SessionState" where
  "publish_event k d s =
     (case alloc_id s of (i, s1) \<Rightarrow>
        let e = \<lparr>ev_id = i, ev_event = k, ev_data = d\<rparr> in (i, send_event e (push_replay e s1)))"

text \<open>A receiver sees what is sent from its subscription on: its position in the channel.\<close>

definition subscribe_events :: "SessionState \<Rightarrow> nat" where
  "subscribe_events s = length (event_tx s)"

definition snapshot_replay_buffer :: "SessionState \<Rightarrow> McpStreamEvent list" where
  "snapshot_replay_buffer s = event_replay_buffer s"

definition cancel_request :: "string \<Rightarrow> string option \<Rightarrow> SessionState \<Rightarrow> SessionState" where
  "cancel_request i reason s =
     s\<lparr>cancelled_requests := (cancelled_requests s)(i \<mapsto> (case reason of None \<Rightarrow> ''cancelled by client'' | Some r \<Rightarrow> r))\<rparr>"

definition is_request_cancelled :: "string \<Rightarrow> SessionState \<Rightarrow> bool" where
  "is_request_cancelled i s = (cancelled_requests s i \<noteq> None)"

definition clear_request_cancellation :: "string \<Rightarrow> SessionState \<Rightarrow> SessionState" where
  "clear_request_cancellation i s = s\<lparr>cancelled_requests := (cancelled_requests s)(i := None)\<rparr>"

section \<open>The store\<close>

type_synonym SessionId = string
type_synonym SessionStore = "SessionId \<rightharpoonup> SessionState"

definition session_id_parse :: "string \<Rightarrow> SessionId option" where
  "session_id_parse raw = (let s = trim raw in if s = [] then None else Some s)"

text \<open>The fresh id is a v7 UUID, a parameter.\<close>

definition store_insert :: "SessionId \<Rightarrow> SessionState \<Rightarrow> SessionStore \<Rightarrow> SessionStore" where
  "store_insert i s m = m(i \<mapsto> s)"

definition store_get :: "int \<Rightarrow> SessionId \<Rightarrow> SessionStore \<Rightarrow> SessionState option \<times> SessionStore" where
  "store_get now i m =
     (case m i of
        None \<Rightarrow> (None, m)
      | Some s \<Rightarrow> if is_expired s now then (None, m(i := None))
                  else (Some (touch now s), m(i \<mapsto> touch now s)))"

definition store_delete :: "SessionId \<Rightarrow> SessionStore \<Rightarrow> bool \<times> SessionStore" where
  "store_delete i m = (m i \<noteq> None, m(i := None))"

definition sweep_once :: "int \<Rightarrow> SessionStore \<Rightarrow> SessionStore" where
  "sweep_once now m = (\<lambda>i. case m i of None \<Rightarrow> None | Some s \<Rightarrow> if is_expired s now then None else Some s)"

text \<open>
  The middleware: without the header the request passes; an id the store does not know, or no
  longer, answers 404; otherwise the request carries the id and the session.
\<close>

datatype gate = PassThrough | SessionExpired string | WithSession SessionId SessionState

definition mcp_session_middleware :: "int \<Rightarrow> string option \<Rightarrow> SessionStore \<Rightarrow> gate \<times> SessionStore" where
  "mcp_session_middleware now header m =
     (case header of
        None \<Rightarrow> (PassThrough, m)
      | Some raw \<Rightarrow>
          (case session_id_parse raw of
             None \<Rightarrow> (SessionExpired raw, m)
           | Some i \<Rightarrow>
               (case store_get now i m of
                  (Some s, m') \<Rightarrow> (WithSession i s, m')
                | (None, m') \<Rightarrow> (SessionExpired raw, m'))))"

section \<open>Invalidations as messages\<close>

record Invalidation =
  in_reason :: string
  in_ts_ms :: int
  in_kind :: string

definition map_invalidate_to_message :: "Invalidation \<Rightarrow> jv" where
  "map_invalidate_to_message e =
     (let k = in_kind e;
          data_kind =
            (if k = ''episode'' then ''memories_updated''
             else if k = ''document'' \<or> k = ''chunk'' then ''documents_updated''
             else if k = ''cluster'' then ''consolidation_updated''
             else if k = ''triple'' then ''graph_updated''
             else if k = ''tenant'' then ''library_updated''
             else ''memory_updated'')
      in JObj [(''jsonrpc'', JStr ''2.0''), (''method'', JStr ''notifications/message''),
               (''params'', JObj [(''level'', JStr ''info''), (''logger'', JStr ''solo''), (''data'', JStr data_kind),
                  (''details'', JObj [(''reason'', JStr (in_reason e)), (''ts_ms'', JNum (in_ts_ms e)),
                                      (''kind'', JStr k)])])])"

text \<open>
  What the receiver of the tenant's channel yields, and the loop of the bridge over it. The weak
  reference upgrades as long as the session is alive: \<open>None\<close> is a dropped session.
\<close>

datatype 'a recv = Received 'a | RecvLagged nat | RecvClosed

fun run_invalidate_bridge :: "(Invalidation recv \<times> bool) list \<Rightarrow> SessionState \<Rightarrow> SessionState" where
  "run_invalidate_bridge [] s = s"
| "run_invalidate_bridge ((Received e, alive) # rs) s =
     (if \<not> alive then s
      else run_invalidate_bridge rs (snd (publish_event Message (map_invalidate_to_message e) s)))"
| "run_invalidate_bridge ((RecvLagged n, _) # rs) s = run_invalidate_bridge rs s"
| "run_invalidate_bridge ((RecvClosed, _) # rs) s = s"

section \<open>Progress\<close>

definition progress_token_from_meta :: "jv \<Rightarrow> jv option" where
  "progress_token_from_meta params =
     (case jget ''_meta'' params of
        None \<Rightarrow> None
      | Some meta \<Rightarrow>
          (case jget ''progressToken'' meta of
             None \<Rightarrow> None
           | Some token \<Rightarrow> (case token of JStr _ \<Rightarrow> Some token | JNum _ \<Rightarrow> Some token | _ \<Rightarrow> None)))"

definition progress_envelope :: "jv \<Rightarrow> nat \<Rightarrow> nat option \<Rightarrow> string option \<Rightarrow> jv" where
  "progress_envelope token progress tot message =
     JObj [(''jsonrpc'', JStr ''2.0''), (''method'', JStr ''notifications/progress''),
       (''params'', JObj ([(''progressToken'', token), (''progress'', JNum (int progress))] @
          (case tot of None \<Rightarrow> [] | Some t \<Rightarrow> [(''total'', JNum (int t))]) @
          (case message of None \<Rightarrow> [] | Some m \<Rightarrow> [(''message'', JStr m)])))]"

definition report :: "jv \<Rightarrow> nat \<Rightarrow> nat option \<Rightarrow> string option \<Rightarrow> SessionState \<Rightarrow> nat \<times> SessionState" where
  "report token progress tot message s =
     publish_event Progress (progress_envelope token progress tot message) s"

definition report_if_some :: "jv option \<Rightarrow> nat \<Rightarrow> nat option \<Rightarrow> string option \<Rightarrow> SessionState \<Rightarrow> SessionState" where
  "report_if_some reporter progress tot message s =
     (case reporter of None \<Rightarrow> s | Some token \<Rightarrow> snd (report token progress tot message s))"

section \<open>A session's events\<close>

text \<open>
  Publications one after the other, each \<open>publish_event\<close> over before the next begins, and their events.
  Publishers of the program can overlap between its steps: \<open>pub_step\<close> of \<open>Stream\<close> is that relation.
\<close>

definition publish_all :: "(McpEventKind \<times> jv) list \<Rightarrow> SessionState \<Rightarrow> SessionState" where
  "publish_all xs s = fold (\<lambda>(k, d) t. snd (publish_event k d t)) xs s"

definition events_of :: "(McpEventKind \<times> jv) list \<Rightarrow> McpStreamEvent list" where
  "events_of xs = map (\<lambda>(i, k, d). \<lparr>ev_id = i, ev_event = k, ev_data = d\<rparr>) (enumerate 1 xs)"

lemma length_events_of [simp]: "length (events_of xs) = length xs"
  by (simp add: events_of_def)

lemma events_of_append: "events_of (xs @ [(k, d)]) = events_of xs @ [\<lparr>ev_id = length xs + 1, ev_event = k, ev_data = d\<rparr>]"
  by (simp add: events_of_def enumerate_append_eq)

lemma ev_id_events_of: "i < length xs \<Longrightarrow> ev_id (events_of xs ! i) = i + 1"
  by (simp add: events_of_def nth_enumerate_eq split: prod.split)

lemma tl_last_n: "n \<le> length xs \<Longrightarrow> 0 < n \<Longrightarrow> tl (drop (length xs - n) xs) @ [x] = drop (length (xs @ [x]) - n) (xs @ [x])"
  by (simp add: tl_drop Suc_diff_le drop_Suc)

lemma publish_all_state:
  assumes "length xs < 2 ^ 64 - 1"
  shows "event_tx (publish_all xs (session_new p now)) = events_of xs \<and>
    snapshot_replay_buffer (publish_all xs (session_new p now)) = drop (length xs - 256) (events_of xs) \<and>
    next_event_id (publish_all xs (session_new p now)) = length xs + 1"
  using assms
proof (induction xs rule: rev_induct)
  case Nil
  then show ?case by (simp add: publish_all_def session_new_def events_of_def snapshot_replay_buffer_def)
next
  case (snoc x xs)
  obtain k d where x: "x = (k, d)" by fastforce
  let ?t = "publish_all xs (session_new p now)" and ?e = "\<lparr>ev_id = length xs + 1, ev_event = k, ev_data = d\<rparr>"
  have ih: "event_tx ?t = events_of xs" "event_replay_buffer ?t = drop (length xs - 256) (events_of xs)" "next_event_id ?t = length xs + 1"
    using snoc by (simp_all add: snapshot_replay_buffer_def)
  have p: "publish_all (xs @ [(k, d)]) (session_new p now) = snd (publish_event k d ?t)" by (simp add: publish_all_def)
  have i: "alloc_id ?t = (length xs + 1, ?t\<lparr>next_event_id := length xs + 2\<rparr>)"
    using ih(3) snoc.prems by (simp add: alloc_id_def)
  have "snd (publish_event k d ?t) = send_event ?e (push_replay ?e (?t\<lparr>next_event_id := length xs + 2\<rparr>))"
    by (simp add: publish_event_def i Let_def)
  moreover have "event_replay_buffer (push_replay ?e (?t\<lparr>next_event_id := length xs + 2\<rparr>)) =
      drop (length (xs @ [x]) - 256) (events_of (xs @ [x]))"
  proof (cases "length xs < 256")
    case True
    then show ?thesis by (simp add: push_replay_def ih MCP_SESSION_EVENT_BUFFER_CAPACITY_def x events_of_append Let_def)
  next
    case False
    then show ?thesis
      using tl_last_n [of 256 "events_of xs" ?e]
      by (simp add: push_replay_def ih MCP_SESSION_EVENT_BUFFER_CAPACITY_def x events_of_append Let_def)
  qed
  ultimately show ?case
    using ih by (simp add: p x events_of_append snapshot_replay_buffer_def send_event_def push_replay_def Let_def)
qed

text \<open>
  The ring buffer is its reference: after any sequence of publications, fewer than the ids
  there are, the replay buffer holds exactly the last 256 events, with the ids one, two and so
  on in the order of publication, and the channel has been given all of them in that order.
\<close>

theorem replay_buffer_is_recent:
  assumes "length xs < 2 ^ 64 - 1"
  shows "event_tx (publish_all xs (session_new p now)) = events_of xs \<and>
    snapshot_replay_buffer (publish_all xs (session_new p now)) = drop (length xs - 256) (events_of xs) \<and>
    next_event_id (publish_all xs (session_new p now)) = length xs + 1"
  by (rule publish_all_state [OF assms])

theorem replay_buffer_is_recent_witness:
  "let b = snapshot_replay_buffer (publish_all (replicate 300 (Message, JNull)) (session_new None 0))
   in length b = 256 \<and> ev_id (hd b) = 45 \<and> ev_id (last b) = 300"
proof -
  have "length (replicate 300 (Message, JNull)) < 2 ^ 64 - 1" by simp
  from replay_buffer_is_recent [OF this, of None 0]
  have b: "snapshot_replay_buffer (publish_all (replicate 300 (Message, JNull)) (session_new None 0)) =
      drop 44 (events_of (replicate 300 (Message, JNull)))" by simp
  show ?thesis
    unfolding b Let_def by (simp add: hd_drop_conv_nth last_drop last_conv_nth ev_id_events_of flip: length_0_conv)
qed

section \<open>The life of a session\<close>

definition in_range :: "SessionState \<Rightarrow> bool" where
  "in_range s = (i64_min \<le> created_at_ms s \<and> created_at_ms s \<le> last_accessed_at_ms s)"

lemma is_expired_iff:
  assumes "in_range s" "now \<le> i64_max - MCP_SESSION_ABSOLUTE_TTL_MS" "last_accessed_at_ms s \<le> now"
  shows "is_expired s now \<longleftrightarrow>
    now \<ge> created_at_ms s + MCP_SESSION_ABSOLUTE_TTL_MS \<or> now \<ge> last_accessed_at_ms s + MCP_SESSION_INACTIVITY_TTL_MS"
  using assms
  by (simp add: is_expired_def in_range_def sat_add_i64_exact i64_min_def i64_max_def MCP_SESSION_ABSOLUTE_TTL_MS_def
      MCP_SESSION_INACTIVITY_TTL_MS_def)

text \<open>Every access comes less than the inactivity limit after the one before.\<close>

fun used_often :: "int \<Rightarrow> int list \<Rightarrow> bool" where
  "used_often t [] = True"
| "used_often t (u # us) = (t \<le> u \<and> u < t + MCP_SESSION_INACTIVITY_TTL_MS \<and> used_often u us)"

definition access_all :: "int list \<Rightarrow> SessionId \<Rightarrow> SessionStore \<Rightarrow> SessionStore" where
  "access_all ts i m = fold (\<lambda>t m. snd (store_get t i m)) ts m"

lemma access_all_simps:
  "access_all [] i m = m" "access_all (t # ts) i m = access_all ts i (snd (store_get t i m))"
  by (simp_all add: access_all_def)

lemma used_often_le: "used_often t (us @ [now]) \<Longrightarrow> t \<le> now \<and> (\<forall>u \<in> set us. u \<le> now)"
  by (induction us arbitrary: t) fastforce+

lemma store_get_hit:
  assumes "m i = Some s" "in_range s" "now \<le> i64_max - MCP_SESSION_ABSOLUTE_TTL_MS" "last_accessed_at_ms s \<le> now"
    "now < created_at_ms s + MCP_SESSION_ABSOLUTE_TTL_MS" "now < last_accessed_at_ms s + MCP_SESSION_INACTIVITY_TTL_MS"
  shows "store_get now i m = (Some (touch now s), m(i \<mapsto> touch now s))"
  using assms by (simp add: store_get_def is_expired_iff)

text \<open>
  C39: a session that is asked for at least every thirty minutes is found exactly until it is four
  hours old, however often it is used; and the sweep at that moment keeps it exactly when a
  request would find it.
\<close>

theorem session_lives_while_used:
  assumes "m i = Some s" "in_range s" "now \<le> i64_max - MCP_SESSION_ABSOLUTE_TTL_MS"
    "used_often (last_accessed_at_ms s) (ts @ [now])"
  shows "(fst (store_get now i (access_all ts i m)) \<noteq> None \<longleftrightarrow> now < created_at_ms s + MCP_SESSION_ABSOLUTE_TTL_MS) \<and>
    (sweep_once now (access_all ts i m) i \<noteq> None \<longleftrightarrow> now < created_at_ms s + MCP_SESSION_ABSOLUTE_TTL_MS)"
  using assms
proof (induction ts arbitrary: m s)
  case Nil
  then have "is_expired s now \<longleftrightarrow> now \<ge> created_at_ms s + MCP_SESSION_ABSOLUTE_TTL_MS"
    by (simp add: is_expired_iff)
  then show ?case using Nil by (auto simp: access_all_def store_get_def sweep_once_def)
next
  case (Cons t ts)
  have t: "last_accessed_at_ms s \<le> t" "t \<le> now" "t < last_accessed_at_ms s + MCP_SESSION_INACTIVITY_TTL_MS"
    "used_often t (ts @ [now])"
    using Cons.prems(4) used_often_le [of t ts now] by auto
  show ?case
  proof (cases "t < created_at_ms s + MCP_SESSION_ABSOLUTE_TTL_MS")
    case True
    have hit: "store_get t i m = (Some (touch t s), m(i \<mapsto> touch t s))"
      by (rule store_get_hit) (use Cons.prems t True in auto)
    have "in_range (touch t s)" using Cons.prems(2) t by (simp add: in_range_def touch_def)
    then show ?thesis
      using Cons.IH [of "m(i \<mapsto> touch t s)" "touch t s", OF fun_upd_same] Cons.prems(3) t hit
      by (simp add: access_all_simps touch_def del: fun_upd_apply)
  next
    case False
    then have "is_expired s t" using Cons.prems t by (simp add: is_expired_iff)
    then have gone: "snd (store_get t i m) i = None" using Cons.prems(1) by (simp add: store_get_def)
    have "m' i = None \<Longrightarrow> access_all us i m' i = None" for m' us
      by (induction us arbitrary: m') (simp_all add: access_all_simps store_get_def)
    then have "access_all (t # ts) i m i = None" using gone by (simp add: access_all_simps)
    then show ?thesis using False t by (simp add: store_get_def sweep_once_def)
  qed
qed

theorem session_lives_while_used_witness:
  "fst (store_get 2000000 ''a'' (access_all [1000000] ''a'' [''a'' \<mapsto> session_new None 0])) \<noteq> None"
proof -
  have "(fst (store_get 2000000 ''a'' (access_all [1000000] ''a'' [''a'' \<mapsto> session_new None 0])) \<noteq> None \<longleftrightarrow>
      2000000 < created_at_ms (session_new None 0) + MCP_SESSION_ABSOLUTE_TTL_MS) \<and>
    (sweep_once 2000000 (access_all [1000000] ''a'' [''a'' \<mapsto> session_new None 0]) ''a'' \<noteq> None \<longleftrightarrow>
      2000000 < created_at_ms (session_new None 0) + MCP_SESSION_ABSOLUTE_TTL_MS)"
    by (rule session_lives_while_used)
      (simp_all add: in_range_def session_new_def i64_min_def i64_max_def MCP_SESSION_ABSOLUTE_TTL_MS_def
        MCP_SESSION_INACTIVITY_TTL_MS_def)
  then show ?thesis by (simp add: session_new_def MCP_SESSION_ABSOLUTE_TTL_MS_def)
qed

end
