(* ===== verification/Stream.thy ===== *)
theory Stream
  imports Session "HOL-Library.Multiset"
begin

text \<open>
  The resumable event stream of a session: \<open>build_mcp_session_stream\<close> in
  \<open>crates/solo-api/src/http.rs\<close>. The stream is a transducer from what its \<open>select!\<close> is woken by
  (the receiver of the session's channel, the heartbeat) to the frames it emits.
\<close>

section \<open>The transducer\<close>

record sse_frame =
  fr_id :: nat
  fr_event :: McpEventKind
  fr_data :: jv

definition build_mcp_sse_event :: "nat \<Rightarrow> McpEventKind \<Rightarrow> jv \<Rightarrow> sse_frame" where
  "build_mcp_sse_event i k d = \<lparr>fr_id = i, fr_event = k, fr_data = d\<rparr>"

record McpStreamState =
  replay_queue :: "McpStreamEvent list"
  last_emitted_id :: "nat option"
  needs_init :: bool
  session_id_str :: string

text \<open>
  The replay of a reconnecting client. The additions are those of a release build: they wrap.
  The subscription comes before the snapshot.
\<close>

definition replay_for :: "nat \<Rightarrow> McpStreamEvent list \<Rightarrow> McpStreamEvent list" where
  "replay_for last_event_id snapshot =
     (if last_event_id > 0 then
        (case snapshot of
           [] \<Rightarrow> []
         | _ \<Rightarrow>
             let oldest = ev_id (hd snapshot); newest = ev_id (last snapshot);
                 next_id = (last_event_id + 1) mod 2 ^ 64 in
             if next_id < oldest then
               \<lparr>ev_id = 0, ev_event = Lagged,
                ev_data = JObj [(''dropped'', JNum (int (oldest - next_id))), (''last_event_id'', JNum (int last_event_id)),
                                (''oldest_available'', JNum (int oldest))]\<rparr> # snapshot
             else if last_event_id \<ge> newest then []
             else filter (\<lambda>e. ev_id e > last_event_id) snapshot)
      else [])"

lemma replay_for_buffer:
  assumes "S \<noteq> []" "0 < l" "(l + 1) mod 2 ^ 64 = l + 1"
  shows "replay_for l S =
    (if l + 1 < ev_id (hd S) then
       \<lparr>ev_id = 0, ev_event = Lagged,
        ev_data = JObj [(''dropped'', JNum (int (ev_id (hd S) - (l + 1)))), (''last_event_id'', JNum (int l)),
                        (''oldest_available'', JNum (int (ev_id (hd S))))]\<rparr> # S
     else if ev_id (last S) \<le> l then [] else filter (\<lambda>e. l < ev_id e) S)"
  using assms by (cases S) (simp_all add: replay_for_def Let_def)

definition build_mcp_session_stream :: "string \<Rightarrow> nat \<Rightarrow> McpStreamEvent list \<Rightarrow> McpStreamState" where
  "build_mcp_session_stream sid last_event_id snapshot =
     \<lparr>replay_queue = replay_for last_event_id snapshot, last_emitted_id = None, needs_init = True, session_id_str = sid\<rparr>"

text \<open>What wakes the live loop: a result of the receiver, or the heartbeat with the time it reads.\<close>

datatype wake = Recv "McpStreamEvent recv" | Tick int

datatype poll = Emit sse_frame | Ended | Pending

fun live_select :: "McpStreamState \<Rightarrow> wake list \<Rightarrow> poll \<times> McpStreamState \<times> wake list" where
  "live_select st [] = (Pending, st, [])"
| "live_select st (Recv (Received e) # ws) =
     (case last_emitted_id st of
        Some l \<Rightarrow> if ev_id e \<le> l then live_select st ws
                  else (Emit (build_mcp_sse_event (ev_id e) (ev_event e) (ev_data e)), st\<lparr>last_emitted_id := Some (ev_id e)\<rparr>, ws)
      | None \<Rightarrow> (Emit (build_mcp_sse_event (ev_id e) (ev_event e) (ev_data e)), st\<lparr>last_emitted_id := Some (ev_id e)\<rparr>, ws))"
| "live_select st (Recv (RecvLagged n) # ws) =
     (Emit (build_mcp_sse_event 0 Lagged (JObj [(''dropped'', JNum (int n))])), st, ws)"
| "live_select st (Recv RecvClosed # ws) = (Ended, st, ws)"
| "live_select st (Tick now # ws) =
     (Emit (build_mcp_sse_event 0 Heartbeat (JObj [(''ts_ms'', JNum now)])), st, ws)"

definition unfold_step :: "int \<Rightarrow> McpStreamState \<Rightarrow> wake list \<Rightarrow> poll \<times> McpStreamState \<times> wake list" where
  "unfold_step now st ws =
     (if needs_init st then
        (Emit (build_mcp_sse_event 0 Init (JObj [(''connected'', JBool True), (''session_id'', JStr (session_id_str st)),
                                                (''ts_ms'', JNum now)])),
         st\<lparr>needs_init := False\<rparr>, ws)
      else (case replay_queue st of
              e # q \<Rightarrow>
                (Emit (build_mcp_sse_event (ev_id e) (ev_event e) (ev_data e)),
                 (if ev_event e \<noteq> Lagged then st\<lparr>replay_queue := q, last_emitted_id := Some (ev_id e)\<rparr>
                  else st\<lparr>replay_queue := q\<rparr>), ws)
            | [] \<Rightarrow> live_select st ws))"

lemma live_select_shorter:
  "live_select st ws = (Emit f, st', ws') \<Longrightarrow> length ws' < length ws \<and> needs_init st' = needs_init st \<and> replay_queue st' = replay_queue st"
  by (induction st ws rule: live_select.induct) (auto split: option.splits if_splits)

text \<open>The frames the client receives until the stream ends or waits.\<close>

function run_stream :: "int \<Rightarrow> McpStreamState \<Rightarrow> wake list \<Rightarrow> sse_frame list" where
  "run_stream now st ws =
     (case unfold_step now st ws of
        (Emit f, st', ws') \<Rightarrow> f # run_stream now st' ws'
      | _ \<Rightarrow> [])"
  by pat_completeness auto
termination
  by (relation "measure (\<lambda>(now, st, ws). (if needs_init st then 1 else 0) + length (replay_queue st) + length ws)")
    (auto simp: unfold_step_def dest!: live_select_shorter dest: sym split: if_splits list.splits)

declare run_stream.simps [simp del]

section \<open>What the stream delivers\<close>

text \<open>The frames that carry an event of the session, as opposed to init, heartbeat and lag reports.\<close>

definition frame_of :: "McpStreamEvent \<Rightarrow> sse_frame" where
  "frame_of e = build_mcp_sse_event (ev_id e) (ev_event e) (ev_data e)"

definition delivered :: "sse_frame list \<Rightarrow> sse_frame list" where
  "delivered fs = filter (\<lambda>f. fr_id f > 0) fs"

text \<open>
  What the broadcast channel promises a receiver that keeps up: it yields the events sent after
  the subscription, in the order they were sent, each once. Heartbeats come in between.
\<close>

definition received :: "wake list \<Rightarrow> McpStreamEvent recv list" where
  "received ws = concat (map (\<lambda>w. case w of Recv r \<Rightarrow> [r] | Tick _ \<Rightarrow> []) ws)"

lemma received_simps [simp]:
  "received [] = []" "received (Recv r # ws) = r # received ws" "received (Tick t # ws) = received ws"
  by (simp_all add: received_def)

lemma delivered_simps [simp]:
  "delivered [] = []" "delivered (f # fs) = (if fr_id f > 0 then f # delivered fs else delivered fs)"
  by (simp_all add: delivered_def)

lemma fr_sel [simp]: "fr_id (build_mcp_sse_event i k d) = i" "fr_event (build_mcp_sse_event i k d) = k"
  "fr_data (build_mcp_sse_event i k d) = d"
  by (simp_all add: build_mcp_sse_event_def)

definition fresh_for :: "nat option \<Rightarrow> McpStreamEvent list \<Rightarrow> McpStreamEvent list" where
  "fresh_for l es = (case l of None \<Rightarrow> es | Some n \<Rightarrow> filter (\<lambda>e. ev_id e > n) es)"

text \<open>Live events with increasing ids: those above the last id come out, in order.\<close>

lemma run_live:
  assumes "\<not> needs_init st" "replay_queue st = []" "received ws = map Received es"
    "sorted_wrt (<) (map ev_id es)" "\<forall>e \<in> set es. ev_id e > 0"
  shows "delivered (run_stream now st ws) = map frame_of (fresh_for (last_emitted_id st) es)"
  using assms
proof (induction ws arbitrary: st es)
  case Nil
  then show ?case by (simp add: run_stream.simps [of now st] unfold_step_def fresh_for_def split: option.split)
next
  case (Cons w ws)
  show ?case
  proof (cases w)
    case (Tick t)
    then have "run_stream now st (w # ws) = build_mcp_sse_event 0 Heartbeat (JObj [(''ts_ms'', JNum t)]) # run_stream now st ws"
      using Cons.prems by (subst run_stream.simps) (simp add: unfold_step_def)
    then show ?thesis using Cons.IH [of st es] Cons.prems Tick by simp
  next
    case (Recv r)
    then obtain e es' where es: "es = e # es'" "r = Received e" "received ws = map Received es'" using Cons.prems(3) by auto
    have above: "\<forall>x \<in> set es'. ev_id x > ev_id e" using Cons.prems(4) es(1) by auto
    show ?thesis
    proof (cases "\<exists>l. last_emitted_id st = Some l \<and> ev_id e \<le> l")
      case True
      then obtain l where l: "last_emitted_id st = Some l" "ev_id e \<le> l" by blast
      have "run_stream now st (w # ws) = run_stream now st ws"
        using Cons.prems l Recv es(2) by (subst (1 2) run_stream.simps) (simp add: unfold_step_def)
      then show ?thesis using Cons.IH [of st es'] Cons.prems es l by (simp add: fresh_for_def)
    next
      case False
      let ?st = "st\<lparr>last_emitted_id := Some (ev_id e)\<rparr>"
      have "run_stream now st (w # ws) = frame_of e # run_stream now ?st ws"
        using Cons.prems False Recv es(2)
        by (subst run_stream.simps) (auto simp: unfold_step_def frame_of_def split: option.split)
      moreover have "fresh_for (Some (ev_id e)) es' = es'" using above by (simp add: fresh_for_def filter_id_conv_all)
      moreover have "fresh_for (last_emitted_id st) es = e # es'"
        using above es(1) False by (auto simp: fresh_for_def filter_id_conv split: option.split)
      ultimately show ?thesis
        using Cons.IH [of ?st es'] Cons.prems es by (simp add: frame_of_def)
    qed
  qed
qed


lemma run_live_no_lag:
  assumes "\<not> needs_init st" "replay_queue st = []" "received ws = map Received es" "\<forall>e \<in> set es. ev_event e \<noteq> Lagged"
  shows "filter (\<lambda>f. fr_event f = Lagged) (run_stream now st ws) = []"
  using assms
proof (induction ws arbitrary: st es)
  case Nil
  then show ?case by (simp add: run_stream.simps [of now st] unfold_step_def)
next
  case (Cons w ws)
  show ?case
  proof (cases w)
    case (Tick t)
    then have "run_stream now st (w # ws) = build_mcp_sse_event 0 Heartbeat (JObj [(''ts_ms'', JNum t)]) # run_stream now st ws"
      using Cons.prems by (subst run_stream.simps) (simp add: unfold_step_def)
    then show ?thesis using Cons.IH [of st es] Cons.prems Tick by simp
  next
    case (Recv r)
    then obtain e es' where es: "es = e # es'" "r = Received e" "received ws = map Received es'" using Cons.prems(3) by auto
    show ?thesis
    proof (cases "\<exists>l. last_emitted_id st = Some l \<and> ev_id e \<le> l")
      case True
      then obtain l where l: "last_emitted_id st = Some l" "ev_id e \<le> l" by blast
      have "run_stream now st (w # ws) = run_stream now st ws"
        using Cons.prems l Recv es(2) by (subst (1 2) run_stream.simps) (simp add: unfold_step_def)
      then show ?thesis using Cons.IH [of st es'] Cons.prems es by simp
    next
      case False
      let ?st = "st\<lparr>last_emitted_id := Some (ev_id e)\<rparr>"
      have "run_stream now st (w # ws) = frame_of e # run_stream now ?st ws"
        using Cons.prems False Recv es(2)
        by (subst run_stream.simps) (auto simp: unfold_step_def frame_of_def split: option.split)
      then show ?thesis using Cons.IH [of ?st es'] Cons.prems es by (simp add: frame_of_def)
    qed
  qed
qed

text \<open>The replayed events come first and move the cursor to the last of them.\<close>

lemma run_replay:
  assumes "\<not> needs_init st" "replay_queue st = q" "\<forall>e \<in> set q. ev_event e \<noteq> Lagged"
  shows "run_stream now st ws = map frame_of q @
    run_stream now (st\<lparr>replay_queue := [], last_emitted_id := (if q = [] then last_emitted_id st else Some (ev_id (last q)))\<rparr>) ws"
  using assms
proof (induction q arbitrary: st)
  case Nil
  then have "st\<lparr>replay_queue := [], last_emitted_id := last_emitted_id st\<rparr> = st" by (cases st) simp
  then show ?case by simp
next
  case (Cons e q)
  let ?st = "st\<lparr>replay_queue := q, last_emitted_id := Some (ev_id e)\<rparr>"
  have "run_stream now st ws = frame_of e # run_stream now ?st ws"
    using Cons.prems by (subst run_stream.simps) (simp add: unfold_step_def frame_of_def)
  then show ?case using Cons.IH [of ?st] Cons.prems by simp
qed

subsection \<open>Consecutive ids\<close>

fun consecutive :: "nat \<Rightarrow> McpStreamEvent list \<Rightarrow> bool" where
  "consecutive c [] = True"
| "consecutive c (e # es) = (ev_id e = Suc c \<and> consecutive (Suc c) es)"

lemma consecutive_nth: "(\<And>i. i < length es \<Longrightarrow> ev_id (es ! i) = Suc (c + i)) \<Longrightarrow> consecutive c es"
proof (induction es arbitrary: c)
  case (Cons e es)
  have "ev_id e = Suc c" using Cons.prems [of 0] by simp
  moreover have "consecutive (Suc c) es" by (rule Cons.IH) (use Cons.prems [of "Suc _"] in simp)
  ultimately show ?case by simp
qed simp

lemma filter_consecutive: "consecutive c es \<Longrightarrow> filter (\<lambda>e. n < ev_id e) es = drop (n - c) es"
proof (induction es arbitrary: c)
  case (Cons e es)
  then have e: "ev_id e = Suc c" "consecutive (Suc c) es" by auto
  show ?case
  proof (cases "n \<le> c")
    case True
    then show ?thesis using Cons.IH [OF e(2)] e(1) by simp
  next
    case False
    then have "n - c = Suc (n - Suc c)" by simp
    then show ?thesis using Cons.IH [OF e(2)] e(1) False by simp
  qed
qed simp

lemma consecutive_drop_take: "i \<le> length xs \<Longrightarrow> consecutive i (drop i (take j (events_of xs)))"
  by (rule consecutive_nth) (auto simp: ev_id_events_of)

lemma consecutive_above: "consecutive c es \<Longrightarrow> \<forall>e \<in> set es. c < ev_id e"
  by (induction es arbitrary: c) fastforce+

lemma consecutive_sorted: "consecutive c es \<Longrightarrow> sorted_wrt (<) (map ev_id es) \<and> (\<forall>e \<in> set es. ev_id e > 0)"
proof (induction es arbitrary: c)
  case (Cons e es)
  then show ?case using consecutive_above [of "Suc c" es] by auto
qed simp

lemma consecutive_last: "consecutive c es \<Longrightarrow> es \<noteq> [] \<Longrightarrow> ev_id (hd es) = Suc c \<and> ev_id (last es) = c + length es"
  by (induction es arbitrary: c) force+

lemma last_filter_last: "xs \<noteq> [] \<Longrightarrow> P (last xs) \<Longrightarrow> last (filter P xs) = last xs"
  by (induction xs rule: rev_induct) auto

lemma events_of_take: "events_of xs = take (length xs) (events_of (xs @ ys))"
  by (rule nth_equalityI) (auto simp: events_of_def nth_enumerate_eq nth_append)

lemma no_lagged_events:
  "\<forall>x \<in> set xs. fst x \<noteq> Lagged \<Longrightarrow> \<forall>e \<in> set (events_of xs). ev_event e \<noteq> Lagged"
  by (auto simp: events_of_def enumerate_eq_zip dest!: set_zip_rightD)

text \<open>
  C37: a client that reconnects with the id of the last event it saw gets exactly what it missed, when
  the publications come one after the other, fewer than \<open>2 ^ 64 - 1\<close> of them, and its receiver never lags.
  Let \<open>xs0\<close> be published before the stream subscribes, \<open>xs1\<close> between the subscription and the
  snapshot and \<open>xs2\<close> later, the client have seen the event \<open>l\<close> of \<open>xs0\<close>, and the receiver yield the first
  \<open>k\<close> events after the subscription, heartbeats between them. The stream then delivers, in order
  and each once, the events after \<open>l\<close> that are still in the buffer and the live ones, with one lag
  report, naming their number, exactly when some of them have left the buffer. A new client gets
  the live events. Publications that overlap can lose an event (\<open>overlapping_publications_drop_an_event\<close>).
\<close>

theorem stream_resumes_exactly:
  fixes xs0 xs1 xs2 l k ws now p t sid
  defines "H \<equiv> events_of (xs0 @ xs1 @ xs2)" and "a \<equiv> length xs0" and "b \<equiv> length (xs0 @ xs1)"
  defines "fs \<equiv> run_stream now (build_mcp_session_stream sid l
    (snapshot_replay_buffer (publish_all (xs0 @ xs1) (session_new p t)))) ws"
  assumes len: "length (xs0 @ xs1 @ xs2) < 2 ^ 64 - 1" and kinds: "\<forall>x \<in> set (xs0 @ xs1 @ xs2). fst x \<noteq> Lagged"
    and l: "l \<le> a" and rc: "received ws = map Received (take k (drop a H))"
  shows "delivered fs = map frame_of (if l = 0 then take k (drop a H) else drop (max l (b - 256)) (take (max b (a + k)) H)) \<and>
    map fr_data (filter (\<lambda>f. fr_event f = Lagged) fs) =
      (if 0 < l \<and> l + 256 < b then
         [JObj [(''dropped'', JNum (int (b - 256 - l))), (''last_event_id'', JNum (int l)), (''oldest_available'', JNum (int (b - 255)))]]
       else [])"
proof -
  let ?S = "drop (b - 256) (take b H)" and ?L = "take k (drop a H)"
  have ab: "a \<le> b" "b \<le> length (xs0 @ xs1 @ xs2)" by (simp_all add: a_def b_def)
  have S: "snapshot_replay_buffer (publish_all (xs0 @ xs1) (session_new p t)) = ?S"
    using publish_all_state [of "xs0 @ xs1" p t] len events_of_take [of "xs0 @ xs1" xs2] by (simp add: b_def H_def)
  have kH: "\<forall>e \<in> set H. ev_event e \<noteq> Lagged" unfolding H_def by (rule no_lagged_events [OF kinds])
  have L: "?L = drop a (take (a + k) H)" by (simp add: drop_take)
  have cS: "consecutive (b - 256) ?S" and cL: "consecutive a ?L"
    unfolding L unfolding H_def by (rule consecutive_drop_take; use ab in simp)+
  have kS: "\<forall>e \<in> set ?S. ev_event e \<noteq> Lagged" and kL: "\<forall>e \<in> set ?L. ev_event e \<noteq> Lagged"
    using kH by (meson in_set_dropD in_set_takeD)+
  let ?st = "\<lambda>q m. \<lparr>replay_queue = q, last_emitted_id = m, needs_init = False, session_id_str = sid\<rparr>"
  have fs: "fs = build_mcp_sse_event 0 Init (JObj [(''connected'', JBool True), (''session_id'', JStr sid), (''ts_ms'', JNum now)]) #
      run_stream now (?st (replay_for l ?S) None) ws"
    unfolding fs_def S by (subst run_stream.simps) (simp add: build_mcp_session_stream_def unfold_step_def)
  have live: "delivered (run_stream now (?st [] m) ws) = map frame_of (fresh_for m ?L)"
    "filter (\<lambda>f. fr_event f = Lagged) (run_stream now (?st [] m) ws) = []" for m
    using run_live [of "?st [] m" ws ?L now] run_live_no_lag [of "?st [] m" ws ?L now] rc consecutive_sorted [OF cL] kL by simp_all
  have replay: "delivered (run_stream now (?st q None) ws) = map frame_of (q @ fresh_for (Some (ev_id (last q))) ?L) \<and>
      filter (\<lambda>f. fr_event f = Lagged) (run_stream now (?st q None) ws) = []"
    if q: "q \<noteq> []" "set q \<subseteq> set ?S" for q
  proof -
    have "\<forall>e \<in> set q. ev_id e > 0" "\<forall>e \<in> set q. ev_event e \<noteq> Lagged" using q(2) consecutive_sorted [OF cS] kS by auto
    moreover from this have "delivered (map frame_of q) = map frame_of q" "filter (\<lambda>f. fr_event f = Lagged) (map frame_of q) = []"
      by (auto simp: delivered_def frame_of_def filter_id_conv filter_empty_conv)
    ultimately show ?thesis
      using run_replay [of "?st q None" q now ws] live [of "Some (ev_id (last q))"] q(1) by (simp add: delivered_def)
  qed
  have lenS: "length ?S = b - (b - 256)" using ab by (simp add: H_def)
  have gt: "filter (\<lambda>e. n < ev_id e) ?S = drop (max n (b - 256)) (take b H)"
    "filter (\<lambda>e. n < ev_id e) ?L = drop (max n a) (take (a + k) H)" for n
    using filter_consecutive [OF cS, of n] filter_consecutive [OF cL, of n] unfolding L by (simp_all add: max_def)
  show ?thesis
  proof (cases "l = 0")
    case True
    then show ?thesis using live [of None] fs by (simp add: replay_for_def fresh_for_def)
  next
    case l0: False
    then have Sne: "?S \<noteq> []" and b0: "0 < b" using l ab lenS by auto
    have ids: "ev_id (hd ?S) = Suc (b - 256)" "ev_id (last ?S) = b"
      using consecutive_last [OF cS Sne] lenS by simp_all
    have nw: "(l + 1) mod 2 ^ 64 = l + 1" using l len by (simp add: a_def)
    have tail: "drop (max l (b - 256)) (take b H) @ drop b (take (a + k) H) =
        drop (max l (b - 256)) (take (max b (a + k)) H)" (is "?l = ?r")
    proof -
      have "max l (b - 256) \<le> b" using l ab by simp
      have "take (max b (a + k)) H = take b H @ drop b (take (a + k) H)"
        by (cases "b \<le> a + k") (simp_all add: max_def drop_take flip: take_add [of b "a + k - b" H, simplified])
      then show ?thesis using \<open>max l (b - 256) \<le> b\<close> ab by (simp add: H_def)
    qed
    have mba: "max b a = b" using ab by simp
    consider (lag) "l + 256 < b" | (same) "b \<le> l" | (mid) "l < b" "b \<le> l + 256" by linarith
    then show ?thesis
    proof cases
      case lag
      let ?g = "\<lparr>ev_id = 0, ev_event = Lagged, ev_data = JObj [(''dropped'', JNum (int (b - 256 - l))),
        (''last_event_id'', JNum (int l)), (''oldest_available'', JNum (int (b - 255)))]\<rparr>"
      have rf: "replay_for l ?S = ?g # ?S"
        using lag l0 ids by (simp add: replay_for_buffer [OF Sne _ nw])
      have "run_stream now (?st (?g # ?S) None) ws = frame_of ?g # run_stream now (?st ?S None) ws"
        by (subst run_stream.simps) (simp add: unfold_step_def frame_of_def)
      moreover have "delivered (run_stream now (?st ?S None) ws) = map frame_of (drop (b - 256) (take (max b (a + k)) H))"
      proof -
        have "max l (b - 256) = b - 256" using lag by simp
        then show ?thesis
          using replay [OF Sne subset_refl] ids(2) tail mba gt(2) [of b] by (simp add: fresh_for_def flip: map_append)
      qed
      moreover have "max l (b - 256) = b - 256" using lag by simp
      ultimately show ?thesis
        using fs rf replay [OF Sne subset_refl] lag l0 by (simp add: frame_of_def)
    next
      case same
      then have "l = b" "a = b" using l ab by auto
      moreover have "replay_for l ?S = []" using same l0 ids by (simp add: replay_for_buffer [OF Sne _ nw])
      moreover have "max b (b - 256) = b" "max b (b + k) = b + k" by simp_all
      ultimately show ?thesis using fs live [of None] l0 L by (simp add: fresh_for_def)
    next
      case mid
      let ?q = "filter (\<lambda>e. l < ev_id e) ?S"
      have rf: "replay_for l ?S = ?q" using mid l0 ids by (simp add: replay_for_buffer [OF Sne _ nw])
      have q: "?q \<noteq> []" "ev_id (last ?q) = b"
      proof -
        have la: "last ?S \<in> set ?S" "l < ev_id (last ?S)" using last_in_set [OF Sne] ids(2) mid by simp_all
        then show "?q \<noteq> []" unfolding filter_empty_conv by blast
        show "ev_id (last ?q) = b" using last_filter_last [of ?S "\<lambda>e. l < ev_id e", OF Sne la(2)] ids(2) by simp
      qed
      show ?thesis
        using fs rf replay [OF q(1) filter_is_subset] q(2) gt(2) [of b] gt(1) [of l] tail mid l0 mba
        by (simp add: fresh_for_def flip: map_append)
    qed
  qed
qed
theorem stream_resumes_exactly_witness:
  "map fr_id (delivered (run_stream 0 (build_mcp_session_stream ''s'' 1
     (snapshot_replay_buffer (publish_all [(Message, JNull), (Message, JNull), (Progress, JNull)] (session_new None 0))))
       [Tick 5, Recv (Received \<lparr>ev_id = 3, ev_event = Progress, ev_data = JNull\<rparr>)])) = [2, 3]"
proof -
  let ?xs0 = "[(Message, JNull), (Message, JNull)]" and ?xs1 = "[(Progress, JNull)]"
  have H: "events_of [(Message, JNull), (Message, JNull), (Progress, JNull)] = [\<lparr>ev_id = 1, ev_event = Message, ev_data = JNull\<rparr>, \<lparr>ev_id = 2, ev_event = Message, ev_data = JNull\<rparr>,
      \<lparr>ev_id = 3, ev_event = Progress, ev_data = JNull\<rparr>]"
    by (simp add: events_of_def)
  have rc: "received [Tick 5, Recv (Received \<lparr>ev_id = 3, ev_event = Progress, ev_data = JNull\<rparr>)] =
      map Received (take 1 (drop (length ?xs0) (events_of (?xs0 @ ?xs1 @ []))))"
    by (simp add: H)
  have len: "length (?xs0 @ ?xs1 @ []) < 2 ^ 64 - 1" and kinds: "\<forall>x \<in> set (?xs0 @ ?xs1 @ []). fst x \<noteq> Lagged"
    and l: "1 \<le> length ?xs0"
    by simp_all
  have "delivered (run_stream 0 (build_mcp_session_stream ''s'' 1 (snapshot_replay_buffer (publish_all (?xs0 @ ?xs1) (session_new None 0))))
       [Tick 5, Recv (Received \<lparr>ev_id = 3, ev_event = Progress, ev_data = JNull\<rparr>)]) =
      map frame_of (drop 1 (take 3 (events_of [(Message, JNull), (Message, JNull), (Progress, JNull)])))"
    by (rule conjunct1 [OF stream_resumes_exactly [OF len kinds l rc], THEN trans]) simp
  then show ?thesis by (simp add: H frame_of_def)
qed

section \<open>The ids of synthetic frames\<close>

text \<open>
  An event-source client sends back the id of the last frame it received. The init, heartbeat and
  lag frames carry the id 0.
\<close>

definition client_cursor :: "sse_frame list \<Rightarrow> nat" where
  "client_cursor fs = (if fs = [] then 0 else fr_id (last fs))"

definition published :: "McpStreamEvent \<Rightarrow> bool" where
  "published e = (ev_event e = Message \<or> ev_event e = Progress)"

definition sound_queue :: "McpStreamEvent list \<Rightarrow> bool" where
  "sound_queue q = (\<forall>e \<in> set q. published e \<or> ev_id e = 0)"

definition sound_wakes :: "wake list \<Rightarrow> bool" where
  "sound_wakes ws = (\<forall>e. Received e \<in> set (received ws) \<longrightarrow> published e)"

lemma sound_wakes_Cons: "sound_wakes (w # ws) \<Longrightarrow> sound_wakes ws"
  by (cases w) (auto simp: sound_wakes_def)

definition synthetic_zero :: "sse_frame \<Rightarrow> bool" where
  "synthetic_zero f = (fr_event f \<in> {Init, Heartbeat, Lagged} \<longrightarrow> fr_id f = 0)"

lemma live_select_sound:
  "live_select st ws = (Emit f, st', ws') \<Longrightarrow> sound_wakes ws \<Longrightarrow> synthetic_zero f \<and> sound_wakes ws' \<and> replay_queue st' = replay_queue st"
  by (induction st ws rule: live_select.induct)
    (auto simp: synthetic_zero_def sound_wakes_def published_def split: option.splits if_splits)

lemma run_stream_sound:
  "sound_queue (replay_queue st) \<Longrightarrow> sound_wakes ws \<Longrightarrow> \<forall>f \<in> set (run_stream now st ws). synthetic_zero f"
proof (induction now st ws rule: run_stream.induct)
  case (1 now st ws)
  obtain p st' ws' where u: "unfold_step now st ws = (p, st', ws')" by (metis surj_pair)
  show ?case
  proof (cases p)
    case (Emit f)
    have "synthetic_zero f \<and> sound_wakes ws' \<and> sound_queue (replay_queue st')"
      using u Emit 1(2,3) live_select_sound [of st ws f st' ws']
      by (auto simp: unfold_step_def synthetic_zero_def sound_queue_def published_def split: if_splits list.splits)
    then show ?thesis using 1(1) [OF u [symmetric] Emit refl] u Emit by (subst run_stream.simps) simp
  next
    case Ended
    then have "run_stream now st ws = []" using u by (simp add: run_stream.simps [of now st ws])
    then show ?thesis by simp
  next
    case Pending
    then have "run_stream now st ws = []" using u by (simp add: run_stream.simps [of now st ws])
    then show ?thesis by simp
  qed
qed

lemma if_sound: "sound_queue a \<Longrightarrow> sound_queue b \<Longrightarrow> sound_queue (if c then a else b)"
  by simp

lemma sound_replay:
  assumes "\<forall>e \<in> set S. published e"
  shows "sound_queue (replay_for l S)"
proof (cases S)
  case Nil
  then show ?thesis by (simp only: replay_for_def sound_queue_def list.case if_cancel) simp
next
  case (Cons e es)
  have q: "sound_queue (x # S)" if "ev_id x = 0" for x using assms that by (simp add: sound_queue_def)
  have s: "sound_queue S" "sound_queue (filter P S)" "sound_queue []" for P using assms by (auto simp: sound_queue_def)
  show ?thesis
    unfolding replay_for_def Let_def Cons list.case by (intro if_sound q [unfolded Cons] s [unfolded Cons]) (rule McpStreamEvent.simps)
qed

lemma published_buffer:
  assumes "length xs < 2 ^ 64 - 1" "\<forall>x \<in> set xs. fst x \<in> {Message, Progress}"
  shows "\<forall>e \<in> set (snapshot_replay_buffer (publish_all xs (session_new p t))). published e"
  using publish_all_state [OF assms(1), of p t] assms(2)
  by (fastforce simp: events_of_def enumerate_eq_zip published_def dest!: in_set_dropD set_zip_rightD)

text \<open>
  A heartbeat makes the client forget its place. A client whose last frame is a heartbeat
  reconnects with the id 0, and the new stream replays nothing: of all that was published before
  it subscribed, the client receives no event and no lag report, whatever it has missed.
\<close>

theorem heartbeat_loses_the_cursor:
  fixes xs0 xs1 xs2 ys ws1 ws2 now1 now2 sid l1 p t k
  defines "H \<equiv> events_of (xs0 @ xs1 @ xs2)"
  defines "fs1 \<equiv> run_stream now1 (build_mcp_session_stream sid l1 (snapshot_replay_buffer (publish_all ys (session_new p t)))) ws1"
  defines "fs2 \<equiv> run_stream now2 (build_mcp_session_stream sid (client_cursor fs1)
    (snapshot_replay_buffer (publish_all (xs0 @ xs1) (session_new p t)))) ws2"
  assumes "length ys < 2 ^ 64 - 1" "\<forall>x \<in> set ys. fst x \<in> {Message, Progress}" "sound_wakes ws1"
    "fs1 \<noteq> []" "fr_event (last fs1) = Heartbeat"
    "length (xs0 @ xs1 @ xs2) < 2 ^ 64 - 1" "\<forall>x \<in> set (xs0 @ xs1 @ xs2). fst x \<noteq> Lagged"
    "received ws2 = map Received (take k (drop (length xs0) H))"
  shows "delivered fs2 = map frame_of (take k (drop (length xs0) H)) \<and> filter (\<lambda>f. fr_event f = Lagged) fs2 = []"
proof -
  have "\<forall>f \<in> set fs1. synthetic_zero f"
    unfolding fs1_def
    using sound_replay [OF published_buffer [OF assms(4,5)]] assms(6)
    by (intro run_stream_sound) (simp_all add: build_mcp_session_stream_def)
  then have "fr_id (last fs1) = 0" using assms(7,8) last_in_set [of fs1] by (auto simp: synthetic_zero_def)
  then have c: "client_cursor fs1 = 0" by (simp add: client_cursor_def)
  let ?S = "snapshot_replay_buffer (publish_all (xs0 @ xs1) (session_new p t))" and ?L = "take k (drop (length xs0) H)"
  let ?st = "\<lparr>replay_queue = [], last_emitted_id = None, needs_init = False, session_id_str = sid\<rparr>"
  have fs2: "fs2 = build_mcp_sse_event 0 Init (JObj [(''connected'', JBool True), (''session_id'', JStr sid), (''ts_ms'', JNum now2)]) #
      run_stream now2 ?st ws2"
    unfolding fs2_def c by (subst run_stream.simps) (simp add: build_mcp_session_stream_def unfold_step_def replay_for_def)
  have "?L = drop (length xs0) (take (length xs0 + k) H)" by (simp add: drop_take)
  then have "consecutive (length xs0) ?L" unfolding H_def by (simp add: consecutive_drop_take)
  note L = consecutive_sorted [OF this]
  have kL: "\<forall>e \<in> set ?L. ev_event e \<noteq> Lagged"
    using no_lagged_events [OF assms(10)] unfolding H_def by (meson in_set_dropD in_set_takeD)
  show ?thesis
    using run_live [of ?st ws2 ?L now2] run_live_no_lag [of ?st ws2 ?L now2] assms(11) L kL fs2 by (simp add: fresh_for_def)
qed

theorem heartbeat_loses_the_cursor_witness:
  "delivered (run_stream 9 (build_mcp_session_stream ''s''
      (client_cursor (run_stream 3 (build_mcp_session_stream ''s'' 0 [])
         [Recv (Received \<lparr>ev_id = 1, ev_event = Message, ev_data = JNull\<rparr>), Tick 4]))
      (snapshot_replay_buffer (publish_all [(Message, JNull), (Message, JNull)] (session_new None 0)))) []) = []"
proof -
  let ?ws = "[Recv (Received \<lparr>ev_id = 1, ev_event = Message, ev_data = JNull\<rparr>), Tick 4]"
  have b: "snapshot_replay_buffer (publish_all [] (session_new None 0)) = []"
    by (simp add: publish_all_def session_new_def snapshot_replay_buffer_def)
  have f: "run_stream 3 (build_mcp_session_stream ''s'' 0 []) ?ws =
    [build_mcp_sse_event 0 Init (JObj [(''connected'', JBool True), (''session_id'', JStr ''s''), (''ts_ms'', JNum 3)]),
     build_mcp_sse_event 1 Message JNull, build_mcp_sse_event 0 Heartbeat (JObj [(''ts_ms'', JNum 4)])]"
    by code_simp
  show ?thesis
    using heartbeat_loses_the_cursor [where ys = "[]" and ?ws1.0 = ?ws and ?now1.0 = 3 and ?l1.0 = 0 and p = None and t = 0 and
        ?xs0.0 = "[(Message, JNull), (Message, JNull)]" and ?xs1.0 = "[]" and ?xs2.0 = "[]" and ?ws2.0 = "[]" and k = 0 and ?now2.0 = 9
        and sid = "''s''"] b f
    by (simp add: sound_wakes_def published_def)
qed

section \<open>Publishers that interleave\<close>

text \<open>
  Several tasks publish into one session: the bridge and every progress reporter. The three
  effects of a publication are atomic one by one, so those of different tasks interleave.
\<close>

record publishers =
  shared :: SessionState
  drawn :: "McpStreamEvent list"
  pushed :: "McpStreamEvent list"

inductive pub_step :: "publishers \<Rightarrow> publishers \<Rightarrow> bool" where
  draw: "next_event_id (shared p) < 2 ^ 64 - 1 \<Longrightarrow> alloc_id (shared p) = (i, s) \<Longrightarrow>
    pub_step p (p\<lparr>shared := s, drawn := \<lparr>ev_id = i, ev_event = k, ev_data = d\<rparr> # drawn p\<rparr>)"
| push: "e \<in> set (drawn p) \<Longrightarrow>
    pub_step p (p\<lparr>shared := push_replay e (shared p), drawn := remove1 e (drawn p), pushed := e # pushed p\<rparr>)"
| send: "e \<in> set (pushed p) \<Longrightarrow>
    pub_step p (p\<lparr>shared := send_event e (shared p), pushed := remove1 e (pushed p)\<rparr>)"

definition pub_start :: "string option \<Rightarrow> int \<Rightarrow> publishers" where
  "pub_start pr now = \<lparr>shared = session_new pr now, drawn = [], pushed = []\<rparr>"

definition all_ids :: "publishers \<Rightarrow> nat list" where
  "all_ids p = map ev_id (event_tx (shared p) @ pushed p @ drawn p)"

definition pub_wf :: "publishers \<Rightarrow> bool" where
  "pub_wf p =
     (distinct (all_ids p) \<and> set (all_ids p) = {1..<next_event_id (shared p)} \<and> 1 \<le> next_event_id (shared p) \<and>
      length (event_replay_buffer (shared p)) \<le> 256 \<and> set (event_replay_buffer (shared p)) \<subseteq> set (event_tx (shared p) @ pushed p))"

lemma remove1_ids: "e \<in> set es \<Longrightarrow> mset (map ev_id es) = {#ev_id e#} + mset (map ev_id (remove1 e es))"
  by (induction es) auto

lemma pub_wf_ids:
  assumes "mset (all_ids q) = mset (all_ids p)" "distinct (all_ids p)"
  shows "distinct (all_ids q)" "set (all_ids q) = set (all_ids p)"
  using assms mset_eq_imp_distinct_iff mset_eq_setD by blast+

lemma fresh_id:
  assumes "mset xs = add_mset n (mset ys)" "distinct ys" "n \<notin> set ys"
  shows "distinct xs" "set xs = insert n (set ys)"
  using assms mset_eq_imp_distinct_iff [of xs "n # ys"] mset_eq_setD [of xs "n # ys"] by auto

text \<open>
  C38: however the publications of a session interleave, every id is drawn once and the ids drawn
  are those from one up to the counter; the ring buffer holds at most 256 events, each of which
  has been or is about to be given to the channel.
\<close>

theorem publications_well_formed:
  assumes "pub_step\<^sup>*\<^sup>* (pub_start pr now) p"
  shows "pub_wf p"
  using assms
proof (induction rule: rtranclp_induct)
  case base
  then show ?case by (simp add: pub_wf_def pub_start_def session_new_def all_ids_def)
next
  case (step p q)
  from step.hyps(2) step.IH show ?case
  proof cases
    case (draw i s k d)
    let ?n = "next_event_id (shared p)"
    have m: "mset (all_ids q) = add_mset ?n (mset (all_ids p))"
      using draw by (auto simp: all_ids_def alloc_id_def)
    have "distinct (all_ids p)" "?n \<notin> set (all_ids p)" "set (all_ids p) = {1..<?n}" using step.IH by (simp_all add: pub_wf_def)
    moreover have "next_event_id (shared q) = Suc ?n" using draw by (auto simp: alloc_id_def)
    ultimately have "distinct (all_ids q)" "set (all_ids q) = {1..<next_event_id (shared q)}"
      using fresh_id [OF m] step.IH by (auto simp: pub_wf_def)
    then show ?thesis using step.IH draw by (auto simp: pub_wf_def alloc_id_def)
  next
    case (push e)
    have m: "mset (all_ids q) = mset (all_ids p)"
      using push remove1_ids [of e "drawn p"] by (simp add: all_ids_def push_replay_def Let_def)
    then show ?thesis
      using pub_wf_ids [OF m] step.IH push
      by (auto simp: pub_wf_def push_replay_def Let_def MCP_SESSION_EVENT_BUFFER_CAPACITY_def dest: list.set_sel(2) [rotated])
  next
    case (send e)
    have m: "mset (all_ids q) = mset (all_ids p)"
      using send remove1_ids [of e "pushed p"] by (simp add: all_ids_def send_event_def)
    then show ?thesis
      using pub_wf_ids [OF m] step.IH send by (auto simp: pub_wf_def send_event_def)
  qed
qed

theorem publications_well_formed_witness:
  "pub_wf \<lparr>shared = snd (alloc_id (session_new None 0)), drawn = [\<lparr>ev_id = 1, ev_event = Message, ev_data = JNull\<rparr>], pushed = []\<rparr>"
proof -
  let ?s = "session_new None 0"
  have "alloc_id ?s = (1, snd (alloc_id ?s))" by (simp add: alloc_id_def session_new_def)
  then have "pub_step (pub_start None 0) \<lparr>shared = snd (alloc_id ?s), drawn = [\<lparr>ev_id = 1, ev_event = Message, ev_data = JNull\<rparr>], pushed = []\<rparr>"
    using pub_step.draw [of "pub_start None 0" 1 "snd (alloc_id ?s)" Message JNull] by (simp add: pub_start_def session_new_def)
  then show ?thesis by (rule publications_well_formed [OF r_into_rtranclp [of pub_step]])
qed

text \<open>
  Two publications that overlap can reach the channel in the other order, and then a live
  client loses one: there is an interleaving of two publications after which the channel has both
  events, the younger first, the client that listened from the start receives the younger only,
  and no lag report tells it.
\<close>

theorem overlapping_publications_drop_an_event:
  "\<exists>p. pub_step\<^sup>*\<^sup>* (pub_start None 0) p \<and> drawn p = [] \<and> pushed p = [] \<and> map ev_id (event_tx (shared p)) = [2, 1] \<and>
     map fr_id (run_stream 0 (build_mcp_session_stream ''s'' 0 []) (map (\<lambda>e. Recv (Received e)) (event_tx (shared p)))) = [0, 2]"
proof -
  let ?e = "\<lambda>i. \<lparr>ev_id = i, ev_event = Message, ev_data = JNull\<rparr>"
  let ?s0 = "session_new None 0"
  define s1 where "s1 = snd (alloc_id ?s0)"
  define s2 where "s2 = snd (alloc_id s1)"
  define s3 where "s3 = push_replay (?e 2) s2"
  define s4 where "s4 = send_event (?e 2) s3"
  define s5 where "s5 = push_replay (?e 1) s4"
  define s6 where "s6 = send_event (?e 1) s5"
  note defs = s1_def s2_def s3_def s4_def s5_def s6_def
  have "pub_step (pub_start None 0) \<lparr>shared = s1, drawn = [?e 1], pushed = []\<rparr>"
    using pub_step.draw [of "pub_start None 0" 1 s1 Message JNull] by (simp add: pub_start_def defs alloc_id_def session_new_def)
  moreover have "pub_step \<lparr>shared = s1, drawn = [?e 1], pushed = []\<rparr> \<lparr>shared = s2, drawn = [?e 2, ?e 1], pushed = []\<rparr>"
    using pub_step.draw [of "\<lparr>shared = s1, drawn = [?e 1], pushed = []\<rparr>" 2 s2 Message JNull] by (simp add: defs alloc_id_def session_new_def)
  moreover have "pub_step \<lparr>shared = s2, drawn = [?e 2, ?e 1], pushed = []\<rparr> \<lparr>shared = s3, drawn = [?e 1], pushed = [?e 2]\<rparr>"
    using pub_step.push [of "?e 2" "\<lparr>shared = s2, drawn = [?e 2, ?e 1], pushed = []\<rparr>"] by (simp add: defs)
  moreover have "pub_step \<lparr>shared = s3, drawn = [?e 1], pushed = [?e 2]\<rparr> \<lparr>shared = s4, drawn = [?e 1], pushed = []\<rparr>"
    using pub_step.send [of "?e 2" "\<lparr>shared = s3, drawn = [?e 1], pushed = [?e 2]\<rparr>"] by (simp add: defs)
  moreover have "pub_step \<lparr>shared = s4, drawn = [?e 1], pushed = []\<rparr> \<lparr>shared = s5, drawn = [], pushed = [?e 1]\<rparr>"
    using pub_step.push [of "?e 1" "\<lparr>shared = s4, drawn = [?e 1], pushed = []\<rparr>"] by (simp add: defs)
  moreover have "pub_step \<lparr>shared = s5, drawn = [], pushed = [?e 1]\<rparr> \<lparr>shared = s6, drawn = [], pushed = []\<rparr>"
    using pub_step.send [of "?e 1" "\<lparr>shared = s5, drawn = [], pushed = [?e 1]\<rparr>"] by (simp add: defs)
  ultimately have r: "pub_step\<^sup>*\<^sup>* (pub_start None 0) \<lparr>shared = s6, drawn = [], pushed = []\<rparr>"
    by (meson converse_rtranclp_into_rtranclp rtranclp.rtrancl_refl)
  have tx: "event_tx s6 = [?e 2, ?e 1]"
    by (simp add: defs alloc_id_def push_replay_def send_event_def session_new_def Let_def)
  have "map fr_id (run_stream 0 (build_mcp_session_stream ''s'' 0 []) (map (\<lambda>e. Recv (Received e)) [?e 2, ?e 1])) = [0, 2]"
    by code_simp
  then show ?thesis using r tx by (intro exI [of _ "\<lparr>shared = s6, drawn = [], pushed = []\<rparr>"]) simp
qed

end
