(* ===== verification/Tasks.thy ===== *)
theory Tasks
  imports Session
begin

text \<open>
  \<open>crates/solo-api/src/mcp_task.rs\<close>: the store of the background tasks, their cancellation and the
  expiry of their results. A time is in nanoseconds; what an entry keeps is its RFC 3339 form with
  milliseconds, that is the time truncated. The form has a fixed width, so the order of the
  strings is the order of the times. What a client and the worker of a task do to the
  store interleaves: the flag of a cancellation is set before its status, each atomically.
\<close>

section \<open>Entries\<close>

definition TASK_RESULT_TTL_MS :: int where "TASK_RESULT_TTL_MS = 30 * 60 * 1000"
definition TASK_POLL_INTERVAL_MS :: int where "TASK_POLL_INTERVAL_MS = 1000"

definition now_iso8601 :: "int \<Rightarrow> int" where
  "now_iso8601 now = now - now mod 1000000"

datatype TaskStatus = Working | InputRequired | Completed | Failed | Cancelled

record TaskEntry =
  te_task_id :: string
  te_created_at :: int
  te_cancel_requested :: bool
  te_status :: TaskStatus
  te_status_message :: "string option"
  te_last_updated_at :: int
  te_result :: "jv option"

record Task =
  tk_task_id :: string
  tk_status :: TaskStatus
  tk_created_at :: int
  tk_last_updated_at :: int
  tk_ttl :: int
  tk_poll_interval :: int
  tk_status_message :: "string option"

type_synonym TaskStore = "(string \<times> TaskEntry) list"

datatype mcp_error = InvalidParams string | InvalidRequest string | InternalError string

definition snapshot_task :: "TaskEntry \<Rightarrow> Task" where
  "snapshot_task e =
     \<lparr>tk_task_id = te_task_id e, tk_status = te_status e, tk_created_at = te_created_at e,
      tk_last_updated_at = te_last_updated_at e, tk_ttl = TASK_RESULT_TTL_MS,
      tk_poll_interval = TASK_POLL_INTERVAL_MS, tk_status_message = te_status_message e\<rparr>"

definition get_entry :: "string \<Rightarrow> TaskStore \<Rightarrow> mcp_error + TaskEntry" where
  "get_entry i m = (case map_of m i of None \<Rightarrow> Inl (InvalidParams (''task '' @ i @ '' not found'')) | Some e \<Rightarrow> Inr e)"

definition set_entry :: "string \<Rightarrow> TaskEntry \<Rightarrow> TaskStore \<Rightarrow> TaskStore" where
  "set_entry i e m = map (\<lambda>(j, x). if j = i then (j, e) else (j, x)) m"

definition task_ended :: "TaskStatus \<Rightarrow> bool" where
  "task_ended s = (s = Completed \<or> s = Failed \<or> s = Cancelled)"

definition prune_expired :: "int \<Rightarrow> TaskStore \<Rightarrow> TaskStore" where
  "prune_expired now m =
     filter (\<lambda>(i, e). \<not> (task_ended (te_status e) \<and> now - te_last_updated_at e > TASK_RESULT_TTL_MS * 1000000)) m"

section \<open>Operations\<close>

definition start :: "int \<Rightarrow> string \<Rightarrow> string \<Rightarrow> TaskStore \<Rightarrow> Task \<times> TaskStore" where
  "start now fresh_id status_message m =
     (let m1 = prune_expired now m;
          e = \<lparr>te_task_id = fresh_id, te_created_at = now_iso8601 now, te_cancel_requested = False, te_status = Working,
               te_status_message = Some status_message, te_last_updated_at = now_iso8601 now, te_result = None\<rparr>
      in (snapshot_task e, (fresh_id, e) # m1))"

text \<open>\<open>sort_by\<close> created descending, then the id ascending; the ids are distinct.\<close>

definition task_before :: "Task \<Rightarrow> Task \<Rightarrow> bool" where
  "task_before a b =
     (tk_created_at b < tk_created_at a \<or>
      tk_created_at b = tk_created_at a \<and> lexordp_eq (map of_char (tk_task_id a) :: nat list) (map of_char (tk_task_id b)))"

fun insert_task :: "Task \<Rightarrow> Task list \<Rightarrow> Task list" where
  "insert_task t [] = [t]"
| "insert_task t (u # us) = (if task_before t u then t # u # us else u # insert_task t us)"

definition list_tasks :: "int \<Rightarrow> TaskStore \<Rightarrow> (Task list \<times> nat) \<times> TaskStore" where
  "list_tasks now m =
     (let m1 = prune_expired now m
      in ((foldr insert_task (map (\<lambda>(_, e). snapshot_task e) m1) [], length m1), m1))"

definition get_task :: "int \<Rightarrow> string \<Rightarrow> TaskStore \<Rightarrow> (mcp_error + Task) \<times> TaskStore" where
  "get_task now i m =
     (let m1 = prune_expired now m in (case get_entry i m1 of Inl x \<Rightarrow> (Inl x, m1) | Inr e \<Rightarrow> (Inr (snapshot_task e), m1)))"

definition result_of :: "string \<Rightarrow> TaskEntry \<Rightarrow> mcp_error + jv" where
  "result_of i e =
     (case te_status e of
        Completed \<Rightarrow> Inr (case te_result e of None \<Rightarrow> JObj [] | Some v \<Rightarrow> v)
      | Failed \<Rightarrow> Inl (InternalError (case te_status_message e of None \<Rightarrow> ''task '' @ i @ '' failed'' | Some t \<Rightarrow> t))
      | Cancelled \<Rightarrow> Inl (InvalidRequest (case te_status_message e of None \<Rightarrow> ''task '' @ i @ '' was cancelled'' | Some t \<Rightarrow> t))
      | _ \<Rightarrow> Inl (InvalidRequest (''task '' @ i @ '' is not complete'')))"

definition task_result :: "int \<Rightarrow> string \<Rightarrow> TaskStore \<Rightarrow> (mcp_error + jv) \<times> TaskStore" where
  "task_result now i m =
     (let m1 = prune_expired now m in (case get_entry i m1 of Inl x \<Rightarrow> (Inl x, m1) | Inr e \<Rightarrow> (result_of i e, m1)))"

text \<open>The two effects of \<open>cancel\<close> on the entry.\<close>

definition request_cancel :: "TaskEntry \<Rightarrow> TaskEntry" where
  "request_cancel e = e\<lparr>te_cancel_requested := True\<rparr>"

definition mark_cancelled :: "int \<Rightarrow> TaskEntry \<Rightarrow> TaskEntry" where
  "mark_cancelled now e =
     (if te_status e = Completed \<or> te_status e = Failed then e
      else e\<lparr>te_status := Cancelled, te_status_message := Some ''cancel requested'', te_last_updated_at := now_iso8601 now\<rparr>)"

definition cancel_task :: "int \<Rightarrow> string \<Rightarrow> TaskStore \<Rightarrow> (mcp_error + Task) \<times> TaskStore" where
  "cancel_task now i m =
     (let m1 = prune_expired now m in
      case get_entry i m1 of
        Inl x \<Rightarrow> (Inl x, m1)
      | Inr e \<Rightarrow> let e' = mark_cancelled now (request_cancel e) in (Inr (snapshot_task e'), set_entry i e' m1))"

definition complete_entry :: "int \<Rightarrow> jv \<Rightarrow> TaskEntry \<Rightarrow> TaskEntry" where
  "complete_entry now v e =
     (if te_status e = Cancelled \<or> te_cancel_requested e
      then e\<lparr>te_status := Cancelled, te_status_message := Some ''cancelled'', te_last_updated_at := now_iso8601 now\<rparr>
      else e\<lparr>te_status := Completed, te_status_message := Some ''completed'', te_last_updated_at := now_iso8601 now, te_result := Some v\<rparr>)"

definition fail_entry :: "int \<Rightarrow> string \<Rightarrow> TaskEntry \<Rightarrow> TaskEntry" where
  "fail_entry now msg e =
     (if te_status e = Cancelled \<or> te_cancel_requested e
      then e\<lparr>te_status := Cancelled, te_status_message := Some ''cancelled'', te_last_updated_at := now_iso8601 now\<rparr>
      else e\<lparr>te_status := Failed, te_status_message := Some msg, te_last_updated_at := now_iso8601 now\<rparr>)"

definition complete :: "int \<Rightarrow> string \<Rightarrow> jv \<Rightarrow> TaskStore \<Rightarrow> TaskStore" where
  "complete now i v m = (case map_of m i of None \<Rightarrow> m | Some e \<Rightarrow> set_entry i (complete_entry now v e) m)"

definition fail :: "int \<Rightarrow> string \<Rightarrow> string \<Rightarrow> TaskStore \<Rightarrow> TaskStore" where
  "fail now i msg m = (case map_of m i of None \<Rightarrow> m | Some e \<Rightarrow> set_entry i (fail_entry now msg e) m)"

text \<open>
  \<open>enqueue_tool_task\<close> of \<open>mcp.rs\<close>: the tools and whether they allow tasks are a parameter; the task
  it starts has a worker that reports the outcome of the tool once.
\<close>

datatype TaskSupport = TaskForbidden | TaskOptional | TaskRequired

definition enqueue_tool_task ::
  "(string \<Rightarrow> TaskSupport option) \<Rightarrow> int \<Rightarrow> string \<Rightarrow> string \<Rightarrow> TaskStore \<Rightarrow> (mcp_error + Task) \<times> TaskStore" where
  "enqueue_tool_task tools now fresh_id name m =
     (case tools name of
        None \<Rightarrow> (Inl (InvalidParams (''unknown tool `'' @ name @ ''`'')), m)
      | Some TaskForbidden \<Rightarrow>
          (Inl (InvalidParams (''tool `'' @ name @ ''` does not support task-based invocation'')), m)
      | Some _ \<Rightarrow> (case start now fresh_id (''running tool `'' @ name @ ''`'') m of (t, m') \<Rightarrow> (Inr t, m')))"

definition worker_report :: "int \<Rightarrow> string \<Rightarrow> string + jv \<Rightarrow> TaskStore \<Rightarrow> TaskStore" where
  "worker_report now i outcome m = (case outcome of Inl msg \<Rightarrow> fail now i msg m | Inr v \<Rightarrow> complete now i v m)"

section \<open>Cancellation tokens\<close>

text \<open>
  A token names the task or the request it belongs to. It shares the flag of the task and the session
  with the server, so what a check reads is the flags and the session at that moment.
\<close>

record CancellationToken =
  task_cancelled :: "string option"
  request_cancelled :: "string option"

definition token_is_cancelled :: "CancellationToken \<Rightarrow> (string \<Rightarrow> bool) \<Rightarrow> SessionState option \<Rightarrow> bool" where
  "token_is_cancelled t flags session =
     ((case task_cancelled t of None \<Rightarrow> False | Some i \<Rightarrow> flags i) \<or>
      (case (session, request_cancelled t) of (Some s, Some i) \<Rightarrow> is_request_cancelled i s | _ \<Rightarrow> False))"

definition token_check :: "CancellationToken \<Rightarrow> (string \<Rightarrow> bool) \<Rightarrow> SessionState option \<Rightarrow> mcp_error + unit" where
  "token_check t flags session = require (\<not> token_is_cancelled t flags session) (InvalidRequest ''request cancelled'')"

section \<open>The tasks of a server\<close>

text \<open>
  The store with the workers that have not reported yet and the ids drawn so far. Every operation
  of a client prunes first, which is a step of its own here.
\<close>

record task_system =
  tasks :: TaskStore
  workers :: "string set"
  drawn_ids :: "string set"

inductive task_step :: "task_system \<Rightarrow> task_system \<Rightarrow> bool" where
  started: "fresh_id \<notin> drawn_ids s \<Longrightarrow> enqueue_tool_task tools now fresh_id name (tasks s) = (Inr t, m) \<Longrightarrow>
    task_step s (s\<lparr>tasks := m, workers := insert fresh_id (workers s), drawn_ids := insert fresh_id (drawn_ids s)\<rparr>)"
| pruned: "task_step s (s\<lparr>tasks := prune_expired now (tasks s)\<rparr>)"
| cancel_requested: "map_of (tasks s) i = Some e \<Longrightarrow>
    task_step s (s\<lparr>tasks := set_entry i (request_cancel e) (tasks s)\<rparr>)"
| cancel_marked: "map_of (tasks s) i = Some e \<Longrightarrow> te_cancel_requested e \<Longrightarrow>
    task_step s (s\<lparr>tasks := set_entry i (mark_cancelled now e) (tasks s)\<rparr>)"
| reported: "i \<in> workers s \<Longrightarrow>
    task_step s (s\<lparr>tasks := worker_report now i outcome (tasks s), workers := workers s - {i}\<rparr>)"

definition no_tasks :: task_system where
  "no_tasks = \<lparr>tasks = [], workers = {}, drawn_ids = {}\<rparr>"

text \<open>What an entry says when it is cancelled.\<close>

definition cancel_texts :: "string option set" where
  "cancel_texts = {Some ''cancel requested'', Some ''cancelled''}"

definition task_wf :: "task_system \<Rightarrow> bool" where
  "task_wf s =
     (distinct (map fst (tasks s)) \<and> fst ` set (tasks s) \<subseteq> drawn_ids s \<and> workers s \<subseteq> drawn_ids s \<and>
      (\<forall>i e. map_of (tasks s) i = Some e \<longrightarrow>
         (te_status e \<in> {Completed, Failed} \<longrightarrow> i \<notin> workers s) \<and> (te_status e \<noteq> Completed \<longrightarrow> te_result e = None) \<and>
         (te_status e = Cancelled \<longrightarrow> te_status_message e \<in> cancel_texts)))"

declare map_of_eq_Some_iff [simp del]

lemma set_entry_fst [simp]: "map fst (set_entry i e m) = map fst m"
  by (induction m) (auto simp: set_entry_def)

lemma set_entry_dom [simp]: "fst ` set (set_entry i e m) = fst ` set m"
  by (metis set_entry_fst list.set_map)

lemma map_of_set_entry: "map_of (set_entry i e m) = (if map_of m i = None then map_of m else (map_of m)(i \<mapsto> e))"
proof (rule ext)
  show "map_of (set_entry i e m) j = (if map_of m i = None then map_of m else (map_of m)(i \<mapsto> e)) j" for j
    by (induction m) (auto simp: set_entry_def)
qed

lemma map_of_prune:
  "distinct (map fst m) \<Longrightarrow> map_of (prune_expired now m) i =
     (case map_of m i of None \<Rightarrow> None
      | Some e \<Rightarrow> if task_ended (te_status e) \<and> now - te_last_updated_at e > TASK_RESULT_TTL_MS * 1000000 then None else Some e)"
proof (induction m)
  case (Cons x m)
  have out: "fst x \<notin> fst ` set m" using Cons.prems by simp
  then have "fst x \<notin> fst ` set (prune_expired now m)" by (auto simp: prune_expired_def)
  then have "map_of (prune_expired now m) (fst x) = None" by (simp add: map_of_eq_None_iff)
  then show ?case using Cons by (cases x) (auto simp: prune_expired_def)
qed (simp add: prune_expired_def)

lemma prune_dom: "fst ` set (prune_expired now m) \<subseteq> fst ` set m" "distinct (map fst m) \<Longrightarrow> distinct (map fst (prune_expired now m))"
  by (auto simp: prune_expired_def distinct_map_filter)

lemma prune_sub: "distinct (map fst m) \<Longrightarrow> map_of (prune_expired now m) i = Some e \<Longrightarrow> map_of m i = Some e"
  by (auto simp: map_of_prune split: option.splits if_splits)

lemma worker_report_map:
  "map_of (worker_report now i r m) = (case map_of m i of None \<Rightarrow> map_of m
     | Some e \<Rightarrow> (map_of m)(i \<mapsto> (case r of Inl msg \<Rightarrow> fail_entry now msg e | Inr v \<Rightarrow> complete_entry now v e)))"
  "map fst (worker_report now i r m) = map fst m"
  by (auto simp: worker_report_def fail_def complete_def map_of_set_entry split: sum.split option.split)

lemma started_entry:
  assumes "enqueue_tool_task tools now fresh_id name m0 = (Inr t, m)"
  shows "\<exists>e. m = (fresh_id, e) # prune_expired now m0 \<and> te_status e = Working \<and> te_result e = None"
  using assms by (auto simp: enqueue_tool_task_def start_def Let_def split: option.splits TaskSupport.splits)

lemma map_of_dom: "map_of m i = Some e \<Longrightarrow> i \<in> fst ` set m"
  by (metis map_of_SomeD fst_conv image_eqI)

lemma task_wf_mono:
  assumes "task_wf s" "distinct (map fst (tasks s'))" "fst ` set (tasks s') \<subseteq> drawn_ids s" "workers s' = workers s"
    "drawn_ids s' = drawn_ids s" "\<And>i x. map_of (tasks s') i = Some x \<Longrightarrow> map_of (tasks s) i = Some x"
  shows "task_wf s'"
proof -
  have "(te_status x \<in> {Completed, Failed} \<longrightarrow> i \<notin> workers s) \<and> (te_status x \<noteq> Completed \<longrightarrow> te_result x = None) \<and>
      (te_status x = Cancelled \<longrightarrow> te_status_message x \<in> cancel_texts)"
    if "map_of (tasks s') i = Some x" for i x
    using assms(1) assms(6) [OF that] unfolding task_wf_def by metis
  moreover have "workers s \<subseteq> drawn_ids s" using assms(1) by (simp add: task_wf_def)
  ultimately show ?thesis unfolding task_wf_def assms(4,5) using assms(2,3) by metis
qed

lemma task_step_wf: "task_step s s' \<Longrightarrow> task_wf s \<Longrightarrow> task_wf s'"
proof (induction rule: task_step.induct)
  case (started fresh_id s tools now name t m)
  obtain e0 where m: "m = (fresh_id, e0) # prune_expired now (tasks s)" "te_status e0 = Working" "te_result e0 = None"
    using started_entry [OF started(2)] by blast
  let ?p = "prune_expired now (tasks s)"
  have w: "distinct (map fst (tasks s))" "fst ` set (tasks s) \<subseteq> drawn_ids s" using started(3) by (simp_all add: task_wf_def)
  note p = subset_trans [OF prune_dom(1) [of now "tasks s"] w(2)] prune_dom(2) [OF w(1), of now]
  note sub = prune_sub [OF w(1), of now]
  have "distinct (map fst m)" using p started(1) m(1) by auto
  moreover have "fst ` set m \<subseteq> insert fresh_id (drawn_ids s)" using p(1) m(1) by auto
  moreover have "workers s \<subseteq> drawn_ids s" using started(3) by (simp add: task_wf_def)
  moreover have "(te_status e \<in> {Completed, Failed} \<longrightarrow> i \<notin> insert fresh_id (workers s)) \<and> (te_status e \<noteq> Completed \<longrightarrow> te_result e = None) \<and>
      (te_status e = Cancelled \<longrightarrow> te_status_message e \<in> cancel_texts)"
    if i: "map_of m i = Some e" for i e
  proof (cases "i = fresh_id")
    case True
    then show ?thesis using i m by simp
  next
    case False
    then have "map_of (tasks s) i = Some e" using i m(1) sub by simp
    then show ?thesis using started(3) False unfolding task_wf_def by blast
  qed
  ultimately show ?case unfolding task_wf_def by auto
next
  case (pruned s now)
  then have w: "distinct (map fst (tasks s))" "fst ` set (tasks s) \<subseteq> drawn_ids s" by (simp_all add: task_wf_def)
  show ?case
    by (rule task_wf_mono [OF pruned])
      (simp_all add: prune_dom(2) [OF w(1)] prune_sub [OF w(1)] subset_trans [OF prune_dom(1) w(2)])
next
  case (cancel_requested s i e)
  then show ?case unfolding task_wf_def by (auto simp: map_of_set_entry request_cancel_def)
next
  case (cancel_marked s i e now)
  then show ?case unfolding task_wf_def by (auto simp: map_of_set_entry mark_cancelled_def cancel_texts_def)
next
  case (reported i s now outcome)
  have "fst ` set (worker_report now i outcome (tasks s)) = fst ` set (tasks s)"
    by (metis worker_report_map(2) list.set_map)
  then show ?case
    using reported unfolding task_wf_def
    by (auto simp: worker_report_map fail_entry_def complete_entry_def cancel_texts_def split: option.splits sum.splits if_splits)
qed

lemma task_steps_wf: "task_step\<^sup>*\<^sup>* no_tasks s \<Longrightarrow> task_wf s"
proof (induction rule: rtranclp_induct)
  case base
  show ?case by (simp add: task_wf_def no_tasks_def)
qed (rule task_step_wf)

text \<open>What cannot change any more about a task, until it is pruned.\<close>

definition settled_as :: "TaskEntry \<Rightarrow> string \<Rightarrow> task_system \<Rightarrow> bool" where
  "settled_as e i s =
     (i \<in> drawn_ids s \<and> (\<forall>e'. map_of (tasks s) i = Some e' \<longrightarrow> te_status e' = te_status e \<and> te_result e' = te_result e \<and>
        (te_status e \<noteq> Cancelled \<longrightarrow> te_status_message e' = te_status_message e)))"

lemma settled_mono:
  "settled_as e i s \<Longrightarrow> drawn_ids s \<subseteq> drawn_ids s' \<Longrightarrow>
   (\<And>x. map_of (tasks s') i = Some x \<Longrightarrow> map_of (tasks s) i = Some x) \<Longrightarrow> settled_as e i s'"
  unfolding settled_as_def by blast

lemma settled_step:
  assumes "task_step s s'" "task_wf s" "settled_as e i s" "task_ended (te_status e)"
  shows "settled_as e i s'"
  using assms
proof (induction rule: task_step.induct)
  case (started fresh_id s tools now name t m)
  obtain e0 where "m = (fresh_id, e0) # prune_expired now (tasks s)" using started_entry [OF started(2)] by metis
  moreover have "i \<noteq> fresh_id" using started(1,4) by (auto simp: settled_as_def)
  ultimately have m: "map_of m i = map_of (prune_expired now (tasks s)) i" by simp
  have d: "distinct (map fst (tasks s))" using started(3) by (simp add: task_wf_def)
  show ?case by (rule settled_mono [OF started(4)]) (simp_all add: m prune_sub [OF d] subset_insertI)
next
  case (pruned s now)
  have d: "distinct (map fst (tasks s))" using pruned(1) by (simp add: task_wf_def)
  show ?case by (rule settled_mono [OF pruned(2)]) (simp_all add: prune_sub [OF d])
next
  case (cancel_requested s j x)
  then show ?case by (auto simp: settled_as_def map_of_set_entry request_cancel_def)
next
  case (cancel_marked s j x now)
  then show ?case by (auto simp: settled_as_def map_of_set_entry mark_cancelled_def task_ended_def)
next
  case (reported j s now outcome)
  show ?case
  proof (cases "j = i")
    case True
    show ?thesis
    proof (cases "map_of (tasks s) i")
      case None
      then show ?thesis using reported(3) True by (simp add: settled_as_def worker_report_map)
    next
      case (Some x)
      then have x: "te_status x = te_status e" "te_result x = te_result e" using reported(3) by (simp_all add: settled_as_def)
      have "te_status x \<notin> {Completed, Failed}" using reported(1,2) Some True unfolding task_wf_def by blast
      then have "te_status e = Cancelled" using x(1) reported(4) by (simp add: task_ended_def)
      then show ?thesis
        using reported(3) True Some x
        by (simp add: settled_as_def worker_report_map fail_entry_def complete_entry_def split: sum.split)
    qed
  next
    case False
    then have "map_of (worker_report now j outcome (tasks s)) i = map_of (tasks s) i"
      by (simp add: worker_report_map split: option.split)
    then show ?thesis using reported(3) by (simp add: settled_as_def)
  qed
qed

text \<open>
  C40: the end of a task is final. Once a task is completed, failed or cancelled, then whatever its
  worker and its clients do afterwards, in any interleaving, a request for its result is answered with
  the outcome it ended with, or that the task is not there when it has been pruned: a completed task gives its result
  and a failed one its error, word for word; a cancelled one gives an error with one of two texts, and never a result.
\<close>

theorem task_end_is_final:
  assumes "task_step\<^sup>*\<^sup>* no_tasks s" "task_step\<^sup>*\<^sup>* s s'" "map_of (tasks s) i = Some e" "task_ended (te_status e)"
  shows "fst (task_result now i (tasks s')) \<in>
     (if te_status e = Cancelled then {Inl (InvalidRequest ''cancel requested''), Inl (InvalidRequest ''cancelled'')} else {result_of i e}) \<union>
     (if map_of (prune_expired now (tasks s')) i = None then {Inl (InvalidParams (''task '' @ i @ '' not found''))} else {})"
proof -
  have wf: "task_wf s" by (rule task_steps_wf [OF assms(1)])
  then have "settled_as e i s"
    using assms(3) map_of_dom [OF assms(3)] by (auto simp: settled_as_def task_wf_def)
  with assms(2) wf have end_wf: "task_wf s' \<and> settled_as e i s'"
    by (induction rule: rtranclp_induct) (use assms(4) settled_step task_step_wf in blast)+
  show ?thesis
  proof (cases "map_of (prune_expired now (tasks s')) i")
    case None
    then show ?thesis by (simp add: task_result_def get_entry_def Let_def)
  next
    case (Some e')
    have e': "map_of (tasks s') i = Some e'"
      using end_wf Some prune_sub [of "tasks s'" now i e'] by (simp add: task_wf_def)
    have same: "te_status e' = te_status e" "te_result e' = te_result e" "te_status e \<noteq> Cancelled \<longrightarrow> te_status_message e' = te_status_message e"
      and told: "te_status e = Cancelled \<longrightarrow> te_status_message e' \<in> cancel_texts"
      using end_wf e' unfolding settled_as_def task_wf_def by metis+
    have "fst (task_result now i (tasks s')) = result_of i e'" using Some by (simp add: task_result_def get_entry_def Let_def)
    moreover have "result_of i e' \<in> {Inl (InvalidRequest ''cancel requested''), Inl (InvalidRequest ''cancelled'')}" if "te_status e = Cancelled"
      using that same(1) told by (auto simp: result_of_def cancel_texts_def)
    moreover have "result_of i e' = result_of i e" if "te_status e \<noteq> Cancelled"
      using that same by (auto simp: result_of_def split: TaskStatus.split)
    ultimately show ?thesis by simp
  qed
qed

theorem task_end_is_final_witness:
  "\<exists>s s' e. task_step\<^sup>*\<^sup>* no_tasks s \<and> task_step s s' \<and> map_of (tasks s) ''t'' = Some e \<and>
     te_status e = Completed \<and> fst (task_result 5 ''t'' (tasks s')) = Inr JNull"
proof -
  let ?tools = "\<lambda>_. Some TaskOptional"
  define s1 where "s1 = no_tasks\<lparr>tasks := snd (enqueue_tool_task ?tools 1 ''t'' ''n'' []), workers := {''t''}, drawn_ids := {''t''}\<rparr>"
  define s2 where "s2 = s1\<lparr>tasks := worker_report 2 ''t'' (Inr JNull) (tasks s1), workers := {}\<rparr>"
  define e where "e = the (map_of (tasks s2) ''t'')"
  define s3 where "s3 = s2\<lparr>tasks := set_entry ''t'' (request_cancel e) (tasks s2)\<rparr>"
  have t1: "task_step no_tasks s1"
    using task_step.started [of "''t''" no_tasks ?tools 1 "''n''"]
    by (simp add: s1_def no_tasks_def enqueue_tool_task_def start_def Let_def prune_expired_def)
  have t2: "task_step s1 s2" using task_step.reported [of "''t''" s1 2 "Inr JNull"] by (simp add: s2_def s1_def)
  have e: "map_of (tasks s2) ''t'' = Some e" "te_status e = Completed" "result_of ''t'' e = Inr JNull"
    by (simp_all add: e_def s2_def s1_def no_tasks_def enqueue_tool_task_def start_def Let_def prune_expired_def worker_report_def
        complete_def complete_entry_def set_entry_def result_of_def)
  have t3: "task_step s2 s3" using task_step.cancel_requested [of s2 "''t''" e] e by (simp add: s3_def)
  have r: "task_step\<^sup>*\<^sup>* no_tasks s2" using t1 t2 by (meson rtranclp.rtrancl_into_rtrancl rtranclp.rtrancl_refl)
  have there: "map_of (prune_expired 5 (tasks s3)) ''t'' \<noteq> None"
    by (simp add: s3_def e_def s2_def s1_def no_tasks_def enqueue_tool_task_def start_def Let_def prune_expired_def worker_report_def
        complete_def complete_entry_def set_entry_def request_cancel_def TASK_RESULT_TTL_MS_def now_iso8601_def)
  have "fst (task_result 5 ''t'' (tasks s3)) = Inr JNull"
    using task_end_is_final [OF r r_into_rtranclp [of task_step, OF t3] e(1), of 5] there e(2,3)
    by (simp add: task_ended_def)
  then show ?thesis using r t3 e by blast
qed

end
