(* ===== verification/Dispatch.thy ===== *)
theory Dispatch
  imports Tasks
begin

text \<open>
  \<open>crates/solo-api/src/mcp_dispatch.rs\<close>: the dispatch of one JSON-RPC message over a session and the
  task store. The tools, the resources and the serialisation of rmcp's types are parameters. A tool
  is what a client can see of it: its progress reports, its checks of the cancellation token and its outcome.
  Other messages of its session are handled while it runs; \<open>meanwhile n\<close> is what they do to the session before
  step \<open>n\<close> of the tool. \<open>server_info\<close> is rmcp's JSON of the server's name and version.
\<close>

section \<open>Messages\<close>

record JsonRpcRequest =
  rq_jsonrpc :: string
  rq_id :: "jv option"
  rq_method :: string
  rq_params :: "jv option"

datatype JsonRpcResponse = RpcSuccess jv jv | RpcError jv int string

definition response_id :: "JsonRpcResponse \<Rightarrow> jv" where
  "response_id r = (case r of RpcSuccess i _ \<Rightarrow> i | RpcError i _ _ \<Rightarrow> i)"

text \<open>The error codes of JSON-RPC.\<close>

definition METHOD_NOT_FOUND :: int where "METHOD_NOT_FOUND = - 32601"
definition INVALID_PARAMS :: int where "INVALID_PARAMS = - 32602"
definition INTERNAL_ERROR :: int where "INTERNAL_ERROR = - 32603"
definition INVALID_REQUEST :: int where "INVALID_REQUEST = - 32600"

definition from_mcp_error :: "jv \<Rightarrow> mcp_error \<Rightarrow> JsonRpcResponse" where
  "from_mcp_error i e =
     (case e of
        InvalidParams m \<Rightarrow> RpcError i INVALID_PARAMS m
      | InvalidRequest m \<Rightarrow> RpcError i INVALID_REQUEST m
      | InternalError m \<Rightarrow> RpcError i INTERNAL_ERROR m)"

text \<open>A serialisation gives the JSON or a message.\<close>

type_synonym 'a serializer = "'a \<Rightarrow> string + jv"

definition response_from_result :: "'a serializer \<Rightarrow> jv \<Rightarrow> mcp_error + 'a \<Rightarrow> JsonRpcResponse" where
  "response_from_result ser i r =
     (case r of
        Inr v \<Rightarrow>
          (case ser v of
             Inr res \<Rightarrow> RpcSuccess i res
           | Inl e \<Rightarrow> RpcError i INTERNAL_ERROR (''serialize response: '' @ e))
      | Inl e \<Rightarrow> from_mcp_error i e)"

definition as_str :: "jv \<Rightarrow> string option" where
  "as_str v = (case v of JStr s \<Rightarrow> Some s | _ \<Rightarrow> None)"

section \<open>The server\<close>

datatype tool_run = Finish "mcp_error + (string + jv)" | Report nat "nat option" "string option" tool_run | Checkpoint tool_run

text \<open>\<open>task_id_of\<close> parses the parameters of the task methods, \<open>dumps\<close> is \<open>serde_json::to_string\<close>.\<close>

record mcp_server =
  tool_support :: "string \<Rightarrow> TaskSupport option"
  run_tool :: "string \<Rightarrow> jv \<Rightarrow> tool_run"
  meanwhile :: "nat \<Rightarrow> SessionState \<Rightarrow> SessionState"
  tool_list :: jv
  resource_list :: "mcp_error + (string + jv)"
  resource_templates :: "string + jv"
  read_resource :: "string \<Rightarrow> mcp_error + (string + jv)"
  server_info :: jv
  instructions :: string
  ser_list :: "(Task list \<times> nat) serializer"
  ser_task :: "Task serializer"
  ser_created :: "Task serializer"
  ser_payload :: "jv serializer"
  task_id_of :: "jv \<Rightarrow> string + string"
  json_dumps :: "jv \<Rightarrow> string"
  clock :: int
  new_task_id :: string

definition json_rpc_id_key :: "mcp_server \<Rightarrow> jv \<Rightarrow> string" where
  "json_rpc_id_key sv i = json_dumps sv i"

text \<open>
  A tool that runs with a token: \<open>report_if_some\<close> publishes into the session, a failed check is the
  tool's outcome. No task flag is read in a call from a client.
\<close>

fun run_steps ::
  "(nat \<Rightarrow> SessionState \<Rightarrow> SessionState) \<Rightarrow> CancellationToken \<Rightarrow> jv option \<Rightarrow> nat \<Rightarrow> tool_run \<Rightarrow> SessionState option
     \<Rightarrow> (mcp_error + (string + jv)) \<times> SessionState option" where
  "run_steps env token reporter n (Finish r) s = (r, map_option (env n) s)"
| "run_steps env token reporter n (Report p tot msg k) s =
     run_steps env token reporter (Suc n) k (map_option (\<lambda>x. report_if_some reporter p tot msg (env n x)) s)"
| "run_steps env token reporter n (Checkpoint k) s =
     (let s' = map_option (env n) s
      in case token_check token (\<lambda>_. False) s' of Inl e \<Rightarrow> (Inl e, s') | Inr _ \<Rightarrow> run_steps env token reporter (Suc n) k s')"

text \<open>The check before a tool runs; the token goes with the tool.\<close>

definition dispatch_tool_with_cancellation ::
  "mcp_server \<Rightarrow> string \<Rightarrow> jv \<Rightarrow> jv option \<Rightarrow> CancellationToken \<Rightarrow> SessionState option
     \<Rightarrow> (mcp_error + (string + jv)) \<times> SessionState option" where
  "dispatch_tool_with_cancellation sv name args reporter token s =
     (case token_check token (\<lambda>_. False) s of
        Inl e \<Rightarrow> (Inl e, s)
      | Inr _ \<Rightarrow> run_steps (meanwhile sv) token reporter 0 (run_tool sv name args) s)"

section \<open>Handlers\<close>

definition MCP_PROTOCOL_VERSION_LATEST :: string where "MCP_PROTOCOL_VERSION_LATEST = ''2025-11-25''"

definition handle_initialize :: "mcp_server \<Rightarrow> jv \<Rightarrow> JsonRpcResponse" where
  "handle_initialize sv i =
     RpcSuccess i (JObj
       [(''protocolVersion'', JStr MCP_PROTOCOL_VERSION_LATEST),
        (''capabilities'', JObj
          [(''tools'', JObj []), (''resources'', JObj []),
           (''tasks'', JObj
             [(''list'', JObj []), (''cancel'', JObj []),
              (''requests'', JObj [(''tools'', JObj [(''call'', JObj [])])])])]),
        (''serverInfo'', server_info sv),
        (''instructions'', JStr (instructions sv))])"

definition handle_tools_list :: "mcp_server \<Rightarrow> jv \<Rightarrow> JsonRpcResponse" where
  "handle_tools_list sv i = RpcSuccess i (JObj [(''tools'', tool_list sv)])"

definition handle_resources_list :: "mcp_server \<Rightarrow> jv \<Rightarrow> JsonRpcResponse" where
  "handle_resources_list sv i = response_from_result id i (resource_list sv)"

definition handle_resource_templates_list :: "mcp_server \<Rightarrow> jv \<Rightarrow> JsonRpcResponse" where
  "handle_resource_templates_list sv i = response_from_result id i (Inr (resource_templates sv))"

definition handle_resources_read :: "mcp_server \<Rightarrow> jv \<Rightarrow> jv \<Rightarrow> JsonRpcResponse" where
  "handle_resources_read sv i params =
     (case Option.bind (jget ''uri'' params) as_str of
        None \<Rightarrow> RpcError i INVALID_PARAMS ''resources/read: missing `uri` field''
      | Some uri \<Rightarrow> response_from_result id i (read_resource sv uri))"

definition handle_tasks_list :: "mcp_server \<Rightarrow> jv \<Rightarrow> TaskStore \<Rightarrow> JsonRpcResponse \<times> TaskStore" where
  "handle_tasks_list sv i m =
     (case list_tasks (clock sv) m of (r, m') \<Rightarrow> (response_from_result (ser_list sv) i (Inr r), m'))"

text \<open>The three methods that name one task.\<close>

definition with_task_id ::
  "mcp_server \<Rightarrow> string \<Rightarrow> jv \<Rightarrow> jv \<Rightarrow> 'a serializer \<Rightarrow> (string \<Rightarrow> TaskStore \<Rightarrow> (mcp_error + 'a) \<times> TaskStore)
     \<Rightarrow> TaskStore \<Rightarrow> JsonRpcResponse \<times> TaskStore" where
  "with_task_id sv method i params ser f m =
     (case task_id_of sv params of
        Inr t \<Rightarrow> (case f t m of (r, m') \<Rightarrow> (response_from_result ser i r, m'))
      | Inl e \<Rightarrow> (RpcError i INVALID_PARAMS (method @ '': invalid params: '' @ e), m))"

definition handle_tasks_get :: "mcp_server \<Rightarrow> jv \<Rightarrow> jv \<Rightarrow> TaskStore \<Rightarrow> JsonRpcResponse \<times> TaskStore" where
  "handle_tasks_get sv i params = with_task_id sv ''tasks/get'' i params (ser_task sv) (get_task (clock sv))"

definition handle_tasks_result :: "mcp_server \<Rightarrow> jv \<Rightarrow> jv \<Rightarrow> TaskStore \<Rightarrow> JsonRpcResponse \<times> TaskStore" where
  "handle_tasks_result sv i params = with_task_id sv ''tasks/result'' i params (ser_payload sv) (task_result (clock sv))"

definition handle_tasks_cancel :: "mcp_server \<Rightarrow> jv \<Rightarrow> jv \<Rightarrow> TaskStore \<Rightarrow> JsonRpcResponse \<times> TaskStore" where
  "handle_tasks_cancel sv i params = with_task_id sv ''tasks/cancel'' i params (ser_task sv) (cancel_task (clock sv))"

definition handle_cancelled_notification ::
  "mcp_server \<Rightarrow> jv option \<Rightarrow> SessionState option \<Rightarrow> SessionState option" where
  "handle_cancelled_notification sv params session =
     (case session of
        None \<Rightarrow> session
      | Some s \<Rightarrow>
          (case params of
             None \<Rightarrow> session
           | Some p \<Rightarrow>
               (case (case jget ''requestId'' p of None \<Rightarrow> jget ''request_id'' p | Some r \<Rightarrow> Some r) of
                  None \<Rightarrow> session
                | Some request_id \<Rightarrow>
                    Some (cancel_request (json_rpc_id_key sv request_id) (Option.bind (jget ''reason'' p) as_str) s))))"

text \<open>A call in the foreground: its reporter, its token, the tool, and the end of its cancellation.\<close>

definition call_reporter :: "jv \<Rightarrow> SessionState option \<Rightarrow> jv option" where
  "call_reporter params session =
     (case (session, progress_token_from_meta params) of (Some _, Some token) \<Rightarrow> Some token | _ \<Rightarrow> None)"

definition call_token :: "mcp_server \<Rightarrow> jv \<Rightarrow> SessionState option \<Rightarrow> CancellationToken" where
  "call_token sv i session =
     \<lparr>task_cancelled = None, request_cancelled = map_option (\<lambda>_. json_rpc_id_key sv i) session\<rparr>"

definition call_now ::
  "mcp_server \<Rightarrow> jv \<Rightarrow> jv \<Rightarrow> string \<Rightarrow> jv \<Rightarrow> SessionState option \<Rightarrow> JsonRpcResponse \<times> SessionState option" where
  "call_now sv i params name arguments session =
     (case dispatch_tool_with_cancellation sv name arguments (call_reporter params session) (call_token sv i session) session of
        (result, session') \<Rightarrow>
          ((case result of
              Inr (Inr v) \<Rightarrow> RpcSuccess i v
            | Inr (Inl e) \<Rightarrow> RpcError i INTERNAL_ERROR (''serialize tool result: '' @ e)
            | Inl e \<Rightarrow> from_mcp_error i e),
           map_option (clear_request_cancellation (json_rpc_id_key sv i)) session'))"

definition handle_tools_call ::
  "mcp_server \<Rightarrow> jv \<Rightarrow> jv \<Rightarrow> SessionState option \<Rightarrow> TaskStore
     \<Rightarrow> JsonRpcResponse \<times> SessionState option \<times> TaskStore" where
  "handle_tools_call sv i params session m =
     (case Option.bind (jget ''name'' params) as_str of
        None \<Rightarrow> (RpcError i INVALID_PARAMS ''tools/call: missing `name` field'', session, m)
      | Some name \<Rightarrow>
          let arguments = (case jget ''arguments'' params of None \<Rightarrow> JObj [] | Some a \<Rightarrow> a) in
          if jget ''task'' params \<noteq> None then
            (case enqueue_tool_task (tool_support sv) (clock sv) (new_task_id sv) name m of
               (Inr created, m') \<Rightarrow> (response_from_result (ser_created sv) i (Inr created), session, m')
             | (Inl e, m') \<Rightarrow> (from_mcp_error i e, session, m'))
          else (case call_now sv i params name arguments session of (r, session') \<Rightarrow> (r, session', m)))"

section \<open>Dispatch\<close>

definition answer ::
  "mcp_server \<Rightarrow> jv \<Rightarrow> string \<Rightarrow> jv \<Rightarrow> SessionState option \<Rightarrow> TaskStore
     \<Rightarrow> JsonRpcResponse \<times> SessionState option \<times> TaskStore" where
  "answer sv i method params session m =
     (let keep = (\<lambda>r. (r, session, m)); on_tasks = (\<lambda>(r, m'). (r, session, m')) in
      if method = ''initialize'' then keep (handle_initialize sv i)
      else if method = ''tools/list'' then keep (handle_tools_list sv i)
      else if method = ''tools/call'' then handle_tools_call sv i params session m
      else if method = ''resources/list'' then keep (handle_resources_list sv i)
      else if method = ''resources/templates/list'' then keep (handle_resource_templates_list sv i)
      else if method = ''resources/read'' then keep (handle_resources_read sv i params)
      else if method = ''tasks/list'' then on_tasks (handle_tasks_list sv i m)
      else if method = ''tasks/get'' then on_tasks (handle_tasks_get sv i params m)
      else if method = ''tasks/result'' then on_tasks (handle_tasks_result sv i params m)
      else if method = ''tasks/cancel'' then on_tasks (handle_tasks_cancel sv i params m)
      else if method = ''ping'' then keep (RpcSuccess i (JObj []))
      else keep (RpcError i METHOD_NOT_FOUND (''unknown method `'' @ method @ ''`'')))"

definition rpc_dispatch ::
  "mcp_server \<Rightarrow> JsonRpcRequest \<Rightarrow> SessionState option \<Rightarrow> TaskStore
     \<Rightarrow> JsonRpcResponse option \<times> SessionState option \<times> TaskStore" where
  "rpc_dispatch sv r session m =
     (case rq_id r of
        None \<Rightarrow>
          (None,
           (if rq_method r = ''notifications/cancelled'' then handle_cancelled_notification sv (rq_params r) session
            else session), m)
      | Some i \<Rightarrow>
          (case answer sv i (rq_method r) (case rq_params r of None \<Rightarrow> JNull | Some p \<Rightarrow> p) session m of
             (resp, rest) \<Rightarrow> (Some resp, rest)))"

section \<open>Properties\<close>

lemma response_id_simps [simp]:
  "response_id (RpcSuccess i v) = i" "response_id (RpcError i c t) = i"
  "response_id (from_mcp_error i e) = i" "response_id (response_from_result ser i r) = i"
  by (simp_all add: response_id_def from_mcp_error_def response_from_result_def split: mcp_error.split sum.split)

lemma handler_ids:
  "response_id (fst (handle_tools_call sv i params s m)) = i"
  "response_id (fst (handle_tasks_list sv i m)) = i" "response_id (fst (handle_tasks_get sv i params m)) = i"
  "response_id (fst (handle_tasks_result sv i params m)) = i" "response_id (fst (handle_tasks_cancel sv i params m)) = i"
  "response_id (handle_initialize sv i) = i" "response_id (handle_tools_list sv i) = i"
  "response_id (handle_resources_list sv i) = i" "response_id (handle_resource_templates_list sv i) = i"
  "response_id (handle_resources_read sv i params) = i"
  by (auto simp: handle_tools_call_def call_now_def handle_tasks_list_def handle_tasks_get_def handle_tasks_result_def
      handle_tasks_cancel_def with_task_id_def handle_initialize_def handle_tools_list_def handle_resources_list_def
      handle_resource_templates_list_def handle_resources_read_def Let_def split: option.split sum.split prod.split)

definition known_methods :: "string set" where
  "known_methods =
     {''initialize'', ''tools/list'', ''tools/call'', ''resources/list'', ''resources/templates/list'', ''resources/read'',
      ''tasks/list'', ''tasks/get'', ''tasks/result'', ''tasks/cancel'', ''ping''}"

lemma answer_id: "response_id (fst (answer sv i method params s m)) = i"
  by (simp add: answer_def Let_def handler_ids split: prod.split) (metis fst_conv handler_ids(2-5))

text \<open>
  C35: every request is answered, under its own id, and no notification is. A message with an id
  gets exactly one response, which carries that id; a method the server does not know gets the
  code for it and changes nothing; a message without an id gets none, leaves the tasks alone and
  can change the session only by a cancellation.
\<close>

theorem requests_are_answered:
  "(\<forall>i. rq_id r = Some i \<longrightarrow>
      (\<exists>resp. fst (rpc_dispatch sv r s m) = Some resp \<and> response_id resp = i) \<and>
      (rq_method r \<notin> known_methods \<longrightarrow>
         rpc_dispatch sv r s m = (Some (RpcError i METHOD_NOT_FOUND (''unknown method `'' @ rq_method r @ ''`'')), s, m))) \<and>
   (rq_id r = None \<longrightarrow> fst (rpc_dispatch sv r s m) = None \<and> snd (snd (rpc_dispatch sv r s m)) = m \<and>
      (rq_method r \<noteq> ''notifications/cancelled'' \<longrightarrow> fst (snd (rpc_dispatch sv r s m)) = s))"
proof (intro conjI allI impI)
  fix i assume i: "rq_id r = Some i"
  show "\<exists>resp. fst (rpc_dispatch sv r s m) = Some resp \<and> response_id resp = i"
    using i answer_id [of sv i "rq_method r" "case rq_params r of None \<Rightarrow> JNull | Some p \<Rightarrow> p" s m]
    by (auto simp: rpc_dispatch_def split: prod.split)
  show "rpc_dispatch sv r s m = (Some (RpcError i METHOD_NOT_FOUND (''unknown method `'' @ rq_method r @ ''`'')), s, m)"
    if "rq_method r \<notin> known_methods"
    using i that by (simp add: rpc_dispatch_def answer_def Let_def known_methods_def)
qed (simp_all add: rpc_dispatch_def)

text \<open>The tool that stops at its first check from step \<open>n\<close> on, and whether there is one.\<close>

fun cut_tool :: "nat \<Rightarrow> tool_run \<Rightarrow> tool_run" where
  "cut_tool n (Finish r) = Finish r"
| "cut_tool n (Report p tot msg k) = Report p tot msg (cut_tool (n - 1) k)"
| "cut_tool n (Checkpoint k) =
     (if n = 0 then Finish (Inl (InvalidRequest ''request cancelled'')) else Checkpoint (cut_tool (n - 1) k))"

fun late_checkpoint :: "nat \<Rightarrow> tool_run \<Rightarrow> bool" where
  "late_checkpoint n (Finish r) = False"
| "late_checkpoint n (Report p tot msg k) = late_checkpoint (n - 1) k"
| "late_checkpoint n (Checkpoint k) = (n = 0 \<or> late_checkpoint (n - 1) k)"

lemma check_request:
  "token_is_cancelled \<lparr>task_cancelled = None, request_cancelled = Some i\<rparr> flags (Some s) = is_request_cancelled i s"
  "token_check \<lparr>task_cancelled = None, request_cancelled = Some i\<rparr> flags (Some s) =
     (if is_request_cancelled i s then Inl (InvalidRequest ''request cancelled'') else Inr ())"
  by (simp_all add: token_is_cancelled_def token_check_def require_def)

lemma report_keeps_cancelled: "is_request_cancelled i (report_if_some rep p tot msg s) = is_request_cancelled i s"
  by (simp add: report_if_some_def report_def publish_event_def alloc_id_def push_replay_def send_event_def
      is_request_cancelled_def Let_def split: option.split)

text \<open>From step \<open>n\<close> on the request is cancelled.\<close>

lemma run_steps_cancelled:
  fixes env i n
  defines "tok \<equiv> \<lparr>task_cancelled = None, request_cancelled = Some i\<rparr>"
  assumes at: "\<And>s. is_request_cancelled i (env n s)"
    and later: "\<And>m s. n < m \<Longrightarrow> is_request_cancelled i s \<Longrightarrow> is_request_cancelled i (env m s)"
    and "m \<le> n \<or> is_request_cancelled i s"
  shows "run_steps env tok rep m t (Some s) = run_steps env tok rep m (cut_tool (n - m) t) (Some s)"
    and "late_checkpoint (n - m) t \<Longrightarrow> fst (run_steps env tok rep m t (Some s)) = Inl (InvalidRequest ''request cancelled'')"
proof -
  have after: "is_request_cancelled i (env m s)" if "n \<le> m" "m \<le> n \<or> is_request_cancelled i s" for m s
    using at later that by (cases "m = n") auto
  have goal: "run_steps env tok rep m t (Some s) = run_steps env tok rep m (cut_tool (n - m) t) (Some s) \<and>
     (late_checkpoint (n - m) t \<longrightarrow> fst (run_steps env tok rep m t (Some s)) = Inl (InvalidRequest ''request cancelled''))"
    using assms(4)
  proof (induction t arbitrary: m s)
    case (Report p tot msg k)
    have "Suc m \<le> n \<or> is_request_cancelled i (report_if_some rep p tot msg (env m s))"
      using after [of m s] Report.prems by (cases "n \<le> m") (simp_all add: report_keeps_cancelled)
    note ih = Report.IH [OF this]
    show ?case by (rule conjI) (simp add: conjunct1 [OF ih], use conjunct2 [OF ih] in simp)
  next
    case (Checkpoint k)
    show ?case
    proof (cases "n \<le> m")
      case True
      then show ?thesis using after [OF True Checkpoint.prems] by (simp add: check_request tok_def Let_def)
    next
      case False
      then have "Suc m \<le> n \<or> is_request_cancelled i (env m s)" by simp
      note ih = Checkpoint.IH [OF this]
      show ?thesis
      proof (cases "is_request_cancelled i (env m s)")
        case True
        then show ?thesis using False by (simp add: check_request tok_def Let_def)
      next
        case go: False
        show ?thesis using False go
          by (intro conjI) (simp add: check_request tok_def Let_def conjunct1 [OF ih, unfolded tok_def],
            use conjunct2 [OF ih] in \<open>simp add: check_request tok_def Let_def\<close>)
      qed
    qed
  qed simp
  show "run_steps env tok rep m t (Some s) = run_steps env tok rep m (cut_tool (n - m) t) (Some s)"
    "late_checkpoint (n - m) t \<Longrightarrow> fst (run_steps env tok rep m t (Some s)) = Inl (InvalidRequest ''request cancelled'')"
    using goal by blast+
qed

text \<open>
  C36: a cancellation stops the call it names at the call's next check, and no other call. When the
  notification is handled before step \<open>n\<close> of the call, and no other call under the same id ends before this
  one does, the call goes as one whose tool stops at its first check from step \<open>n\<close> on: it is answered with the error
  of a cancelled request when there is such a check, and runs to its end when there is none.
  What requests with another id read is as it was, and the id is free again when the call returns.
\<close>

theorem cancellation_reaches_its_call:
  assumes "rq_id r = None" "rq_method r = ''notifications/cancelled''" "rq_params r = Some p"
    and "jget ''requestId'' p = Some i"
    and "\<And>x. rpc_dispatch sv r (Some x) m = (None, Some (meanwhile sv n x), m)"
    and "\<And>k x. n < k \<Longrightarrow> is_request_cancelled (json_rpc_id_key sv i) x \<Longrightarrow> is_request_cancelled (json_rpc_id_key sv i) (meanwhile sv k x)"
  shows "call_now sv i params name args (Some s) =
       call_now (sv\<lparr>run_tool := \<lambda>t a. cut_tool n (run_tool sv t a)\<rparr>) i params name args (Some s) \<and>
     (late_checkpoint n (run_tool sv name args) \<longrightarrow>
        fst (call_now sv i params name args (Some s)) = RpcError i INVALID_REQUEST ''request cancelled'') \<and>
     (\<forall>j x. json_rpc_id_key sv j \<noteq> json_rpc_id_key sv i \<longrightarrow>
        is_request_cancelled (json_rpc_id_key sv j) (meanwhile sv n x) = is_request_cancelled (json_rpc_id_key sv j) x) \<and>
     (\<exists>s'. snd (call_now sv i params name args (Some s)) = Some s' \<and> \<not> is_request_cancelled (json_rpc_id_key sv i) s')"
proof -
  let ?i = "json_rpc_id_key sv i" and ?tok = "\<lparr>task_cancelled = None, request_cancelled = Some (json_rpc_id_key sv i)\<rparr>"
  have env: "meanwhile sv n x = cancel_request ?i (Option.bind (jget ''reason'' p) as_str) x" for x
    using assms(1-4) assms(5) [of x] by (simp add: rpc_dispatch_def handle_cancelled_notification_def)
  have at: "is_request_cancelled ?i (meanwhile sv n x)" for x by (simp add: env cancel_request_def is_request_cancelled_def)
  note run = run_steps_cancelled [where env = "meanwhile sv" and i = ?i and n = n and m = 0, OF at assms(6), of s]
  have tok: "call_token sv i (Some s) = ?tok" "call_token (sv\<lparr>run_tool := g\<rparr>) i (Some s) = ?tok" for g
    by (simp_all add: call_token_def json_rpc_id_key_def)
  have key: "json_rpc_id_key (sv\<lparr>run_tool := g\<rparr>) i = ?i" for g by (simp add: json_rpc_id_key_def)
  have "dispatch_tool_with_cancellation sv name args (call_reporter params (Some s)) ?tok (Some s) =
      dispatch_tool_with_cancellation (sv\<lparr>run_tool := \<lambda>t a. cut_tool n (run_tool sv t a)\<rparr>) name args (call_reporter params (Some s)) ?tok (Some s)"
    using run(1) by (simp add: dispatch_tool_with_cancellation_def split: sum.split)
  then have "call_now sv i params name args (Some s) =
      call_now (sv\<lparr>run_tool := \<lambda>t a. cut_tool n (run_tool sv t a)\<rparr>) i params name args (Some s)"
    by (simp add: call_now_def tok key)
  moreover have "fst (call_now sv i params name args (Some s)) = RpcError i INVALID_REQUEST ''request cancelled''"
    if "late_checkpoint n (run_tool sv name args)"
  proof -
    have "fst (dispatch_tool_with_cancellation sv name args (call_reporter params (Some s)) ?tok (Some s))
        = Inl (InvalidRequest ''request cancelled'')"
      using run(2) that by (simp add: dispatch_tool_with_cancellation_def check_request split: sum.split)
    then show ?thesis
      by (cases "dispatch_tool_with_cancellation sv name args (call_reporter params (Some s)) ?tok (Some s)")
         (simp add: call_now_def tok from_mcp_error_def)
  qed
  moreover have "is_request_cancelled (json_rpc_id_key sv j) (meanwhile sv n x) = is_request_cancelled (json_rpc_id_key sv j) x"
    if "json_rpc_id_key sv j \<noteq> ?i" for j x
    using that by (simp add: env cancel_request_def is_request_cancelled_def)
  moreover have "\<exists>s'. snd (call_now sv i params name args (Some s)) = Some s' \<and> \<not> is_request_cancelled ?i s'"
  proof -
    have some: "\<exists>s'. snd (run_steps env t rep k tool (Some x)) = Some s'" for env t rep k tool x
      by (induction tool arbitrary: k x) (auto simp: Let_def split: sum.split)
    have "\<exists>s'. snd (dispatch_tool_with_cancellation sv name args (call_reporter params (Some s)) ?tok (Some s)) = Some s'"
      using some by (simp add: dispatch_tool_with_cancellation_def split: sum.split)
    then show ?thesis
      by (auto simp: call_now_def tok clear_request_cancellation_def is_request_cancelled_def split: prod.split)
  qed
  ultimately show ?thesis by blast
qed

text \<open>
  An explicit null is not an absent argument. The comment says that absent or null arguments
  are treated as the empty object; a call without the field runs the tool on the empty object, and
  one whose field is null runs it on null.
\<close>

theorem null_arguments_reach_the_tool:
  "fst (handle_tools_call sv i (JObj [(''name'', JStr n)]) None m) =
     fst (call_now sv i (JObj [(''name'', JStr n)]) n (JObj []) None) \<and>
   fst (handle_tools_call sv i (JObj [(''name'', JStr n), (''arguments'', JNull)]) None m) =
     fst (call_now sv i (JObj [(''name'', JStr n), (''arguments'', JNull)]) n JNull None)"
  by (simp add: handle_tools_call_def jget_def as_str_def split: prod.split)

section \<open>A small server\<close>

text \<open>Its tools return their arguments.\<close>

definition sample_server :: mcp_server where
  "sample_server =
     \<lparr>tool_support = (\<lambda>_. Some TaskOptional), run_tool = (\<lambda>_ args. Finish (Inr (Inr args))), meanwhile = (\<lambda>_ s. s), tool_list = JArr [],
      resource_list = Inr (Inr (JArr [])), resource_templates = Inr (JArr []), read_resource = (\<lambda>_. Inl (InvalidParams ''uri'')),
      server_info = JObj [], instructions = [], ser_list = (\<lambda>_. Inr JNull), ser_task = (\<lambda>_. Inr JNull), ser_created = (\<lambda>_. Inr JNull),
      ser_payload = Inr, task_id_of = (\<lambda>_. Inl ''no id''),
      json_dumps = (\<lambda>v. case v of JStr t \<Rightarrow> t | _ \<Rightarrow> ''other''), clock = 0, new_task_id = ''t''\<rparr>"

definition sample_cancel :: JsonRpcRequest where
  "sample_cancel =
     \<lparr>rq_jsonrpc = ''2.0'', rq_id = None, rq_method = ''notifications/cancelled'',
      rq_params = Some (JObj [(''requestId'', JStr ''a'')])\<rparr>"

theorem requests_are_answered_witness:
  "\<exists>resp. fst (rpc_dispatch sample_server (sample_cancel\<lparr>rq_id := Some (JNum 7), rq_method := ''ping''\<rparr>) None []) = Some resp \<and>
     response_id resp = JNum 7"
  using requests_are_answered [of "sample_cancel\<lparr>rq_id := Some (JNum 7), rq_method := ''ping''\<rparr>" sample_server None "[]"]
  by (simp add: sample_cancel_def)

text \<open>A tool with two checks; the notification arrives between them.\<close>

definition slow_server :: mcp_server where
  "slow_server =
     sample_server\<lparr>run_tool := (\<lambda>_ args. Checkpoint (Report 1 None None (Checkpoint (Finish (Inr (Inr args)))))),
       meanwhile := (\<lambda>n s. if n = 1 then cancel_request ''a'' None s else s)\<rparr>"

theorem cancellation_reaches_its_call_witness:
  "fst (call_now slow_server (JStr ''a'') JNull ''n'' JNull (Some (session_new None 0))) =
     RpcError (JStr ''a'') INVALID_REQUEST ''request cancelled'' \<and>
   fst (call_now slow_server (JStr ''b'') JNull ''n'' JNull (Some (session_new None 0))) = RpcSuccess (JStr ''b'') JNull"
proof -
  have f: "rq_id sample_cancel = None" "rq_method sample_cancel = ''notifications/cancelled''"
    "rq_params sample_cancel = Some (JObj [(''requestId'', JStr ''a'')])"
    by (simp_all add: sample_cancel_def)
  have g: "jget ''requestId'' (JObj [(''requestId'', JStr ''a'')]) = Some (JStr ''a'')" by (simp add: jget_def)
  have k: "json_rpc_id_key slow_server (JStr x) = x" for x by (simp add: json_rpc_id_key_def slow_server_def sample_server_def)
  have run: "rpc_dispatch slow_server sample_cancel (Some x) [] = (None, Some (meanwhile slow_server 1 x), [])" for x
    by (simp add: rpc_dispatch_def sample_cancel_def handle_cancelled_notification_def jget_def k) (simp add: slow_server_def)
  have later: "is_request_cancelled (json_rpc_id_key slow_server (JStr ''a'')) (meanwhile slow_server n x)"
    if "1 < n" "is_request_cancelled (json_rpc_id_key slow_server (JStr ''a'')) x" for n x
    using that by (simp add: slow_server_def)
  have "late_checkpoint 1 (run_tool slow_server ''n'' JNull)" by (simp add: slow_server_def)
  then have "fst (call_now slow_server (JStr ''a'') JNull ''n'' JNull (Some (session_new None 0))) =
      RpcError (JStr ''a'') INVALID_REQUEST ''request cancelled''"
    using cancellation_reaches_its_call [OF f g run later, of JNull "''n''" JNull "session_new None 0"] by blast
  moreover have "fst (call_now slow_server (JStr ''b'') JNull ''n'' JNull (Some (session_new None 0))) = RpcSuccess (JStr ''b'') JNull"
    by (simp add: call_now_def call_token_def k dispatch_tool_with_cancellation_def check_request)
       (simp add: slow_server_def sample_server_def Let_def check_request call_reporter_def progress_token_from_meta_def jget_def
          report_if_some_def cancel_request_def is_request_cancelled_def session_new_def)
  ultimately show ?thesis by blast
qed

end
