(* ===== verification/UnionFind.thy ===== *)
theory UnionFind
  imports Prelude
begin

text \<open>
  The union-find of \<open>crates/solo-steward/src/cluster.rs\<close>: a vector of parents with path halving and a
  vector of \<open>u8\<close> ranks. An index out of range is a panic, and \<open>find\<close> is a loop that a cycle of
  parents would keep forever; both are \<open>None\<close>. The abstract view is the function that sends an element
  to its root.
\<close>

section \<open>The data structure\<close>

record UnionFind =
  parent :: "nat list"
  rank :: "8 word list"

definition uf_new :: "nat \<Rightarrow> UnionFind" where
  "uf_new n = \<lparr>parent = [0..<n], rank = replicate n 0\<rparr>"

partial_function (option) uf_find_loop :: "nat list \<Rightarrow> nat \<Rightarrow> (nat \<times> nat list) option" where
  "uf_find_loop p x =
     (if length p \<le> x then None
      else if p ! x = x then Some (x, p)
      else if length p \<le> p ! x then None
      else let p' = p[x := p ! (p ! x)] in uf_find_loop p' (p' ! x))"

definition uf_find :: "UnionFind \<Rightarrow> nat \<Rightarrow> (nat \<times> UnionFind) option" where
  "uf_find u x = map_option (\<lambda>(r, p). (r, u\<lparr>parent := p\<rparr>)) (uf_find_loop (parent u) x)"

definition link_roots :: "UnionFind \<Rightarrow> nat \<Rightarrow> nat \<Rightarrow> UnionFind option" where
  "link_roots u ra rb =
     (if length (rank u) \<le> ra \<or> length (rank u) \<le> rb then None
      else
        let (small, big) = (if rank u ! ra < rank u ! rb then (ra, rb) else (rb, ra));
            u1 = u\<lparr>parent := (parent u)[small := big]\<rparr>
        in Some (if rank u1 ! small = rank u1 ! big then u1\<lparr>rank := (rank u1)[big := rank u1 ! big + 1]\<rparr> else u1))"

definition uf_union :: "UnionFind \<Rightarrow> nat \<Rightarrow> nat \<Rightarrow> UnionFind option" where
  "uf_union u a b =
     Option.bind (uf_find u a) (\<lambda>(ra, u1).
     Option.bind (uf_find u1 b) (\<lambda>(rb, u2).
     if ra = rb then Some u2 else link_roots u2 ra rb))"

section \<open>The roots\<close>

text \<open>Following the parents as often as there are elements.\<close>

definition root_of :: "nat list \<Rightarrow> nat \<Rightarrow> nat" where
  "root_of p x = ((\<lambda>y. p ! y) ^^ length p) x"

definition uf_class :: "nat list \<Rightarrow> nat \<Rightarrow> nat set" where
  "uf_class p r = {x. x < length p \<and> root_of p x = r}"

text \<open>
  The ranks grow along the parents, so there is no cycle, and the rank of a root is at most the
  logarithm of the size of its class.
\<close>

definition ranked :: "nat list \<Rightarrow> 8 word list \<Rightarrow> bool" where
  "ranked p k = (length k = length p \<and> (\<forall>x < length p. p ! x < length p) \<and>
     (\<forall>x < length p. p ! x \<noteq> x \<longrightarrow> unat (k ! x) < unat (k ! (p ! x))))"

definition sized :: "nat list \<Rightarrow> 8 word list \<Rightarrow> bool" where
  "sized p k = (\<forall>r < length p. p ! r = r \<longrightarrow> 2 ^ unat (k ! r) \<le> card (uf_class p r))"

definition uf_ok :: "UnionFind \<Rightarrow> bool" where
  "uf_ok u = (ranked (parent u) (rank u) \<and> sized (parent u) (rank u) \<and> length (parent u) < 2 ^ 64)"

lemma root_of_step: "root_of p (p ! x) = p ! root_of p x"
  by (simp add: root_of_def funpow_swap1)

lemma iterate_bound:
  assumes "ranked p k" "x < length p"
  shows "((\<lambda>y. p ! y) ^^ n) x < length p"
  using assms(1) by (induction n) (auto simp: ranked_def assms(2))

lemma root_of_bound: "ranked p k \<Longrightarrow> x < length p \<Longrightarrow> root_of p x < length p"
  unfolding root_of_def by (rule iterate_bound)

lemma root_of_fixed:
  assumes "p ! r = r"
  shows "root_of p r = r"
proof -
  have "((\<lambda>y. p ! y) ^^ n) r = r" for n by (induction n) (simp_all add: assms)
  then show ?thesis by (simp add: root_of_def)
qed

text \<open>Until a root is reached the ranks grow, so the elements on the way are different.\<close>

lemma root_of_root:
  assumes "ranked p k" "x < length p"
  shows "p ! root_of p x = root_of p x"
proof (rule ccontr)
  let ?f = "\<lambda>n. ((\<lambda>y. p ! y) ^^ n) x"
  assume no: "p ! root_of p x \<noteq> root_of p x"
  have stay: "?f (n + m) = ?f n" if "p ! ?f n = ?f n" for n m
    using that by (induction m) simp_all
  have move: "p ! ?f n \<noteq> ?f n" if "n \<le> length p" for n
  proof
    assume f: "p ! ?f n = ?f n"
    have "?f (length p) = ?f n" using stay [OF f, of "length p - n"] \<open>n \<le> length p\<close> by simp
    then show False using no f by (simp add: root_of_def)
  qed
  have grow: "unat (k ! ?f n) < unat (k ! ?f (Suc n))" if "n \<le> length p" for n
    using assms(1) move [OF that] iterate_bound [OF assms, of n] by (simp add: ranked_def)
  have mono: "i + j \<le> Suc (length p) \<Longrightarrow> j > 0 \<Longrightarrow> unat (k ! ?f i) < unat (k ! ?f (i + j))" for i j
  proof (induction j)
    case (Suc j)
    then show ?case using grow [of "i + j"] by (cases "j = 0") auto
  qed simp
  have "inj_on ?f {..length p}"
  proof (rule inj_onI, rule ccontr)
    fix i j assume ij: "i \<in> {..length p}" "j \<in> {..length p}" "?f i = ?f j" "i \<noteq> j"
    then consider "i < j" | "j < i" by linarith
    then show False
    proof cases
      case 1
      then show False using mono [of i "j - i"] ij by simp
    next
      case 2
      then show False using mono [of j "i - j"] ij by simp
    qed
  qed
  moreover have "?f ` {..length p} \<subseteq> {..<length p}" using iterate_bound [OF assms] by auto
  ultimately show False using card_inj_on_le [of ?f "{..length p}" "{..<length p}"] by simp
qed

text \<open>A function that every step preserves and that fixes the roots is the root function.\<close>

lemma root_of_eqI:
  assumes "ranked p k" "x < length p"
    and step: "\<And>y. y < length p \<Longrightarrow> f (p ! y) = f y" and root: "\<And>r. r < length p \<Longrightarrow> p ! r = r \<Longrightarrow> f r = r"
  shows "root_of p x = f x"
proof -
  have "f (((\<lambda>y. p ! y) ^^ n) x) = f x" for n
    by (induction n) (simp_all add: step iterate_bound [OF assms(1,2)])
  then have "f (root_of p x) = f x" by (simp add: root_of_def)
  then show ?thesis using root [OF root_of_bound [OF assms(1,2)] root_of_root [OF assms(1,2)]] by simp
qed

section \<open>Find\<close>

lemma halving_ranked:
  assumes "ranked p k" "x < length p"
  shows "ranked (p[x := p ! (p ! x)]) k"
proof -
  let ?p = "p[x := p ! (p ! x)]"
  have "unat (k ! y) < unat (k ! (?p ! y))" if "y < length p" "?p ! y \<noteq> y" for y
  proof (cases "y = x")
    case True
    then have "p ! x \<noteq> x" using that assms(2) by auto
    then show ?thesis using assms True unfolding ranked_def by (cases "p ! (p ! x) = p ! x") (auto intro: less_trans)
  next
    case False
    then show ?thesis using that assms(1) by (simp add: ranked_def)
  qed
  then show ?thesis using assms by (auto simp: ranked_def nth_list_update)
qed

lemma halving_root:
  assumes "ranked p k" "x < length p" "y < length p"
  shows "root_of (p[x := p ! (p ! x)]) y = root_of p y"
proof (rule root_of_eqI [OF halving_ranked [OF assms(1,2)]])
  show "y < length (p[x := p ! (p ! x)])" using assms(3) by simp
  fix z assume z: "z < length (p[x := p ! (p ! x)])"
  have r: "p ! root_of p v = root_of p v" if "v < length p" for v using root_of_root [OF assms(1) that] .
  show "root_of p (p[x := p ! (p ! x)] ! z) = root_of p z"
    using z r [of x] r [of z] assms(2) by (simp add: nth_list_update root_of_step)
  assume fx: "p[x := p ! (p ! x)] ! z = z"
  show "root_of p z = z"
  proof (cases "z = x")
    case True
    have "p ! x = x"
    proof (rule ccontr)
      assume "p ! x \<noteq> x"
      moreover have "p ! (p ! x) = x" using fx True assms(2) by simp
      ultimately have "unat (k ! x) < unat (k ! (p ! x))" "unat (k ! (p ! x)) < unat (k ! x)"
        using assms(1,2) unfolding ranked_def by (metis)+
      then show False by simp
    qed
    then show ?thesis using True by (simp add: root_of_fixed)
  next
    case False
    then show ?thesis using fx by (simp add: root_of_fixed)
  qed
qed

text \<open>The loop ends: each round moves to a grandparent, whose rank is larger.\<close>

lemma uf_find_loop_ok:
  assumes "ranked p k" "x < length p"
  shows "\<exists>p'. uf_find_loop p x = Some (root_of p x, p') \<and> ranked p' k \<and> length p' = length p \<and>
    (\<forall>y < length p. root_of p' y = root_of p y)"
  using assms
proof (induction "256 - unat (k ! x)" arbitrary: p x rule: less_induct)
  case less
  show ?case
  proof (cases "p ! x = x")
    case True
    then show ?thesis using less.prems by (subst uf_find_loop.simps) (simp add: root_of_fixed)
  next
    case False
    let ?p = "p[x := p ! (p ! x)]"
    have b: "p ! x < length p" "p ! (p ! x) < length p" using less.prems by (auto simp: ranked_def)
    have up: "unat (k ! x) < unat (k ! (p ! x))" "unat (k ! (p ! x)) \<le> unat (k ! (p ! (p ! x)))"
      using less.prems b False unfolding ranked_def by (simp, metis nat_less_le order_refl)
    moreover have "unat (k ! (p ! (p ! x))) < 256" using unsigned_less [of "k ! (p ! (p ! x))"] by simp
    ultimately have "256 - unat (k ! (p ! (p ! x))) < 256 - unat (k ! x)" by simp
    then obtain p' where p': "uf_find_loop ?p (p ! (p ! x)) = Some (root_of ?p (p ! (p ! x)), p')" "ranked p' k" "length p' = length ?p"
      "\<forall>y < length ?p. root_of p' y = root_of ?p y"
      using less.hyps [of "p ! (p ! x)" ?p] halving_ranked [OF less.prems] b by auto
    have "root_of p (p ! (p ! x)) = root_of p x"
      using root_of_root [OF less.prems] by (simp add: root_of_step)
    then have "uf_find_loop p x = Some (root_of p x, p')"
      using p'(1) False less.prems b halving_root [OF less.prems b(2)] by (subst uf_find_loop.simps) (simp add: Let_def)
    then show ?thesis using p' halving_root [OF less.prems] by auto
  qed
qed

lemma uf_class_cong:
  "length p' = length p \<Longrightarrow> \<forall>y < length p. root_of p' y = root_of p y \<Longrightarrow> uf_class p' r = uf_class p r"
  by (auto simp: uf_class_def)

lemma same_roots:
  assumes "ranked p k" "ranked p' k" "length p' = length p" "\<forall>y < length p. root_of p' y = root_of p y" "r < length p"
  shows "p' ! r = r \<longleftrightarrow> p ! r = r"
  using assms root_of_fixed [of p r] root_of_fixed [of p' r] root_of_root [of p k r] root_of_root [of p' k r] by metis

lemma uf_find_ok:
  assumes "uf_ok u" "x < length (parent u)"
  obtains u' where "uf_find u x = Some (root_of (parent u) x, u')" "uf_ok u'" "rank u' = rank u"
    "length (parent u') = length (parent u)" "\<And>y. y < length (parent u) \<Longrightarrow> root_of (parent u') y = root_of (parent u) y"
proof -
  have k: "ranked (parent u) (rank u)" using assms(1) by (simp add: uf_ok_def)
  obtain p' where p': "uf_find_loop (parent u) x = Some (root_of (parent u) x, p')" "ranked p' (rank u)"
    "length p' = length (parent u)" "\<forall>y < length (parent u). root_of p' y = root_of (parent u) y"
    using uf_find_loop_ok [OF k assms(2)] by blast
  have "sized p' (rank u)"
    unfolding sized_def
    using assms(1) p'(3) uf_class_cong [OF p'(3,4)] same_roots [OF k p'(2-4)] by (simp add: uf_ok_def sized_def)
  then show ?thesis
    using p' assms(1) by (intro that [of "u\<lparr>parent := p'\<rparr>"]) (simp_all add: uf_find_def uf_ok_def)
qed

section \<open>Union\<close>

text \<open>Linking a root under another moves its class there.\<close>

lemma link_root:
  assumes k: "ranked p k" and s: "s < length p" "p ! s = s" and b: "b < length p" "p ! b = b" and "s \<noteq> b"
    and k': "ranked (p[s := b]) k'" and y: "y < length p"
  shows "root_of (p[s := b]) y = (if root_of p y = s then b else root_of p y)"
proof (rule root_of_eqI [OF k'])
  show "y < length (p[s := b])" using y by simp
  fix z assume z: "z < length (p[s := b])"
  have "root_of p b = b" "root_of p s = s" using s b by (simp_all add: root_of_fixed)
  moreover have "p ! root_of p z = root_of p z" using root_of_root [OF k] z by simp
  ultimately show "(if root_of p (p[s := b] ! z) = s then b else root_of p (p[s := b] ! z)) = (if root_of p z = s then b else root_of p z)"
    using s b \<open>s \<noteq> b\<close> z by (cases "z = s") (simp_all add: root_of_step)
  assume "p[s := b] ! z = z"
  then show "(if root_of p z = s then b else root_of p z) = z"
    using s b \<open>s \<noteq> b\<close> z by (cases "z = s") (auto simp: root_of_fixed)
qed


lemma class_bound: "card (uf_class p r) \<le> length p"
proof -
  have "uf_class p r \<subseteq> {..<length p}" by (auto simp: uf_class_def)
  then show ?thesis using card_mono [of "{..<length p}" "uf_class p r"] by simp
qed

lemma rank_bound:
  assumes "uf_ok u" "r < length (parent u)" "parent u ! r = r"
  shows "unat (rank u ! r) < 64"
proof -
  have "2 ^ unat (rank u ! r) \<le> length (parent u)"
    using assms class_bound [of "parent u" r] unfolding uf_ok_def sized_def by (meson le_trans)
  also have "\<dots> < 2 ^ 64" using assms(1) by (simp add: uf_ok_def)
  finally show ?thesis by (simp only: power_strict_increasing_iff one_less_numeral_iff semiring_norm)
qed

lemma link_ranked:
  assumes k: "ranked p k" and s: "s < length p" "p ! s = s" and b: "b < length p" "p ! b = b" and "s \<noteq> b"
    and k': "length k' = length k" "\<And>y. y \<noteq> b \<Longrightarrow> k' ! y = k ! y" "unat (k ! b) \<le> unat (k' ! b)" "unat (k ! s) < unat (k' ! b)"
  shows "ranked (p[s := b]) k'"
proof -
  have "unat (k' ! y) < unat (k' ! (p[s := b] ! y))" if y: "y < length p" "p[s := b] ! y \<noteq> y" for y
  proof (cases "y = s")
    case True
    then show ?thesis using s k' \<open>s \<noteq> b\<close> by simp
  next
    case False
    then have "p ! y \<noteq> y" "y \<noteq> b" using y b by auto
    moreover have "unat (k ! z) \<le> unat (k' ! z)" for z using k'(2,3) by (cases "z = b") auto
    moreover have "unat (k ! y) < unat (k ! (p ! y))" using k y(1) \<open>p ! y \<noteq> y\<close> by (simp add: ranked_def)
    ultimately show ?thesis using False k'(2) [of y] by (simp add: less_le_trans)
  qed
  then show ?thesis using k k'(1) b(1) s(1) by (simp add: ranked_def nth_list_update)
qed

lemma link_class:
  assumes k: "ranked p k" and s: "s < length p" "p ! s = s" and b: "b < length p" "p ! b = b" and "s \<noteq> b"
    and k': "ranked (p[s := b]) k'"
  shows "uf_class (p[s := b]) b = uf_class p b \<union> uf_class p s" "r \<noteq> s \<Longrightarrow> r \<noteq> b \<Longrightarrow> uf_class (p[s := b]) r = uf_class p r"
    "card (uf_class (p[s := b]) b) = card (uf_class p b) + card (uf_class p s)"
proof -
  note root = link_root [OF k s b \<open>s \<noteq> b\<close> k']
  show u: "uf_class (p[s := b]) b = uf_class p b \<union> uf_class p s"
    using \<open>s \<noteq> b\<close> by (auto simp: uf_class_def root cong: conj_cong split: if_splits)
  show "uf_class (p[s := b]) r = uf_class p r" if "r \<noteq> s" "r \<noteq> b"
    using that by (auto simp: uf_class_def root cong: conj_cong split: if_splits)
  have "finite (uf_class p r)" for r by (simp add: uf_class_def)
  moreover have "uf_class p b \<inter> uf_class p s = {}" using \<open>s \<noteq> b\<close> by (auto simp: uf_class_def)
  ultimately show "card (uf_class (p[s := b]) b) = card (uf_class p b) + card (uf_class p s)"
    unfolding u by (simp add: card_Un_disjoint)
qed

lemma link_sized:
  assumes k: "ranked p k" and s: "s < length p" "p ! s = s" and b: "b < length p" "p ! b = b" and "s \<noteq> b"
    and k': "ranked (p[s := b]) k'" "\<And>y. y \<noteq> b \<Longrightarrow> k' ! y = k ! y"
    and size: "sized p k" "unat (k' ! b) \<le> unat (k ! b) \<or> (unat (k' ! b) = Suc (unat (k ! b)) \<and> k ! s = k ! b)"
  shows "sized (p[s := b]) k'"
  unfolding sized_def
proof (intro allI impI)
  fix r assume r: "r < length (p[s := b])" "p[s := b] ! r = r"
  note cls = link_class [OF k s b \<open>s \<noteq> b\<close> k'(1)]
  have two: "2 ^ unat (k ! b) \<le> card (uf_class p b)" "2 ^ unat (k ! s) \<le> card (uf_class p s)"
    using size(1) s b by (auto simp: sized_def)
  have "r \<noteq> s" using r(2) s(1) \<open>s \<noteq> b\<close> by auto
  show "2 ^ unat (k' ! r) \<le> card (uf_class (p[s := b]) r)"
  proof (cases "r = b")
    case True
    have "2 ^ unat (k' ! b) \<le> card (uf_class p b) + card (uf_class p s)"
      using size(2)
    proof
      assume "unat (k' ! b) \<le> unat (k ! b)"
      then have "(2 :: nat) ^ unat (k' ! b) \<le> 2 ^ unat (k ! b)" by (intro power_increasing) auto
      then show ?thesis using two by linarith
    next
      assume "unat (k' ! b) = Suc (unat (k ! b)) \<and> k ! s = k ! b"
      then show ?thesis using two by simp
    qed
    then show ?thesis using True cls(3) by simp
  next
    case False
    then show ?thesis using r \<open>r \<noteq> s\<close> k'(2) cls(2) size(1) by (simp add: sized_def)
  qed
qed

lemma link_roots_ok:
  assumes u: "uf_ok u" and ra: "ra < length (parent u)" "parent u ! ra = ra"
    and rb: "rb < length (parent u)" "parent u ! rb = rb" and "ra \<noteq> rb"
  obtains u' s b where "link_roots u ra rb = Some u'" "uf_ok u'" "length (parent u') = length (parent u)"
    "(s, b) \<in> {(ra, rb), (rb, ra)}"
    "\<And>y. y < length (parent u) \<Longrightarrow> root_of (parent u') y = (if root_of (parent u) y = s then b else root_of (parent u) y)"
proof -
  let ?p = "parent u" and ?k = "rank u"
  have k: "ranked ?p ?k" "sized ?p ?k" "length ?k = length ?p" "length ?p < 2 ^ 64" using u by (auto simp: uf_ok_def ranked_def)
  obtain s b where sb: "(if ?k ! ra < ?k ! rb then (ra, rb) else (rb, ra)) = (s, b)" by fastforce
  then have or: "(s, b) \<in> {(ra, rb), (rb, ra)}" by (auto split: if_splits)
  have s: "s < length ?p" "?p ! s = s" and b: "b < length ?p" "?p ! b = b" and ne: "s \<noteq> b"
    using or ra rb \<open>ra \<noteq> rb\<close> by auto
  have le: "unat (?k ! s) \<le> unat (?k ! b)" using sb by (auto simp: word_less_nat_alt split: if_splits)
  let ?k' = "if ?k ! s = ?k ! b then ?k[b := ?k ! b + 1] else ?k"
  have suc: "unat (?k ! b + 1) = Suc (unat (?k ! b))"
  proof -
    have "unat (?k ! b) + unat (1 :: 8 word) < 2 ^ 8" using rank_bound [OF u b] by simp
    then show ?thesis by (subst unat_plus_simple [THEN iffD1]) (auto simp: word_le_nat_alt unat_word_ariths)
  qed
  have b': "unat (?k' ! b) = (if ?k ! s = ?k ! b then Suc (unat (?k ! b)) else unat (?k ! b))"
    using b k(3) suc by simp
  have k': "length ?k' = length ?k" "\<And>y. y \<noteq> b \<Longrightarrow> ?k' ! y = ?k ! y" "unat (?k ! b) \<le> unat (?k' ! b)" "unat (?k ! s) < unat (?k' ! b)"
    using b' le by (auto simp: nat_less_le word_unat_eq_iff)
  have rk: "ranked (?p[s := b]) ?k'" by (rule link_ranked [OF k(1) s b ne k'])
  have sz: "sized (?p[s := b]) ?k'"
    by (rule link_sized [OF k(1) s b ne rk k'(2) k(2)]) (use b' in auto)
  show ?thesis
  proof (rule that [OF _ _ _ or])
    show "link_roots u ra rb = Some (u\<lparr>parent := ?p[s := b], rank := ?k'\<rparr>)"
      using ra(1) rb(1) k(3) sb by (auto simp: link_roots_def Let_def split: prod.split if_splits)
    show "uf_ok (u\<lparr>parent := ?p[s := b], rank := ?k'\<rparr>)" using rk sz k(4) by (simp add: uf_ok_def)
  qed (simp_all add: link_root [OF k(1) s b ne rk])
qed

lemma uf_union_ok:
  assumes u: "uf_ok u" and a: "a < length (parent u)" and b: "b < length (parent u)"
  obtains u' where "uf_union u a b = Some u'" "uf_ok u'" "length (parent u') = length (parent u)"
    "\<And>x y. x < length (parent u) \<Longrightarrow> y < length (parent u) \<Longrightarrow>
       root_of (parent u') x = root_of (parent u') y \<longleftrightarrow>
         root_of (parent u) x = root_of (parent u) y \<or>
         root_of (parent u) x = root_of (parent u) a \<and> root_of (parent u) y = root_of (parent u) b \<or>
         root_of (parent u) x = root_of (parent u) b \<and> root_of (parent u) y = root_of (parent u) a"
proof -
  let ?r = "root_of (parent u)"
  obtain u1 where u1: "uf_find u a = Some (?r a, u1)" "uf_ok u1" "length (parent u1) = length (parent u)"
    "\<And>y. y < length (parent u) \<Longrightarrow> root_of (parent u1) y = ?r y"
    by (rule uf_find_ok [OF u a]) blast
  have b1: "b < length (parent u1)" using b u1(3) by simp
  obtain u2 where u2: "uf_find u1 b = Some (?r b, u2)" "uf_ok u2" "length (parent u2) = length (parent u)"
    "\<And>y. y < length (parent u) \<Longrightarrow> root_of (parent u2) y = ?r y"
    by (rule uf_find_ok [OF u1(2) b1]) (use b u1 in auto)
  show ?thesis
  proof (cases "?r a = ?r b")
    case True
    show ?thesis
      by (rule that [of u2]) (use u1 u2 True in \<open>auto simp: uf_union_def\<close>)
  next
    case False
    have rk: "ranked (parent u2) (rank u2)" "ranked (parent u) (rank u)" using u2(2) u by (simp_all add: uf_ok_def)
    have roots: "?r a < length (parent u2)" "parent u2 ! ?r a = ?r a" "?r b < length (parent u2)" "parent u2 ! ?r b = ?r b"
      using root_of_bound [OF rk(2) a] root_of_bound [OF rk(2) b] root_of_root [OF rk(1), of a] root_of_root [OF rk(1), of b] u2(3,4) a b
      by auto
    obtain u' s t where l: "link_roots u2 (?r a) (?r b) = Some u'" "uf_ok u'" "length (parent u') = length (parent u2)"
      "(s, t) \<in> {(?r a, ?r b), (?r b, ?r a)}"
      "\<And>y. y < length (parent u2) \<Longrightarrow> root_of (parent u') y = (if root_of (parent u2) y = s then t else root_of (parent u2) y)"
      by (rule link_roots_ok [OF u2(2) roots False]) blast
    show ?thesis
    proof (rule that)
      show "uf_union u a b = Some u'" using u1(1) u2(1) l(1) False by (simp add: uf_union_def)
      fix x y assume "x < length (parent u)" "y < length (parent u)"
      then show "root_of (parent u') x = root_of (parent u') y \<longleftrightarrow> ?r x = ?r y \<or> ?r x = ?r a \<and> ?r y = ?r b \<or> ?r x = ?r b \<and> ?r y = ?r a"
        using l(4) False l(5) [of x] l(5) [of y] u2(3,4) by auto
    qed (use l u2 in auto)
  qed
qed

end
