(* ===== verification/Clusters.thy ===== *)
theory Clusters
  imports UnionFind Float32 "HOL-Library.Product_Lexorder"
begin

text \<open>
  \<open>crates/solo-steward/src/cluster.rs\<close> and the configuration of \<open>lib.rs\<close>: the clustering of episodes
  by day and cosine, the merge of clusters by centroid and the absorption into the clusters of the
  database. A panic is \<open>None\<close> and an error is \<open>Inl\<close>. Debug assertions are off, as in a release.
\<close>

section \<open>Configuration\<close>

record StewardConfig =
  cluster_min_size :: nat
  cluster_max_size :: nat
  cluster_cosine_threshold :: f32
  abstraction_max_tokens :: nat
  contradiction_check_enabled :: bool

definition steward_default :: StewardConfig where
  "steward_default =
     \<lparr>cluster_min_size = 2, cluster_max_size = 48, cluster_cosine_threshold = f32_lit 55 2,
      abstraction_max_tokens = 512, contradiction_check_enabled = True\<rparr>"

text \<open>The environment: its variables and \<open>str::parse::<f32>\<close>.\<close>

record steward_env =
  var :: "string \<Rightarrow> string option"
  parse_f32 :: "string \<Rightarrow> f32 option"

definition env_trimmed :: "steward_env \<Rightarrow> string \<Rightarrow> string option" where
  "env_trimmed e name =
     (case var e name of None \<Rightarrow> None | Some s \<Rightarrow> if trim s = [] then None else Some (trim s))"

definition with_env ::
  "steward_env \<Rightarrow> string \<Rightarrow> (string \<Rightarrow> 'a option) \<Rightarrow> ('a \<Rightarrow> bool) \<Rightarrow> ('a \<Rightarrow> StewardConfig \<Rightarrow> StewardConfig)
     \<Rightarrow> StewardConfig \<Rightarrow> StewardConfig result" where
  "with_env e name parse ok upd c =
     (case env_trimmed e name of
        None \<Rightarrow> Inr c
      | Some raw \<Rightarrow>
          (case parse raw of
             None \<Rightarrow> Inl InvalidInput
           | Some v \<Rightarrow> if ok v then Inr (upd v c) else Inl InvalidInput))"

definition threshold_ok :: "f32 \<Rightarrow> bool" where
  "threshold_ok t = (f32_is_finite t \<and> \<not> f32_le t (f32_lit 0 0) \<and> \<not> f32_lt (f32_lit 1 0) t)"

definition parse_bool :: "string \<Rightarrow> bool option" where
  "parse_bool raw =
     (let s = to_ascii_lowercase raw in
      if s = ''true'' then Some True else if s = ''false'' then Some False else None)"

definition from_env :: "steward_env \<Rightarrow> StewardConfig result" where
  "from_env e =
     bind_r (with_env e ''SOLO_CLUSTER_COSINE_THRESHOLD'' (parse_f32 e) threshold_ok
               (\<lambda>v c. c\<lparr>cluster_cosine_threshold := v\<rparr>) steward_default) (\<lambda>c1.
     bind_r (with_env e ''SOLO_CLUSTER_MIN_SIZE'' (parse_unsigned u64_max) (\<lambda>v. 1 \<le> v)
               (\<lambda>v c. c\<lparr>cluster_min_size := v\<rparr>) c1) (\<lambda>c2.
     bind_r (with_env e ''SOLO_CLUSTER_MAX_SIZE'' (parse_unsigned u64_max) (\<lambda>v. 1 \<le> v)
               (\<lambda>v c. c\<lparr>cluster_max_size := v\<rparr>) c2) (\<lambda>c3.
     bind_r (with_env e ''SOLO_ABSTRACTION_MAX_TOKENS'' (parse_unsigned u64_max) (\<lambda>v. 1 \<le> v \<and> v \<le> 65536)
               (\<lambda>v c. c\<lparr>abstraction_max_tokens := v\<rparr>) c3) (\<lambda>c4.
     with_env e ''SOLO_CONTRADICTION_CHECK_ENABLED'' parse_bool (\<lambda>_. True)
               (\<lambda>v c. c\<lparr>contradiction_check_enabled := v\<rparr>) c4))))"

definition from_settings_then_env :: "steward_env \<Rightarrow> nat option \<Rightarrow> f32 option \<Rightarrow> StewardConfig result" where
  "from_settings_then_env e toml_min_size toml_cosine_threshold =
     bind_r (case toml_min_size of
               None \<Rightarrow> Inr steward_default
             | Some v \<Rightarrow> if v < 1 then Inl InvalidInput else Inr (steward_default\<lparr>cluster_min_size := v\<rparr>)) (\<lambda>c1.
     bind_r (case toml_cosine_threshold of
               None \<Rightarrow> Inr c1
             | Some v \<Rightarrow> if threshold_ok v then Inr (c1\<lparr>cluster_cosine_threshold := v\<rparr>) else Inl InvalidInput) (\<lambda>c2.
     bind_r (from_env e) (\<lambda>ec.
     let c3 = (if env_trimmed e ''SOLO_CLUSTER_MIN_SIZE'' \<noteq> None then c2\<lparr>cluster_min_size := cluster_min_size ec\<rparr> else c2);
         c4 = (if env_trimmed e ''SOLO_CLUSTER_COSINE_THRESHOLD'' \<noteq> None
               then c3\<lparr>cluster_cosine_threshold := cluster_cosine_threshold ec\<rparr> else c3)
     in Inr (c4\<lparr>cluster_max_size := cluster_max_size ec, abstraction_max_tokens := abstraction_max_tokens ec,
                contradiction_check_enabled := contradiction_check_enabled ec\<rparr>))))"

definition steward_ok :: "StewardConfig \<Rightarrow> bool" where
  "steward_ok c = (1 \<le> cluster_min_size c \<and> 1 \<le> cluster_max_size c \<and> threshold_ok (cluster_cosine_threshold c) \<and>
     1 \<le> abstraction_max_tokens c \<and> abstraction_max_tokens c \<le> 65536)"

section \<open>Vectors\<close>

definition f32_epsilon :: f32 where "f32_epsilon = 0x34000000"

definition norm_f32 :: "f32 list \<Rightarrow> f32" where
  "norm_f32 v = f32_sqrt (foldl f32_add 0 (map (\<lambda>x. f32_mul x x) v))"

definition cosine_similarity_f32 :: "f32 list \<Rightarrow> f32 list \<Rightarrow> f32" where
  "cosine_similarity_f32 a b =
     (case foldl (\<lambda>(dot, na, nb) (x, y).
              (f32_add dot (f32_mul x y), f32_add na (f32_mul x x), f32_add nb (f32_mul y y))) (0, 0, 0) (zip a b) of
        (dot, na, nb) \<Rightarrow>
          let denom = f32_mul (f32_sqrt na) (f32_sqrt nb) in
          if f32_le denom f32_epsilon then 0 else f32_clamp (f32_neg (f32_lit 1 0)) (f32_lit 1 0) (f32_div dot denom))"

text \<open>The loops over \<open>zip\<close> stop with the shorter vector.\<close>

definition add_normalized_weighted :: "f32 list \<Rightarrow> f32 list \<Rightarrow> f32 \<Rightarrow> f32 list" where
  "add_normalized_weighted acc v weight =
     (if f32_le weight 0 then acc
      else let norm = norm_f32 v in
        if f32_le norm f32_epsilon then acc
        else map (\<lambda>(s, x). f32_add s (f32_mul (f32_div x norm) weight)) (zip acc v) @ drop (length v) acc)"

definition normalize_in_place :: "f32 list \<Rightarrow> f32 list" where
  "normalize_in_place v =
     (let norm = norm_f32 v in if f32_lt f32_epsilon norm then map (\<lambda>x. f32_div x norm) v else v)"

definition embedding_of :: "nat \<Rightarrow> f32 list \<Rightarrow> Embedding" where
  "embedding_of d v = \<lparr>dtype = F32, dim = d, data = concat (map bytes_of_f32 v)\<rparr>"

section \<open>Grouping by similarity\<close>

definition position_pairs :: "nat \<Rightarrow> (nat \<times> nat) list" where
  "position_pairs n = concat (map (\<lambda>a. map (\<lambda>b. (a, b)) [Suc a..<n]) [0..<n])"

fun link_similar :: "(nat \<Rightarrow> nat \<Rightarrow> bool) \<Rightarrow> (nat \<times> nat) list \<Rightarrow> UnionFind \<Rightarrow> UnionFind option" where
  "link_similar sim [] u = Some u"
| "link_similar sim ((a, b) # ps) u =
     (if sim a b then Option.bind (uf_union u a b) (link_similar sim ps) else link_similar sim ps u)"

text \<open>A \<open>HashMap\<close> from roots to positions, as a list of its entries.\<close>

fun push_group :: "nat \<Rightarrow> nat \<Rightarrow> (nat \<times> nat list) list \<Rightarrow> (nat \<times> nat list) list" where
  "push_group root pos [] = [(root, [pos])]"
| "push_group root pos ((r, ps) # gs) = (if r = root then (r, ps @ [pos]) # gs else (r, ps) # push_group root pos gs)"

fun group_by_root :: "nat list \<Rightarrow> UnionFind \<Rightarrow> (nat \<times> nat list) list \<Rightarrow> (nat \<times> nat list) list option" where
  "group_by_root [] u gs = Some gs"
| "group_by_root (x # xs) u gs =
     Option.bind (uf_find u x) (\<lambda>(root, u'). group_by_root xs u' (push_group root x gs))"

definition similarity_groups :: "(nat \<Rightarrow> nat \<Rightarrow> bool) \<Rightarrow> nat \<Rightarrow> (nat \<times> nat list) list option" where
  "similarity_groups sim n =
     Option.bind (link_similar sim (position_pairs n) (uf_new n)) (\<lambda>u. group_by_root [0..<n] u [])"


section \<open>Clusters of episodes\<close>

record Cluster =
  cluster_id :: memory_id
  episode_ids :: "memory_id list"
  centroid :: "Embedding option"
  coherence :: f32

definition MS_PER_DAY :: int where "MS_PER_DAY = 86400000"

type_synonym aligned_episodes = "(Episode \<times> Embedding) list"

fun check_inputs :: "nat \<Rightarrow> aligned_episodes \<Rightarrow> unit result" where
  "check_inputs d [] = Inr ()"
| "check_inputs d ((ep, emb) # rest) =
     (if dim emb \<noteq> d then Inl Steward
      else if dtype emb \<noteq> F32 then Inl Steward
      else bind_r (validate emb) (\<lambda>_. check_inputs d rest))"

fun views :: "(bytes \<Rightarrow> bool) \<Rightarrow> Embedding list \<Rightarrow> f32 list list result" where
  "views al [] = Inr []"
| "views al (emb # rest) =
     (case as_f32_slice al emb of
        None \<Rightarrow> Inl Steward
      | Some v \<Rightarrow> bind_r (views al rest) (\<lambda>vs. Inr (v # vs)))"

text \<open>The buckets by UTC day in chronological order.\<close>

definition day_of :: "aligned_episodes \<Rightarrow> nat \<Rightarrow> int" where
  "day_of inputs i = ts_ms (fst (inputs ! i)) div MS_PER_DAY"

definition day_buckets :: "aligned_episodes \<Rightarrow> nat list list" where
  "day_buckets inputs =
     map (\<lambda>d. filter (\<lambda>i. day_of inputs i = d) [0..<length inputs])
       (sort (remdups (map (day_of inputs) [0..<length inputs])))"

definition age_key :: "aligned_episodes \<Rightarrow> nat \<Rightarrow> int \<times> memory_id" where
  "age_key inputs i = (ts_ms (fst (inputs ! i)), memory_id (fst (inputs ! i)))"

text \<open>\<open>chunks\<close> panics on the size zero.\<close>

function slice_chunks :: "nat \<Rightarrow> 'a list \<Rightarrow> 'a list list" where
  "slice_chunks m xs = (if m = 0 \<or> xs = [] then [] else take m xs # slice_chunks m (drop m xs))"
  by pat_completeness auto
termination
  by (relation "measure (length \<circ> snd)") auto

declare slice_chunks.simps [simp del]

definition split_component_by_time ::
  "nat list \<Rightarrow> nat list \<Rightarrow> aligned_episodes \<Rightarrow> StewardConfig \<Rightarrow> nat list list option" where
  "split_component_by_time members bucket inputs cfg =
     (let max_size = max (cluster_max_size cfg) (cluster_min_size cfg);
          global = sort_key (age_key inputs) (map (\<lambda>p. bucket ! p) members)
      in if max_size = 0 then None
         else Some (filter (\<lambda>c. cluster_min_size cfg \<le> length c) (slice_chunks max_size global)))"

definition mean_coherence :: "f32 list list \<Rightarrow> nat list \<Rightarrow> f32" where
  "mean_coherence vs sorted_ix =
     (let ps = position_pairs (length sorted_ix); pairs = length ps mod 2 ^ 32;
          t = foldl (\<lambda>acc (a, b). f32_add acc (cosine_similarity_f32 (vs ! (sorted_ix ! a)) (vs ! (sorted_ix ! b)))) 0 ps
      in if pairs > 0 then f32_div t (f32_of_nat pairs) else f32_lit 1 0)"

definition build_cluster :: "memory_id \<Rightarrow> nat list \<Rightarrow> aligned_episodes \<Rightarrow> f32 list list \<Rightarrow> nat \<Rightarrow> Cluster" where
  "build_cluster new_id global inputs vs d =
     (let sorted_ix = sort_key (age_key inputs) global;
          acc = foldl (\<lambda>s i. add_normalized_weighted s (vs ! i) (f32_lit 1 0)) (replicate d 0) sorted_ix;
          mean = normalize_in_place (map (\<lambda>v. f32_div v (f32_of_nat (length sorted_ix))) acc)
      in \<lparr>cluster_id = new_id, episode_ids = map (\<lambda>i. memory_id (fst (inputs ! i))) sorted_ix,
          centroid = Some (embedding_of d mean), coherence = mean_coherence vs sorted_ix\<rparr>)"

text \<open>A \<open>HashMap\<close> hands out its entries in an order of its own, the parameter \<open>order\<close>.\<close>

type_synonym hash_order = "(nat \<times> nat list) list \<Rightarrow> (nat \<times> nat list) list"

fun concat_opt :: "'a list option list \<Rightarrow> 'a list option" where
  "concat_opt [] = Some []"
| "concat_opt (x # xs) = Option.bind x (\<lambda>a. Option.bind (concat_opt xs) (\<lambda>b. Some (a @ b)))"

definition similar_in :: "StewardConfig \<Rightarrow> f32 list list \<Rightarrow> nat list \<Rightarrow> nat \<Rightarrow> nat \<Rightarrow> bool" where
  "similar_in cfg vs indices a b =
     f32_le (cluster_cosine_threshold cfg) (cosine_similarity_f32 (vs ! (indices ! a)) (vs ! (indices ! b)))"

definition bucket_members ::
  "hash_order \<Rightarrow> StewardConfig \<Rightarrow> aligned_episodes \<Rightarrow> f32 list list \<Rightarrow> nat list \<Rightarrow> nat list list option" where
  "bucket_members order cfg inputs vs indices =
     (if length indices < cluster_min_size cfg then Some []
      else Option.bind (similarity_groups (similar_in cfg vs indices) (length indices)) (\<lambda>groups.
        concat_opt (map (\<lambda>(root, members). split_component_by_time members indices inputs cfg)
          (filter (\<lambda>(root, members). cluster_min_size cfg \<le> length members) (order groups)))))"

definition earliest :: "aligned_episodes \<Rightarrow> Cluster \<Rightarrow> int" where
  "earliest inputs c =
     (case map (\<lambda>(ep, _). ts_ms ep) (filter (\<lambda>(ep, _). memory_id ep \<in> set (episode_ids c)) inputs) of
        [] \<Rightarrow> i64_max
      | t # ts \<Rightarrow> foldl min t ts)"

text \<open>\<open>fresh i\<close> is the id that the \<open>i\<close>th \<open>MemoryId::new\<close> draws.\<close>

definition cluster_episodes ::
  "(bytes \<Rightarrow> bool) \<Rightarrow> hash_order \<Rightarrow> (nat \<Rightarrow> memory_id) \<Rightarrow> aligned_episodes \<Rightarrow> StewardConfig \<Rightarrow> Cluster list result option" where
  "cluster_episodes al order fresh inputs cfg =
     (case inputs of
        [] \<Rightarrow> Some (Inr [])
      | (_, emb0) # _ \<Rightarrow>
          if dtype emb0 \<noteq> F32 then Some (Inl Steward)
          else
            (case bind_r (check_inputs (dim emb0) inputs) (\<lambda>_. views al (map snd inputs)) of
               Inl e \<Rightarrow> Some (Inl e)
             | Inr vs \<Rightarrow>
                 Option.bind (concat_opt (map (bucket_members order cfg inputs vs) (day_buckets inputs))) (\<lambda>members.
                 Some (Inr (sort_key (earliest inputs)
                   (map (\<lambda>(i, global). build_cluster (fresh i) global inputs vs (dim emb0)) (List.enumerate 0 members)))))))"

end
