(* ===== verification/ClusterMerge.thy ===== *)
theory ClusterMerge
  imports Clusters
begin

text \<open>
  The second half of \<open>crates/solo-steward/src/cluster.rs\<close>: merging clusters whose centroids are close,
  and absorbing new clusters into those of the database.
\<close>

section \<open>Merging\<close>

record MergeOp =
  survivor_id :: memory_id
  loser_ids :: "memory_id list"
  merged_episode_ids :: "memory_id list"
  merged_centroid :: Embedding
  merged_coherence :: f32

fun check_centroids :: "nat \<Rightarrow> Cluster list \<Rightarrow> unit result" where
  "check_centroids d [] = Inr ()"
| "check_centroids d (c # cs) =
     (case centroid c of
        None \<Rightarrow> Inl Steward
      | Some e \<Rightarrow> if dtype e \<noteq> F32 then Inl Steward else if dim e \<noteq> d then Inl Steward else check_centroids d cs)"

text \<open>\<open>max_by\<close> keeps the later of two equal elements.\<close>

definition survivor_key :: "Cluster list \<Rightarrow> nat \<Rightarrow> nat \<times> int" where
  "survivor_key cs m = (length (episode_ids (cs ! m)), - int (cluster_id (cs ! m)))"

fun pick_survivor :: "Cluster list \<Rightarrow> nat \<Rightarrow> nat list \<Rightarrow> nat" where
  "pick_survivor cs best [] = best"
| "pick_survivor cs best (m # ms) =
     pick_survivor cs (if survivor_key cs best \<le> survivor_key cs m then m else best) ms"

definition weight_of :: "Cluster list \<Rightarrow> nat \<Rightarrow> f32" where
  "weight_of cs m = f32_of_nat (length (episode_ids (cs ! m)))"

definition weighted_centroid :: "Cluster list \<Rightarrow> f32 list list \<Rightarrow> nat \<Rightarrow> nat list \<Rightarrow> f32 list" where
  "weighted_centroid cs vs d members =
     (case foldl (\<lambda>(acc, weight) m. (add_normalized_weighted acc (vs ! m) (weight_of cs m), f32_add weight (weight_of cs m)))
             (replicate d 0, 0) members of
        (acc, weight) \<Rightarrow> normalize_in_place (if f32_lt 0 weight then map (\<lambda>v. f32_div v weight) acc else acc))"

definition weighted_coherence :: "Cluster list \<Rightarrow> nat list \<Rightarrow> f32" where
  "weighted_coherence cs members =
     (case foldl (\<lambda>(acc, weight) m. (f32_add acc (f32_mul (coherence (cs ! m)) (weight_of cs m)), f32_add weight (weight_of cs m)))
             (0, 0) members of
        (acc, weight) \<Rightarrow> if f32_lt 0 weight then f32_div acc weight else f32_lit 1 0)"

definition merge_op :: "Cluster list \<Rightarrow> f32 list list \<Rightarrow> nat \<Rightarrow> nat list \<Rightarrow> MergeOp" where
  "merge_op cs vs d members =
     (let s = pick_survivor cs (hd members) (tl members) in
      \<lparr>survivor_id = cluster_id (cs ! s),
       loser_ids = map (\<lambda>m. cluster_id (cs ! m)) (filter (\<lambda>m. m \<noteq> s) members),
       merged_episode_ids = remdups_adj (sort (concat (map (\<lambda>m. episode_ids (cs ! m)) members))),
       merged_centroid = embedding_of d (weighted_centroid cs vs d members),
       merged_coherence = weighted_coherence cs members\<rparr>)"

definition mergeable :: "StewardConfig \<Rightarrow> Cluster list \<Rightarrow> nat list \<Rightarrow> bool" where
  "mergeable cfg cs members =
     (length members \<noteq> 1 \<and>
      sum_list (map (\<lambda>m. length (episode_ids (cs ! m))) members) \<le> max (cluster_max_size cfg) (cluster_min_size cfg))"

definition compute_merge_plan ::
  "(bytes \<Rightarrow> bool) \<Rightarrow> Cluster list \<Rightarrow> StewardConfig \<Rightarrow> MergeOp list result option" where
  "compute_merge_plan al cs cfg =
     (if length cs < 2 then Some (Inr [])
      else
        (case centroid (cs ! 0) of
           None \<Rightarrow> Some (Inl Steward)
         | Some e0 \<Rightarrow>
             (case bind_r (check_centroids (dim e0) cs) (\<lambda>_. views al (map (\<lambda>c. the (centroid c)) cs)) of
                Inl e \<Rightarrow> Some (Inl e)
              | Inr vs \<Rightarrow>
                  map_option (\<lambda>groups.
                    Inr (map (merge_op cs vs (dim e0)) (filter (mergeable cfg cs) (map snd (sort_key fst groups)))))
                    (similarity_groups
                       (\<lambda>a b. f32_le (cluster_cosine_threshold cfg) (cosine_similarity_f32 (vs ! a) (vs ! b))) (length cs)))))"

definition apply_merge_plan_in_place :: "Cluster list \<Rightarrow> MergeOp list \<Rightarrow> Cluster list" where
  "apply_merge_plan_in_place cs merges =
     (let losers = set (concat (map loser_ids merges));
          by_survivor = map_of (rev (map (\<lambda>m. (survivor_id m, m)) merges))
      in List.map_filter (\<lambda>c.
           if cluster_id c \<in> losers then None
           else (case by_survivor (cluster_id c) of
                   Some m \<Rightarrow> Some \<lparr>cluster_id = survivor_id m, episode_ids = merged_episode_ids m,
                                   centroid = Some (merged_centroid m), coherence = merged_coherence m\<rparr>
                 | None \<Rightarrow> Some c)) cs)"

definition absorbed_count :: "MergeOp list \<Rightarrow> nat" where
  "absorbed_count merges = sum_list (map (\<lambda>m. length (loser_ids m)) merges)"

text \<open>The clusters are changed in place, so the result carries them.\<close>

definition merge_clusters_by_centroid ::
  "(bytes \<Rightarrow> bool) \<Rightarrow> Cluster list \<Rightarrow> StewardConfig \<Rightarrow> (nat result \<times> Cluster list) option" where
  "merge_clusters_by_centroid al cs cfg =
     map_option (\<lambda>r. case r of
         Inl e \<Rightarrow> (Inl e, cs)
       | Inr merges \<Rightarrow>
           if merges = [] then (Inr 0, cs) else (Inr (absorbed_count merges), apply_merge_plan_in_place cs merges))
       (compute_merge_plan al cs cfg)"

section \<open>Absorbing\<close>

record ExistingClusterSummary =
  ex_cluster_id :: memory_id
  ex_centroid :: Embedding
  ex_coherence :: f32
  ex_episode_count :: nat

record AbsorbedCluster =
  ab_new_cluster_id :: memory_id
  ab_existing_cluster_id :: memory_id
  ab_merged_centroid :: Embedding
  ab_merged_coherence :: f32
  ab_episode_ids :: "memory_id list"

record working =
  w_id :: memory_id
  w_centroid :: "f32 list"
  w_coherence :: f32
  w_count :: nat

fun check_existing :: "nat \<Rightarrow> ExistingClusterSummary list \<Rightarrow> unit result" where
  "check_existing d [] = Inr ()"
| "check_existing d (s # ss) =
     (if dtype (ex_centroid s) \<noteq> F32 then Inl Steward
      else if dim (ex_centroid s) \<noteq> d then Inl Steward else check_existing d ss)"

definition cluster_cap :: "StewardConfig \<Rightarrow> nat" where
  "cluster_cap cfg = max (cluster_max_size cfg) (cluster_min_size cfg)"

text \<open>One round of the search: the best candidate so far with its similarity, and the candidate \<open>i\<close>.\<close>

definition best_step ::
  "StewardConfig \<Rightarrow> working list \<Rightarrow> nat \<Rightarrow> f32 list \<Rightarrow> nat option \<times> f32 \<Rightarrow> nat \<Rightarrow> nat option \<times> f32" where
  "best_step cfg ws n_len n_centroid best_so_far i =
     (case best_so_far of (best, best_sim) \<Rightarrow>
        if w_count (ws ! i) + n_len > cluster_cap cfg then (best, best_sim)
        else
          let sim = cosine_similarity_f32 n_centroid (w_centroid (ws ! i)) in
          if f32_le best_sim sim
          then
            let take_it = (case best of
                None \<Rightarrow> True
              | Some prev \<Rightarrow>
                  w_count (ws ! i) > w_count (ws ! prev) \<or>
                  (w_count (ws ! i) = w_count (ws ! prev) \<and> w_id (ws ! i) < w_id (ws ! prev)))
            in if take_it then (Some i, sim) else (best, best_sim)
          else (best, best_sim))"

definition best_existing :: "StewardConfig \<Rightarrow> working list \<Rightarrow> nat \<Rightarrow> f32 list \<Rightarrow> nat option" where
  "best_existing cfg ws n_len n_centroid =
     fst (foldl (best_step cfg ws n_len n_centroid) (None, cluster_cosine_threshold cfg) [0..<length ws])"

definition absorb_one :: "nat \<Rightarrow> working \<Rightarrow> Cluster \<Rightarrow> f32 list \<Rightarrow> working" where
  "absorb_one d w n n_centroid =
     (let n_w = f32_of_nat (length (episode_ids n)); e_w = f32_of_nat (w_count w); total_w = f32_add n_w e_w;
          zero = replicate d 0;
          acc = (if f32_lt 0 total_w
                 then map (\<lambda>v. f32_div v total_w)
                        (add_normalized_weighted (add_normalized_weighted zero (w_centroid w) e_w) n_centroid n_w)
                 else zero)
      in w\<lparr>w_centroid := normalize_in_place acc,
           w_coherence := f32_div (f32_add (f32_mul (w_coherence w) e_w) (f32_mul (coherence n) n_w))
                            (f32_max total_w (f32_lit 1 0)),
           w_count := w_count w + length (episode_ids n)\<rparr>)"

fun absorb_loop ::
  "(bytes \<Rightarrow> bool) \<Rightarrow> StewardConfig \<Rightarrow> nat \<Rightarrow> Cluster list \<Rightarrow> working list \<Rightarrow> AbsorbedCluster list result" where
  "absorb_loop al cfg d [] ws = Inr []"
| "absorb_loop al cfg d (n # ns) ws =
     (case Option.bind (centroid n) (as_f32_slice al) of
        None \<Rightarrow> Inl Steward
      | Some n_centroid \<Rightarrow>
          (case best_existing cfg ws (length (episode_ids n)) n_centroid of
             None \<Rightarrow> absorb_loop al cfg d ns ws
           | Some i \<Rightarrow>
               let w = absorb_one d (ws ! i) n n_centroid in
               bind_r (absorb_loop al cfg d ns (ws[i := w])) (\<lambda>rest.
               Inr (\<lparr>ab_new_cluster_id = cluster_id n, ab_existing_cluster_id = w_id w,
                     ab_merged_centroid = embedding_of d (w_centroid w), ab_merged_coherence = w_coherence w,
                     ab_episode_ids = episode_ids n\<rparr> # rest))))"

definition working_of :: "ExistingClusterSummary list \<Rightarrow> f32 list list \<Rightarrow> working list" where
  "working_of existing vs =
     map (\<lambda>(s, v). \<lparr>w_id = ex_cluster_id s, w_centroid = v, w_coherence = ex_coherence s, w_count = ex_episode_count s\<rparr>)
       (zip existing vs)"

definition absorb_into_existing ::
  "(bytes \<Rightarrow> bool) \<Rightarrow> Cluster list \<Rightarrow> ExistingClusterSummary list \<Rightarrow> StewardConfig \<Rightarrow> AbsorbedCluster list result" where
  "absorb_into_existing al new existing cfg =
     (case (new, existing) of
        ([], _) \<Rightarrow> Inr []
      | (_, []) \<Rightarrow> Inr []
      | (n0 # _, e0 # _) \<Rightarrow>
          let d = dim (ex_centroid e0) in
          bind_r (check_existing d existing) (\<lambda>_.
          bind_r (case centroid n0 of None \<Rightarrow> Inl Steward | Some c \<Rightarrow> if dim c \<noteq> d then Inl Steward else Inr ()) (\<lambda>_.
          bind_r (views al (map ex_centroid existing)) (\<lambda>vs.
          absorb_loop al cfg d new (working_of existing vs)))))"

definition was_absorbed :: "AbsorbedCluster list \<Rightarrow> memory_id \<Rightarrow> bool" where
  "was_absorbed plan new_id = (\<exists>a \<in> set plan. ab_new_cluster_id a = new_id)"

definition modified_existing_ids :: "AbsorbedCluster list \<Rightarrow> memory_id list" where
  "modified_existing_ids plan = remdups_adj (sort (map ab_existing_cluster_id plan))"

end
