(* ===== verification/DerivedDb.thy ===== *)
theory DerivedDb
  imports Db ClusterMerge
begin

text \<open>
  The derived tables of the database that the consolidation writes and the statements it runs on
  them (\<open>crates/solo-storage/src/migrations/0001_initial.sql\<close>, \<open>0002_triples_cluster_id.sql\<close>,
  \<open>0007_triples_source.sql\<close>): the clusters, the links from clusters to episodes, and of the
  abstractions and the triples what ties them to their cluster and to the episode they come from. Foreign keys are on: an insert without its parents fails, and deleting a cluster
  deletes what refers to it. The writer always fills or leaves out the three columns of a
  centroid together, so they are one option.
\<close>

section \<open>Rows\<close>

record cluster_row =
  cl_id :: memory_id
  cl_centroid :: "Embedding option"
  cl_coherence :: f32
  cl_created_at_ms :: int

record abstraction_row =
  sa_id :: memory_id
  sa_cluster_id :: memory_id
  sa_content :: string
  sa_created_at_ms :: int

record triple_row =
  tr_id :: memory_id
  tr_cluster_id :: "memory_id option"
  tr_source_episode_id :: "nat option"

record derived =
  clusters :: "cluster_row list"
  links :: "(memory_id \<times> memory_id) list"
  abstractions :: "abstraction_row list"
  triples :: "triple_row list"

definition members_of :: "memory_id \<Rightarrow> derived \<Rightarrow> memory_id list" where
  "members_of cid t = map snd (filter (\<lambda>l. fst l = cid) (links t))"

section \<open>Statements\<close>

text \<open>A \<open>REAL\<close> column stores a NaN as \<open>NULL\<close>, which \<open>NOT NULL\<close> refuses.\<close>

definition insert_cluster :: "cluster_row \<Rightarrow> derived \<Rightarrow> derived result" where
  "insert_cluster row t =
     (if f32_is_nan (cl_coherence row) \<or> cl_id row \<in> cl_id ` set (clusters t) then Inl Storage
      else Inr (t\<lparr>clusters := clusters t @ [row]\<rparr>))"

definition insert_link :: "db \<Rightarrow> memory_id \<Rightarrow> memory_id \<Rightarrow> derived \<Rightarrow> derived result" where
  "insert_link d cid mid t =
     (if (cid, mid) \<in> set (links t) \<or> cid \<notin> cl_id ` set (clusters t) \<or> mid \<notin> er_memory_id ` set (episodes d)
      then Inl Storage
      else Inr (t\<lparr>links := links t @ [(cid, mid)]\<rparr>))"

text \<open>\<open>UPDATE clusters SET centroid, coherence\<close>.\<close>

definition refresh_cluster :: "memory_id \<Rightarrow> Embedding \<Rightarrow> f32 \<Rightarrow> derived \<Rightarrow> derived result" where
  "refresh_cluster cid emb coh t =
     (if f32_is_nan coh \<and> cid \<in> cl_id ` set (clusters t) then Inl Storage
      else Inr (t\<lparr>clusters := map (\<lambda>r. if cl_id r = cid
             then r\<lparr>cl_centroid := Some \<lparr>dtype = F32, dim = dim emb, data = data emb\<rparr>, cl_coherence := coh\<rparr> else r)
           (clusters t)\<rparr>))"

definition delete_abstractions :: "memory_id \<Rightarrow> derived \<Rightarrow> derived" where
  "delete_abstractions cid t = t\<lparr>abstractions := filter (\<lambda>a. sa_cluster_id a \<noteq> cid) (abstractions t)\<rparr>"

definition delete_triples :: "memory_id \<Rightarrow> derived \<Rightarrow> derived" where
  "delete_triples cid t = t\<lparr>triples := filter (\<lambda>r. tr_cluster_id r \<noteq> Some cid) (triples t)\<rparr>"

text \<open>\<open>UPDATE cluster_episodes SET cluster_id = survivor WHERE cluster_id = loser\<close>.\<close>

definition move_links :: "memory_id \<Rightarrow> memory_id \<Rightarrow> derived \<Rightarrow> derived result" where
  "move_links survivor loser t =
     (if survivor \<noteq> loser \<and> (\<exists>mid \<in> set (members_of loser t). mid \<in> set (members_of survivor t)) then Inl Storage
      else if members_of loser t \<noteq> [] \<and> survivor \<notin> cl_id ` set (clusters t) then Inl Storage
      else Inr (t\<lparr>links := map (\<lambda>l. if fst l = loser then (survivor, snd l) else l) (links t)\<rparr>))"

text \<open>\<open>DELETE FROM clusters\<close> with its cascades.\<close>

definition delete_cluster :: "memory_id \<Rightarrow> derived \<Rightarrow> derived" where
  "delete_cluster cid t =
     (if cid \<in> cl_id ` set (clusters t)
      then delete_triples cid (delete_abstractions cid
             (t\<lparr>clusters := filter (\<lambda>r. cl_id r \<noteq> cid) (clusters t), links := filter (\<lambda>l. fst l \<noteq> cid) (links t)\<rparr>))
      else t)"

text \<open>
  The constraints of these tables and, beyond them, that a memory is in one cluster at most, which
  the schema does not enforce.
\<close>

definition derived_ok :: "db \<Rightarrow> derived \<Rightarrow> bool" where
  "derived_ok d t =
     (distinct (map cl_id (clusters t)) \<and> distinct (map snd (links t)) \<and>
      fst ` set (links t) \<subseteq> cl_id ` set (clusters t) \<and>
      snd ` set (links t) \<subseteq> er_memory_id ` set (episodes d) \<and>
      sa_cluster_id ` set (abstractions t) \<subseteq> cl_id ` set (clusters t) \<and>
      (\<forall>r \<in> set (triples t). \<forall>cid. tr_cluster_id r = Some cid \<longrightarrow> cid \<in> cl_id ` set (clusters t)))"

end
