(* ===== verification/Consolidate.thy ===== *)
theory Consolidate
  imports DerivedDb WriterBase
begin

text \<open>
  The consolidation of the writer actor (\<open>crates/solo-storage/src/writer.rs\<close>, \<open>handle_consolidate\<close>): it
  selects the memories that are in no cluster, clusters them with the steward's algorithm, absorbs
  new clusters into those of the database, writes the result in one transaction and, where a
  language model is wired, merges the clusters of the database in a second one. \<open>None\<close> is a
  panic of the clustering. What the batch of the daemon picks up afterwards
  (\<open>crates/solo-storage/src/triples_batch.rs\<close>) is at the end.
\<close>

section \<open>Scope, report, environment\<close>

record ConsolidationScope =
  window_days :: "int option"
  force_merge :: bool

record ConsolidationReport =
  cn_episodes_seen :: nat
  cn_clusters_built :: nat
  cn_episodes_clustered :: nat
  cn_clusters_merged :: nat
  cn_clusters_absorbed :: nat
  cn_existing_merged :: nat

text \<open>
  \<open>steward_config\<close> is the configuration of the active steward, \<open>steward_vars\<close> the process environment,
  \<open>refuse_stub\<close> tells that the embedder is the stub and the variable that refuses it is set,
  \<open>embedder_dims\<close> is the table \<open>embedders\<close>, \<open>hash_groups\<close> and \<open>fresh_ids\<close> are the order of a hash map and
  the ids that are drawn.
\<close>

record consolidation_env =
  steward_config :: "StewardConfig option"
  steward_vars :: steward_env
  refuse_stub :: bool
  embedder_dims :: "nat \<Rightarrow> nat option"
  hash_groups :: Clusters.hash_order
  fresh_ids :: "nat \<Rightarrow> memory_id"

section \<open>Candidates\<close>

text \<open>\<open>checked_mul\<close>, then a subtraction that wraps around in a release build.\<close>

definition wrap_i64 :: "int \<Rightarrow> int" where
  "wrap_i64 x = (x + 2 ^ 63) mod 2 ^ 64 - 2 ^ 63"

definition cutoff_ms :: "env \<Rightarrow> ConsolidationScope \<Rightarrow> int option" where
  "cutoff_ms e scope =
     (case window_days scope of
        None \<Rightarrow> None
      | Some days \<Rightarrow>
          if days * MS_PER_DAY < i64_min \<or> i64_max < days * MS_PER_DAY then None
          else Some (wrap_i64 (now_ms e - days * MS_PER_DAY)))"

definition since :: "int option \<Rightarrow> int \<Rightarrow> bool" where
  "since cutoff ts = (case cutoff of None \<Rightarrow> True | Some c \<Rightarrow> c \<le> ts)"

definition candidate_rows :: "db \<Rightarrow> derived \<Rightarrow> nat \<Rightarrow> int option \<Rightarrow> (episode_row \<times> embedding_row) list" where
  "candidate_rows d t current_id cutoff =
     concat (map (\<lambda>r. map (Pair r)
         (filter (\<lambda>m. em_memory_id m = er_memory_id r \<and> em_embedder_id m = current_id) (embeddings d)))
       (sort_key (\<lambda>r. (er_ts_ms r, er_rowid r))
         (filter (\<lambda>r. er_status r = Active \<and> er_tier r = Hot \<and> since cutoff (er_ts_ms r) \<and>
            er_memory_id r \<notin> snd ` set (links t)) (episodes d))))"

definition confidence_ok :: "f32 \<Rightarrow> bool" where
  "confidence_ok v = (f32_le (f32_lit 0 0) v \<and> f32_le v (f32_lit 1 0))"

definition candidate_of :: "episode_row \<times> embedding_row \<Rightarrow> Episode \<times> Embedding" where
  "candidate_of x =
     (case x of (r, m) \<Rightarrow>
        (\<lparr>memory_id = er_memory_id r, ts_ms = er_ts_ms r, source_type = er_source_type r, source_id = None,
          content = er_content r, encoding_context = ''{}'', provenance = None, confidence = er_confidence r,
          strength = er_strength r, salience = er_salience r, tier = Hot\<rparr>,
         \<lparr>dtype = em_dtype m, dim = em_dim m, data = em_vector m\<rparr>))"

definition consolidation_candidates ::
  "env \<Rightarrow> db \<Rightarrow> derived \<Rightarrow> nat \<Rightarrow> int option \<Rightarrow> (Episode \<times> Embedding) list result" where
  "consolidation_candidates e d t current_id cutoff =
     bind_r (stmt e SCandidates (Inr (candidate_rows d t current_id cutoff))) (\<lambda>rows.
     if list_all (\<lambda>(r, m). confidence_ok (er_confidence r)) rows then Inr (map candidate_of rows) else Inl Storage)"

section \<open>The clusters of the database\<close>

definition comparable :: "int option \<Rightarrow> nat \<Rightarrow> cluster_row \<Rightarrow> bool" where
  "comparable cutoff expected_dim r =
     (case cl_centroid r of
        None \<Rightarrow> False
      | Some c \<Rightarrow> dtype c = F32 \<and> dim c = expected_dim \<and> since cutoff (cl_created_at_ms r))"

definition fetch_existing_cluster_summaries :: "derived \<Rightarrow> int option \<Rightarrow> nat \<Rightarrow> ExistingClusterSummary list" where
  "fetch_existing_cluster_summaries t cutoff expected_dim =
     map (\<lambda>r. \<lparr>ex_cluster_id = cl_id r, ex_centroid = the (cl_centroid r), ex_coherence = cl_coherence r,
               ex_episode_count = length (members_of (cl_id r) t)\<rparr>)
       (filter (\<lambda>r. comparable cutoff expected_dim r \<and> members_of (cl_id r) t \<noteq> [])
         (sort_key cl_id (clusters t)))"

definition fetch_existing_clusters_full :: "derived \<Rightarrow> int option \<Rightarrow> nat \<Rightarrow> Cluster list" where
  "fetch_existing_clusters_full t cutoff expected_dim =
     map (\<lambda>r. \<lparr>cluster_id = cl_id r, episode_ids = sort (members_of (cl_id r) t), centroid = cl_centroid r,
               coherence = cl_coherence r\<rparr>)
       (filter (\<lambda>r. comparable cutoff expected_dim r \<and> members_of (cl_id r) t \<noteq> [])
         (sort_key cl_id (clusters t)))"

section \<open>The first transaction\<close>

fun insert_links ::
  "env \<Rightarrow> (nat \<Rightarrow> sql_step) \<Rightarrow> db \<Rightarrow> memory_id \<Rightarrow> nat \<Rightarrow> memory_id list \<Rightarrow> derived \<Rightarrow> derived result" where
  "insert_links e step d cid j [] t = Inr t"
| "insert_links e step d cid j (mid # mids) t =
     bind_r (stmt e (step j) (insert_link d cid mid t)) (insert_links e step d cid (Suc j) mids)"

text \<open>\<open>collect\<close> into a \<open>HashMap\<close>: the last entry of a key stays.\<close>

definition absorbed_by_new :: "AbsorbedCluster list \<Rightarrow> memory_id \<Rightarrow> AbsorbedCluster option" where
  "absorbed_by_new plan = map_of (rev (map (\<lambda>a. (ab_new_cluster_id a, a)) plan))"

definition last_per_existing :: "AbsorbedCluster list \<Rightarrow> memory_id \<Rightarrow> AbsorbedCluster option" where
  "last_per_existing plan = map_of (rev (map (\<lambda>a. (ab_existing_cluster_id a, a)) plan))"

definition new_cluster_row :: "env \<Rightarrow> Cluster \<Rightarrow> cluster_row" where
  "new_cluster_row e c =
     \<lparr>cl_id = cluster_id c, cl_centroid = centroid c, cl_coherence = coherence c, cl_created_at_ms = now_ms e\<rparr>"

fun persist_clusters ::
  "env \<Rightarrow> db \<Rightarrow> AbsorbedCluster list \<Rightarrow> nat \<Rightarrow> Cluster list \<Rightarrow> derived \<Rightarrow> derived result" where
  "persist_clusters e d plan i [] t = Inr t"
| "persist_clusters e d plan i (c # cs) t =
     bind_r (case absorbed_by_new plan (cluster_id c) of
               Some a \<Rightarrow> insert_links e (SLinkAbsorbed i) d (ab_existing_cluster_id a) 0 (episode_ids c) t
             | None \<Rightarrow>
                 bind_r (stmt e (SInsertCluster i) (insert_cluster (new_cluster_row e c) t)) (\<lambda>t1.
                 insert_links e (SLinkCluster i) d (cluster_id c) 0 (episode_ids c) t1))
       (persist_clusters e d plan (Suc i) cs)"

fun refresh_existing :: "env \<Rightarrow> AbsorbedCluster list \<Rightarrow> memory_id list \<Rightarrow> derived \<Rightarrow> derived result" where
  "refresh_existing e plan [] t = Inr t"
| "refresh_existing e plan (x # xs) t =
     (case last_per_existing plan x of
        None \<Rightarrow> refresh_existing e plan xs t
      | Some a \<Rightarrow>
          bind_r (stmt e (SRefreshCluster x) (refresh_cluster x (ab_merged_centroid a) (ab_merged_coherence a) t)) (\<lambda>t1.
          bind_r (stmt e (SDropAbstraction x) (Inr (delete_abstractions x t1))) (\<lambda>t2.
          bind_r (stmt e (SDropTriples x) (Inr (delete_triples x t2))) (refresh_existing e plan xs))))"

definition consolidate_tx ::
  "env \<Rightarrow> db \<Rightarrow> AbsorbedCluster list \<Rightarrow> Cluster list \<Rightarrow> derived \<Rightarrow> derived result" where
  "consolidate_tx e d plan cs t =
     bind_r (stmt e SBegin (Inr t)) (\<lambda>t0.
     bind_r (persist_clusters e d plan 0 cs t0) (\<lambda>t1.
     bind_r (refresh_existing e plan (sort (remdups (map ab_existing_cluster_id plan))) t1) (\<lambda>t2.
     stmt e SCommit (Inr t2))))"

section \<open>The second transaction\<close>

fun move_losers :: "env \<Rightarrow> nat \<Rightarrow> nat \<Rightarrow> memory_id \<Rightarrow> memory_id list \<Rightarrow> derived \<Rightarrow> derived result" where
  "move_losers e i j s [] t = Inr t"
| "move_losers e i j s (l # ls) t =
     bind_r (stmt e (SMoveLinks i j) (move_links s l t)) (move_losers e i (Suc j) s ls)"

fun delete_losers :: "env \<Rightarrow> nat \<Rightarrow> nat \<Rightarrow> memory_id list \<Rightarrow> derived \<Rightarrow> derived result" where
  "delete_losers e i j [] t = Inr t"
| "delete_losers e i j (l # ls) t =
     bind_r (stmt e (SDeleteLoser i j) (Inr (delete_cluster l t))) (delete_losers e i (Suc j) ls)"

fun apply_merges :: "env \<Rightarrow> nat \<Rightarrow> MergeOp list \<Rightarrow> derived \<Rightarrow> derived result" where
  "apply_merges e i [] t = Inr t"
| "apply_merges e i (m # ms) t =
     bind_r (move_losers e i 0 (survivor_id m) (loser_ids m) t) (\<lambda>t1.
     bind_r (stmt e (SRefreshSurvivor i) (refresh_cluster (survivor_id m) (merged_centroid m) (merged_coherence m) t1)) (\<lambda>t2.
     bind_r (delete_losers e i 0 (loser_ids m) t2) (apply_merges e (Suc i) ms)))"

definition merge_tx :: "env \<Rightarrow> MergeOp list \<Rightarrow> derived \<Rightarrow> derived result" where
  "merge_tx e ms t =
     bind_r (stmt e SMergeBegin (Inr t)) (\<lambda>t0.
     bind_r (apply_merges e 0 ms t0) (\<lambda>t1. stmt e SMergeCommit (Inr t1)))"

definition existing_merge_plan ::
  "env \<Rightarrow> consolidation_env \<Rightarrow> StewardConfig \<Rightarrow> int option \<Rightarrow> nat \<Rightarrow> derived \<Rightarrow> MergeOp list result option" where
  "existing_merge_plan e ce cfg cutoff expected_dim t =
     (if steward_config ce = None then Some (Inr [])
      else if fails e SFullClusters then Some (Inl Storage)
      else
        let full = fetch_existing_clusters_full t cutoff expected_dim in
        if length full < 2 then Some (Inr []) else compute_merge_plan (aligned e) full cfg)"

definition merge_phase ::
  "env \<Rightarrow> consolidation_env \<Rightarrow> StewardConfig \<Rightarrow> int option \<Rightarrow> nat \<Rightarrow> ConsolidationReport \<Rightarrow> derived
     \<Rightarrow> (ConsolidationReport result \<times> derived) option" where
  "merge_phase e ce cfg cutoff expected_dim rep t =
     map_option (\<lambda>plan. case plan of
         Inl er \<Rightarrow> (Inl er, t)
       | Inr ms \<Rightarrow>
           let rep' = rep\<lparr>cn_existing_merged := absorbed_count ms\<rparr> in
           if ms = [] then (Inr rep', t)
           else (case merge_tx e ms t of Inl er \<Rightarrow> (Inl er, t) | Inr t' \<Rightarrow> (Inr rep', t')))
       (existing_merge_plan e ce cfg cutoff expected_dim t)"

section \<open>The command\<close>

definition absorb_plan ::
  "env \<Rightarrow> StewardConfig \<Rightarrow> int option \<Rightarrow> nat \<Rightarrow> Cluster list \<Rightarrow> derived \<Rightarrow> AbsorbedCluster list result" where
  "absorb_plan e cfg cutoff expected_dim cs t =
     bind_r (stmt e SSummaries (Inr (fetch_existing_cluster_summaries t cutoff expected_dim))) (\<lambda>summaries.
     if summaries = [] then Inr [] else absorb_into_existing (aligned e) cs summaries cfg)"

text \<open>The dimension of the first candidate, or that of the current model without candidates.\<close>

definition expected_dimension :: "env \<Rightarrow> consolidation_env \<Rightarrow> nat \<Rightarrow> (Episode \<times> Embedding) list \<Rightarrow> nat result" where
  "expected_dimension e ce current_id cands =
     (case cands of
        (_, emb) # _ \<Rightarrow> Inr (dim emb)
      | [] \<Rightarrow> stmt e SEmbedderDim (ok_or (embedder_dims ce current_id) Storage))"

text \<open>From the clusters of this run on: absorb, write, merge.\<close>

definition persist_phase ::
  "env \<Rightarrow> consolidation_env \<Rightarrow> StewardConfig \<Rightarrow> int option \<Rightarrow> nat \<Rightarrow> db \<Rightarrow> (Episode \<times> Embedding) list
     \<Rightarrow> nat \<Rightarrow> Cluster list \<Rightarrow> derived \<Rightarrow> (ConsolidationReport result \<times> derived) option" where
  "persist_phase e ce cfg cutoff current_id d cands merged cs t =
     (case bind_r (expected_dimension e ce current_id cands) (\<lambda>n.
           bind_r (absorb_plan e cfg cutoff n cs t) (\<lambda>plan.
           bind_r (consolidate_tx e d plan cs t) (\<lambda>t1. Inr (n, plan, t1)))) of
        Inl er \<Rightarrow> Some (Inl er, t)
      | Inr (n, plan, t1) \<Rightarrow>
          merge_phase e ce cfg cutoff n
            \<lparr>cn_episodes_seen = length cands, cn_clusters_built = length cs - length plan,
             cn_episodes_clustered = sum_list (map (\<lambda>c. length (episode_ids c)) cs), cn_clusters_merged = merged,
             cn_clusters_absorbed = length plan, cn_existing_merged = 0\<rparr> t1)"

definition handle_consolidate_impl ::
  "env \<Rightarrow> consolidation_env \<Rightarrow> ConsolidationScope \<Rightarrow> nat option \<Rightarrow> db \<Rightarrow> derived
     \<Rightarrow> (ConsolidationReport result \<times> derived) option" where
  "handle_consolidate_impl e ce scope eid d t =
     (let cutoff = cutoff_ms e scope in
      case bind_r (ok_or eid Other) (\<lambda>current_id.
           bind_r (consolidation_candidates e d t current_id cutoff) (\<lambda>cands.
           Inr (current_id, cands))) of
        Inl er \<Rightarrow> Some (Inl er, t)
      | Inr (current_id, cands) \<Rightarrow>
          if cands = [] \<and> \<not> force_merge scope
          then Some (Inr \<lparr>cn_episodes_seen = 0, cn_clusters_built = 0, cn_episodes_clustered = 0,
                          cn_clusters_merged = 0, cn_clusters_absorbed = 0, cn_existing_merged = 0\<rparr>, t)
          else
            (case (case steward_config ce of Some c \<Rightarrow> Inr c | None \<Rightarrow> from_env (steward_vars ce)) of
               Inl er \<Rightarrow> Some (Inl er, t)
             | Inr cfg \<Rightarrow>
                 Option.bind (cluster_episodes (aligned e) (hash_groups ce) (fresh_ids ce) cands cfg) (\<lambda>r.
                 case r of
                   Inl er \<Rightarrow> Some (Inl er, t)
                 | Inr cs0 \<Rightarrow>
                     Option.bind (merge_clusters_by_centroid (aligned e) cs0 cfg) (\<lambda>(r1, cs).
                     case r1 of
                       Inl er \<Rightarrow> Some (Inl er, t)
                     | Inr merged \<Rightarrow> persist_phase e ce cfg cutoff current_id d cands merged cs t))))"

definition handle_consolidate ::
  "env \<Rightarrow> consolidation_env \<Rightarrow> ConsolidationScope \<Rightarrow> string option \<Rightarrow> 'i writer \<Rightarrow> derived
     \<Rightarrow> (ConsolidationReport result \<times> 'i writer \<times> derived) option" where
  "handle_consolidate e ce scope p w t =
     (if embedder w \<noteq> None \<and> refuse_stub ce then Some (Inl InvalidInput, w, t)
      else
        map_option (\<lambda>(r, t').
          (r, (case r of
                 Inr rep \<Rightarrow> emit_audit_best_effort e 0 MemoryConsolidate None AuditOk p
                   (Some (DConsolidated (cn_episodes_seen rep) (cn_clusters_built rep) 0 0 0)) w
               | Inl er \<Rightarrow> emit_audit_best_effort e 0 MemoryConsolidate None AuditError p (Some (DError er)) w), t'))
          (handle_consolidate_impl e ce scope (embedder_id w) (wdb w) t))"

definition dispatch_consolidate ::
  "env \<Rightarrow> consolidation_env \<Rightarrow> ConsolidationScope \<Rightarrow> string option \<Rightarrow> 'i writer \<Rightarrow> derived
     \<Rightarrow> (ConsolidationReport result \<times> 'i writer \<times> derived) option" where
  "dispatch_consolidate e ce scope p w t =
     map_option (\<lambda>(r, w1, t').
       (r, (case r of Inr _ \<Rightarrow> emit_invalidate e MemoryConsolidate ''cluster'' w1 | Inl _ \<Rightarrow> w1), t'))
       (handle_consolidate e ce scope p w t)"

section \<open>What the batch picks up\<close>

text \<open>\<open>LOW_SIGNAL_ABSTRACTION_PHRASES\<close> of \<open>crates/solo-steward/src/abstraction.rs\<close>.\<close>

definition low_signal_phrases :: "string list" where
  "low_signal_phrases =
     [''assistant was unable to provide assistance'', ''unable to provide assistance'', ''cannot provide assistance'',
      ''can'' @ [CHR 0x27] @ ''t provide assistance'', ''could not provide assistance'', ''no assistance was provided'']"

text \<open>SQLite's \<open>LOWER\<close> folds ASCII letters only.\<close>

definition is_low_signal_abstraction :: "string \<Rightarrow> bool" where
  "is_low_signal_abstraction s = (\<exists>p \<in> set low_signal_phrases. contains_sub p (to_ascii_lowercase s))"

definition needs_abstraction :: "derived \<Rightarrow> cluster_row \<Rightarrow> bool" where
  "needs_abstraction t r =
     (cl_id r \<notin> sa_cluster_id ` set (abstractions t) \<or>
      (\<exists>a \<in> set (abstractions t). sa_cluster_id a = cl_id r \<and> is_low_signal_abstraction (sa_content a)))"

definition active_members :: "db \<Rightarrow> derived \<Rightarrow> memory_id \<Rightarrow> episode_row list" where
  "active_members d t cid =
     sort_key er_ts_ms (filter (\<lambda>r. er_status r = Active \<and> er_memory_id r \<in> set (members_of cid t)) (episodes d))"

text \<open>
  \<open>fetch_clusters_without_abstractions\<close>: the first \<open>limit\<close> clusters by rowid, which is their
  order in the table, with their active episodes; of those, clusters without any are skipped.
\<close>

definition fetch_clusters_without_abstractions :: "db \<Rightarrow> derived \<Rightarrow> nat \<Rightarrow> (cluster_row \<times> episode_row list) list" where
  "fetch_clusters_without_abstractions d t limit =
     filter (\<lambda>(r, eps). eps \<noteq> [])
       (map (\<lambda>r. (r, active_members d t (cl_id r))) (take limit (filter (needs_abstraction t) (clusters t))))"

definition count_clusters_without_abstractions :: "derived \<Rightarrow> nat" where
  "count_clusters_without_abstractions t = length (filter (needs_abstraction t) (clusters t))"

end
