(* ===== verification/ClusterFacts.thy ===== *)
theory ClusterFacts
  imports Clusters "HOL-Library.Multiset"
begin

text \<open>
  The groups of the union-find are the connected components of the similarity graph.
\<close>

section \<open>Connection\<close>

definition connected :: "(nat \<times> nat) set \<Rightarrow> (nat \<times> nat) set" where
  "connected E = (E \<union> E\<inverse>)\<^sup>*"

lemma connected_refl [simp]: "(x, x) \<in> connected E"
  by (simp add: connected_def)

lemma connected_sym: "(x, y) \<in> connected E \<Longrightarrow> (y, x) \<in> connected E"
  unfolding connected_def by (metis sym_Un_converse sym_rtrancl symD)

lemma connected_trans: "(x, y) \<in> connected E \<Longrightarrow> (y, z) \<in> connected E \<Longrightarrow> (x, z) \<in> connected E"
  unfolding connected_def by (rule rtrancl_trans)

lemma connected_mono: "E \<subseteq> F \<Longrightarrow> connected E \<subseteq> connected F"
  unfolding connected_def by (rule rtrancl_mono) blast

lemma connected_edge: "(x, y) \<in> E \<Longrightarrow> (x, y) \<in> connected E"
  by (auto simp: connected_def)

text \<open>One more edge connects the classes of its ends.\<close>

lemma connected_insert:
  "(x, y) \<in> connected (insert (a, b) E) \<longleftrightarrow>
     (x, y) \<in> connected E \<or> (x, a) \<in> connected E \<and> (b, y) \<in> connected E \<or> (x, b) \<in> connected E \<and> (a, y) \<in> connected E"
    (is "_ \<longleftrightarrow> ?P y")
proof
  assume "(x, y) \<in> connected (insert (a, b) E)"
  then show "?P y"
    unfolding connected_def [of "insert (a, b) E"]
  proof (induction rule: rtrancl_induct)
    case (step y z)
    then consider "(y, z) \<in> connected E" | "y = a" "z = b" | "y = b" "z = a"
      using connected_edge [of _ _ E] connected_sym [of _ _ E] by auto
    then show ?case
    proof cases
      case 1
      then show ?thesis using step.IH by (meson connected_trans)
    next
      case 2
      then show ?thesis using step.IH by (meson connected_refl connected_sym connected_trans)
    next
      case 3
      then show ?thesis using step.IH by (meson connected_refl connected_sym connected_trans)
    qed
  qed simp
next
  have sub: "connected E \<subseteq> connected (insert (a, b) E)" by (rule connected_mono) blast
  have "(a, b) \<in> connected (insert (a, b) E)" by (rule connected_edge) simp
  then show "?P y \<Longrightarrow> (x, y) \<in> connected (insert (a, b) E)"
    using sub by (meson connected_sym connected_trans subsetD)
qed

lemma connected_outside: "E \<subseteq> A \<times> A \<Longrightarrow> x \<notin> A \<Longrightarrow> (x, y) \<in> connected E \<longleftrightarrow> y = x"
proof
  assume E: "E \<subseteq> A \<times> A" "x \<notin> A" and c: "(x, y) \<in> connected E"
  from c show "y = x" unfolding connected_def by (induction rule: rtrancl_induct) (use E in auto)
qed simp

section \<open>Linking\<close>

definition represents :: "UnionFind \<Rightarrow> (nat \<times> nat) set \<Rightarrow> bool" where
  "represents u E = (\<forall>x < length (parent u). \<forall>y < length (parent u).
     root_of (parent u) x = root_of (parent u) y \<longleftrightarrow> (x, y) \<in> connected E)"

lemma link_similar_ok:
  assumes "uf_ok u" "represents u E" "\<And>a b. (a, b) \<in> set ps \<Longrightarrow> a < length (parent u) \<and> b < length (parent u)"
  shows "\<exists>u'. link_similar sim ps u = Some u' \<and> uf_ok u' \<and> length (parent u') = length (parent u) \<and>
    represents u' (E \<union> {(a, b). (a, b) \<in> set ps \<and> sim a b})"
  using assms
proof (induction sim ps u arbitrary: E rule: link_similar.induct)
  case (2 sim a b ps u)
  have ab: "a < length (parent u)" "b < length (parent u)" using "2.prems"(3) [of a b] by auto
  show ?case
  proof (cases "sim a b")
    case True
    obtain u1 where u1: "uf_union u a b = Some u1" "uf_ok u1" "length (parent u1) = length (parent u)"
      "\<And>x y. x < length (parent u) \<Longrightarrow> y < length (parent u) \<Longrightarrow>
         root_of (parent u1) x = root_of (parent u1) y \<longleftrightarrow>
           root_of (parent u) x = root_of (parent u) y \<or>
           root_of (parent u) x = root_of (parent u) a \<and> root_of (parent u) y = root_of (parent u) b \<or>
           root_of (parent u) x = root_of (parent u) b \<and> root_of (parent u) y = root_of (parent u) a"
      by (rule uf_union_ok [OF "2.prems"(1) ab]) blast
    have r1: "represents u1 (insert (a, b) E)"
      unfolding represents_def connected_insert u1(3)
    proof (intro allI impI)
      fix x y assume xy: "x < length (parent u)" "y < length (parent u)"
      have R: "root_of (parent u) v = root_of (parent u) w \<longleftrightarrow> (v, w) \<in> connected E"
        if "v < length (parent u)" "w < length (parent u)" for v w
        using "2.prems"(2) that by (simp add: represents_def)
      show "root_of (parent u1) x = root_of (parent u1) y \<longleftrightarrow>
          (x, y) \<in> connected E \<or> (x, a) \<in> connected E \<and> (b, y) \<in> connected E \<or> (x, b) \<in> connected E \<and> (a, y) \<in> connected E"
        using u1(4) [OF xy] R [OF xy] R [OF xy(1) ab(1)] R [OF xy(1) ab(2)] R [OF ab(1) xy(2)] R [OF ab(2) xy(2)] by metis
    qed
    have b1: "c < length (parent u1) \<and> d < length (parent u1)" if "(c, d) \<in> set ps" for c d
      using "2.prems"(3) [of c d] u1(3) that by simp
    obtain u' where "link_similar sim ps u1 = Some u'" "uf_ok u'" "length (parent u') = length (parent u1)"
      "represents u' (insert (a, b) E \<union> {(a, b). (a, b) \<in> set ps \<and> sim a b})"
      using "2.IH"(1) [OF True u1(1,2) r1 b1] by blast
    moreover have "insert (a, b) E \<union> {(a, b). (a, b) \<in> set ps \<and> sim a b} = E \<union> {(x, y). (x, y) \<in> set ((a, b) # ps) \<and> sim x y}"
      using True by auto
    ultimately show ?thesis using True u1 by auto
  next
    case False
    have "{(x, y). (x, y) \<in> set ((a, b) # ps) \<and> sim x y} = {(a, b). (a, b) \<in> set ps \<and> sim a b}"
      using False by auto
    moreover have b0: "c < length (parent u) \<and> d < length (parent u)" if "(c, d) \<in> set ps" for c d
      using "2.prems"(3) [of c d] that by simp
    ultimately show ?thesis using "2.IH"(2) [OF False "2.prems"(1,2) b0] False by (simp only: link_similar.simps if_False)
  qed
qed simp

lemma uf_new_ok:
  assumes "n < 2 ^ 64"
  shows "uf_ok (uf_new n)" "represents (uf_new n) {}" "length (parent (uf_new n)) = n"
proof -
  have r: "root_of [0..<n] x = x" if "x < n" for x by (rule root_of_fixed) (simp add: that)
  have "uf_class [0..<n] x = {x}" if "x < n" for x using that r by (auto simp: uf_class_def)
  then show "uf_ok (uf_new n)" using assms by (simp add: uf_ok_def uf_new_def ranked_def sized_def)
  show "represents (uf_new n) {}" using r by (simp add: represents_def uf_new_def connected_def)
qed (simp add: uf_new_def)

section \<open>Groups\<close>

lemma push_group_set:
  "distinct (map fst gs) \<Longrightarrow>
   set (push_group r x gs) = {(s, ps) \<in> set gs. s \<noteq> r} \<union> {(r, (case map_of gs r of None \<Rightarrow> [] | Some ps \<Rightarrow> ps) @ [x])}"
  by (induction r x gs rule: push_group.induct) force+

lemma push_group_keys:
  "map fst (push_group r x gs) = (if r \<in> set (map fst gs) then map fst gs else map fst gs @ [r])"
  by (induction r x gs rule: push_group.induct) auto

lemma foldl_push_group:
  "distinct (map fst (foldl (\<lambda>gs x. push_group (f x) x gs) [] xs)) \<and>
   set (foldl (\<lambda>gs x. push_group (f x) x gs) [] xs) = (\<lambda>r. (r, filter (\<lambda>x. f x = r) xs)) ` f ` set xs"
proof (induction xs rule: rev_induct)
  case (snoc x xs)
  let ?g = "foldl (\<lambda>gs x. push_group (f x) x gs) [] xs"
  have d: "distinct (map fst ?g)" and s: "set ?g = (\<lambda>r. (r, filter (\<lambda>x. f x = r) xs)) ` f ` set xs" using snoc by auto
  have lookup: "(case map_of ?g (f x) of None \<Rightarrow> [] | Some ps \<Rightarrow> ps) = filter (\<lambda>y. f y = f x) xs"
  proof (cases "f x \<in> f ` set xs")
    case True
    then have "(f x, filter (\<lambda>y. f y = f x) xs) \<in> set ?g" unfolding s by blast
    then show ?thesis using d by (simp add: map_of_eq_Some_iff)
  next
    case False
    then have "map_of ?g (f x) = None" unfolding map_of_eq_None_iff s by auto
    moreover have "filter (\<lambda>y. f y = f x) xs = []" using False by (auto simp: filter_empty_conv image_iff)
    ultimately show ?thesis by simp
  qed
  have "set (push_group (f x) x ?g) = (\<lambda>r. (r, filter (\<lambda>x. f x = r) (xs @ [x]))) ` f ` set (xs @ [x])"
    unfolding push_group_set [OF d] lookup s by (auto simp: image_iff)
  moreover have "distinct (map fst (push_group (f x) x ?g))" using d by (simp add: push_group_keys)
  ultimately show ?case by simp
qed simp

lemma group_by_root_ok:
  assumes "uf_ok u" "\<And>x. x \<in> set xs \<Longrightarrow> x < length (parent u)"
  shows "group_by_root xs u gs = Some (foldl (\<lambda>gs x. push_group (root_of (parent u) x) x gs) gs xs)"
  using assms
proof (induction xs u gs rule: group_by_root.induct)
  case (2 x xs u gs)
  obtain u' where u': "uf_find u x = Some (root_of (parent u) x, u')" "uf_ok u'" "length (parent u') = length (parent u)"
    "\<And>y. y < length (parent u) \<Longrightarrow> root_of (parent u') y = root_of (parent u) y"
    by (rule uf_find_ok [OF "2.prems"(1), of x]) (use "2.prems"(2) in auto)
  have "foldl (\<lambda>gs x. push_group (root_of (parent u') x) x gs) g xs = foldl (\<lambda>gs x. push_group (root_of (parent u) x) x gs) g xs" for g
    by (rule foldl_cong) (use u'(4) "2.prems"(2) in auto)
  then show ?case using "2.IH" [OF u'(1) refl u'(2)] u' "2.prems"(2) by simp
qed simp

lemma position_pairs_set: "set (position_pairs n) = {(a, b). a < b \<and> b < n}"
  by (auto simp: position_pairs_def image_iff)

definition similar_edges :: "(nat \<Rightarrow> nat \<Rightarrow> bool) \<Rightarrow> nat \<Rightarrow> (nat \<times> nat) set" where
  "similar_edges sim n = {(a, b). a < b \<and> b < n \<and> sim a b}"

lemma mset_push_group: "mset (concat (map snd (push_group r x gs))) = mset (concat (map snd gs)) + {#x#}"
  by (induction r x gs rule: push_group.induct) auto

lemma mset_groups: "mset (concat (map snd (foldl (\<lambda>gs x. push_group (f x) x gs) gs xs))) = mset (concat (map snd gs)) + mset xs"
  by (induction xs arbitrary: gs) (simp_all add: mset_push_group)

text \<open>The groups are the components, each in ascending order, under distinct keys.\<close>

lemma similarity_groups_ok:
  assumes "n < 2 ^ 64"
  obtains gs where "similarity_groups sim n = Some gs" "distinct (map fst gs)"
    "snd ` set gs = (\<lambda>x. filter (\<lambda>y. (x, y) \<in> connected (similar_edges sim n)) [0..<n]) ` {..<n}"
    "mset (concat (map snd gs)) = mset [0..<n]"
proof -
  let ?E = "similar_edges sim n"
  obtain u where u: "link_similar sim (position_pairs n) (uf_new n) = Some u" "uf_ok u" "length (parent u) = n"
    "represents u ({} \<union> {(a, b). (a, b) \<in> set (position_pairs n) \<and> sim a b})"
    using link_similar_ok [OF uf_new_ok(1,2) [OF assms], of "position_pairs n" sim] uf_new_ok(3) [OF assms] position_pairs_set
    by auto
  have "{} \<union> {(a, b). (a, b) \<in> set (position_pairs n) \<and> sim a b} = ?E" by (auto simp: position_pairs_set similar_edges_def)
  then have rep: "root_of (parent u) x = root_of (parent u) y \<longleftrightarrow> (x, y) \<in> connected ?E" if "x < n" "y < n" for x y
    using u(3,4) that by (simp add: represents_def)
  let ?gs = "foldl (\<lambda>gs x. push_group (root_of (parent u) x) x gs) [] [0..<n]"
  note g = foldl_push_group [of "root_of (parent u)" "[0..<n]"]
  have F: "filter (\<lambda>y. root_of (parent u) y = root_of (parent u) x) [0..<n] = filter (\<lambda>y. (x, y) \<in> connected ?E) [0..<n]" if "x < n" for x
  proof (rule filter_cong [OF refl])
    fix y assume "y \<in> set [0..<n]"
    then show "root_of (parent u) y = root_of (parent u) x \<longleftrightarrow> (x, y) \<in> connected ?E" using rep [OF that, of y] by (simp, metis)
  qed
  show ?thesis
  proof (rule that)
    show "similarity_groups sim n = Some ?gs"
      using u group_by_root_ok [OF u(2), of "[0..<n]"] by (simp add: similarity_groups_def)
    show "distinct (map fst ?gs)" using g by blast
    show "snd ` set ?gs = (\<lambda>x. filter (\<lambda>y. (x, y) \<in> connected ?E) [0..<n]) ` {..<n}"
      using g F by (auto simp: image_image)
    show "mset (concat (map snd ?gs)) = mset [0..<n]" by (simp only: mset_groups) simp
  qed
qed


section \<open>Slices\<close>

lemma concat_opt_Some: "concat_opt xs = Some r \<longleftrightarrow> None \<notin> set xs \<and> r = concat (map the xs)"
proof (induction xs arbitrary: r)
  case (Cons x xs)
  then show ?case by (cases x; cases "concat_opt xs") auto
qed auto

lemma concat_opt_eq: "None \<notin> set xs \<Longrightarrow> concat_opt xs = Some (concat (map the xs))"
  by (simp add: concat_opt_Some)

lemma slice_chunks_concat: "0 < m \<Longrightarrow> concat (slice_chunks m xs) = xs"
  by (induction m xs rule: slice_chunks.induct) (subst slice_chunks.simps, simp)

lemma slice_chunks_length: "0 < m \<Longrightarrow> c \<in> set (slice_chunks m xs) \<Longrightarrow> length c \<le> m \<and> c \<noteq> []"
  by (induction m xs rule: slice_chunks.induct) (subst (asm) (2) slice_chunks.simps, auto split: if_splits)

lemma mset_concat_filter: "mset (concat (filter P xs)) \<subseteq># mset (concat xs)"
  by (induction xs) (auto intro: subset_mset.add_mono subset_mset.order_trans)

text \<open>Only the last slice can be short, so fewer than the minimum are left out.\<close>

lemma left_out:
  assumes "0 < m" "0 < k" "k \<le> m" "distinct xs"
  shows "card (set xs - set (concat (filter (\<lambda>c. k \<le> length c) (slice_chunks m xs)))) < k"
  using assms
proof (induction m xs rule: slice_chunks.induct)
  case (1 m xs)
  let ?kept = "\<lambda>ys. set (concat (filter (\<lambda>c. k \<le> length c) (slice_chunks m ys)))"
  show ?case
  proof (cases "xs = []")
    case True
    then show ?thesis using "1.prems" by simp
  next
    case False
    have sl: "slice_chunks m xs = take m xs # slice_chunks m (drop m xs)"
      using False "1.prems" by (subst slice_chunks.simps) simp
    show ?thesis
    proof (cases "m < length xs")
      case True
      then have k: "?kept xs = set (take m xs) \<union> ?kept (drop m xs)" using "1.prems" by (simp add: sl)
      have "card (set (drop m xs) - ?kept (drop m xs)) < k" using "1.IH" False "1.prems" by simp
      moreover have "set xs - ?kept xs \<subseteq> set (drop m xs) - ?kept (drop m xs)"
      proof
        fix x assume x: "x \<in> set xs - ?kept xs"
        then have "x \<in> set (take m xs) \<union> set (drop m xs)" by (metis DiffD1 append_take_drop_id set_append)
        then show "x \<in> set (drop m xs) - ?kept (drop m xs)" using x unfolding k by blast
      qed
      ultimately show ?thesis by (meson card_mono finite_Diff finite_set le_less_trans)
    next
      case False
      then have "slice_chunks m (drop m xs) = []" by (subst slice_chunks.simps) simp
      then have "?kept xs = (if k \<le> length xs then set xs else {})" using False by (simp add: sl)
      moreover have "card (set xs) = length xs" using "1.prems" by (simp add: distinct_card)
      ultimately show ?thesis using "1.prems" by auto
    qed
  qed
qed


section \<open>Components of a day\<close>

definition day_edges :: "StewardConfig \<Rightarrow> f32 list list \<Rightarrow> aligned_episodes \<Rightarrow> (nat \<times> nat) set" where
  "day_edges cfg vs inputs =
     {(i, j). i < j \<and> j < length inputs \<and> day_of inputs i = day_of inputs j \<and>
        f32_le (cluster_cosine_threshold cfg) (cosine_similarity_f32 (vs ! i) (vs ! j))}"

definition component :: "StewardConfig \<Rightarrow> f32 list list \<Rightarrow> aligned_episodes \<Rightarrow> nat \<Rightarrow> nat list" where
  "component cfg vs inputs i = filter (\<lambda>j. (i, j) \<in> connected (day_edges cfg vs inputs)) [0..<length inputs]"

definition component_slices :: "StewardConfig \<Rightarrow> f32 list list \<Rightarrow> aligned_episodes \<Rightarrow> nat \<Rightarrow> nat list list" where
  "component_slices cfg vs inputs i =
     (if cluster_min_size cfg \<le> length (component cfg vs inputs i)
      then filter (\<lambda>c. cluster_min_size cfg \<le> length c)
             (slice_chunks (max (cluster_max_size cfg) (cluster_min_size cfg)) (sort_key (age_key inputs) (component cfg vs inputs i)))
      else [])"

lemma connected_map:
  assumes "\<And>a b. (a, b) \<in> e \<Longrightarrow> (f a, f b) \<in> E"
  shows "(a, b) \<in> connected e \<Longrightarrow> (f a, f b) \<in> connected E"
  unfolding connected_def
proof (induction rule: rtrancl_induct)
  case (step y z)
  then have "(f y, f z) \<in> E \<union> E\<inverse>" using assms by auto
  then show ?case using step.IH by (rule rtrancl_into_rtrancl [rotated])
qed simp

lemma connected_unmap:
  assumes "\<And>a y. a \<in> D \<Longrightarrow> (f a, y) \<in> E \<union> E\<inverse> \<Longrightarrow> \<exists>b \<in> D. y = f b \<and> (a, b) \<in> e \<union> e\<inverse>" "a \<in> D"
  shows "(f a, y) \<in> connected E \<Longrightarrow> \<exists>b \<in> D. y = f b \<and> (a, b) \<in> connected e"
  unfolding connected_def
proof (induction rule: rtrancl_induct)
  case base
  then show ?case using assms(2) by blast
next
  case (step y z)
  then obtain b where b: "b \<in> D" "y = f b" "(a, b) \<in> (e \<union> e\<inverse>)\<^sup>*" by blast
  then obtain c where "c \<in> D" "z = f c" "(b, c) \<in> e \<union> e\<inverse>" using assms(1) [of b z] step.hyps(2) by auto
  then show ?case using b by (intro bexI [of _ c] conjI) (auto intro: rtrancl_into_rtrancl)
qed

lemma same_day:
  assumes "(i, j) \<in> connected (day_edges cfg vs inputs)"
  shows "day_of inputs i = day_of inputs j"
  using assms unfolding connected_def by (induction rule: rtrancl_induct) (auto simp: day_edges_def)

lemma bucket_position:
  assumes I: "I = filter (\<lambda>i. day_of inputs i = d) [0..<length inputs]" and a: "a < length I"
  shows "I ! a < length inputs" "day_of inputs (I ! a) = d"
  using nth_mem [OF a] unfolding I by auto

lemma bucket_edges:
  assumes I: "I = filter (\<lambda>i. day_of inputs i = d) [0..<length inputs]" and a: "a < length I" and b: "b < length I"
  shows "(I ! a, I ! b) \<in> day_edges cfg vs inputs \<longleftrightarrow> (a, b) \<in> similar_edges (similar_in cfg vs I) (length I)"
proof -
  have s: "sorted_wrt (<) I" unfolding I by (rule sorted_wrt_filter) simp
  have "I ! a < I ! b \<longleftrightarrow> a < b"
    using sorted_wrt_nth_less [OF s, of a b] sorted_wrt_nth_less [OF s, of b a] a b
    by (cases a b rule: linorder_cases) auto
  then show ?thesis
    using bucket_position [OF I a] bucket_position [OF I b] b
    by (auto simp: day_edges_def similar_edges_def similar_in_def)
qed

lemma bucket_component:
  assumes I: "I = filter (\<lambda>i. day_of inputs i = d) [0..<length inputs]" and a: "a < length I"
  shows "map ((!) I) (filter (\<lambda>b. (a, b) \<in> connected (similar_edges (similar_in cfg vs I) (length I))) [0..<length I]) =
    component cfg vs inputs (I ! a)"
proof -
  let ?e = "similar_edges (similar_in cfg vs I) (length I)" and ?E = "day_edges cfg vs inputs"
  have fwd: "(I ! x, I ! y) \<in> ?E" if "(x, y) \<in> ?e" for x y
    using that bucket_edges [OF I, of x y cfg vs] by (auto simp: similar_edges_def)
  have bwd: "\<exists>y \<in> {..<length I}. z = I ! y \<and> (x, y) \<in> ?e \<union> ?e\<inverse>" if xz: "x \<in> {..<length I}" "(I ! x, z) \<in> ?E \<union> ?E\<inverse>" for x z
  proof -
    have "day_of inputs (I ! x) = d" using bucket_position(2) [OF I, of x] xz(1) by simp
    then have "z < length inputs" "day_of inputs z = d" using xz(2) by (auto simp: day_edges_def)
    then have "z \<in> set I" unfolding I by simp
    then obtain y where "y < length I" "z = I ! y" by (auto simp: in_set_conv_nth)
    then show ?thesis using xz bucket_edges [OF I, of x y cfg vs] bucket_edges [OF I, of y x cfg vs] by auto
  qed
  have iff: "(a, b) \<in> connected ?e \<longleftrightarrow> (I ! a, I ! b) \<in> connected ?E" if b: "b < length I" for b
  proof
    show "(a, b) \<in> connected ?e \<Longrightarrow> (I ! a, I ! b) \<in> connected ?E" by (rule connected_map [OF fwd])
    assume "(I ! a, I ! b) \<in> connected ?E"
    then obtain y where "y < length I" "I ! b = I ! y" "(a, y) \<in> connected ?e"
      using connected_unmap [where f = "(!) I" and D = "{..<length I}", OF bwd] a by blast
    moreover have "distinct I" unfolding I by simp
    ultimately show "(a, b) \<in> connected ?e" using b by (simp add: nth_eq_iff_index_eq)
  qed
  have "component cfg vs inputs (I ! a) = filter (\<lambda>j. (I ! a, j) \<in> connected ?E) I"
    unfolding component_def I filter_filter
    by (rule filter_cong) (use same_day bucket_position(2) [OF I a] I in auto)
  also have "\<dots> = map ((!) I) (filter (\<lambda>b. (I ! a, I ! b) \<in> connected ?E) [0..<length I])"
    by (subst (1) map_nth [of I, symmetric]) (simp add: filter_map comp_def)
  also have "filter (\<lambda>b. (I ! a, I ! b) \<in> connected ?E) [0..<length I] = filter (\<lambda>b. (a, b) \<in> connected ?e) [0..<length I]"
    by (rule filter_cong) (use iff in auto)
  finally show ?thesis by simp
qed

section \<open>The members of the clusters\<close>

lemma split_component_Some:
  "0 < max (cluster_max_size cfg) (cluster_min_size cfg) \<Longrightarrow>
   split_component_by_time ms I inputs cfg = Some (filter (\<lambda>c. cluster_min_size cfg \<le> length c)
     (slice_chunks (max (cluster_max_size cfg) (cluster_min_size cfg)) (sort_key (age_key inputs) (map ((!) I) ms))))"
  by (simp add: split_component_by_time_def Let_def less_max_iff_disj)

lemma concat_map_filter_sub: "mset (concat (map f (filter P xs))) \<subseteq># mset (concat (map f xs))"
  by (induction xs) (auto intro: subset_mset.add_mono subset_mset.order_trans)

lemma bucket_members_ok:
  assumes I: "I = filter (\<lambda>i. day_of inputs i = d) [0..<length inputs]" and len: "length I < 2 ^ 64"
    and order: "\<And>gs. mset (order gs) = mset gs" and pos: "0 < max (cluster_max_size cfg) (cluster_min_size cfg)"
  obtains ms where "bucket_members order cfg inputs vs I = Some ms"
    "set ms = (\<Union>i \<in> set I. set (component_slices cfg vs inputs i))" "mset (concat ms) \<subseteq># mset I"
proof (cases "length I < cluster_min_size cfg")
  case True
  have "component_slices cfg vs inputs i = []" if i: "i \<in> set I" for i
  proof -
    obtain a where "a < length I" "i = I ! a" using i by (auto simp: in_set_conv_nth)
    then have "length (component cfg vs inputs i) \<le> length I"
      using bucket_component [OF I, of a cfg vs, symmetric] by (simp add: length_filter_le [THEN order_trans])
    then show ?thesis using True by (simp add: component_slices_def)
  qed
  then show ?thesis using that [of "[]"] True by (simp add: bucket_members_def)
next
  case False
  let ?min = "cluster_min_size cfg" and ?max = "max (cluster_max_size cfg) (cluster_min_size cfg)"
  let ?e = "similar_edges (similar_in cfg vs I) (length I)"
  obtain gs where gs: "similarity_groups (similar_in cfg vs I) (length I) = Some gs"
    "snd ` set gs = (\<lambda>x. filter (\<lambda>y. (x, y) \<in> connected ?e) [0..<length I]) ` {..<length I}"
    "mset (concat (map snd gs)) = mset [0..<length I]"
    by (rule similarity_groups_ok [OF len]) blast
  let ?f = "\<lambda>g. filter (\<lambda>c. ?min \<le> length c) (slice_chunks ?max (sort_key (age_key inputs) (map ((!) I) (snd g))))"
  let ?gs = "filter (\<lambda>g. ?min \<le> length (snd g)) (order gs)"
  let ?ms = "concat (map ?f ?gs)"
  have set_order: "set (order gs) = set gs" using order [of gs] by (metis set_mset_mset)
  have "bucket_members order cfg inputs vs I = Some ?ms"
    using False gs(1) by (simp add: bucket_members_def split_component_Some [OF pos] case_prod_unfold concat_opt_eq comp_def image_iff)
  moreover have "set ?ms = (\<Union>i \<in> set I. set (component_slices cfg vs inputs i))"
  proof -
    have "set ?ms = (\<Union>m \<in> snd ` set gs. set (if ?min \<le> length m then filter (\<lambda>c. ?min \<le> length c)
        (slice_chunks ?max (sort_key (age_key inputs) (map ((!) I) m))) else []))"
      by (auto simp: set_order split: if_splits)
    also have "\<dots> = (\<Union>a \<in> {..<length I}. set (component_slices cfg vs inputs (I ! a)))"
      unfolding gs(2) image_image UN_simps component_slices_def
      by (rule SUP_cong [OF refl]) (simp add: bucket_component [OF I, symmetric])
    also have "\<dots> = (\<Union>i \<in> set I. set (component_slices cfg vs inputs i))"
      by (auto simp: set_conv_nth)
    finally show ?thesis .
  qed
  moreover have "mset (concat ?ms) \<subseteq># mset I"
  proof -
    have one: "mset (concat (?f g)) \<subseteq># mset (map ((!) I) (snd g))" for g
      using mset_concat_filter [of "\<lambda>c. ?min \<le> length c" "slice_chunks ?max (sort_key (age_key inputs) (map ((!) I) (snd g)))"]
        by (simp add: slice_chunks_concat [OF pos])
    have "mset (concat (concat (map ?f hs))) \<subseteq># mset (concat (map (\<lambda>g. map ((!) I) (snd g)) hs))" for hs
      by (induction hs) (use one in \<open>auto intro: subset_mset.add_mono\<close>)
    then have "mset (concat ?ms) \<subseteq># mset (concat (map (\<lambda>g. map ((!) I) (snd g)) ?gs))" .
    also have "\<dots> \<subseteq># mset (concat (map (\<lambda>g. map ((!) I) (snd g)) (order gs)))"
      by (rule concat_map_filter_sub)
    also have "\<dots> = image_mset ((!) I) (mset (concat (map snd (order gs))))"
      by (simp add: map_concat comp_def flip: mset_map)
    also have "mset (concat (map snd (order gs))) = mset (concat (map snd gs))"
      by (simp add: mset_concat order flip: sum_mset_sum_list image_mset.compositionality)
    also have "image_mset ((!) I) \<dots> = mset I"
      by (subst (2) map_nth [of I, symmetric]) (simp only: mset_map gs(3))
    finally show ?thesis .
  qed
  ultimately show ?thesis by (rule that)
qed


lemma mset_by_key:
  "distinct ds \<Longrightarrow> mset (concat (map (\<lambda>d. filter (\<lambda>x. f x = d) xs) ds)) = mset (filter (\<lambda>x. f x \<in> set ds) xs)"
  by (induction ds) (auto simp: multiset_eq_iff)

lemma day_buckets_mset: "mset (concat (day_buckets inputs)) = mset [0..<length inputs]"
proof -
  have "mset (concat (day_buckets inputs)) =
      mset (filter (\<lambda>i. day_of inputs i \<in> set (sort (remdups (map (day_of inputs) [0..<length inputs])))) [0..<length inputs])"
    unfolding day_buckets_def by (rule mset_by_key) simp
  also have "filter (\<lambda>i. day_of inputs i \<in> set (sort (remdups (map (day_of inputs) [0..<length inputs])))) [0..<length inputs] =
      [0..<length inputs]"
    by (rule filter_True) simp
  finally show ?thesis .
qed

lemma concat_submset:
  "length xs = length ys \<Longrightarrow> (\<And>i. i < length xs \<Longrightarrow> mset (xs ! i) \<subseteq># mset (ys ! i)) \<Longrightarrow> mset (concat xs) \<subseteq># mset (concat ys)"
proof (induction xs ys rule: list_induct2)
  case (Cons x xs y ys)
  have "mset x \<subseteq># mset y" using Cons.prems [of 0] by simp
  moreover have "mset (concat xs) \<subseteq># mset (concat ys)" using Cons.IH Cons.prems [of "Suc _"] by simp
  ultimately show ?case by (simp add: subset_mset.add_mono)
qed simp

lemma concat_concat_eq: "concat (map (concat \<circ> f) xs) = concat (concat (map f xs))"
  by (induction xs) simp_all

lemma distinct_mset_mono_mset:
  assumes "mset xs \<subseteq># mset ys" "distinct ys"
  shows "distinct xs"
proof -
  have "count (mset xs) x \<le> 1" for x
    using mset_subset_eq_count [OF assms(1), of x] assms(2) by (metis distinct_count_atmost_1 le_trans order_refl zero_le)
  then show ?thesis by (metis count_greater_zero_iff distinct_count_atmost_1 le_antisym not_gr_zero set_mset_mset less_one linorder_not_le not_in_iff)
qed

lemma all_members_ok:
  assumes len: "length inputs < 2 ^ 64" and order: "\<And>gs. mset (order gs) = mset gs"
    and pos: "0 < max (cluster_max_size cfg) (cluster_min_size cfg)"
  obtains ms where "concat_opt (map (bucket_members order cfg inputs vs) (day_buckets inputs)) = Some ms"
    "set ms = (\<Union>i < length inputs. set (component_slices cfg vs inputs i))" "distinct (concat ms)"
proof -
  let ?bs = "day_buckets inputs" and ?m = "\<lambda>I. the (bucket_members order cfg inputs vs I)"
  have bucket: "\<exists>ms. bucket_members order cfg inputs vs I = Some ms \<and>
      set ms = (\<Union>i \<in> set I. set (component_slices cfg vs inputs i)) \<and> mset (concat ms) \<subseteq># mset I" if bI: "I \<in> set ?bs" for I
  proof -
    obtain d where I: "I = filter (\<lambda>i. day_of inputs i = d) [0..<length inputs]" using bI by (auto simp: day_buckets_def)
    have "length I < 2 ^ 64" using len length_filter_le [of "\<lambda>i. day_of inputs i = d" "[0..<length inputs]"] unfolding I by simp
    then show ?thesis using bucket_members_ok [OF I _ order pos] by metis
  qed
  have "concat_opt (map (bucket_members order cfg inputs vs) ?bs) = Some (concat (map ?m ?bs))"
    by (subst concat_opt_eq) (use bucket in \<open>force simp: comp_def\<close>)+
  moreover have "set (concat (map ?m ?bs)) = (\<Union>i < length inputs. set (component_slices cfg vs inputs i))"
  proof -
    have "set (concat (map ?m ?bs)) = (\<Union>I \<in> set ?bs. \<Union>i \<in> set I. set (component_slices cfg vs inputs i))"
    proof -
      have "set (?m I) = (\<Union>i \<in> set I. set (component_slices cfg vs inputs i))" if "I \<in> set ?bs" for I
        using bucket [OF that] by auto
      then show ?thesis unfolding set_concat set_map image_image by (rule SUP_cong [OF refl])
    qed
    also have "\<dots> = (\<Union>i \<in> set (concat ?bs). set (component_slices cfg vs inputs i))" by auto
    also have "set (concat ?bs) = {..<length inputs}"
      using arg_cong [OF day_buckets_mset [of inputs], of set_mset] by (simp only: set_mset_mset) auto
    finally show ?thesis .
  qed
  moreover have "distinct (concat (concat (map ?m ?bs)))"
  proof -
    have "mset (concat (map (concat \<circ> ?m) ?bs)) \<subseteq># mset (concat ?bs)"
    proof (rule concat_submset)
      fix i assume "i < length (map (concat \<circ> ?m) ?bs)"
      then have "?bs ! i \<in> set ?bs" "map (concat \<circ> ?m) ?bs ! i = concat (?m (?bs ! i))" by simp_all
      then show "mset (map (concat \<circ> ?m) ?bs ! i) \<subseteq># mset (?bs ! i)" using bucket [of "?bs ! i"] by auto
    qed simp
    then have "mset (concat (concat (map ?m ?bs))) \<subseteq># mset [0..<length inputs]"
      by (simp only: day_buckets_mset concat_concat_eq)
    then show ?thesis
      by (metis distinct_upt distinct_mset_mono_mset)
  qed
  ultimately show ?thesis by (rule that)
qed

section \<open>Bytes\<close>

lemma four_bytes:
  fixes n :: nat
  assumes "n < 2 ^ 32"
  shows "n mod 256 + 256 * (n div 256 mod 256) + 65536 * (n div 65536 mod 256) + 16777216 * (n div 16777216 mod 256) = n"
proof -
  have "n = n mod 256 + 256 * (n div 256)" by simp
  moreover have "n div 256 = n div 256 mod 256 + 256 * (n div 65536)" using div_mult2_eq [of n 256 256] by simp
  moreover have "n div 65536 = n div 65536 mod 256 + 256 * (n div 16777216)" using div_mult2_eq [of n 65536 256] by simp
  moreover have "n div 16777216 mod 256 = n div 16777216" using assms by (intro mod_less) (simp add: less_mult_imp_div_less)
  ultimately show ?thesis by linarith
qed

lemma f32_bytes: "f32_of_bytes (char_of (unat w)) (char_of (unat w div 256)) (char_of (unat w div 65536)) (char_of (unat w div 16777216)) = w"
proof -
  have "unat w < 2 ^ 32" using unsigned_less [of w] by simp
  then show ?thesis using four_bytes [of "unat w"] by (simp add: f32_of_bytes_def byte_def)
qed

lemma bytes_of_f32_eq:
  "bytes_of_f32 w = [char_of (unat w), char_of (unat w div 256), char_of (unat w div 65536), char_of (unat w div 16777216)]"
proof -
  have "[0..<4] = [0, 1, 2, 3 :: nat]" by code_simp
  then show ?thesis by (simp add: bytes_of_f32_def)
qed

lemma embedding_view: "as_f32_slice (\<lambda>_. True) (embedding_of d v) = Some v"
proof -
  have "f32s_of_bytes (concat (map bytes_of_f32 v)) = v"
    by (induction v) (simp_all add: bytes_of_f32_eq f32_bytes)
  moreover have "length (concat (map bytes_of_f32 v)) mod 4 = 0"
    by (induction v) (simp_all add: bytes_of_f32_eq)
  ultimately show ?thesis by (simp add: as_f32_slice_def embedding_of_def cast_f32_def)
qed

lemma embedding_sel [simp]: "dim (embedding_of d v) = d" "dtype (embedding_of d v) = F32"
  by (simp_all add: embedding_of_def)

end
