(* ===== verification/ClusterProps.thy ===== *)
theory ClusterProps
  imports ClusterFacts
begin

text \<open>
  What the clustering promises: it returns, its clusters are slices of the components of a day, and
  nothing but the rest of a component that is smaller than the minimum is left out.
\<close>

section \<open>Configuration\<close>

lemma with_env_ok:
  "with_env e name parse ok upd c = Inr c' \<Longrightarrow> c' = c \<or> (\<exists>v. ok v \<and> c' = upd v c)"
  by (auto simp: with_env_def split: option.splits if_splits)

lemma threshold_default: "threshold_ok (f32_lit 55 2)"
  by (simp add: threshold_ok_def f32_eval)

lemma from_env_ok: "from_env e = Inr c \<Longrightarrow> steward_ok c"
  by (auto simp: from_env_def result_simps steward_ok_def steward_default_def threshold_default dest!: with_env_ok)

lemma from_settings_ok: "from_settings_then_env e a b = Inr c \<Longrightarrow> steward_ok c"
  by (auto simp: from_settings_then_env_def result_simps Let_def steward_ok_def steward_default_def threshold_default
      dest!: from_env_ok split: option.splits if_splits)

section \<open>Episodes\<close>

lemma build_cluster_ids:
  "set (episode_ids (build_cluster k g inputs vs d)) = (\<lambda>i. memory_id (fst (inputs ! i))) ` set g"
  "mset (episode_ids (build_cluster k g inputs vs d)) = image_mset (\<lambda>i. memory_id (fst (inputs ! i))) (mset g)"
  "length (episode_ids (build_cluster k g inputs vs d)) = length g"
  by (simp_all add: build_cluster_def Let_def)

lemma cluster_episodes_cases:
  assumes "cluster_episodes al order fresh inputs cfg = Some (Inr cs)" "length inputs < 2 ^ 64"
    and order: "\<And>gs. mset (order gs) = mset gs" and pos: "0 < max (cluster_max_size cfg) (cluster_min_size cfg)"
  obtains vs ms d where "views al (map snd inputs) = Inr vs"
    "set ms = (\<Union>i < length inputs. set (component_slices cfg vs inputs i))" "distinct (concat ms)"
    "cs = sort_key (earliest inputs) (map (\<lambda>(i, g). build_cluster (fresh i) g inputs vs d) (List.enumerate 0 ms))"
proof (cases inputs)
  case Nil
  then show ?thesis using that [of "[]" "[]"] assms(1) by (simp add: cluster_episodes_def)
next
  case (Cons x rest)
  obtain ep0 emb0 where x: "x = (ep0, emb0)" by (cases x)
  from assms(1) obtain vs where vs: "views al (map snd inputs) = Inr vs"
    "Option.bind (concat_opt (map (bucket_members order cfg inputs vs) (day_buckets inputs))) (\<lambda>members.
       Some (Inr (sort_key (earliest inputs)
         (map (\<lambda>(i, g). build_cluster (fresh i) g inputs vs (dim emb0)) (List.enumerate 0 members))))) = Some (Inr cs :: Cluster list result)"
    by (auto simp: cluster_episodes_def Cons x bind_r_def split: if_splits sum.splits)
  obtain ms where ms: "concat_opt (map (bucket_members order cfg inputs vs) (day_buckets inputs)) = Some ms"
    "set ms = (\<Union>i < length inputs. set (component_slices cfg vs inputs i))" "distinct (concat ms)"
    by (rule all_members_ok [OF assms(2) order pos])
  show ?thesis by (rule that [OF vs(1) ms(2,3), of "dim emb0"]) (use vs(2) ms(1) in simp)
qed

lemma component_slices_sub: "m \<in> set (component_slices cfg vs inputs i) \<Longrightarrow> set m \<subseteq> set (component cfg vs inputs i)"
proof -
  assume "m \<in> set (component_slices cfg vs inputs i)"
  then have m: "m \<in> set (slice_chunks (max (cluster_max_size cfg) (cluster_min_size cfg)) (sort_key (age_key inputs) (component cfg vs inputs i)))"
    by (auto simp: component_slices_def split: if_splits)
  show ?thesis
  proof (cases "max (cluster_max_size cfg) (cluster_min_size cfg) = 0")
    case True
    then show ?thesis using m by (subst (asm) slice_chunks.simps) simp
  next
    case False
    then have "concat (slice_chunks (max (cluster_max_size cfg) (cluster_min_size cfg)) (sort_key (age_key inputs) (component cfg vs inputs i))) =
        sort_key (age_key inputs) (component cfg vs inputs i)"
      by (intro slice_chunks_concat) (simp add: less_max_iff_disj)
    from arg_cong [OF this, of set] show ?thesis using m by auto
  qed
qed

lemma component_left_out:
  assumes "0 < cluster_min_size cfg"
  shows "card (set (component cfg vs inputs i) - set (concat (component_slices cfg vs inputs i))) < cluster_min_size cfg"
proof (cases "cluster_min_size cfg \<le> length (component cfg vs inputs i)")
  case True
  have "distinct (sort_key (age_key inputs) (component cfg vs inputs i))" by (simp add: component_def)
  from left_out [OF _ assms _ this, of "max (cluster_max_size cfg) (cluster_min_size cfg)"] show ?thesis
    using True assms by (simp add: component_slices_def)
next
  case False
  have "card (set (component cfg vs inputs i)) \<le> length (component cfg vs inputs i)" by (rule card_length)
  then show ?thesis using False by (simp add: component_slices_def)
qed

lemma component_slices_length:
  "0 < max (cluster_max_size cfg) (cluster_min_size cfg) \<Longrightarrow> m \<in> set (component_slices cfg vs inputs i) \<Longrightarrow>
   cluster_min_size cfg \<le> length m \<and> length m \<le> max (cluster_max_size cfg) (cluster_min_size cfg)"
  using slice_chunks_length [of "max (cluster_max_size cfg) (cluster_min_size cfg)" m]
  by (auto simp: component_slices_def split: if_splits)

lemma map_enumerate_snd: "map (\<lambda>(i, g). f g) (List.enumerate n ms) = map f ms"
  by (induction ms arbitrary: n) simp_all

text \<open>The clusters hold the episodes of their positions, each once, under the ids that were drawn.\<close>

lemma clusters_ids:
  assumes cs: "cs = sort_key (earliest inputs) (map (\<lambda>(i, g). build_cluster (fresh i) g inputs vs d) (List.enumerate 0 ms))"
  shows "mset (concat (map episode_ids cs)) = image_mset (\<lambda>j. memory_id (fst (inputs ! j))) (mset (concat ms))"
    "mset (map cluster_id cs) = mset (map fresh [0..<length ms])"
proof -
  let ?id = "\<lambda>j. memory_id (fst (inputs ! j))"
  have "mset (concat (map episode_ids cs)) = (\<Sum>c \<in># mset cs. mset (episode_ids c))"
    by (simp add: mset_concat sum_mset_sum_list comp_def flip: mset_map)
  also have "mset cs = mset (map (\<lambda>(i, g). build_cluster (fresh i) g inputs vs d) (List.enumerate 0 ms))" by (simp add: cs)
  also have "(\<Sum>c \<in># \<dots>. mset (episode_ids c)) = sum_list (map (\<lambda>(i, g). image_mset ?id (mset g)) (List.enumerate 0 ms))"
    by (simp add: sum_mset_sum_list comp_def case_prod_unfold build_cluster_ids flip: mset_map)
  also have "\<dots> = sum_list (map (image_mset ?id \<circ> mset) ms)"
    by (simp add: map_enumerate_snd comp_def)
  also have "\<dots> = image_mset ?id (mset (concat ms))"
    by (induction ms) simp_all
  finally show "mset (concat (map episode_ids cs)) = image_mset ?id (mset (concat ms))" .
  have "mset (map cluster_id cs) = mset (map (cluster_id \<circ> (\<lambda>(i, g). build_cluster (fresh i) g inputs vs d)) (List.enumerate 0 ms))"
    by (simp only: cs mset_map mset_sort multiset.map_comp)
  also have "map (cluster_id \<circ> (\<lambda>(i, g). build_cluster (fresh i) g inputs vs d)) (List.enumerate 0 ms) = map fresh (map fst (List.enumerate 0 ms))"
    by (simp only: map_map) (rule map_cong, simp_all add: build_cluster_def Let_def case_prod_unfold)
  finally show "mset (map cluster_id cs) = mset (map fresh [0..<length ms])" by simp
qed

lemma positions_distinct:
  assumes "distinct (concat ms)" "set ms = (\<Union>i < length inputs. set (component_slices cfg vs inputs i))"
    and "distinct (map (\<lambda>(ep, _). memory_id ep) inputs)"
  shows "distinct (map (\<lambda>j. memory_id (fst (inputs ! j))) (concat ms))" "set (concat ms) \<subseteq> {..<length inputs}"
proof -
  let ?id = "\<lambda>j. memory_id (fst (inputs ! j))"
  show sub: "set (concat ms) \<subseteq> {..<length inputs}"
    using component_slices_sub assms(2) by (fastforce simp: component_def)
  have inj: "inj_on ?id {..<length inputs}"
  proof (rule inj_onI)
    fix x y assume "x \<in> {..<length inputs}" "y \<in> {..<length inputs}" "?id x = ?id y"
    then show "x = y" using nth_eq_iff_index_eq [OF assms(3), of x y] by (simp add: case_prod_unfold)
  qed
  show "distinct (map ?id (concat ms))"
    using assms(1) inj_on_subset [OF inj sub] by (simp only: distinct_map)
qed

lemma clusters_disjoint:
  assumes "cluster_episodes al order fresh inputs cfg = Some (Inr cs)" "steward_ok cfg" "length inputs < 2 ^ 64"
    and "\<And>gs. mset (order gs) = mset gs" and "distinct (map (\<lambda>(ep, _). memory_id ep) inputs)"
  shows "distinct (concat (map episode_ids cs))"
    "set (concat (map episode_ids cs)) \<subseteq> memory_id ` fst ` set inputs"
    "length cs \<le> length inputs"
    "\<exists>n. mset (map cluster_id cs) = mset (map fresh [0..<n])"
proof -
  let ?id = "\<lambda>j. memory_id (fst (inputs ! j))"
  have pos: "0 < max (cluster_max_size cfg) (cluster_min_size cfg)"
    using assms(2) by (simp add: steward_ok_def less_max_iff_disj)
  obtain vs ms d where r: "views al (map snd inputs) = Inr vs"
    "set ms = (\<Union>i < length inputs. set (component_slices cfg vs inputs i))" "distinct (concat ms)"
    "cs = sort_key (earliest inputs) (map (\<lambda>(i, g). build_cluster (fresh i) g inputs vs d) (List.enumerate 0 ms))"
    by (rule cluster_episodes_cases [OF assms(1,3,4) pos])
  note p = positions_distinct [OF r(3,2) assms(5)]
  show "distinct (concat (map episode_ids cs))"
    using p(1) clusters_ids(1) [OF r(4)] by (metis mset_map mset_eq_imp_distinct_iff)
  have "set (concat (map episode_ids cs)) = ?id ` set (concat ms)"
    using arg_cong [OF clusters_ids(1) [OF r(4)], of set_mset] by simp
  then show "set (concat (map episode_ids cs)) \<subseteq> memory_id ` fst ` set inputs" using p(2) by auto
  have "[] \<notin> set ms"
  proof
    assume "[] \<in> set ms"
    then obtain i where "i < length inputs" "[] \<in> set (component_slices cfg vs inputs i)" using r(2) by auto
    then show False using component_slices_length [OF pos, of "[]" vs inputs i] assms(2) by (simp add: steward_ok_def)
  qed
  then have "length ms \<le> length (concat ms)" 
  proof (induction ms)
    case (Cons a ms)
    then show ?case by (cases a) auto
  qed simp
  also have "\<dots> \<le> length inputs" using p(2) r(3) by (metis card_lessThan card_mono distinct_card finite_lessThan)
  finally show "length cs \<le> length inputs" by (simp add: r(4))
  show "\<exists>n. mset (map cluster_id cs) = mset (map fresh [0..<n])" using clusters_ids(2) [OF r(4)] by blast
qed

lemma cluster_episodes_returns:
  assumes "steward_ok cfg" "\<And>gs. mset (order gs) = mset gs" "length inputs < 2 ^ 64"
  shows "\<exists>r. cluster_episodes al order fresh inputs cfg = Some r"
proof -
  have pos: "0 < max (cluster_max_size cfg) (cluster_min_size cfg)" using assms(1) by (simp add: steward_ok_def less_max_iff_disj)
  have m: "\<exists>ms. concat_opt (map (bucket_members order cfg inputs vs) (day_buckets inputs)) = Some ms" for vs
    by (rule all_members_ok [OF assms(3,2) pos, of vs]) blast
  show ?thesis
  proof (cases inputs)
    case (Cons x rest)
    obtain ep0 emb0 where "x = (ep0, emb0)" by (cases x)
    then show ?thesis using m unfolding cluster_episodes_def Cons
      by (auto split: sum.split) (metis bind.bind_lunit)
  qed (simp add: cluster_episodes_def)
qed

section \<open>Properties\<close>

text \<open>
  C9: the union-find computes the connected components. For every similarity and every number of
  positions that fits a \<open>usize\<close>, the loops end without a panic, no rank wraps around, and the groups
  are exactly the components of the similarity graph, each in ascending order and each position once.
\<close>

theorem groups_are_components:
  assumes "n < 2 ^ 64"
  shows "\<exists>gs. similarity_groups sim n = Some gs \<and>
    snd ` set gs = (\<lambda>x. filter (\<lambda>y. (x, y) \<in> connected (similar_edges sim n)) [0..<n]) ` {..<n} \<and>
    mset (concat (map snd gs)) = mset [0..<n]"
  by (rule similarity_groups_ok [OF assms, of sim]) (intro exI conjI; assumption)

theorem groups_are_components_witness:
  "\<exists>gs. similarity_groups (\<lambda>a b. even (a + b)) 5 = Some gs \<and> mset (concat (map snd gs)) = mset [0..<5]"
proof -
  have "(5 :: nat) < 2 ^ 64" by simp
  from groups_are_components [OF this, of "\<lambda>a b. even (a + b)"] show ?thesis
    by (elim exE conjE) (intro exI conjI; assumption)
qed

text \<open>
  C24: whatever the environment and the settings are, a configuration that is accepted has sizes of
  at least one, a threshold in (0, 1] and between 1 and 65536 tokens, and with any such
  configuration the clustering of any list of episodes returns: it neither panics nor loops.
\<close>

theorem clustering_returns:
  assumes "from_settings_then_env e toml_min_size toml_threshold = Inr cfg"
    and "\<And>gs. mset (order gs) = mset gs" and "length inputs < 2 ^ 64"
  shows "steward_ok cfg \<and> (\<exists>r. cluster_episodes al order fresh inputs cfg = Some r)"
proof
  show ok: "steward_ok cfg" by (rule from_settings_ok [OF assms(1)])
  show "\<exists>r. cluster_episodes al order fresh inputs cfg = Some r" by (rule cluster_episodes_returns [OF ok assms(2,3)])
qed

text \<open>
  C8: the clusters are the slices of the components of a day. Every cluster has between the minimum
  and the maximum number of episodes, all of one component of the similarity graph of one UTC day;
  no episode is in two clusters; of every component fewer episodes than the minimum are left out;
  and the clusters come in the order of their earliest episodes.
\<close>

theorem clusters_cover_components:
  assumes "cluster_episodes al order fresh inputs cfg = Some (Inr cs)" "steward_ok cfg" "length inputs < 2 ^ 64"
    and "\<And>gs. mset (order gs) = mset gs" and "distinct (map (\<lambda>(ep, _). memory_id ep) inputs)"
  shows "\<exists>vs. views al (map snd inputs) = Inr vs \<and>
    (\<forall>c \<in> set cs. cluster_min_size cfg \<le> length (episode_ids c) \<and>
       length (episode_ids c) \<le> max (cluster_max_size cfg) (cluster_min_size cfg)) \<and>
    (\<forall>c \<in> set cs. \<exists>i < length inputs.
       set (episode_ids c) \<subseteq> (\<lambda>j. memory_id (fst (inputs ! j))) ` set (component cfg vs inputs i)) \<and>
    distinct (concat (map episode_ids cs)) \<and>
    (\<forall>i < length inputs. card {j \<in> set (component cfg vs inputs i).
       memory_id (fst (inputs ! j)) \<notin> set (concat (map episode_ids cs))} < cluster_min_size cfg) \<and>
    sorted (map (earliest inputs) cs)"
proof -
  let ?id = "\<lambda>j. memory_id (fst (inputs ! j))"
  have pos: "0 < max (cluster_max_size cfg) (cluster_min_size cfg)" "0 < cluster_min_size cfg"
    using assms(2) by (simp_all add: steward_ok_def less_max_iff_disj)
  obtain vs ms d where r: "views al (map snd inputs) = Inr vs"
    "set ms = (\<Union>i < length inputs. set (component_slices cfg vs inputs i))" "distinct (concat ms)"
    "cs = sort_key (earliest inputs) (map (\<lambda>(i, g). build_cluster (fresh i) g inputs vs d) (List.enumerate 0 ms))"
    by (rule cluster_episodes_cases [OF assms(1,3,4) pos(1)])
  have mem: "\<exists>k g. g \<in> set ms \<and> c = build_cluster k g inputs vs d" if "c \<in> set cs" for c
    using that by (auto simp: r(4) in_set_enumerate_eq) (metis nth_mem)
  note ids = clusters_ids(1) [OF r(4)]
  have in_ids: "?id j \<in> set (concat (map episode_ids cs))" if "j \<in> set (concat ms)" for j
    using that arg_cong [OF ids, of set_mset] by auto
  have dist: "distinct (concat (map episode_ids cs))" by (rule clusters_disjoint(1) [OF assms])
  have left: "card {j \<in> set (component cfg vs inputs i). ?id j \<notin> set (concat (map episode_ids cs))} < cluster_min_size cfg"
    if i: "i < length inputs" for i
  proof -
    have "{j \<in> set (component cfg vs inputs i). ?id j \<notin> set (concat (map episode_ids cs))} \<subseteq>
        set (component cfg vs inputs i) - set (concat (component_slices cfg vs inputs i))"
      using in_ids r(2) i by fastforce
    then show ?thesis
      using component_left_out [OF pos(2), of vs inputs i] by (meson card_mono finite_Diff finite_set le_less_trans)
  qed
  have size: "cluster_min_size cfg \<le> length (episode_ids c) \<and> length (episode_ids c) \<le> max (cluster_max_size cfg) (cluster_min_size cfg)"
    and one: "\<exists>i < length inputs. set (episode_ids c) \<subseteq> ?id ` set (component cfg vs inputs i)" if c: "c \<in> set cs" for c
  proof -
    obtain k g i where g: "i < length inputs" "g \<in> set (component_slices cfg vs inputs i)" "c = build_cluster k g inputs vs d"
      using mem [OF c] r(2) by auto
    show "cluster_min_size cfg \<le> length (episode_ids c) \<and> length (episode_ids c) \<le> max (cluster_max_size cfg) (cluster_min_size cfg)"
      using component_slices_length [OF pos(1) g(2)] g(3) by (simp add: build_cluster_ids)
    show "\<exists>i < length inputs. set (episode_ids c) \<subseteq> ?id ` set (component cfg vs inputs i)"
      using g component_slices_sub [OF g(2)] by (intro exI [of _ i]) (auto simp: build_cluster_ids)
  qed
  have "sorted (map (earliest inputs) cs)" by (simp add: r(4))
  then show ?thesis using r(1) size one dist left by blast
qed

section \<open>Witnesses of the clustering\<close>

definition sample_inputs :: aligned_episodes where
  "sample_inputs = map (\<lambda>k. (\<lparr>memory_id = k, ts_ms = int k, source_type = ''user'', source_id = None, content = ''x'',
     encoding_context = ''{}'', provenance = None, confidence = 0, strength = 0, salience = 0, tier = Hot\<rparr>,
     embedding_of 1 [0x3F800000])) [1, 2, 3]"

theorem clustering_returns_witness:
  "\<exists>cfg r. from_settings_then_env \<lparr>var = (\<lambda>_. None), parse_f32 = (\<lambda>_. None)\<rparr> (Some 3) None = Inr cfg \<and> cluster_min_size cfg = 3 \<and>
     cluster_episodes (\<lambda>_. True) id id sample_inputs cfg = Some r"
proof -
  let ?e = "\<lparr>var = (\<lambda>_. None), parse_f32 = (\<lambda>_. None)\<rparr>"
  have "\<exists>cfg. from_settings_then_env ?e (Some 3) None = Inr cfg \<and> cluster_min_size cfg = 3"
    by (simp add: from_settings_then_env_def from_env_def with_env_def env_trimmed_def steward_default_def Let_def)
  then obtain cfg where cfg: "from_settings_then_env ?e (Some 3) None = Inr cfg" "cluster_min_size cfg = 3" by blast
  have "\<exists>r. cluster_episodes (\<lambda>_. True) id id sample_inputs cfg = Some r"
    by (rule conjunct2 [OF clustering_returns [OF cfg(1)]]) (simp_all add: sample_inputs_def)
  then show ?thesis using cfg by blast
qed

theorem clusters_cover_components_witness:
  "\<exists>cs. cluster_episodes (\<lambda>_. True) id id sample_inputs steward_default = Some (Inr cs) \<and>
     distinct (concat (map episode_ids cs)) \<and> sorted (map (earliest sample_inputs) cs)"
proof -
  have ok: "steward_ok steward_default" by (simp add: steward_ok_def steward_default_def threshold_default)
  then have pos: "0 < max (cluster_max_size steward_default) (cluster_min_size steward_default)"
    by (simp add: steward_default_def)
  have len: "length sample_inputs < 2 ^ 64" by (simp add: sample_inputs_def)
  have valid: "bind_r (check_inputs 1 sample_inputs) (\<lambda>_. views (\<lambda>_. True) (map snd sample_inputs)) = Inr [[0x3F800000], [0x3F800000], [0x3F800000]]"
    by (simp add: sample_inputs_def embedding_view validate_def bytes_for_dim_def bytes_per_element_def)
      (simp add: embedding_of_def bytes_of_f32_eq)
  obtain ms where ms: "concat_opt (map (bucket_members id steward_default sample_inputs [[0x3F800000], [0x3F800000], [0x3F800000]]) (day_buckets sample_inputs)) = Some ms"
    by (rule all_members_ok [OF len _ pos, of id "[[0x3F800000], [0x3F800000], [0x3F800000]]"]) simp_all
  have "\<exists>cs. cluster_episodes (\<lambda>_. True) id id sample_inputs steward_default = Some (Inr cs)"
    using valid ms by (simp add: cluster_episodes_def sample_inputs_def)
  then obtain cs where cs: "cluster_episodes (\<lambda>_. True) id id sample_inputs steward_default = Some (Inr cs)" by blast
  have d: "distinct (map (\<lambda>(ep, _). memory_id ep) sample_inputs)" by (simp add: sample_inputs_def)
  show ?thesis using clusters_cover_components [OF cs ok len _ d] cs by auto
qed

end
