(* ===== verification/ClusterMergeProps.thy ===== *)
theory ClusterMergeProps
  imports ClusterMerge ClusterFacts "HOL-Library.Sublist"
begin

text \<open>
  Merging and absorbing lose no episode and respect the maximum size.
\<close>

section \<open>Merging\<close>

definition survivor :: "Cluster list \<Rightarrow> nat list \<Rightarrow> nat" where
  "survivor cs m = pick_survivor cs (hd m) (tl m)"

definition merged_cluster :: "Cluster list \<Rightarrow> f32 list list \<Rightarrow> nat \<Rightarrow> nat list \<Rightarrow> Cluster" where
  "merged_cluster cs vs d m =
     (let op = merge_op cs vs d m in
      \<lparr>cluster_id = survivor_id op, episode_ids = merged_episode_ids op, centroid = Some (merged_centroid op),
       coherence = merged_coherence op\<rparr>)"

definition loser_positions :: "Cluster list \<Rightarrow> nat list list \<Rightarrow> nat list" where
  "loser_positions cs ms = concat (map (\<lambda>m. filter (\<lambda>i. i \<noteq> survivor cs m) m) ms)"

definition merged_at :: "Cluster list \<Rightarrow> f32 list list \<Rightarrow> nat \<Rightarrow> nat list list \<Rightarrow> nat \<Rightarrow> Cluster" where
  "merged_at cs vs d ms i =
     (case find (\<lambda>m. survivor cs m = i) ms of None \<Rightarrow> cs ! i | Some m \<Rightarrow> merged_cluster cs vs d m)"

lemma pick_survivor_in: "pick_survivor cs b ms \<in> insert b (set ms)"
  by (induction cs b ms rule: pick_survivor.induct) auto

lemma survivor_in: "m \<noteq> [] \<Longrightarrow> survivor cs m \<in> set m"
  using pick_survivor_in [of cs "hd m" "tl m"] by (cases m) (auto simp: survivor_def)

lemma merge_op_sel:
  "survivor_id (merge_op cs vs d m) = cluster_id (cs ! survivor cs m)"
  "loser_ids (merge_op cs vs d m) = map (\<lambda>i. cluster_id (cs ! i)) (filter (\<lambda>i. i \<noteq> survivor cs m) m)"
  "set (merged_episode_ids (merge_op cs vs d m)) = (\<Union>i \<in> set m. set (episode_ids (cs ! i)))"
  by (auto simp: merge_op_def Let_def survivor_def)

lemma remdups_adj_length_sort: "length (remdups_adj (sort xs)) \<le> length xs"
  by (metis length_sort remdups_adj_length)

lemma merged_size: "mergeable cfg cs m \<Longrightarrow> length (merged_episode_ids (merge_op cs vs d m)) \<le> max (cluster_max_size cfg) (cluster_min_size cfg)"
  using remdups_adj_length_sort [of "concat (map (\<lambda>m. episode_ids (cs ! m)) m)"]
  by (simp add: merge_op_def Let_def mergeable_def length_concat comp_def)

text \<open>Disjoint groups of positions.\<close>

definition grouping :: "Cluster list \<Rightarrow> nat list list \<Rightarrow> bool" where
  "grouping cs ms = (distinct (concat ms) \<and> set (concat ms) \<subseteq> {..<length cs} \<and> [] \<notin> set ms)"

lemma grouping_unique:
  assumes "distinct (concat ms)" "m \<in> set ms" "m' \<in> set ms" "i \<in> set m" "i \<in> set m'"
  shows "m = m'"
  using assms by (auto simp: distinct_concat_iff)

lemma merged_at_survivor:
  assumes g: "grouping cs ms" and m: "m \<in> set ms"
  shows "merged_at cs vs d ms (survivor cs m) = merged_cluster cs vs d m"
proof -
  have "\<exists>m' \<in> set ms. find (\<lambda>m'. survivor cs m' = survivor cs m) ms = Some m' \<and> survivor cs m' = survivor cs m"
    using m by (induction ms) auto
  then obtain m' where m': "m' \<in> set ms" "find (\<lambda>m'. survivor cs m' = survivor cs m) ms = Some m'" "survivor cs m' = survivor cs m"
    by blast
  have "survivor cs m \<in> set m" "survivor cs m' \<in> set m'"
    using g m m'(1) by (metis grouping_def survivor_in)+
  then have "m' = m" using grouping_unique [of ms m' m "survivor cs m"] g m m' by (simp add: grouping_def)
  then show ?thesis using m'(2) by (simp add: merged_at_def)
qed

lemma merged_at_other: "i \<notin> survivor cs ` set ms \<Longrightarrow> merged_at cs vs d ms i = cs ! i"
proof -
  assume "i \<notin> survivor cs ` set ms"
  then have "find (\<lambda>m. survivor cs m = i) ms = None" by (auto simp: find_None_iff)
  then show ?thesis by (simp add: merged_at_def)
qed

lemma survivor_kept:
  assumes g: "grouping cs ms" and m: "m \<in> set ms"
  shows "survivor cs m \<notin> set (loser_positions cs ms)"
proof
  assume "survivor cs m \<in> set (loser_positions cs ms)"
  then obtain m' where m': "m' \<in> set ms" "survivor cs m \<in> set m'" "survivor cs m \<noteq> survivor cs m'" by (auto simp: loser_positions_def)
  have "survivor cs m \<in> set m" using g m by (metis grouping_def survivor_in)
  then show False using grouping_unique [of ms m m' "survivor cs m"] m m' g by (auto simp: grouping_def)
qed

lemma map_filter_point:
  "(\<And>i. i \<in> set xs \<Longrightarrow> f (h i) = (if P i then None else Some (g i))) \<Longrightarrow>
   List.map_filter f (map h xs) = map g (filter (\<lambda>i. \<not> P i) xs)"
  by (induction xs) (simp_all add: List.map_filter_simps)

lemma apply_merge_plan_eq:
  assumes g: "grouping cs ms" and ids: "distinct (map cluster_id cs)"
  shows "apply_merge_plan_in_place cs (map (merge_op cs vs d) ms) =
    map (merged_at cs vs d ms) (filter (\<lambda>i. i \<notin> set (loser_positions cs ms)) [0..<length cs])"
proof -
  let ?n = "length cs" and ?L = "set (loser_positions cs ms)" and ?id = "\<lambda>i. cluster_id (cs ! i)"
  let ?by = "map_of (rev (map (\<lambda>m. (survivor_id m, m)) (map (merge_op cs vs d) ms)))"
  have inj: "?id i = ?id j \<longleftrightarrow> i = j" if "i < ?n" "j < ?n" for i j
    using nth_eq_iff_index_eq [OF ids, of i j] that by simp
  have range: "i < ?n" if "m \<in> set ms" "i \<in> set m" for i m using g that by (auto simp: grouping_def)
  have surv: "survivor cs m \<in> set m" if "m \<in> set ms" for m using g that by (metis grouping_def survivor_in)
  have losers: "?id i \<in> set (concat (map loser_ids (map (merge_op cs vs d) ms))) \<longleftrightarrow> i \<in> ?L" if i: "i < ?n" for i
  proof -
    have "?id i \<in> set (concat (map loser_ids (map (merge_op cs vs d) ms))) \<longleftrightarrow> (\<exists>m \<in> set ms. \<exists>j \<in> set m. j \<noteq> survivor cs m \<and> ?id i = ?id j)"
      by (auto simp: merge_op_sel)
    also have "\<dots> \<longleftrightarrow> (\<exists>m \<in> set ms. \<exists>j \<in> set m. j \<noteq> survivor cs m \<and> i = j)"
    proof -
      have "?id i = ?id j \<longleftrightarrow> i = j" if "m \<in> set ms" "j \<in> set m" for m j using inj [OF i range [OF that]] .
      then show ?thesis by (metis (no_types, lifting))
    qed
    finally show ?thesis by (auto simp: loser_positions_def)
  qed
  have surv_inj: "m = m'" if "m \<in> set ms" "m' \<in> set ms" "survivor cs m = survivor cs m'" for m m'
    using grouping_unique [of ms m m' "survivor cs m"] surv [of m] surv [of m'] that g by (simp add: grouping_def)
  have by_none: "?by (?id i) = None" if "i < ?n" "i \<notin> survivor cs ` set ms" for i
    unfolding map_of_eq_None_iff using that inj [OF that(1) range [OF _ surv]] by (auto simp: merge_op_sel image_iff)
  have by_some: "?by (?id (survivor cs m)) = Some (merge_op cs vs d m)" if m: "m \<in> set ms" for m
  proof -
    have key: "survivor_id (merge_op cs vs d m') = ?id (survivor cs m) \<longleftrightarrow> m' = m" if "m' \<in> set ms" for m'
      using inj [OF range [OF that surv [OF that]] range [OF m surv [OF m]]] surv_inj [OF that m] by (auto simp: merge_op_sel)
    have "map_of (map (\<lambda>m. (survivor_id m, m)) (map (merge_op cs vs d) xs)) (?id (survivor cs m)) =
        (if m \<in> set xs then Some (merge_op cs vs d m) else None)" if "set xs \<subseteq> set ms" for xs
      using that
    proof (induction xs)
      case (Cons a xs)
      have "survivor_id (merge_op cs vs d a) = ?id (survivor cs m) \<longleftrightarrow> a = m" using key [of a] Cons.prems by simp
      then show ?case using Cons by (cases "a = m") (simp_all add: comp_def eq_commute)
    qed simp
    from this [of "rev ms"] show ?thesis using m by (simp add: rev_map)
  qed
  have not_loser: "survivor cs m \<notin> ?L" if m: "m \<in> set ms" for m by (rule survivor_kept [OF g m])
  let ?f = "\<lambda>c. if cluster_id c \<in> set (concat (map loser_ids (map (merge_op cs vs d) ms))) then None
      else (case ?by (cluster_id c) of
              Some m \<Rightarrow> Some \<lparr>cluster_id = survivor_id m, episode_ids = merged_episode_ids m,
                              centroid = Some (merged_centroid m), coherence = merged_coherence m\<rparr>
            | None \<Rightarrow> Some c)"
  have point: "?f (cs ! i) = (if i \<in> ?L then None else Some (merged_at cs vs d ms i))" if i: "i < ?n" for i
  proof (cases "i \<in> survivor cs ` set ms")
    case True
    then obtain m where "m \<in> set ms" "i = survivor cs m" by blast
    then show ?thesis
      using losers [OF i] by_some [of m] merged_at_survivor [OF g, of m vs d] by (simp add: merged_cluster_def Let_def)
  next
    case False
    then show ?thesis using losers [OF i] by_none [OF i False] merged_at_other [OF False] by simp
  qed
  have "apply_merge_plan_in_place cs (map (merge_op cs vs d) ms) = List.map_filter ?f (map ((!) cs) [0..<?n])"
    by (simp only: apply_merge_plan_in_place_def Let_def map_nth)
  also have "\<dots> = map (merged_at cs vs d ms) (filter (\<lambda>i. i \<notin> ?L) [0..<?n])"
    by (rule map_filter_point) (use point in simp)
  finally show ?thesis .
qed


lemma merged_at_id:
  assumes g: "grouping cs ms"
  shows "cluster_id (merged_at cs vs d ms i) = cluster_id (cs ! i)"
proof (cases "i \<in> survivor cs ` set ms")
  case True
  then obtain m where "m \<in> set ms" "i = survivor cs m" by blast
  then show ?thesis by (simp add: merged_at_survivor [OF g] merged_cluster_def Let_def merge_op_sel)
next
  case False
  then show ?thesis by (simp add: merged_at_other)
qed

lemma merged_at_ids:
  assumes g: "grouping cs ms"
  shows "(\<Union>i \<in> {..<length cs} - set (loser_positions cs ms). set (episode_ids (merged_at cs vs d ms i))) =
    (\<Union>c \<in> set cs. set (episode_ids c))" (is "?A = ?B")
proof
  let ?L = "set (loser_positions cs ms)"
  have range: "i < length cs" if "m \<in> set ms" "i \<in> set m" for i m using g that by (auto simp: grouping_def)
  have surv: "survivor cs m \<in> set m" if "m \<in> set ms" for m using g that by (metis grouping_def survivor_in)
  have ids: "set (episode_ids (merged_at cs vs d ms (survivor cs m))) = (\<Union>j \<in> set m. set (episode_ids (cs ! j)))" if "m \<in> set ms" for m
    using merged_at_survivor [OF g that, of vs d] by (simp add: merged_cluster_def Let_def merge_op_sel)
  show "?A \<subseteq> ?B"
  proof
    fix x assume "x \<in> ?A"
    then obtain i where i: "i < length cs" "x \<in> set (episode_ids (merged_at cs vs d ms i))" by auto
    show "x \<in> ?B"
    proof (cases "i \<in> survivor cs ` set ms")
      case True
      then obtain m j where "m \<in> set ms" "j \<in> set m" "x \<in> set (episode_ids (cs ! j))" using i(2) ids by auto
      then show ?thesis using range nth_mem by blast
    next
      case False
      then show ?thesis using i merged_at_other [OF False, of vs d] nth_mem by auto
    qed
  qed
  show "?B \<subseteq> ?A"
  proof
    fix x assume "x \<in> ?B"
    then obtain i where i: "i < length cs" "x \<in> set (episode_ids (cs ! i))"
      using in_set_conv_nth [of _ cs] by auto
    show "x \<in> ?A"
    proof (cases "i \<in> set (concat ms)")
      case True
      then obtain m where m: "m \<in> set ms" "i \<in> set m" by auto
      have "survivor cs m \<in> {..<length cs} - ?L" using survivor_kept [OF g m(1)] range [OF m(1) surv [OF m(1)]] by simp
      moreover have "x \<in> set (episode_ids (merged_at cs vs d ms (survivor cs m)))" using ids [OF m(1)] m(2) i(2) by auto
      ultimately show ?thesis by blast
    next
      case False
      have "?L \<subseteq> set (concat ms)" by (auto simp: loser_positions_def)
      moreover have "i \<notin> survivor cs ` set ms" using False surv by auto
      ultimately have "i \<in> {..<length cs} - ?L" "x \<in> set (episode_ids (merged_at cs vs d ms i))"
        using i False merged_at_other [of i cs ms vs d] by auto
      then show ?thesis by blast
    qed
  qed
qed

lemma loser_positions_ok:
  assumes "grouping cs ms"
  shows "distinct (loser_positions cs ms)" "set (loser_positions cs ms) \<subseteq> {..<length cs}"
proof -
  have sub: "mset (concat (map (\<lambda>m. filter (\<lambda>i. i \<noteq> survivor cs m) m) xs)) \<subseteq># mset (concat xs)" for xs
    by (induction xs) (auto intro: subset_mset.add_mono)
  show "distinct (loser_positions cs ms)"
    using distinct_mset_mono_mset [OF sub [of ms]] assms by (simp add: loser_positions_def grouping_def)
  show "set (loser_positions cs ms) \<subseteq> {..<length cs}" using assms by (fastforce simp: loser_positions_def grouping_def)
qed

lemma loser_positions_length:
  assumes "grouping cs ms"
  shows "length (filter (\<lambda>i. i \<notin> set (loser_positions cs ms)) [0..<length cs]) + length (loser_positions cs ms) = length cs"
proof -
  let ?L = "loser_positions cs ms"
  note loser_positions_ok [OF assms]
  moreover have "set (filter (\<lambda>i. i \<notin> set ?L) [0..<length cs]) = {..<length cs} - set ?L" by auto
  moreover have "length (filter (\<lambda>i. i \<notin> set ?L) [0..<length cs]) = card (set (filter (\<lambda>i. i \<notin> set ?L) [0..<length cs]))"
    by (metis distinct_card distinct_filter distinct_upt)
  ultimately show ?thesis by (simp add: distinct_card card_Diff_subset card_mono le_add_diff_inverse2)
    (metis card_lessThan card_mono distinct_card finite_lessThan le_add_diff_inverse2)
qed

lemma loser_ids_ok:
  assumes "grouping cs ms" "distinct (map cluster_id cs)"
  shows "distinct (concat (map loser_ids (map (merge_op cs vs d) ms)))"
    "set (concat (map loser_ids (map (merge_op cs vs d) ms))) \<subseteq> cluster_id ` set cs"
proof -
  note pos = loser_positions_ok [OF assms(1)]
  have eq: "concat (map loser_ids (map (merge_op cs vs d) ms)) = map (\<lambda>i. map cluster_id cs ! i) (loser_positions cs ms)"
  proof -
    have "concat (map loser_ids (map (merge_op cs vs d) ms)) = map (\<lambda>i. cluster_id (cs ! i)) (loser_positions cs ms)"
      by (simp add: loser_positions_def map_concat comp_def merge_op_sel)
    also have "\<dots> = map (\<lambda>i. map cluster_id cs ! i) (loser_positions cs ms)" using pos(2) by (intro map_cong) auto
    finally show ?thesis .
  qed
  have "inj_on (\<lambda>i. map cluster_id cs ! i) (set (loser_positions cs ms))"
    by (rule inj_on_nth [OF assms(2)]) (use pos(2) in auto)
  then show "distinct (concat (map loser_ids (map (merge_op cs vs d) ms)))" unfolding eq using pos(1) by (simp add: distinct_map)
  show "set (concat (map loser_ids (map (merge_op cs vs d) ms))) \<subseteq> cluster_id ` set cs" unfolding eq using pos(2) by auto
qed

lemma loser_ids_nonempty:
  assumes "grouping cs ms" "m \<in> set ms" "mergeable cfg cs m"
  shows "loser_ids (merge_op cs vs d m) \<noteq> []"
proof -
  have "distinct m" "m \<noteq> []" using assms(1,2) by (auto simp: grouping_def distinct_concat_iff)
  then have "length m \<noteq> 1" "card (set m) = length m" using assms(3) by (simp_all add: mergeable_def distinct_card)
  then have "\<not> set m \<subseteq> {survivor cs m}"
    using \<open>m \<noteq> []\<close> card_mono [of "{survivor cs m}" "set m"] by (cases m) auto
  then show ?thesis by (auto simp: merge_op_sel filter_empty_conv)
qed

lemma absorbed_count_losers: "absorbed_count (map (merge_op cs vs d) ms) = length (loser_positions cs ms)"
  by (simp add: absorbed_count_def loser_positions_def merge_op_sel length_concat comp_def)

lemma mset_concat_perm: "mset xs = mset ys \<Longrightarrow> mset (concat xs) = mset (concat ys)"
  by (metis mset_concat mset_map sum_mset_sum_list)

lemma compute_merge_plan_cases:
  assumes "length cs < 2 ^ 64"
  obtains (err) e where "compute_merge_plan al cs cfg = Some (Inl e)"
    | (ok) vs d ms where "compute_merge_plan al cs cfg = Some (Inr (map (merge_op cs vs d) ms))" "grouping cs ms"
        "\<And>m. m \<in> set ms \<Longrightarrow> mergeable cfg cs m"
proof (cases "length cs < 2")
  case True
  then show ?thesis using ok [of _ _ "[]"] by (simp add: compute_merge_plan_def grouping_def)
next
  case False
  show ?thesis
  proof (cases "centroid (cs ! 0)")
    case None
    then show ?thesis using False err by (simp add: compute_merge_plan_def)
  next
    case (Some e0)
    show ?thesis
    proof (cases "bind_r (check_centroids (dim e0) cs) (\<lambda>_. views al (map (\<lambda>c. the (centroid c)) cs))")
      case (Inl e)
      then show ?thesis using False Some err by (simp add: compute_merge_plan_def)
    next
      case (Inr vs)
      let ?sim = "\<lambda>a b. f32_le (cluster_cosine_threshold cfg) (cosine_similarity_f32 (vs ! a) (vs ! b))"
      obtain gs where gs: "similarity_groups ?sim (length cs) = Some gs"
        "snd ` set gs = (\<lambda>x. filter (\<lambda>y. (x, y) \<in> connected (similar_edges ?sim (length cs))) [0..<length cs]) ` {..<length cs}"
        "mset (concat (map snd gs)) = mset [0..<length cs]"
        by (rule similarity_groups_ok [OF assms, of ?sim]) blast
      let ?ms = "filter (mergeable cfg cs) (map snd (sort_key fst gs))"
      have perm: "mset (concat (map snd (sort_key fst gs))) = mset [0..<length cs]"
        using gs(3) mset_concat_perm [of "map snd (sort_key fst gs)" "map snd gs"] by (simp add: mset_map)
      then have "mset (concat ?ms) \<subseteq># mset [0..<length cs]" using mset_concat_filter by metis
      then have D: "distinct (concat ?ms)" "set (concat ?ms) \<subseteq> set [0..<length cs]"
        by (metis distinct_mset_mono_mset distinct_upt, metis set_mset_mono set_mset_mset)
      have "[] \<notin> snd ` set gs"
      proof
        assume "[] \<in> snd ` set gs"
        then obtain x where x: "x < length cs" "[] = filter (\<lambda>y. (x, y) \<in> connected (similar_edges ?sim (length cs))) [0..<length cs]"
          unfolding gs(2) by blast
        have "x \<in> set (filter (\<lambda>y. (x, y) \<in> connected (similar_edges ?sim (length cs))) [0..<length cs])" using x(1) by simp
        then show False unfolding x(2) [symmetric] by simp
      qed
      then have N: "[] \<notin> set ?ms" by auto
      have R: "set (concat ?ms) \<subseteq> {..<length cs}" using D(2) by (simp only: set_upt atLeast0LessThan)
      have G: "grouping cs ?ms" unfolding grouping_def by (rule conjI [OF D(1) conjI [OF R N]])
      have E: "compute_merge_plan al cs cfg = Some (Inr (map (merge_op cs vs (dim e0)) ?ms))"
        unfolding compute_merge_plan_def Some using False by (simp only: if_False option.case Inr sum.case gs(1) option.map)
      show ?thesis by (rule ok [OF E G]) (simp only: set_filter mem_Collect_eq)
    qed
  qed
qed

section \<open>Properties\<close>

text \<open>
  C22: merging loses no episode. For clusters with different ids the merge returns; an error changes
  nothing; after a success the clusters hold the same episodes together, they are the old clusters
  without as many as the count says, in the old order, and a cluster that changed is not larger than the maximum.
\<close>

theorem merging_keeps_every_episode:
  assumes "distinct (map cluster_id cs)" "length cs < 2 ^ 64"
  shows "\<exists>r cs'. merge_clusters_by_centroid al cs cfg = Some (r, cs') \<and>
    (\<forall>e. r = Inl e \<longrightarrow> cs' = cs) \<and>
    (\<forall>k. r = Inr k \<longrightarrow>
       (\<Union>c \<in> set cs'. set (episode_ids c)) = (\<Union>c \<in> set cs. set (episode_ids c)) \<and>
       length cs' + k = length cs \<and> subseq (map cluster_id cs') (map cluster_id cs) \<and>
       (\<forall>c \<in> set cs'. c \<in> set cs \<or> length (episode_ids c) \<le> max (cluster_max_size cfg) (cluster_min_size cfg)))"
proof (cases rule: compute_merge_plan_cases [OF assms(2), of al cfg, case_names err ok])
  case (err e)
  then show ?thesis by (simp add: merge_clusters_by_centroid_def)
next
  case (ok vs d ms)
  show ?thesis
  proof (cases "ms = []")
    case True
    then show ?thesis using ok by (simp add: merge_clusters_by_centroid_def)
  next
    case False
    let ?keep = "filter (\<lambda>i. i \<notin> set (loser_positions cs ms)) [0..<length cs]"
    let ?cs = "map (merged_at cs vs d ms) ?keep"
    have M: "merge_clusters_by_centroid al cs cfg = Some (Inr (length (loser_positions cs ms)), ?cs)"
      using ok False apply_merge_plan_eq [OF ok(2) assms(1), of vs d]
      by (simp add: merge_clusters_by_centroid_def absorbed_count_losers)
    have U: "(\<Union>c \<in> set ?cs. set (episode_ids c)) = (\<Union>c \<in> set cs. set (episode_ids c))"
    proof -
      have "set ?keep = {..<length cs} - set (loser_positions cs ms)" by auto
      then show ?thesis using merged_at_ids [OF ok(2), of vs d] by (simp only: set_map image_image)
    qed
    have L: "length ?cs + length (loser_positions cs ms) = length cs"
      using loser_positions_length [OF ok(2)] by simp
    have S: "subseq (map cluster_id ?cs) (map cluster_id cs)"
    proof -
      have "map cluster_id ?cs = map (\<lambda>i. cluster_id (cs ! i)) ?keep" by (simp add: merged_at_id [OF ok(2)])
      moreover have "map cluster_id cs = map (\<lambda>i. cluster_id (cs ! i)) [0..<length cs]"
        by (rule nth_equalityI) simp_all
      ultimately show ?thesis by (metis subseq_filter_left subseq_map)
    qed
    have C: "c \<in> set cs \<or> length (episode_ids c) \<le> max (cluster_max_size cfg) (cluster_min_size cfg)" if c: "c \<in> set ?cs" for c
    proof -
      obtain i where i: "i < length cs" "c = merged_at cs vs d ms i" using c by auto
      show ?thesis
      proof (cases "i \<in> survivor cs ` set ms")
        case True
        then obtain m where m: "m \<in> set ms" "i = survivor cs m" by blast
        then show ?thesis
          using merged_at_survivor [OF ok(2) m(1), of vs d] merged_size [OF ok(3) [OF m(1)], of vs d] i(2)
          by (simp add: merged_cluster_def Let_def)
      next
        case False
        then show ?thesis using i merged_at_other [OF False, of vs d] by simp
      qed
    qed
    show ?thesis
    proof (rule exI [of _ "Inr (length (loser_positions cs ms))"], rule exI [of _ ?cs], intro conjI allI impI)
      show "merge_clusters_by_centroid al cs cfg = Some (Inr (length (loser_positions cs ms)), ?cs)" by (rule M)
      show "?cs = cs" if "Inr (length (loser_positions cs ms)) = (Inl e :: nat result)" for e using that by simp
      fix k assume "Inr (length (loser_positions cs ms)) = (Inr k :: nat result)"
      then have k: "k = length (loser_positions cs ms)" by simp
      show "(\<Union>c \<in> set ?cs. set (episode_ids c)) = (\<Union>c \<in> set cs. set (episode_ids c))" by (rule U)
      show "length ?cs + k = length cs" unfolding k by (rule L)
      show "subseq (map cluster_id ?cs) (map cluster_id cs)" by (rule S)
      show "\<forall>c \<in> set ?cs. c \<in> set cs \<or> length (episode_ids c) \<le> max (cluster_max_size cfg) (cluster_min_size cfg)"
        using C by blast
    qed
  qed
qed

section \<open>A witness\<close>

definition new_one :: Cluster where
  "new_one = \<lparr>cluster_id = 9, episode_ids = [90, 91], centroid = Some (embedding_of 2 [0x3F800000, 0]), coherence = 0x3F800000\<rparr>"

theorem merging_keeps_every_episode_witness:
  "\<exists>r cs'. merge_clusters_by_centroid (\<lambda>_. True) [new_one, new_one\<lparr>cluster_id := 8, episode_ids := [80]\<rparr>] steward_default = Some (r, cs')"
  using merging_keeps_every_episode [of "[new_one, new_one\<lparr>cluster_id := 8, episode_ids := [80]\<rparr>]" "\<lambda>_. True" steward_default]
  by (auto simp: new_one_def)

end
