(* ===== verification/ConsolidateFacts.thy ===== *)
theory ConsolidateFacts
  imports Consolidate ClusterProps ClusterMergeProps
begin

text \<open>
  What the statements and the two transactions of the consolidation do to the derived tables, and
  that the clusters it writes share no memory.
\<close>

section \<open>Statements\<close>

lemma insert_cluster_ok:
  "insert_cluster row t = Inr t' \<Longrightarrow>
   t' = t\<lparr>clusters := clusters t @ [row]\<rparr> \<and> cl_id row \<notin> cl_id ` set (clusters t) \<and> \<not> f32_is_nan (cl_coherence row)"
  by (auto simp: insert_cluster_def split: if_splits)

lemma insert_links_ok:
  "insert_links e step d cid j mids t = Inr t' \<Longrightarrow>
   t' = t\<lparr>links := links t @ map (Pair cid) mids\<rparr> \<and> set mids \<subseteq> er_memory_id ` set (episodes d) \<and>
   (mids \<noteq> [] \<longrightarrow> cid \<in> cl_id ` set (clusters t))"
proof (induction e step d cid j mids t arbitrary: t' rule: insert_links.induct)
  case (2 e step d cid j mid mids t)
  then obtain t1 where "insert_link d cid mid t = Inr t1" "insert_links e step d cid (Suc j) mids t1 = Inr t'"
    by (auto simp: result_simps)
  with "2.IH" [of t1 t'] show ?case by (auto simp: insert_link_def split: if_splits)
qed simp

lemma refresh_cluster_ok:
  "refresh_cluster cid emb coh t = Inr t' \<Longrightarrow>
   links t' = links t \<and> abstractions t' = abstractions t \<and> triples t' = triples t \<and>
   map cl_id (clusters t') = map cl_id (clusters t) \<and> map cl_created_at_ms (clusters t') = map cl_created_at_ms (clusters t)"
  by (auto simp: refresh_cluster_def split: if_splits)

lemma derived_ok_cong:
  "derived_ok d t \<Longrightarrow> links t' = links t \<Longrightarrow> map cl_id (clusters t') = map cl_id (clusters t) \<Longrightarrow>
   set (abstractions t') \<subseteq> set (abstractions t) \<Longrightarrow> set (triples t') \<subseteq> set (triples t) \<Longrightarrow> derived_ok d t'"
  unfolding derived_ok_def by (metis (no_types, lifting) image_mono list.set_map subset_eq subset_trans)

lemma derived_ok_links:
  assumes "derived_ok d t" "set mids \<subseteq> er_memory_id ` set (episodes d)" "mids \<noteq> [] \<longrightarrow> cid \<in> cl_id ` set (clusters t)"
    and "distinct mids" "set mids \<inter> snd ` set (links t) = {}"
  shows "derived_ok d (t\<lparr>links := links t @ map (Pair cid) mids\<rparr>)"
  using assms by (auto simp: derived_ok_def comp_def)

lemma derived_ok_cluster:
  "derived_ok d t \<Longrightarrow> cl_id row \<notin> cl_id ` set (clusters t) \<Longrightarrow> derived_ok d (t\<lparr>clusters := clusters t @ [row]\<rparr>)"
  by (auto simp: derived_ok_def)

section \<open>The first transaction\<close>

lemma persist_clusters_ok:
  "persist_clusters e d plan i cs t = Inr t' \<Longrightarrow> derived_ok d t \<Longrightarrow> distinct (concat (map episode_ids cs)) \<Longrightarrow>
   set (concat (map episode_ids cs)) \<inter> snd ` set (links t) = {} \<Longrightarrow>
   derived_ok d t' \<and> map snd (links t') = map snd (links t) @ concat (map episode_ids cs) \<and>
   abstractions t' = abstractions t \<and> triples t' = triples t \<and> set (clusters t) \<subseteq> set (clusters t')"
proof (induction e d plan i cs t arbitrary: t' rule: persist_clusters.induct)
  case (2 e d plan i c cs t)
  obtain t1 where t1: "persist_clusters e d plan (Suc i) cs t1 = Inr t'"
      "derived_ok d t1" "map snd (links t1) = map snd (links t) @ episode_ids c"
      "abstractions t1 = abstractions t" "triples t1 = triples t" "set (clusters t) \<subseteq> set (clusters t1)"
  proof (cases "absorbed_by_new plan (cluster_id c)")
    case (Some a)
    then obtain t1 where "insert_links e (SLinkAbsorbed i) d (ab_existing_cluster_id a) 0 (episode_ids c) t = Inr t1"
        "persist_clusters e d plan (Suc i) cs t1 = Inr t'"
      using "2.prems"(1) by (auto simp: result_simps)
    with insert_links_ok [OF this(1)] derived_ok_links [OF "2.prems"(2)] "2.prems"(3,4) show ?thesis
      by (intro that [of t1]) (auto simp: comp_def)
  next
    case None
    then obtain t0 t1 where t0: "insert_cluster (new_cluster_row e c) t = Inr t0"
        and t1: "insert_links e (SLinkCluster i) d (cluster_id c) 0 (episode_ids c) t0 = Inr t1"
        "persist_clusters e d plan (Suc i) cs t1 = Inr t'"
      using "2.prems"(1) by (auto simp: result_simps)
    have "derived_ok d t0" using insert_cluster_ok [OF t0] derived_ok_cluster [OF "2.prems"(2)] by simp
    with insert_links_ok [OF t1(1)] insert_cluster_ok [OF t0] derived_ok_links [of d t0] "2.prems"(3,4) t1(2) show ?thesis
      by (intro that [of t1]) (auto simp: comp_def)
  qed
  have snds: "snd ` set (links t1) = snd ` set (links t) \<union> set (episode_ids c)"
    using arg_cong [OF t1(3), of set] by simp
  have "distinct (concat (map episode_ids cs))" "set (concat (map episode_ids cs)) \<inter> snd ` set (links t1) = {}"
    using "2.prems"(3,4) unfolding snds by auto
  with "2.IH" [OF t1(1,2)] t1(3-6) show ?case by auto
qed simp

lemma refresh_existing_ok:
  "refresh_existing e plan xs t = Inr t' \<Longrightarrow> derived_ok d t \<Longrightarrow>
   derived_ok d t' \<and> links t' = links t \<and> map cl_id (clusters t') = map cl_id (clusters t) \<and>
   abstractions t' = filter (\<lambda>a. \<not> (sa_cluster_id a \<in> set xs \<and> last_per_existing plan (sa_cluster_id a) \<noteq> None)) (abstractions t)"
proof (induction e plan xs t arbitrary: t' rule: refresh_existing.induct)
  case (2 e plan x xs t)
  show ?case
  proof (cases "last_per_existing plan x")
    case None
    with 2 show ?thesis by (auto intro: filter_cong)
  next
    case (Some a)
    then obtain t1 where t1: "refresh_cluster x (ab_merged_centroid a) (ab_merged_coherence a) t = Inr t1"
        "refresh_existing e plan xs (delete_triples x (delete_abstractions x t1)) = Inr t'"
      using "2.prems"(1) by (auto simp: result_simps)
    let ?t2 = "delete_triples x (delete_abstractions x t1)"
    note r = refresh_cluster_ok [OF t1(1)]
    have ok: "derived_ok d ?t2"
      by (rule derived_ok_cong [OF "2.prems"(2)]) (use r in \<open>auto simp: delete_triples_def delete_abstractions_def\<close>)
    have "derived_ok d t' \<and> links t' = links ?t2 \<and> map cl_id (clusters t') = map cl_id (clusters ?t2) \<and>
       abstractions t' = filter (\<lambda>a. \<not> (sa_cluster_id a \<in> set xs \<and> last_per_existing plan (sa_cluster_id a) \<noteq> None)) (abstractions ?t2)"
      by (rule "2.IH"(2) [OF Some t1(2) ok])
    then show ?thesis using r Some by (auto simp: delete_triples_def delete_abstractions_def intro: filter_cong)
  qed
qed simp

lemma consolidate_tx_ok:
  assumes "consolidate_tx e d plan cs t = Inr t'" "derived_ok d t" "distinct (concat (map episode_ids cs))"
    and "set (concat (map episode_ids cs)) \<inter> snd ` set (links t) = {}"
  shows "derived_ok d t' \<and> map snd (links t') = map snd (links t) @ concat (map episode_ids cs) \<and>
    abstractions t' = filter (\<lambda>a. sa_cluster_id a \<notin> ab_existing_cluster_id ` set plan) (abstractions t)"
proof -
  let ?xs = "sort (remdups (map ab_existing_cluster_id plan))"
  obtain t1 where t1: "persist_clusters e d plan 0 cs t = Inr t1" "refresh_existing e plan ?xs t1 = Inr t'"
    using assms(1) by (auto simp: consolidate_tx_def result_simps)
  note p = persist_clusters_ok [OF t1(1) assms(2-4)]
  have dom: "last_per_existing plan x \<noteq> None" if "x \<in> ab_existing_cluster_id ` set plan" for x
    using that by (auto simp: last_per_existing_def map_of_eq_None_iff image_image)
  have "abstractions t' = filter (\<lambda>a. \<not> (sa_cluster_id a \<in> set ?xs \<and> last_per_existing plan (sa_cluster_id a) \<noteq> None)) (abstractions t)"
    using refresh_existing_ok [OF t1(2), of d] p by simp
  also have "\<dots> = filter (\<lambda>a. sa_cluster_id a \<notin> ab_existing_cluster_id ` set plan) (abstractions t)"
    by (intro filter_cong refl) (metis dom list.set_map set_sort set_remdups)
  finally show ?thesis using refresh_existing_ok [OF t1(2), of d] p by simp
qed

section \<open>The second transaction\<close>

lemma move_links_ok:
  "move_links s l t = Inr t' \<Longrightarrow>
   t' = t\<lparr>links := map (\<lambda>x. if fst x = l then (s, snd x) else x) (links t)\<rparr> \<and>
   (members_of l t \<noteq> [] \<longrightarrow> s \<in> cl_id ` set (clusters t))"
  by (auto simp: move_links_def split: if_splits)

lemma snd_move [simp]: "map snd (map (\<lambda>x. if P x then (s, snd x) else x) xs) = map snd xs"
  by (induction xs) simp_all

lemma members_nonempty: "(l, m) \<in> set (links t) \<Longrightarrow> members_of l t \<noteq> []"
  by (force simp: members_of_def filter_empty_conv)

lemma derived_ok_relink:
  assumes "derived_ok d t" "map snd L = map snd (links t)" "fst ` set L \<subseteq> cl_id ` set (clusters t)"
  shows "derived_ok d (t\<lparr>links := L\<rparr>)"
proof -
  have "snd ` set L = snd ` set (links t)" using assms(2) by (metis list.set_map)
  with assms show ?thesis by (simp add: derived_ok_def)
qed

lemma derived_ok_move: "derived_ok d t \<Longrightarrow> move_links s l t = Inr t' \<Longrightarrow> derived_ok d t'"
proof -
  assume ok: "derived_ok d t" and "move_links s l t = Inr t'"
  then have t': "t' = t\<lparr>links := map (\<lambda>x. if fst x = l then (s, snd x) else x) (links t)\<rparr>"
    and s: "members_of l t \<noteq> [] \<longrightarrow> s \<in> cl_id ` set (clusters t)"
    using move_links_ok by blast+
  have "fst x \<in> cl_id ` set (clusters t)" if x: "x \<in> set (links t')" for x
  proof -
    have "x \<in> (\<lambda>x. if fst x = l then (s, snd x) else x) ` set (links t)" using x by (simp add: t')
    then obtain y where y: "y \<in> set (links t)" "x = (if fst y = l then (s, snd y) else y)" by blast
    show ?thesis
    proof (cases "fst y = l")
      case True
      then have "members_of l t \<noteq> []" using members_nonempty [of l "snd y" t] y(1) by auto
      with s y(2) True show ?thesis by simp
    next
      case False
      with ok y show ?thesis by (auto simp: derived_ok_def)
    qed
  qed
  then show ?thesis unfolding t' by (intro derived_ok_relink [OF ok]) (simp_all add: image_subset_iff del: map_map)
qed

lemma move_losers_ok:
  "move_losers e i j s ls t = Inr t' \<Longrightarrow> derived_ok d t \<Longrightarrow> s \<notin> set ls \<Longrightarrow>
   derived_ok d t' \<and> clusters t' = clusters t \<and> abstractions t' = abstractions t \<and> triples t' = triples t \<and>
   links t' = map (\<lambda>x. if fst x \<in> set ls then (s, snd x) else x) (links t)"
proof (induction e i j s ls t arbitrary: t' rule: move_losers.induct)
  case (2 e i j s l ls t)
  obtain t1 where t1: "move_links s l t = Inr t1" "move_losers e i (Suc j) s ls t1 = Inr t'"
    using "2.prems"(1) by (auto simp: result_simps)
  have "derived_ok d t1" by (rule derived_ok_move [OF "2.prems"(2) t1(1)])
  moreover have "s \<notin> set ls" using "2.prems"(3) by simp
  ultimately show ?case
    using "2.IH" [OF t1(2)] move_links_ok [OF t1(1)] "2.prems"(3) by auto
qed (simp add: map_idI)

lemma delete_cluster_ok:
  assumes "derived_ok d t" "l \<notin> fst ` set (links t)"
  shows "derived_ok d (delete_cluster l t) \<and> links (delete_cluster l t) = links t \<and>
    abstractions (delete_cluster l t) = filter (\<lambda>a. sa_cluster_id a \<noteq> l) (abstractions t) \<and>
    clusters (delete_cluster l t) = filter (\<lambda>r. cl_id r \<noteq> l) (clusters t)"
proof (cases "l \<in> cl_id ` set (clusters t)")
  case True
  have "filter (\<lambda>x. fst x \<noteq> l) (links t) = links t" using assms(2) by (auto simp: filter_id_conv)
  moreover have "distinct (map cl_id (filter (\<lambda>r. cl_id r \<noteq> l) (clusters t)))"
    using assms(1) by (simp add: derived_ok_def distinct_map_filter)
  moreover have ids: "cl_id ` set (filter (\<lambda>r. cl_id r \<noteq> l) (clusters t)) = cl_id ` set (clusters t) - {l}" by auto
  moreover have "fst ` set (links t) \<subseteq> cl_id ` set (clusters t) - {l}"
    "sa_cluster_id ` set (filter (\<lambda>a. sa_cluster_id a \<noteq> l) (abstractions t)) \<subseteq> cl_id ` set (clusters t) - {l}"
    using assms by (auto simp: derived_ok_def)
  moreover have "\<forall>r \<in> set (filter (\<lambda>r. tr_cluster_id r \<noteq> Some l) (triples t)). \<forall>cid. tr_cluster_id r = Some cid \<longrightarrow>
      cid \<in> cl_id ` set (clusters t) - {l}"
    using assms(1) by (auto simp: derived_ok_def)
  moreover have "delete_cluster l t = t\<lparr>clusters := filter (\<lambda>r. cl_id r \<noteq> l) (clusters t),
      abstractions := filter (\<lambda>a. sa_cluster_id a \<noteq> l) (abstractions t), triples := filter (\<lambda>r. tr_cluster_id r \<noteq> Some l) (triples t)\<rparr>"
    using True calculation(1) by (simp add: delete_cluster_def delete_triples_def delete_abstractions_def)
  ultimately show ?thesis using assms(1) by (simp add: derived_ok_def del: set_filter)
next
  case False
  moreover have "filter (\<lambda>a. sa_cluster_id a \<noteq> l) (abstractions t) = abstractions t"
    using assms(1) False by (auto simp: filter_id_conv derived_ok_def)
  moreover have "filter (\<lambda>r. cl_id r \<noteq> l) (clusters t) = clusters t" using False by (auto simp: filter_id_conv)
  ultimately show ?thesis using assms(1) by (simp add: delete_cluster_def)
qed

lemma delete_losers_ok:
  "delete_losers e i j ls t = Inr t' \<Longrightarrow> derived_ok d t \<Longrightarrow> set ls \<inter> fst ` set (links t) = {} \<Longrightarrow>
   derived_ok d t' \<and> links t' = links t \<and>
   abstractions t' = filter (\<lambda>a. sa_cluster_id a \<notin> set ls) (abstractions t) \<and>
   clusters t' = filter (\<lambda>r. cl_id r \<notin> set ls) (clusters t)"
proof (induction e i j ls t arbitrary: t' rule: delete_losers.induct)
  case (2 e i j l ls t)
  have run: "delete_losers e i (Suc j) ls (delete_cluster l t) = Inr t'" using "2.prems"(1) by (auto simp: result_simps)
  note del = delete_cluster_ok [OF "2.prems"(2), of l]
  have l: "l \<notin> fst ` set (links t)" "set ls \<inter> fst ` set (links t) = {}" using "2.prems"(3) by auto
  show ?case using "2.IH" [OF run] del l by (auto intro!: filter_cong)
qed simp

lemma apply_merges_ok:
  "apply_merges e i ms t = Inr t' \<Longrightarrow> derived_ok d t \<Longrightarrow> (\<And>m. m \<in> set ms \<Longrightarrow> survivor_id m \<notin> set (loser_ids m)) \<Longrightarrow>
   derived_ok d t' \<and> map snd (links t') = map snd (links t) \<and>
   abstractions t' = filter (\<lambda>a. \<forall>m \<in> set ms. sa_cluster_id a \<notin> set (loser_ids m)) (abstractions t) \<and>
   map cl_id (clusters t') = filter (\<lambda>x. \<forall>m \<in> set ms. x \<notin> set (loser_ids m)) (map cl_id (clusters t))"
proof (induction e i ms t arbitrary: t' rule: apply_merges.induct)
  case (2 e i m ms t)
  obtain t1 t2 t3 where s: "move_losers e i 0 (survivor_id m) (loser_ids m) t = Inr t1"
      "refresh_cluster (survivor_id m) (merged_centroid m) (merged_coherence m) t1 = Inr t2"
      "delete_losers e i 0 (loser_ids m) t2 = Inr t3" "apply_merges e (Suc i) ms t3 = Inr t'"
    using "2.prems"(1) by (auto simp: result_simps)
  have sl: "survivor_id m \<notin> set (loser_ids m)" using "2.prems"(3) by simp
  note a = move_losers_ok [OF s(1) "2.prems"(2) sl]
  note b = refresh_cluster_ok [OF s(2)]
  have ok2: "derived_ok d t2" by (rule derived_ok_cong [of d t1]) (use a b in auto)
  have gone: "set (loser_ids m) \<inter> fst ` set (links t2) = {}" using a b sl by auto
  note c = delete_losers_ok [OF s(3) ok2 gone]
  have ids: "map cl_id (clusters t3) = filter (\<lambda>x. x \<notin> set (loser_ids m)) (map cl_id (clusters t))"
  proof -
    have "map cl_id (clusters t3) = filter (\<lambda>x. x \<notin> set (loser_ids m)) (map cl_id (clusters t2))"
      using c by (simp add: filter_map comp_def)
    then show ?thesis using a b by simp
  qed
  have "derived_ok d t3" using c by blast
  moreover have "\<And>m'. m' \<in> set ms \<Longrightarrow> survivor_id m' \<notin> set (loser_ids m')" using "2.prems"(3) by simp
  ultimately show ?case using "2.IH" [OF s(4)] a b c ids by (auto intro!: filter_cong)
qed simp

section \<open>Merging keeps clusters apart\<close>

lemma distinct_concat_disjoint:
  "distinct (concat (map g is)) \<Longrightarrow> a \<in> set is \<Longrightarrow> b \<in> set is \<Longrightarrow> a \<noteq> b \<Longrightarrow> set (g a) \<inter> set (g b) = {}"
  by (induction "is") auto

lemma distinct_concat_map:
  "distinct xs \<Longrightarrow> (\<And>x. x \<in> set xs \<Longrightarrow> distinct (f x)) \<Longrightarrow>
   (\<And>x y. x \<in> set xs \<Longrightarrow> y \<in> set xs \<Longrightarrow> x \<noteq> y \<Longrightarrow> set (f x) \<inter> set (f y) = {}) \<Longrightarrow> distinct (concat (map f xs))"
proof (induction xs)
  case (Cons x xs)
  have "set (f x) \<inter> set (f y) = {}" if "y \<in> set xs" for y
    using Cons.prems(1,3) that by (metis distinct.simps(2) list.set_intros)
  moreover have "distinct (concat (map f xs))" using Cons by simp
  ultimately show ?case using Cons.prems(2) by auto
qed simp

text \<open>The positions whose episodes end in the cluster at \<open>i\<close>.\<close>

definition span_at :: "Cluster list \<Rightarrow> nat list list \<Rightarrow> nat \<Rightarrow> nat set" where
  "span_at cs ms i = (case find (\<lambda>m. survivor cs m = i) ms of None \<Rightarrow> {i} | Some m \<Rightarrow> set m)"

lemma find_group: "find (\<lambda>m. survivor cs m = i) ms = Some m \<Longrightarrow> m \<in> set ms \<and> survivor cs m = i"
  by (induction ms) (auto split: if_splits)

lemma merged_at_span: "set (episode_ids (merged_at cs vs d ms i)) = (\<Union>j \<in> span_at cs ms i. set (episode_ids (cs ! j)))"
  by (simp add: merged_at_def span_at_def merged_cluster_def Let_def merge_op_sel split: option.split)

lemma sorted_adj_distinct: "sorted (xs :: 'a :: linorder list) \<Longrightarrow> distinct_adj xs \<Longrightarrow> distinct xs"
proof (induction xs)
  case (Cons x xs)
  then show ?case by (cases xs) (auto simp: less_le)
qed simp

lemma merged_at_distinct: "distinct (episode_ids (cs ! i)) \<Longrightarrow> distinct (episode_ids (merged_at cs vs d ms i))"
  by (simp add: merged_at_def merged_cluster_def merge_op_def Let_def sorted_adj_distinct split: option.split)

lemma span_disjoint:
  assumes g: "grouping cs ms" and i: "i \<notin> set (loser_positions cs ms)" "j \<notin> set (loser_positions cs ms)" "i \<noteq> j"
  shows "span_at cs ms i \<inter> span_at cs ms j = {}"
proof -
  have own: "i \<in> span_at cs ms i" for i
  proof (cases "find (\<lambda>m. survivor cs m = i) ms")
    case (Some m)
    have "m \<in> set ms" "survivor cs m = i" using find_group [OF Some] by auto
    moreover from this have "m \<noteq> []" using g by (auto simp: grouping_def)
    ultimately show ?thesis using survivor_in [of m cs] by (simp add: span_at_def Some)
  qed (simp add: span_at_def)
  have other: "x = i \<or> x \<in> set (loser_positions cs ms)" if "x \<in> span_at cs ms i" for x i
    using that find_group [of cs i ms] by (auto simp: span_at_def loser_positions_def split: option.splits)
  have "k = l" if k: "x \<in> span_at cs ms k" "x \<in> span_at cs ms l" "k \<notin> set (loser_positions cs ms)" "l \<notin> set (loser_positions cs ms)"
    "x \<in> set (loser_positions cs ms)" for x k l
  proof -
    obtain m where m: "m \<in> set ms" "survivor cs m = k" "x \<in> set m"
      using k find_group [of cs k ms] by (auto simp: span_at_def split: option.splits)
    obtain m' where m': "m' \<in> set ms" "survivor cs m' = l" "x \<in> set m'"
      using k find_group [of cs l ms] by (auto simp: span_at_def split: option.splits)
    have "m = m'" using grouping_unique [of ms m m' x] g m m' by (simp add: grouping_def)
    then show ?thesis using m m' by simp
  qed
  with other i show ?thesis by (metis disjoint_iff)
qed

lemma merge_clusters_ok:
  assumes "distinct (map cluster_id cs)" "length cs < 2 ^ 64"
  obtains (err) er where "merge_clusters_by_centroid al cs cfg = Some (Inl er, cs)"
    | (ok) k cs' where "merge_clusters_by_centroid al cs cfg = Some (Inr k, cs')"
      "distinct (concat (map episode_ids cs)) \<longrightarrow> distinct (concat (map episode_ids cs'))"
      "set (concat (map episode_ids cs')) = set (concat (map episode_ids cs))"
      "set (map cluster_id cs') \<subseteq> set (map cluster_id cs)" "distinct (map cluster_id cs')" "length cs' \<le> length cs"
proof (cases rule: compute_merge_plan_cases [OF assms(2), of al cfg, case_names err' ok'])
  case (err' e)
  then show ?thesis using err by (simp add: merge_clusters_by_centroid_def)
next
  case (ok' vs d ms)
  show ?thesis
  proof (cases "ms = []")
    case True
    then show ?thesis using ok' ok [of 0 cs] assms(1) by (simp add: merge_clusters_by_centroid_def)
  next
    case False
    let ?keep = "filter (\<lambda>i. i \<notin> set (loser_positions cs ms)) [0..<length cs]"
    let ?cs = "map (merged_at cs vs d ms) ?keep"
    have M: "merge_clusters_by_centroid al cs cfg = Some (Inr (length (loser_positions cs ms)), ?cs)"
      using ok' False apply_merge_plan_eq [OF ok'(2) assms(1), of vs d]
      by (simp add: merge_clusters_by_centroid_def absorbed_count_losers)
    have ids: "map cluster_id ?cs = map (\<lambda>i. map cluster_id cs ! i) ?keep"
      by (simp add: merged_at_id [OF ok'(2)])
    have "set (map cluster_id ?cs) \<subseteq> set (map cluster_id cs)" unfolding ids by auto
    moreover have "distinct (map cluster_id ?cs)"
      unfolding ids using inj_on_nth [OF assms(1), of "set ?keep"] by (simp add: distinct_map)
    moreover have "length ?cs \<le> length cs" by (metis length_filter_le length_map length_upt minus_nat.diff_0)
    moreover have "set (concat (map episode_ids ?cs)) = set (concat (map episode_ids cs))"
    proof -
      have "set ?keep = {..<length cs} - set (loser_positions cs ms)" by auto
      then show ?thesis using merged_at_ids [OF ok'(2), of vs d] by (simp only: set_concat set_map image_image)
    qed
    moreover have "distinct (concat (map episode_ids ?cs))" if D: "distinct (concat (map episode_ids cs))"
    proof -
      have "map episode_ids cs = map (\<lambda>i. episode_ids (cs ! i)) [0..<length cs]" by (rule nth_equalityI) simp_all
      then have apart: "set (episode_ids (cs ! i)) \<inter> set (episode_ids (cs ! j)) = {}" if "i < length cs" "j < length cs" "i \<noteq> j" for i j
        using D distinct_concat_disjoint [of "\<lambda>i. episode_ids (cs ! i)" "[0..<length cs]" i j] that by simp
      have own: "distinct (episode_ids (cs ! i))" if "i < length cs" for i using D that by (simp add: distinct_concat_iff)
      have range: "span_at cs ms i \<subseteq> {..<length cs}" if "i < length cs" for i
        using that ok'(2) find_group [of cs i ms] by (auto simp: span_at_def grouping_def split: option.splits)
      have "distinct (concat (map (\<lambda>i. episode_ids (merged_at cs vs d ms i)) ?keep))"
      proof (rule distinct_concat_map)
        show "distinct (episode_ids (merged_at cs vs d ms i))" if "i \<in> set ?keep" for i
          using that own merged_at_distinct by simp
        fix i j assume "i \<in> set ?keep" "j \<in> set ?keep" "i \<noteq> j"
        then have ij: "i < length cs" "j < length cs" "span_at cs ms i \<inter> span_at cs ms j = {}"
          using span_disjoint [OF ok'(2)] by auto
        show "set (episode_ids (merged_at cs vs d ms i)) \<inter> set (episode_ids (merged_at cs vs d ms j)) = {}"
          unfolding merged_at_span using range [OF ij(1)] range [OF ij(2)] ij(3) apart by blast
      qed simp
      then show ?thesis by (simp add: comp_def)
    qed
    ultimately show ?thesis using ok [OF M] by blast
  qed
qed

end
