(* ===== verification/ConsolidateProps.thy ===== *)
theory ConsolidateProps
  imports ConsolidateFacts WriterProps
begin

text \<open>
  What a consolidation promises: it returns, every memory stays in one cluster at most, no memory
  leaves the clusters, and which abstractions it drops, so that the batch of the daemon builds them anew.
\<close>

section \<open>The merge of the database's clusters\<close>

lemma full_ids:
  "derived_ok d t \<Longrightarrow> distinct (map cluster_id (fetch_existing_clusters_full t cutoff n))"
  "length (fetch_existing_clusters_full t cutoff n) \<le> length (clusters t)"
proof -
  have eq: "map cluster_id (fetch_existing_clusters_full t cutoff n) =
      map cl_id (filter (\<lambda>r. comparable cutoff n r \<and> members_of (cl_id r) t \<noteq> []) (sort_key cl_id (clusters t)))"
    by (simp add: fetch_existing_clusters_full_def comp_def)
  show "distinct (map cluster_id (fetch_existing_clusters_full t cutoff n))" if "derived_ok d t"
  proof -
    have "distinct (map cl_id (sort_key cl_id (clusters t)))" using that by (simp add: derived_ok_def distinct_map)
    then show ?thesis unfolding eq by (rule distinct_map_filter)
  qed
  show "length (fetch_existing_clusters_full t cutoff n) \<le> length (clusters t)"
    using length_filter_le [of _ "sort_key cl_id (clusters t)"] by (simp add: fetch_existing_clusters_full_def)
qed

lemma merge_op_apart:
  assumes "grouping cs ms" "m \<in> set ms" "distinct (map cluster_id cs)"
  shows "survivor_id (merge_op cs vs d m) \<notin> set (loser_ids (merge_op cs vs d m))"
proof
  assume "survivor_id (merge_op cs vs d m) \<in> set (loser_ids (merge_op cs vs d m))"
  then obtain i where i: "i \<in> set m" "i \<noteq> survivor cs m" "cluster_id (cs ! i) = cluster_id (cs ! survivor cs m)"
    by (auto simp: merge_op_sel)
  have "survivor cs m \<in> set m" using assms(1,2) by (metis grouping_def survivor_in)
  then have "i < length cs" "survivor cs m < length cs" using assms(1,2) i(1) by (auto simp: grouping_def)
  then show False using i(2,3) assms(3) by (metis length_map nth_eq_iff_index_eq nth_map)
qed

lemma existing_merge_plan_ok:
  assumes "derived_ok d t" "length (clusters t) < 2 ^ 64"
  obtains (err) er where "existing_merge_plan e ce cfg cutoff n t = Some (Inl er)"
    | (ok) ms where "existing_merge_plan e ce cfg cutoff n t = Some (Inr ms)"
      "\<And>m. m \<in> set ms \<Longrightarrow> survivor_id m \<notin> set (loser_ids m)"
proof -
  let ?full = "fetch_existing_clusters_full t cutoff n"
  have len: "length ?full < 2 ^ 64" using full_ids(2) [of t cutoff n] assms(2) by linarith
  show ?thesis
  proof (cases "steward_config ce = None \<or> fails e SFullClusters \<or> length ?full < 2")
    case True
    then have "existing_merge_plan e ce cfg cutoff n t \<in> {Some (Inr []), Some (Inl Storage)}"
      by (auto simp: existing_merge_plan_def Let_def)
    then show ?thesis using ok [of "[]"] err by auto
  next
    case False
    then have eq: "existing_merge_plan e ce cfg cutoff n t = compute_merge_plan (aligned e) ?full cfg"
      by (auto simp: existing_merge_plan_def Let_def)
    show ?thesis
    proof (cases rule: compute_merge_plan_cases [OF len, of "aligned e" cfg, case_names e' ok'])
      case (e' er)
      then show ?thesis using err eq by simp
    next
      case (ok' vs k ms)
      show ?thesis
        by (rule ok [of "map (merge_op ?full vs k) ms"])
          (use eq ok' merge_op_apart [OF ok'(2) _ full_ids(1) [OF assms(1)]] in auto)
    qed
  qed
qed

lemma merge_phase_ok:
  assumes "derived_ok d t" "length (clusters t) < 2 ^ 64"
  obtains r t' where "merge_phase e ce cfg cutoff n rep t = Some (r, t')" "derived_ok d t'"
    "map snd (links t') = map snd (links t)"
proof (cases rule: existing_merge_plan_ok [OF assms, of e ce cfg cutoff n, case_names err ok])
  case (err er)
  then show ?thesis using that [of "Inl er" t] assms(1) by (simp add: merge_phase_def)
next
  case (ok ms)
  show ?thesis
  proof (cases "ms = []")
    case True
    then show ?thesis using that [of _ t] ok assms(1) by (simp add: merge_phase_def Let_def)
  next
    case False
    show ?thesis
    proof (cases "merge_tx e ms t")
      case (Inl er)
      then show ?thesis using that [of "Inl er" t] ok False assms(1) by (simp add: merge_phase_def Let_def)
    next
      case (Inr t')
      then have "apply_merges e 0 ms t = Inr t'" by (auto simp: merge_tx_def result_simps)
      from apply_merges_ok [OF this assms(1) ok(2)] show ?thesis
        using that [of _ t'] ok False Inr by (simp add: merge_phase_def Let_def)
    qed
  qed
qed

section \<open>The write of the new clusters\<close>

lemma persist_length:
  "persist_clusters e d plan i cs t = Inr t' \<Longrightarrow> length (clusters t') \<le> length (clusters t) + length cs"
proof (induction e d plan i cs t arbitrary: t' rule: persist_clusters.induct)
  case (2 e d plan i c cs t)
  show ?case
  proof (cases "absorbed_by_new plan (cluster_id c)")
    case None
    then obtain t0 t1 where t1: "insert_cluster (new_cluster_row e c) t = Inr t0"
        "insert_links e (SLinkCluster i) d (cluster_id c) 0 (episode_ids c) t0 = Inr t1"
        "persist_clusters e d plan (Suc i) cs t1 = Inr t'"
      using "2.prems" by (auto simp: result_simps)
    show ?thesis using "2.IH" [OF t1(3)] insert_links_ok [OF t1(2)] insert_cluster_ok [OF t1(1)] by auto
  next
    case (Some a)
    then obtain t1 where t1: "insert_links e (SLinkAbsorbed i) d (ab_existing_cluster_id a) 0 (episode_ids c) t = Inr t1"
        "persist_clusters e d plan (Suc i) cs t1 = Inr t'"
      using "2.prems" by (auto simp: result_simps)
    show ?thesis using "2.IH" [OF t1(2)] insert_links_ok [OF t1(1)] by auto
  qed
qed simp

lemma refresh_length: "refresh_existing e plan xs t = Inr t' \<Longrightarrow> length (clusters t') = length (clusters t)"
proof (induction e plan xs t arbitrary: t' rule: refresh_existing.induct)
  case (2 e plan x xs t)
  show ?case
  proof (cases "last_per_existing plan x")
    case None
    with 2 show ?thesis by simp
  next
    case (Some a)
    then obtain t1 where t1: "refresh_cluster x (ab_merged_centroid a) (ab_merged_coherence a) t = Inr t1"
        "refresh_existing e plan xs (delete_triples x (delete_abstractions x t1)) = Inr t'"
      using "2.prems"(1) by (auto simp: result_simps)
    have "length (clusters t1) = length (clusters t)" using refresh_cluster_ok [OF t1(1)] by (metis length_map)
    then show ?thesis using "2.IH"(2) [OF Some t1(2)] by (simp add: delete_triples_def delete_abstractions_def)
  qed
qed simp

lemma consolidate_tx_length: "consolidate_tx e d plan cs t = Inr t' \<Longrightarrow> length (clusters t') \<le> length (clusters t) + length cs"
  by (auto simp: consolidate_tx_def result_simps dest!: persist_length refresh_length)

lemma persist_phase_ok:
  assumes "derived_ok d t" "distinct (concat (map episode_ids cs))" "set (concat (map episode_ids cs)) \<inter> snd ` set (links t) = {}"
    and "length (clusters t) + length cs < 2 ^ 64"
  obtains r t' where "persist_phase e ce cfg cutoff cid d cands merged cs t = Some (r, t')" "derived_ok d t'"
    "map snd (links t') = map snd (links t) \<or> map snd (links t') = map snd (links t) @ concat (map episode_ids cs)"
proof (cases "bind_r (expected_dimension e ce cid cands) (\<lambda>n. bind_r (absorb_plan e cfg cutoff n cs t) (\<lambda>plan.
    bind_r (consolidate_tx e d plan cs t) (\<lambda>t1. Inr (n, plan, t1))))")
  case (Inl er)
  then show ?thesis using that [of "Inl er" t] assms(1) by (simp add: persist_phase_def)
next
  case (Inr x)
  obtain n plan t1 where x: "x = (n, plan, t1)" by (cases x)
  have tx: "consolidate_tx e d plan cs t = Inr t1" using Inr by (auto simp: result_simps x)
  note ok = consolidate_tx_ok [OF tx assms(1-3)]
  have len: "length (clusters t1) < 2 ^ 64" using consolidate_tx_length [OF tx] assms(4) by linarith
  have ok1: "derived_ok d t1" using ok by blast
  let ?rep = "\<lparr>cn_episodes_seen = length cands, cn_clusters_built = length cs - length plan,
             cn_episodes_clustered = sum_list (map (\<lambda>c. length (episode_ids c)) cs), cn_clusters_merged = merged,
             cn_clusters_absorbed = length plan, cn_existing_merged = 0\<rparr>"
  obtain r t' where "merge_phase e ce cfg cutoff n ?rep t1 = Some (r, t')" "derived_ok d t'" "map snd (links t') = map snd (links t1)"
    by (rule merge_phase_ok [OF ok1 len])
  then show ?thesis using that [of r t'] Inr x ok by (simp add: persist_phase_def)
qed

section \<open>The candidates\<close>

definition embeddings_unique :: "db \<Rightarrow> bool" where
  "embeddings_unique d = distinct (map (\<lambda>m. (em_memory_id m, em_embedder_id m)) (embeddings d))"

text \<open>A memory the consolidation may put into a cluster.\<close>

definition clusterable :: "db \<Rightarrow> nat \<Rightarrow> memory_id \<Rightarrow> bool" where
  "clusterable d cid mid = (\<exists>r \<in> set (episodes d). er_memory_id r = mid \<and> er_status r = Active \<and> er_tier r = Hot \<and>
     (\<exists>m \<in> set (embeddings d). em_memory_id m = mid \<and> em_embedder_id m = cid))"

lemma one_current_row:
  assumes "embeddings_unique d"
  shows "length (filter (\<lambda>m. em_memory_id m = mid \<and> em_embedder_id m = cid) (embeddings d)) \<le> 1"
proof -
  let ?ms = "filter (\<lambda>m. em_memory_id m = mid \<and> em_embedder_id m = cid) (embeddings d)"
  have "distinct (map (\<lambda>m. (em_memory_id m, em_embedder_id m)) ?ms)"
    using assms by (simp add: embeddings_unique_def distinct_map_filter)
  moreover have "set (map (\<lambda>m. (em_memory_id m, em_embedder_id m)) ?ms) \<subseteq> {(mid, cid)}" by auto
  then have "card (set (map (\<lambda>m. (em_memory_id m, em_embedder_id m)) ?ms)) \<le> card {(mid, cid)}" by (intro card_mono) auto
  ultimately show ?thesis using distinct_card [of "map (\<lambda>m. (em_memory_id m, em_embedder_id m)) ?ms"] by simp
qed

lemma short_distinct: "length xs \<le> 1 \<Longrightarrow> distinct xs"
  by (cases xs) auto

lemma candidates_ok:
  assumes "consolidation_candidates e d t cid cutoff = Inr cands" "wf_db d" "embeddings_unique d"
  shows "distinct (map (\<lambda>(ep, _). memory_id ep) cands)" "length cands \<le> length (episodes d)"
    "memory_id ` fst ` set cands \<inter> snd ` set (links t) = {}"
    "\<And>mid. mid \<in> memory_id ` fst ` set cands \<Longrightarrow> clusterable d cid mid"
proof -
  let ?rows = "candidate_rows d t cid cutoff"
  let ?sel = "sort_key (\<lambda>r. (er_ts_ms r, er_rowid r)) (filter (\<lambda>r. er_status r = Active \<and> er_tier r = Hot \<and>
     since cutoff (er_ts_ms r) \<and> er_memory_id r \<notin> snd ` set (links t)) (episodes d))"
  let ?cur = "\<lambda>r. filter (\<lambda>m. em_memory_id m = er_memory_id r \<and> em_embedder_id m = cid) (embeddings d)"
  have cands: "cands = map candidate_of ?rows"
    using assms(1) by (auto simp: consolidation_candidates_def result_simps split: if_splits)
  have ids: "map (\<lambda>(ep, _). memory_id ep) cands = concat (map (\<lambda>r. map (\<lambda>_. er_memory_id r) (?cur r)) ?sel)"
    by (simp add: cands candidate_rows_def candidate_of_def map_concat comp_def case_prod_unfold)
  show dist: "distinct (map (\<lambda>(ep, _). memory_id ep) cands)"
    unfolding ids
  proof (rule distinct_concat_map)
    show "distinct ?sel" using assms(2) by (simp add: wf_db_def distinct_map)
    show "distinct (map (\<lambda>_. er_memory_id r) (?cur r))" for r
      by (rule short_distinct) (use one_current_row [OF assms(3)] in simp)
    fix r s assume "r \<in> set ?sel" "s \<in> set ?sel" "r \<noteq> s"
    then have "er_memory_id r \<noteq> er_memory_id s" using assms(2) by (auto simp: wf_db_def distinct_map inj_on_def)
    then show "set (map (\<lambda>_. er_memory_id r) (?cur r)) \<inter> set (map (\<lambda>_. er_memory_id s) (?cur s)) = {}" by auto
  qed
  have sub: "set (map (\<lambda>(ep, _). memory_id ep) cands) \<subseteq> er_memory_id ` set (episodes d)" unfolding ids by auto
  have "length cands = card (set (map (\<lambda>(ep, _). memory_id ep) cands))" using dist by (metis distinct_card length_map)
  also have "\<dots> \<le> card (er_memory_id ` set (episodes d))" using sub by (simp add: card_mono)
  also have "\<dots> \<le> length (episodes d)" by (metis card_length length_map list.set_map)
  finally show "length cands \<le> length (episodes d)" .
  have "\<exists>r m. (r, m) \<in> set ?rows \<and> er_memory_id r = mid" if "mid \<in> memory_id ` fst ` set cands" for mid
    using that by (auto simp: cands candidate_of_def split: prod.splits)
  then have row: "\<exists>r m. r \<in> set (episodes d) \<and> er_memory_id r = mid \<and> er_status r = Active \<and> er_tier r = Hot \<and>
      mid \<notin> snd ` set (links t) \<and> m \<in> set (embeddings d) \<and> em_memory_id m = mid \<and> em_embedder_id m = cid"
    if "mid \<in> memory_id ` fst ` set cands" for mid
    using that by (fastforce simp: candidate_rows_def)
  show "memory_id ` fst ` set cands \<inter> snd ` set (links t) = {}" using row by blast
  show "clusterable d cid mid" if "mid \<in> memory_id ` fst ` set cands" for mid
    using row [OF that] unfolding clusterable_def by blast
qed

section \<open>Properties\<close>

definition grown :: "db \<Rightarrow> nat option \<Rightarrow> derived \<Rightarrow> derived \<Rightarrow> bool" where
  "grown d eid t t' =
     (derived_ok d t' \<and> snd ` set (links t) \<subseteq> snd ` set (links t') \<and>
      (\<forall>mid \<in> snd ` set (links t') - snd ` set (links t). \<exists>cid. eid = Some cid \<and> clusterable d cid mid))"

lemma grown_refl: "derived_ok d t \<Longrightarrow> grown d eid t t"
  by (simp add: grown_def)

lemma grown_append:
  assumes "derived_ok d t'" "map snd (links t') = map snd (links t) @ mids" "\<And>mid. mid \<in> set mids \<Longrightarrow> clusterable d cid mid"
  shows "grown d (Some cid) t t'"
proof -
  have "snd ` set (links t') = snd ` set (links t) \<union> set mids" using arg_cong [OF assms(2), of set] by simp
  then show ?thesis using assms by (auto simp: grown_def)
qed

definition nothing_clustered :: ConsolidationReport where
  "nothing_clustered = \<lparr>cn_episodes_seen = 0, cn_clusters_built = 0, cn_episodes_clustered = 0,
     cn_clusters_merged = 0, cn_clusters_absorbed = 0, cn_existing_merged = 0\<rparr>"

text \<open>A run ends before the clusters are written, or writes clusters that share no memory with each other or the tables.\<close>

lemma consolidate_impl_cases:
  assumes wf: "wf_db d" "embeddings_unique d" and len: "length (episodes d) < 2 ^ 64"
    and order: "\<And>gs. mset (hash_groups ce gs) = mset gs" and fresh: "inj (fresh_ids ce)"
    and cfg: "pred_option steward_ok (steward_config ce)"
  obtains (err) er where "handle_consolidate_impl e ce scope eid d t = Some (Inl er, t)"
    | (none) "handle_consolidate_impl e ce scope eid d t = Some (Inr nothing_clustered, t)"
    | (clustered) cid cands cf k cs where
        "handle_consolidate_impl e ce scope eid d t = persist_phase e ce cf (cutoff_ms e scope) cid d cands k cs t"
        "eid = Some cid" "consolidation_candidates e d t cid (cutoff_ms e scope) = Inr cands"
        "distinct (map cluster_id cs)" "distinct (concat (map episode_ids cs))"
        "set (concat (map episode_ids cs)) \<inter> snd ` set (links t) = {}"
        "\<And>mid. mid \<in> set (concat (map episode_ids cs)) \<Longrightarrow> clusterable d cid mid"
        "length cs \<le> length (episodes d)" "set (concat (map episode_ids cs)) \<subseteq> memory_id ` fst ` set cands"
proof -
  let ?cutoff = "cutoff_ms e scope"
  show ?thesis
  proof (cases "bind_r (ok_or eid Other) (\<lambda>cid. bind_r (consolidation_candidates e d t cid ?cutoff) (\<lambda>cands. Inr (cid, cands)))")
    case (Inl er)
    then show ?thesis using err by (simp add: handle_consolidate_impl_def Let_def)
  next
    case (Inr x)
    obtain cid cands where x: "x = (cid, cands)" by (cases x)
    have eid: "eid = Some cid" and c: "consolidation_candidates e d t cid ?cutoff = Inr cands"
      using Inr by (auto simp: result_simps x)
    note cs = candidates_ok [OF c wf]
    show ?thesis
    proof (cases "cands = [] \<and> \<not> force_merge scope")
      case True
      then show ?thesis using Inr x none by (simp add: handle_consolidate_impl_def Let_def nothing_clustered_def)
    next
      case False
      define conf where "conf = (case steward_config ce of Some c \<Rightarrow> Inr c | None \<Rightarrow> from_env (steward_vars ce))"
      show ?thesis
      proof (cases conf)
        case (Inl er)
        then show ?thesis using Inr x False err by (simp add: handle_consolidate_impl_def Let_def conf_def)
      next
        case conf: (Inr cf)
        have sok: "steward_ok cf" using conf cfg from_env_ok by (auto simp: conf_def split: option.splits)
        have clen: "length cands < 2 ^ 64" using cs(2) len by linarith
        obtain r where r: "cluster_episodes (aligned e) (hash_groups ce) (fresh_ids ce) cands cf = Some r"
          using cluster_episodes_returns [OF sok order clen] by blast
        have step: "handle_consolidate_impl e ce scope eid d t =
            (case r of Inl er \<Rightarrow> Some (Inl er, t)
             | Inr cs0 \<Rightarrow> Option.bind (merge_clusters_by_centroid (aligned e) cs0 cf) (\<lambda>(r1, cs).
                 case r1 of Inl er \<Rightarrow> Some (Inl er, t)
                 | Inr merged \<Rightarrow> persist_phase e ce cf ?cutoff cid d cands merged cs t))"
          using False Inr [unfolded x] conf [unfolded conf_def] r
          by (cases cands; cases "force_merge scope") (simp_all add: handle_consolidate_impl_def Let_def cong: sum.case_cong)
        show ?thesis
        proof (cases r)
          case (Inl er)
          then show ?thesis using step err by simp
        next
          case r': (Inr cs0)
          have r'': "cluster_episodes (aligned e) (hash_groups ce) (fresh_ids ce) cands cf = Some (Inr cs0)" using r r' by simp
          note dj = clusters_disjoint [OF r'' sok clen order cs(1)]
          obtain n where "mset (map cluster_id cs0) = mset (map (fresh_ids ce) [0..<n])" using dj(4) by blast
          then have ids: "distinct (map cluster_id cs0)"
            using fresh by (metis distinct_map distinct_upt inj_on_subset mset_eq_imp_distinct_iff subset_UNIV)
          have len0: "length cs0 < 2 ^ 64" using dj(3) clen by linarith
          show ?thesis
          proof (cases rule: merge_clusters_ok [OF ids len0, of "aligned e" cf, case_names err' ok'])
            case (err' er)
            then show ?thesis using step r' err by simp
          next
            case (ok' k cs')
            have mids: "set (concat (map episode_ids cs')) \<subseteq> memory_id ` fst ` set cands" using dj(2) ok'(3) by simp
            show ?thesis
            proof (rule clustered [OF _ eid c])
              show "handle_consolidate_impl e ce scope eid d t = persist_phase e ce cf ?cutoff cid d cands k cs' t"
                using step r' ok'(1) by simp
              show "set (concat (map episode_ids cs')) \<inter> snd ` set (links t) = {}" using mids cs(3) by blast
              show "distinct (concat (map episode_ids cs'))" using ok'(2) dj(1) by blast
              show "clusterable d cid mid" if "mid \<in> set (concat (map episode_ids cs'))" for mid using cs(4) mids that by blast
              show "length cs' \<le> length (episodes d)" using ok'(6) dj(3) cs(2) by linarith
              show "distinct (map cluster_id cs')" using ids ok' by simp
              show "set (concat (map episode_ids cs')) \<subseteq> memory_id ` fst ` set cands" by (rule mids)
            qed
          qed
        qed
      qed
    qed
  qed
qed

lemma handle_consolidate_impl_ok:
  assumes ok: "derived_ok d t" and wf: "wf_db d" "embeddings_unique d" and len: "length (clusters t) + length (episodes d) < 2 ^ 64"
    and order: "\<And>gs. mset (hash_groups ce gs) = mset gs" and fresh: "inj (fresh_ids ce)"
    and cfg: "pred_option steward_ok (steward_config ce)"
  shows "\<exists>r t'. handle_consolidate_impl e ce scope eid d t = Some (r, t') \<and> grown d eid t t'"
proof -
  have len': "length (episodes d) < 2 ^ 64" using len by linarith
  note same = grown_refl [OF ok, of eid]
  show ?thesis
  proof (cases rule: consolidate_impl_cases [OF wf len' order fresh cfg, of e scope eid t, case_names err none clustered])
    case (clustered cid cands cf k cs)
    have plen: "length (clusters t) + length cs < 2 ^ 64" using clustered(8) len by linarith
    obtain r t' where p: "persist_phase e ce cf (cutoff_ms e scope) cid d cands k cs t = Some (r, t')" "derived_ok d t'"
        "map snd (links t') = map snd (links t) \<or> map snd (links t') = map snd (links t) @ concat (map episode_ids cs)"
      by (rule persist_phase_ok [OF ok clustered(5,6) plen])
    have "grown d (Some cid) t t'"
      using p(3) grown_append [OF p(2), of t "[]" cid] grown_append [OF p(2), of t "concat (map episode_ids cs)" cid, OF _ clustered(7)]
      by (elim disjE) simp_all
    then show ?thesis using clustered(1,2) p(1) by simp
  qed (use same in simp_all)
qed

lemma dispatch_consolidate_run:
  assumes "\<not> (embedder w \<noteq> None \<and> refuse_stub ce)"
    and "handle_consolidate_impl e ce scope (embedder_id w) (wdb w) t = Some (r, t')"
  obtains w' where "dispatch_consolidate e ce scope p w t = Some (r, w', t')" "same_tables (wdb w) (wdb w')"
proof -
  have "\<exists>w'. dispatch_consolidate e ce scope p w t = Some (r, w', t') \<and> same_tables (wdb w) (wdb w')"
    unfolding dispatch_consolidate_def handle_consolidate_def if_not_P [OF assms(1)] assms(2)
    by (cases r) (simp_all add: frame_simps)
  with that show ?thesis by blast
qed

lemma derived_ok_same: "same_tables d d' \<Longrightarrow> derived_ok d t = derived_ok d' t"
  by (cases d; cases d') (simp add: same_tables_def derived_ok_def)

end
