(* ===== verification/AbsorbProps.thy ===== *)
theory AbsorbProps
  imports ClusterMergeProps
begin

text \<open>
  What absorbing new clusters into existing ones promises, and the choice it makes between them.
\<close>

section \<open>The plan\<close>

lemma views_length: "views al es = Inr vs \<Longrightarrow> length vs = length es"
  by (induction es arbitrary: vs) (auto simp: result_simps split: option.splits)

definition fits :: "StewardConfig \<Rightarrow> working list \<Rightarrow> nat \<Rightarrow> nat \<Rightarrow> bool" where
  "fits cfg ws n i = (i < length ws \<and> w_count (ws ! i) + n \<le> cluster_cap cfg)"

lemma best_step_ok: "pred_option (fits cfg ws n) (fst st) \<Longrightarrow> j < length ws \<Longrightarrow> pred_option (fits cfg ws n) (fst (best_step cfg ws n v st j))"
  by (cases st) (simp add: best_step_def Let_def fits_def)

lemma best_existing_ok:
  assumes "best_existing cfg ws n v = Some i"
  shows "i < length ws \<and> w_count (ws ! i) + n \<le> cluster_cap cfg"
proof -
  have "pred_option (fits cfg ws n) (fst st) \<Longrightarrow> set js \<subseteq> {..<length ws} \<Longrightarrow>
      pred_option (fits cfg ws n) (fst (foldl (best_step cfg ws n v) st js))" for st js
    by (induction js arbitrary: st) (simp_all add: best_step_ok)
  from this [of "(None, cluster_cosine_threshold cfg)" "[0..<length ws]"]
  have "pred_option (fits cfg ws n) (best_existing cfg ws n v)" by (simp add: best_existing_def atLeast0LessThan)
  then show ?thesis using assms by (simp add: fits_def)
qed

lemma absorb_one_sel [simp]:
  "w_id (absorb_one d w n v) = w_id w" "w_count (absorb_one d w n v) = w_count w + length (episode_ids n)"
  by (simp_all add: absorb_one_def Let_def)

definition absorbed_into :: "memory_id \<Rightarrow> AbsorbedCluster list \<Rightarrow> nat" where
  "absorbed_into k plan = sum_list (map (\<lambda>a. length (ab_episode_ids a)) (filter (\<lambda>a. ab_existing_cluster_id a = k) plan))"

lemma absorb_loop_ok:
  assumes "absorb_loop al cfg d ns ws = Inr plan" "distinct (map w_id ws)"
  shows "subseq (map (\<lambda>a. (ab_new_cluster_id a, ab_episode_ids a)) plan) (map (\<lambda>c. (cluster_id c, episode_ids c)) ns) \<and>
    ab_existing_cluster_id ` set plan \<subseteq> w_id ` set ws \<and>
    (\<forall>w \<in> set ws. w_id w \<in> ab_existing_cluster_id ` set plan \<longrightarrow> w_count w + absorbed_into (w_id w) plan \<le> cluster_cap cfg)"
  using assms
proof (induction al cfg d ns ws arbitrary: plan rule: absorb_loop.induct)
  case (2 al cfg d n ns ws)
  from "2.prems"(1) obtain v where v: "Option.bind (centroid n) (as_f32_slice al) = Some v"
    by (auto split: option.splits)
  show ?case
  proof (cases "best_existing cfg ws (length (episode_ids n)) v")
    case None
    then have "absorb_loop al cfg d ns ws = Inr plan" using "2.prems"(1) v by simp
    from "2.IH"(1) [OF v None this "2.prems"(2)] show ?thesis by auto
  next
    case (Some i)
    let ?w = "absorb_one d (ws ! i) n v"
    obtain rest where rest: "absorb_loop al cfg d ns (ws[i := ?w]) = Inr rest"
      "plan = \<lparr>ab_new_cluster_id = cluster_id n, ab_existing_cluster_id = w_id (ws ! i),
                ab_merged_centroid = embedding_of d (w_centroid ?w), ab_merged_coherence = w_coherence ?w,
                ab_episode_ids = episode_ids n\<rparr> # rest"
      using "2.prems"(1) v Some by (auto simp: Let_def result_simps)
    have i: "i < length ws" "w_count (ws ! i) + length (episode_ids n) \<le> cluster_cap cfg"
      using best_existing_ok [OF Some] by auto
    have ids: "map w_id (ws[i := ?w]) = map w_id ws"
      using i(1) by (simp add: map_update list_update_same_conv)
    have IH: "subseq (map (\<lambda>a. (ab_new_cluster_id a, ab_episode_ids a)) rest) (map (\<lambda>c. (cluster_id c, episode_ids c)) ns)"
      "ab_existing_cluster_id ` set rest \<subseteq> w_id ` set (ws[i := ?w])"
      "\<And>w. w \<in> set (ws[i := ?w]) \<Longrightarrow> w_id w \<in> ab_existing_cluster_id ` set rest \<Longrightarrow>
         w_count w + absorbed_into (w_id w) rest \<le> cluster_cap cfg"
      using "2.IH"(2) [OF v Some refl rest(1)] "2.prems"(2) unfolding ids by auto
    have total: "absorbed_into k plan = (if k = w_id (ws ! i) then length (episode_ids n) + absorbed_into k rest else absorbed_into k rest)" for k
      using rest(2) by (simp add: absorbed_into_def)
    have none: "absorbed_into k rest = 0" if "k \<notin> ab_existing_cluster_id ` set rest" for k
      using that by (auto simp: absorbed_into_def filter_empty_conv)
    have "w_count w + absorbed_into (w_id w) plan \<le> cluster_cap cfg"
      if w: "w \<in> set ws" "w_id w \<in> ab_existing_cluster_id ` set plan" for w
    proof (cases "w_id w = w_id (ws ! i)")
      case True
      obtain j where "j < length ws" "w = ws ! j" using w(1) by (auto simp: in_set_conv_nth)
      then have "w = ws ! i" using True "2.prems"(2) i(1) nth_eq_iff_index_eq [of "map w_id ws" j i] by simp
      moreover have "?w \<in> set (ws[i := ?w])" using i(1) by (rule set_update_memI)
      ultimately show ?thesis
        using IH(3) [of ?w] i(2) none [of "w_id (ws ! i)"] total by (cases "w_id (ws ! i) \<in> ab_existing_cluster_id ` set rest") simp_all
    next
      case False
      then have "w \<in> set (ws[i := ?w])" using w(1) i(1) by (auto simp: in_set_conv_nth nth_list_update)
      then show ?thesis using IH(3) [of w] w(2) False rest(2) total by simp
    qed
    moreover have "ab_existing_cluster_id ` set plan \<subseteq> w_id ` set ws"
      using IH(2) i(1) ids rest(2) by (metis (no_types, lifting) AbsorbedCluster.select_convs(2) image_insert insert_subset list.set(2) list.set_map nth_mem imageI)
    ultimately show ?thesis using IH(1) rest(2) by simp
  qed
qed simp

lemma absorb_into_existing_ok:
  assumes "absorb_into_existing al new existing cfg = Inr plan" "distinct (map ex_cluster_id existing)"
  shows "subseq (map (\<lambda>a. (ab_new_cluster_id a, ab_episode_ids a)) plan) (map (\<lambda>c. (cluster_id c, episode_ids c)) new) \<and>
    ab_existing_cluster_id ` set plan \<subseteq> ex_cluster_id ` set existing \<and>
    (\<forall>s \<in> set existing. ex_cluster_id s \<in> ab_existing_cluster_id ` set plan \<longrightarrow>
       ex_episode_count s + absorbed_into (ex_cluster_id s) plan \<le> cluster_cap cfg)"
proof (cases "new = [] \<or> existing = []")
  case True
  then have "plan = []" using assms(1) by (auto simp: absorb_into_existing_def split: list.splits)
  then show ?thesis by simp
next
  case False
  then obtain n0 ns e0 es where ne: "new = n0 # ns" "existing = e0 # es" by (auto simp: neq_Nil_conv)
  have "bind_r (views al (map ex_centroid existing)) (\<lambda>vs. absorb_loop al cfg (dim (ex_centroid e0)) new (working_of existing vs)) = Inr plan"
    using assms(1) unfolding absorb_into_existing_def ne Let_def list.case prod.case by (auto simp only: result_simps)
  then obtain vs d where vs: "views al (map ex_centroid existing) = Inr vs" "absorb_loop al cfg d new (working_of existing vs) = Inr plan"
    by (auto simp only: result_simps)
  have len: "length vs = length existing" using views_length [OF vs(1)] by simp
  have ids: "map w_id (working_of existing vs) = map ex_cluster_id existing"
  proof -
    have "map w_id (working_of existing vs) = map ex_cluster_id (map fst (zip existing vs))"
      by (simp add: working_of_def comp_def case_prod_unfold)
    then show ?thesis using len by (simp only: map_fst_zip)
  qed
  have mem: "\<exists>w \<in> set (working_of existing vs). w_id w = ex_cluster_id s \<and> w_count w = ex_episode_count s" if s: "s \<in> set existing" for s
  proof -
    obtain v where "(s, v) \<in> set (zip existing vs)" using s len by (metis in_set_impl_in_set_zip1)
    then show ?thesis unfolding working_of_def by force
  qed
  have "distinct (map w_id (working_of existing vs))" using assms(2) ids by simp
  note loop = absorb_loop_ok [OF vs(2) this]
  have "w_id ` set (working_of existing vs) = ex_cluster_id ` set existing" using ids by (metis list.set_map)
  then show ?thesis using loop mem by metis
qed

section \<open>Properties\<close>

text \<open>
  C23: absorbing never overfills a cluster. In the plan of a success every new cluster occurs at most
  once and with all its episodes, in the old order; it goes into one of the existing clusters; and
  an existing cluster together with all that it absorbs is not larger than the maximum.
\<close>

theorem absorption_respects_the_cap:
  assumes "absorb_into_existing al new existing cfg = Inr plan" "distinct (map ex_cluster_id existing)"
  shows "subseq (map (\<lambda>a. (ab_new_cluster_id a, ab_episode_ids a)) plan) (map (\<lambda>c. (cluster_id c, episode_ids c)) new) \<and>
    ab_existing_cluster_id ` set plan \<subseteq> ex_cluster_id ` set existing \<and>
    (\<forall>s \<in> set existing. ex_cluster_id s \<in> ab_existing_cluster_id ` set plan \<longrightarrow>
       ex_episode_count s + absorbed_into (ex_cluster_id s) plan \<le> cluster_cap cfg)"
  by (rule absorb_into_existing_ok [OF assms])

section \<open>Two existing clusters\<close>

text \<open>To the new one the first is larger and less similar, 0.6, the second smaller and more similar, 0.8.\<close>

definition larger_one :: ExistingClusterSummary where
  "larger_one = \<lparr>ex_cluster_id = 1, ex_centroid = embedding_of 2 [0x40400000, 0x40800000], ex_coherence = 0x3F800000, ex_episode_count = 5\<rparr>"

definition closer_one :: ExistingClusterSummary where
  "closer_one = \<lparr>ex_cluster_id = 2, ex_centroid = embedding_of 2 [0x40800000, 0x40400000], ex_coherence = 0x3F800000, ex_episode_count = 3\<rparr>"

lemma example_roots: "f32_sqrt 0x3F800000 = 0x3F800000" "f32_sqrt 0x41C80000 = 0x40A00000"
proof -
  have "isqrt (4096 * 2 ^ 64 * (4096 * 2 ^ 64)) = 4096 * 2 ^ 64" "isqrt (5120 * 2 ^ 64 * (5120 * 2 ^ 64)) = 5120 * 2 ^ 64"
    by (rule isqrt_square)+
  then show "f32_sqrt 0x3F800000 = 0x3F800000" "f32_sqrt 0x41C80000 = 0x40A00000" by (simp_all add: f32_eval)
qed

lemma example_products:
  "f32_mul 0x3F800000 0x40400000 = 0x40400000" "f32_mul 0x3F800000 0x40800000 = 0x40800000" "f32_mul 0 0x40400000 = 0"
  "f32_mul 0 0x40800000 = 0" "f32_mul 0x3F800000 0x3F800000 = 0x3F800000" "f32_mul 0 0 = 0"
  "f32_mul 0x40400000 0x40400000 = 0x41100000" "f32_mul 0x40800000 0x40800000 = 0x41800000"
  "f32_mul 0x3F800000 0x40A00000 = 0x40A00000"
  by (simp_all add: f32_eval)

lemma example_sums:
  "f32_add 0 0x40400000 = 0x40400000" "f32_add 0x40400000 0 = 0x40400000" "f32_add 0 0x40800000 = 0x40800000"
  "f32_add 0x40800000 0 = 0x40800000" "f32_add 0 0x3F800000 = 0x3F800000" "f32_add 0x3F800000 0 = 0x3F800000"
  "f32_add 0 0x41100000 = 0x41100000" "f32_add 0 0x41800000 = 0x41800000"
  "f32_add 0x41100000 0x41800000 = 0x41C80000" "f32_add 0x41800000 0x41100000 = 0x41C80000"
  by (simp_all add: f32_eval)

lemma example_cosines:
  "cosine_similarity_f32 [0x3F800000, 0] [0x40400000, 0x40800000] = 0x3F19999A"
  "cosine_similarity_f32 [0x3F800000, 0] [0x40800000, 0x40400000] = 0x3F4CCCCD"
proof -
  have "f32_div 0x40400000 0x40A00000 = 0x3F19999A" "f32_div 0x40800000 0x40A00000 = 0x3F4CCCCD"
    "\<not> f32_le 0x40A00000 0x34000000" "f32_neg (f32_lit 1 0) = 0xBF800000" "f32_lit 1 0 = 0x3F800000"
    "f32_clamp 0xBF800000 0x3F800000 0x3F19999A = 0x3F19999A" "f32_clamp 0xBF800000 0x3F800000 0x3F4CCCCD = 0x3F4CCCCD"
    by (simp_all add: f32_eval)
  then show "cosine_similarity_f32 [0x3F800000, 0] [0x40400000, 0x40800000] = 0x3F19999A"
    "cosine_similarity_f32 [0x3F800000, 0] [0x40800000, 0x40400000] = 0x3F4CCCCD"
    by (simp_all add: cosine_similarity_f32_def f32_epsilon_def example_roots example_products example_sums)
qed

text \<open>
  Which existing cluster absorbs a new one depends on the order of the list, and need not be the
  best match. The comment says that the best match is taken and that among several over the threshold the
  one with the most episodes wins. With the larger and less similar cluster first, the loop stays
  with it although the second is more similar; with the more similar one first, it never looks
  at the size of the other.
\<close>

theorem absorption_depends_on_order:
  "\<exists>p q. absorb_into_existing (\<lambda>_. True) [new_one] [larger_one, closer_one] steward_default = Inr p \<and>
     absorb_into_existing (\<lambda>_. True) [new_one] [closer_one, larger_one] steward_default = Inr q \<and>
     map ab_existing_cluster_id p = [ex_cluster_id larger_one] \<and> map ab_existing_cluster_id q = [ex_cluster_id closer_one] \<and>
     ex_episode_count closer_one < ex_episode_count larger_one \<and>
     f32_lt (cosine_similarity_f32 [0x3F800000, 0] [0x40400000, 0x40800000]) (cosine_similarity_f32 [0x3F800000, 0] [0x40800000, 0x40400000])"
proof -
  have c: "f32_le (f32_lit 55 2) 0x3F19999A" "f32_le (f32_lit 55 2) 0x3F4CCCCD" "f32_le 0x3F19999A 0x3F4CCCCD"
    "\<not> f32_le 0x3F4CCCCD 0x3F19999A" "f32_lt 0x3F19999A 0x3F4CCCCD"
    by (simp_all add: f32_eval)
  show ?thesis
    by (simp add: absorb_into_existing_def new_one_def larger_one_def closer_one_def embedding_view working_of_def best_existing_def
        best_step_def cluster_cap_def steward_default_def example_cosines c Let_def upt_conv_Cons)
qed


theorem absorption_respects_the_cap_witness:
  "\<exists>p. absorb_into_existing (\<lambda>_. True) [new_one] [larger_one, closer_one] steward_default = Inr p \<and>
     ab_existing_cluster_id ` set p \<subseteq> {1, 2}"
proof -
  have "\<exists>p. absorb_into_existing (\<lambda>_. True) [new_one] [larger_one, closer_one] steward_default = Inr p"
    by (simp add: absorb_into_existing_def new_one_def larger_one_def closer_one_def embedding_view Let_def split: option.split)
  then obtain p where p: "absorb_into_existing (\<lambda>_. True) [new_one] [larger_one, closer_one] steward_default = Inr p" by blast
  moreover have "distinct (map ex_cluster_id [larger_one, closer_one])" by (simp add: larger_one_def closer_one_def)
  from absorption_respects_the_cap [OF p this]
  have "ab_existing_cluster_id ` set p \<subseteq> ex_cluster_id ` set [larger_one, closer_one]" by blast
  then have "ab_existing_cluster_id ` set p \<subseteq> {1, 2}" by (simp add: larger_one_def closer_one_def)
  ultimately show ?thesis by blast
qed

end
