(* ===== verification/ConsolidateRuns.thy ===== *)
theory ConsolidateRuns
  imports ConsolidateProps AbsorbProps
begin

text \<open>
  What the report of a consolidation counts, and which clusters the batch of the daemon builds an
  abstraction for afterwards: every cluster whose members the first transaction changed, none
  whose members the second one changed.
\<close>

section \<open>Members\<close>

lemma members_of_append: "members_of x (t\<lparr>links := links t @ map (Pair c) mids\<rparr>) = (if x = c then members_of x t @ mids else members_of x t)"
  by (simp add: members_of_def comp_def)

lemma members_of_cong: "links t' = links t \<Longrightarrow> members_of x t' = members_of x t"
  by (simp add: members_of_def)

lemma persist_members:
  "persist_clusters e d plan i cs t = Inr t' \<Longrightarrow> x \<in> cl_id ` set (clusters t) \<Longrightarrow>
   x \<notin> ab_existing_cluster_id ` set plan \<Longrightarrow> members_of x t' = members_of x t"
proof (induction e d plan i cs t arbitrary: t' rule: persist_clusters.induct)
  case (2 e d plan i c cs t)
  show ?case
  proof (cases "absorbed_by_new plan (cluster_id c)")
    case None
    then obtain t0 t1 where t1: "insert_cluster (new_cluster_row e c) t = Inr t0"
        "insert_links e (SLinkCluster i) d (cluster_id c) 0 (episode_ids c) t0 = Inr t1"
        "persist_clusters e d plan (Suc i) cs t1 = Inr t'"
      using "2.prems"(1) by (auto simp: result_simps)
    note ins = insert_cluster_ok [OF t1(1)] and lnk = insert_links_ok [OF t1(2)]
    have "x \<noteq> cluster_id c" using "2.prems"(2) ins unfolding new_cluster_row_def cluster_row.select_convs by blast
    then have "members_of x t1 = members_of x t" using ins lnk by (simp add: members_of_def comp_def)
    moreover have "x \<in> cl_id ` set (clusters t1)" using "2.prems"(2) ins lnk by simp
    ultimately show ?thesis using "2.IH" [OF t1(3)] "2.prems"(3) by simp
  next
    case (Some a)
    then obtain t1 where t1: "insert_links e (SLinkAbsorbed i) d (ab_existing_cluster_id a) 0 (episode_ids c) t = Inr t1"
        "persist_clusters e d plan (Suc i) cs t1 = Inr t'"
      using "2.prems"(1) by (auto simp: result_simps)
    note lnk = insert_links_ok [OF t1(1)]
    have "a \<in> set plan" using Some by (auto simp: absorbed_by_new_def dest!: map_of_SomeD)
    then have "x \<noteq> ab_existing_cluster_id a" using "2.prems"(3) by auto
    then have "members_of x t1 = members_of x t" using lnk members_of_append by simp
    then show ?thesis using "2.IH" [OF t1(2)] "2.prems"(2,3) lnk by simp
  qed
qed simp

lemma consolidate_tx_marks:
  assumes tx: "consolidate_tx e d plan cs t = Inr t'" "derived_ok d t" "distinct (concat (map episode_ids cs))"
    and "set (concat (map episode_ids cs)) \<inter> snd ` set (links t) = {}"
    and "members_of (cl_id r) t' \<noteq> members_of (cl_id r) t"
  shows "needs_abstraction t' r"
proof -
  have abs: "abstractions t' = filter (\<lambda>a. sa_cluster_id a \<notin> ab_existing_cluster_id ` set plan) (abstractions t)"
    using consolidate_tx_ok [OF assms(1-4)] by blast
  let ?xs = "sort (remdups (map ab_existing_cluster_id plan))"
  obtain t1 where t1: "persist_clusters e d plan 0 cs t = Inr t1" "refresh_existing e plan ?xs t1 = Inr t'"
    using tx(1) by (auto simp: consolidate_tx_def result_simps)
  have "derived_ok d t1" using persist_clusters_ok [OF t1(1) assms(2-4)] by blast
  then have "members_of (cl_id r) t' = members_of (cl_id r) t1" using refresh_existing_ok [OF t1(2)] members_of_cong by blast
  then have "cl_id r \<in> ab_existing_cluster_id ` set plan \<or> cl_id r \<notin> cl_id ` set (clusters t)"
    using persist_members [OF t1(1), of "cl_id r"] assms(5) by auto
  moreover have "sa_cluster_id a \<in> cl_id ` set (clusters t) - ab_existing_cluster_id ` set plan" if "a \<in> set (abstractions t')" for a
    using that assms(2) by (auto simp: abs derived_ok_def)
  ultimately have "cl_id r \<notin> sa_cluster_id ` set (abstractions t')" by (metis DiffE imageE)
  then show ?thesis by (simp add: needs_abstraction_def)
qed

section \<open>Counts\<close>

lemma map_of_rev_None: "map_of (rev (map (\<lambda>a. (f a, a)) xs)) k = None \<longleftrightarrow> k \<notin> f ` set xs"
  by (simp add: map_of_eq_None_iff image_image)

lemma persist_count:
  "persist_clusters e d plan i cs t = Inr t' \<Longrightarrow>
   length (clusters t') = length (clusters t) + length (filter (\<lambda>c. cluster_id c \<notin> ab_new_cluster_id ` set plan) cs)"
proof (induction e d plan i cs t arbitrary: t' rule: persist_clusters.induct)
  case (2 e d plan i c cs t)
  show ?case
  proof (cases "absorbed_by_new plan (cluster_id c)")
    case None
    then have out: "cluster_id c \<notin> ab_new_cluster_id ` set plan" unfolding absorbed_by_new_def by (rule iffD1 [OF map_of_rev_None])
    from None obtain t0 t1 where t1: "insert_cluster (new_cluster_row e c) t = Inr t0"
        "insert_links e (SLinkCluster i) d (cluster_id c) 0 (episode_ids c) t0 = Inr t1"
        "persist_clusters e d plan (Suc i) cs t1 = Inr t'"
      using "2.prems" by (auto simp: result_simps)
    show ?thesis using "2.IH" [OF t1(3)] insert_links_ok [OF t1(2)] insert_cluster_ok [OF t1(1)] out by simp
  next
    case (Some a)
    then have "absorbed_by_new plan (cluster_id c) \<noteq> None" by simp
    then have inn: "cluster_id c \<in> ab_new_cluster_id ` set plan" unfolding absorbed_by_new_def map_of_rev_None by blast
    from Some obtain t1 where t1: "insert_links e (SLinkAbsorbed i) d (ab_existing_cluster_id a) 0 (episode_ids c) t = Inr t1"
        "persist_clusters e d plan (Suc i) cs t1 = Inr t'"
      using "2.prems" by (auto simp: result_simps)
    show ?thesis using "2.IH" [OF t1(2)] insert_links_ok [OF t1(1)] inn by simp
  qed
qed simp

lemma subseq_sub: "subseq xs ys \<Longrightarrow> set xs \<subseteq> set ys \<and> (distinct ys \<longrightarrow> distinct xs)"
  by (induction rule: list_emb.induct) auto

lemma filter_out_length:
  assumes "distinct xs" "set xs \<subseteq> set ys" "distinct ys"
  shows "length (filter (\<lambda>y. y \<notin> set xs) ys) + length xs = length ys"
proof -
  have "length (filter (\<lambda>y. y \<notin> set xs) ys) = card (set ys - set xs)"
    using assms(3) distinct_card [of "filter (\<lambda>y. y \<notin> set xs) ys"] by (simp add: set_diff_eq)
  then show ?thesis using assms by (metis List.finite_set card_Diff_subset card_mono distinct_card le_add_diff_inverse2)
qed

lemma consolidate_tx_count:
  assumes "consolidate_tx e d plan cs t = Inr t'" "distinct (map cluster_id cs)"
    and "subseq (map ab_new_cluster_id plan) (map cluster_id cs)"
  shows "length (clusters t') = length (clusters t) + (length cs - length plan)"
proof -
  obtain t1 where t1: "persist_clusters e d plan 0 cs t = Inr t1"
      "refresh_existing e plan (sort (remdups (map ab_existing_cluster_id plan))) t1 = Inr t'"
    using assms(1) by (auto simp: consolidate_tx_def result_simps)
  have "length (filter (\<lambda>c. cluster_id c \<notin> ab_new_cluster_id ` set plan) cs) =
      length (filter (\<lambda>y. y \<notin> set (map ab_new_cluster_id plan)) (map cluster_id cs))"
    by (simp add: filter_map comp_def)
  then show ?thesis
    using persist_count [OF t1(1)] refresh_length [OF t1(2)] subseq_sub [OF assms(3)] assms(2)
      filter_out_length [of "map ab_new_cluster_id plan" "map cluster_id cs"] by simp
qed

section \<open>The second transaction\<close>

lemma full_cluster_ids: "cluster_id ` set (fetch_existing_clusters_full t cutoff n) \<subseteq> cl_id ` set (clusters t)"
  by (auto simp: fetch_existing_clusters_full_def)

lemma existing_merge_plan_losers:
  assumes "derived_ok d t" "length (clusters t) < 2 ^ 64" "existing_merge_plan e ce cfg cutoff n t = Some (Inr ms)"
  shows "distinct (concat (map loser_ids ms))" "set (concat (map loser_ids ms)) \<subseteq> cl_id ` set (clusters t)"
    "absorbed_count ms = 0 \<Longrightarrow> ms = []" "\<And>m. m \<in> set ms \<Longrightarrow> survivor_id m \<notin> set (loser_ids m)"
proof -
  let ?full = "fetch_existing_clusters_full t cutoff n"
  have len: "length ?full < 2 ^ 64" using full_ids(2) [of t cutoff n] assms(2) by linarith
  have "ms = [] \<or> (\<exists>vs k gs. ms = map (merge_op ?full vs k) gs \<and> grouping ?full gs \<and> (\<forall>g \<in> set gs. mergeable cfg ?full g))"
  proof (cases "steward_config ce = None \<or> fails e SFullClusters \<or> length ?full < 2")
    case True
    then show ?thesis using assms(3) by (auto simp: existing_merge_plan_def Let_def split: if_splits)
  next
    case False
    then have eq: "compute_merge_plan (aligned e) ?full cfg = Some (Inr ms)"
      using assms(3) by (auto simp: existing_merge_plan_def Let_def)
    show ?thesis
    proof (cases rule: compute_merge_plan_cases [OF len, of "aligned e" cfg, case_names err ok])
      case (ok vs k gs)
      then have "ms = map (merge_op ?full vs k) gs" using eq by simp
      then show ?thesis using ok(2,3) by blast
    qed (use eq in simp)
  qed
  then consider "ms = []" | vs k gs where "ms = map (merge_op ?full vs k) gs" "grouping ?full gs" "\<And>g. g \<in> set gs \<Longrightarrow> mergeable cfg ?full g"
    by blast
  note c = this
  note ids = full_ids(1) [OF assms(1), of cutoff n]
  show "distinct (concat (map loser_ids ms))" using c by cases (use loser_ids_ok(1) [OF _ ids] in auto)
  show "set (concat (map loser_ids ms)) \<subseteq> cl_id ` set (clusters t)"
    using c
  proof cases
    case (2 vs k gs)
    show ?thesis unfolding 2(1) by (rule subset_trans [OF loser_ids_ok(2) [OF 2(2) ids] full_cluster_ids])
  qed simp
  show "ms = []" if "absorbed_count ms = 0"
    using c
  proof cases
    case (2 vs k gs)
    have "loser_ids (merge_op ?full vs k g) \<noteq> []" if "g \<in> set gs" for g by (rule loser_ids_nonempty [OF 2(2) that 2(3) [OF that]])
    then show ?thesis using that unfolding 2(1) by (cases gs) (auto simp: absorbed_count_def)
  qed simp
  show "survivor_id m \<notin> set (loser_ids m)" if "m \<in> set ms" for m
    using c by cases (use that merge_op_apart [OF _ _ ids] in auto)
qed

lemma merge_phase_success:
  assumes "derived_ok d t" "length (clusters t) < 2 ^ 64" "merge_phase e ce cfg cutoff n rep t = Some (Inr rep', t')"
  obtains ms where "rep' = rep\<lparr>cn_existing_merged := absorbed_count ms\<rparr>"
    "derived_ok d t'" "map snd (links t') = map snd (links t)" "length (clusters t') + absorbed_count ms = length (clusters t)"
    "absorbed_count ms = 0 \<longrightarrow> t' = t"
proof -
  obtain ms where ms: "existing_merge_plan e ce cfg cutoff n t = Some (Inr ms)" "rep' = rep\<lparr>cn_existing_merged := absorbed_count ms\<rparr>"
      "ms = [] \<and> t' = t \<or> ms \<noteq> [] \<and> merge_tx e ms t = Inr t'"
  proof -
    obtain z where z: "existing_merge_plan e ce cfg cutoff n t = Some z" using assms(3) by (auto simp: merge_phase_def)
    show ?thesis
    proof (cases z)
      case (Inr ms)
      then show ?thesis
        using that [of ms] assms(3) z by (cases "ms = []"; cases "merge_tx e ms t") (simp_all add: merge_phase_def Let_def)
    qed (use assms(3) z in \<open>simp add: merge_phase_def\<close>)
  qed
  note l = existing_merge_plan_losers [OF assms(1,2) ms(1)]
  show ?thesis
  proof (cases "ms = []")
    case True
    then show ?thesis using that [of "[]"] ms assms(1) by (simp add: absorbed_count_def)
  next
    case False
    then have "apply_merges e 0 ms t = Inr t'" using ms(3) by (auto simp: merge_tx_def result_simps)
    note a = apply_merges_ok [OF this assms(1) l(4)]
    have "map cl_id (clusters t') = filter (\<lambda>x. x \<notin> set (concat (map loser_ids ms))) (map cl_id (clusters t))"
      using a by simp
    then have "length (clusters t') = length (filter (\<lambda>x. x \<notin> set (concat (map loser_ids ms))) (map cl_id (clusters t)))"
      by (metis length_map)
    also have "\<dots> + length (concat (map loser_ids ms)) = length (clusters t)"
      using filter_out_length [of "concat (map loser_ids ms)" "map cl_id (clusters t)"] l(1,2) assms(1) by (simp add: derived_ok_def)
    finally have "length (clusters t') + absorbed_count ms = length (clusters t)"
      by (simp add: absorbed_count_def length_concat comp_def)
    then show ?thesis using that [OF ms(2)] a False l(3) by blast
  qed
qed

section \<open>A run that succeeds\<close>

lemma absorb_plan_sub:
  assumes "derived_ok d t" "absorb_plan e cfg cutoff n cs t = Inr plan"
  shows "subseq (map ab_new_cluster_id plan) (map cluster_id cs)"
proof (cases "fetch_existing_cluster_summaries t cutoff n = []")
  case True
  then show ?thesis using assms(2) by (auto simp: absorb_plan_def result_simps)
next
  case False
  then have a: "absorb_into_existing (aligned e) cs (fetch_existing_cluster_summaries t cutoff n) cfg = Inr plan"
    using assms(2) by (auto simp: absorb_plan_def result_simps)
  have "distinct (map cl_id (sort_key cl_id (clusters t)))" using assms(1) by (simp add: derived_ok_def distinct_map)
  then have "distinct (map ex_cluster_id (fetch_existing_cluster_summaries t cutoff n))"
    by (simp add: fetch_existing_cluster_summaries_def comp_def distinct_map_filter)
  from absorb_into_existing_ok [OF a this] have "subseq (map (\<lambda>a. (ab_new_cluster_id a, ab_episode_ids a)) plan)
      (map (\<lambda>c. (cluster_id c, episode_ids c)) cs)" by blast
  from subseq_map [OF this, of fst] show ?thesis by (simp add: comp_def)
qed

lemma persist_phase_success:
  assumes ok: "derived_ok d t" and new: "distinct (concat (map episode_ids cs))"
    "set (concat (map episode_ids cs)) \<inter> snd ` set (links t) = {}" "distinct (map cluster_id cs)"
    and len: "length (clusters t) + length cs < 2 ^ 64"
    and run: "persist_phase e ce cfg cutoff cid d cands k cs t = Some (Inr rep, t')"
  shows "cn_episodes_seen rep = length cands"
    "map snd (links t') = map snd (links t) @ concat (map episode_ids cs)"
    "cn_episodes_clustered rep = length (concat (map episode_ids cs))"
    "length (clusters t') + cn_existing_merged rep = length (clusters t) + cn_clusters_built rep"
    "cn_existing_merged rep = 0 \<Longrightarrow> members_of (cl_id r) t' \<noteq> members_of (cl_id r) t \<Longrightarrow> needs_abstraction t' r"
proof -
  obtain n plan t1 where p: "absorb_plan e cfg cutoff n cs t = Inr plan" "consolidate_tx e d plan cs t = Inr t1"
    and m: "merge_phase e ce cfg cutoff n
      \<lparr>cn_episodes_seen = length cands, cn_clusters_built = length cs - length plan,
       cn_episodes_clustered = sum_list (map (\<lambda>c. length (episode_ids c)) cs), cn_clusters_merged = k,
       cn_clusters_absorbed = length plan, cn_existing_merged = 0\<rparr> t1 = Some (Inr rep, t')"
  proof (cases "bind_r (expected_dimension e ce cid cands) (\<lambda>n. bind_r (absorb_plan e cfg cutoff n cs t) (\<lambda>plan.
      bind_r (consolidate_tx e d plan cs t) (\<lambda>t1. Inr (n, plan, t1))))")
    case (Inr x)
    obtain n plan t1 where x: "x = (n, plan, t1)" by (cases x)
    have "absorb_plan e cfg cutoff n cs t = Inr plan" "consolidate_tx e d plan cs t = Inr t1"
      using Inr by (auto simp: result_simps x)
    then show ?thesis by (rule that) (use run Inr x in \<open>simp add: persist_phase_def\<close>)
  qed (use run in \<open>simp add: persist_phase_def\<close>)
  note tx = consolidate_tx_ok [OF p(2) ok new(1,2)]
  have ok1: "derived_ok d t1" using tx by blast
  have len1: "length (clusters t1) < 2 ^ 64" using consolidate_tx_length [OF p(2)] len by linarith
  obtain ms where ms: "rep = \<lparr>cn_episodes_seen = length cands, cn_clusters_built = length cs - length plan,
       cn_episodes_clustered = sum_list (map (\<lambda>c. length (episode_ids c)) cs), cn_clusters_merged = k,
       cn_clusters_absorbed = length plan, cn_existing_merged = absorbed_count ms\<rparr>"
      "map snd (links t') = map snd (links t1)" "length (clusters t') + absorbed_count ms = length (clusters t1)"
      "absorbed_count ms = 0 \<longrightarrow> t' = t1"
    by (rule merge_phase_success [OF ok1 len1 m]) (rule that, simp_all)
  show "cn_episodes_seen rep = length cands" using ms(1) by simp
  show "map snd (links t') = map snd (links t) @ concat (map episode_ids cs)" using ms(2) tx by simp
  show "cn_episodes_clustered rep = length (concat (map episode_ids cs))" using ms(1) by (simp add: length_concat comp_def)
  show "length (clusters t') + cn_existing_merged rep = length (clusters t) + cn_clusters_built rep"
    using ms(1,3) consolidate_tx_count [OF p(2) new(3) absorb_plan_sub [OF ok p(1)]] by simp
  show "needs_abstraction t' r" if "cn_existing_merged rep = 0" "members_of (cl_id r) t' \<noteq> members_of (cl_id r) t"
  proof -
    have "t' = t1" using that(1) ms(1,4) by simp
    then show ?thesis using consolidate_tx_marks [OF p(2) ok new(1,2)] that(2) by blast
  qed
qed

lemma dispatch_consolidate_success:
  assumes run: "dispatch_consolidate e ce scope p w t = Some (Inr rep, w', t')"
    and ok: "derived_ok (wdb w) t" "wf_db (wdb w)" "embeddings_unique (wdb w)"
    and len: "length (clusters t) + length (episodes (wdb w)) < 2 ^ 64"
    and env: "\<And>gs. mset (hash_groups ce gs) = mset gs" "inj (fresh_ids ce)" "pred_option steward_ok (steward_config ce)"
  obtains (none) "rep = nothing_clustered" "t' = t"
    | (clustered) cid cands cf k cs where
        "persist_phase e ce cf (cutoff_ms e scope) cid (wdb w) cands k cs t = Some (Inr rep, t')"
        "embedder_id w = Some cid" "consolidation_candidates e (wdb w) t cid (cutoff_ms e scope) = Inr cands"
        "distinct (concat (map episode_ids cs))" "set (concat (map episode_ids cs)) \<inter> snd ` set (links t) = {}"
        "distinct (map cluster_id cs)" "length (clusters t) + length cs < 2 ^ 64"
        "set (concat (map episode_ids cs)) \<subseteq> memory_id ` fst ` set cands"
proof (cases "embedder w \<noteq> None \<and> refuse_stub ce")
  case True
  then show ?thesis using run by (simp add: dispatch_consolidate_def handle_consolidate_def)
next
  case False
  have impl: "handle_consolidate_impl e ce scope (embedder_id w) (wdb w) t = Some (Inr rep, t')"
    using run unfolding dispatch_consolidate_def handle_consolidate_def if_not_P [OF False] by (auto split: sum.splits)
  have len': "length (episodes (wdb w)) < 2 ^ 64" using len by linarith
  show ?thesis
  proof (cases rule: consolidate_impl_cases [OF ok(2,3) len' env, of e scope "embedder_id w" t, case_names err none' clustered'])
    case none'
    then show ?thesis using impl none by simp
  next
    case (clustered' cid cands cf k cs)
    have "length (clusters t) + length cs < 2 ^ 64" using clustered'(8) len by linarith
    then show ?thesis using clustered [of cf cid cands k cs] clustered' impl by simp
  qed (use impl in simp)
qed

section \<open>Properties\<close>

text \<open>
  C12: A consolidation always returns, whatever statements fail and however hash maps are ordered.
  Afterwards every constraint of the derived tables holds, every memory is in one cluster at
  most, no memory has left the clusters, and a memory that has entered one is an active hot
  episode with a vector of the current model.
\<close>

theorem consolidation_keeps_partition:
  assumes "derived_ok (wdb w) t" "wf_db (wdb w)" "embeddings_unique (wdb w)"
    and "length (clusters t) + length (episodes (wdb w)) < 2 ^ 64"
    and "\<And>gs. mset (hash_groups ce gs) = mset gs" "inj (fresh_ids ce)" "pred_option steward_ok (steward_config ce)"
  shows "\<exists>r w' t'. dispatch_consolidate e ce scope p w t = Some (r, w', t') \<and> same_tables (wdb w) (wdb w') \<and>
    derived_ok (wdb w') t' \<and> snd ` set (links t) \<subseteq> snd ` set (links t') \<and>
    (\<forall>mid \<in> snd ` set (links t') - snd ` set (links t). \<exists>cid. embedder_id w = Some cid \<and> clusterable (wdb w) cid mid)"
proof (cases "embedder w \<noteq> None \<and> refuse_stub ce")
  case True
  then show ?thesis using assms(1) by (simp add: dispatch_consolidate_def handle_consolidate_def)
next
  case False
  obtain r t' where run: "handle_consolidate_impl e ce scope (embedder_id w) (wdb w) t = Some (r, t')"
    and grown: "grown (wdb w) (embedder_id w) t t'"
    using handle_consolidate_impl_ok [OF assms(1-4,5-7), of e scope "embedder_id w"] by blast
  obtain w' where d: "dispatch_consolidate e ce scope p w t = Some (r, w', t')" and same: "same_tables (wdb w) (wdb w')"
    by (rule dispatch_consolidate_run [OF False run])
  then show ?thesis using grown derived_ok_same [OF same] by (auto simp: grown_def)
qed

text \<open>
  C14: The report of a consolidation counts what it did. After a success the links from clusters to
  memories are as many as before and the memories it reports as clustered, and the clusters of the
  table are as many as before and those built, less the existing ones merged away.
\<close>

theorem consolidation_report:
  assumes "dispatch_consolidate e ce scope p w t = Some (Inr rep, w', t')"
    and "derived_ok (wdb w) t" "wf_db (wdb w)" "embeddings_unique (wdb w)"
    and "length (clusters t) + length (episodes (wdb w)) < 2 ^ 64"
    and "\<And>gs. mset (hash_groups ce gs) = mset gs" "inj (fresh_ids ce)" "pred_option steward_ok (steward_config ce)"
  shows "length (links t') = length (links t) + cn_episodes_clustered rep \<and>
    length (clusters t') + cn_existing_merged rep = length (clusters t) + cn_clusters_built rep \<and>
    cn_episodes_clustered rep \<le> cn_episodes_seen rep"
proof (cases rule: dispatch_consolidate_success [OF assms, case_names none clustered])
  case none
  then show ?thesis by (simp add: nothing_clustered_def)
next
  case (clustered cid cands cf k cs)
  note p = persist_phase_success [OF assms(2) clustered(4-7,1)]
  have "length (concat (map episode_ids cs)) = card (set (concat (map episode_ids cs)))" using distinct_card [OF clustered(4)] by simp
  also have "\<dots> \<le> card (memory_id ` fst ` set cands)" using clustered(8) by (simp add: card_mono)
  also have "\<dots> \<le> length cands" by (metis card_image_le card_length finite_imageI List.finite_set le_trans)
  finally show ?thesis using p(1,3,4) arg_cong [OF p(2), of length] by simp
qed

text \<open>
  C13: A consolidation leaves no abstraction that its own run has made stale, unless it merged clusters
  of the database: every cluster whose members a successful run changed, a new one or one that
  absorbed a new one, is among those the batch builds an abstraction for.
\<close>

theorem changed_clusters_are_rebuilt:
  assumes "dispatch_consolidate e ce scope p w t = Some (Inr rep, w', t')" "cn_existing_merged rep = 0"
    and "derived_ok (wdb w) t" "wf_db (wdb w)" "embeddings_unique (wdb w)"
    and "length (clusters t) + length (episodes (wdb w)) < 2 ^ 64"
    and "\<And>gs. mset (hash_groups ce gs) = mset gs" "inj (fresh_ids ce)" "pred_option steward_ok (steward_config ce)"
    and "members_of (cl_id r) t' \<noteq> members_of (cl_id r) t"
  shows "needs_abstraction t' r"
proof (cases rule: dispatch_consolidate_success [OF assms(1,3-9), case_names none clustered])
  case none
  then show ?thesis using assms(10) by simp
next
  case (clustered cid cands cf k cs)
  show ?thesis
    by (rule persist_phase_success(5) [OF assms(3) clustered(4-7,1) assms(2,10)])
qed

section \<open>Concrete runs\<close>

text \<open>Three memories with the same vector, one in no cluster, then all in two clusters with abstractions.\<close>

definition unit_vector :: Embedding where
  "unit_vector = embedding_of 1 [0x3F800000]"

definition hi_row :: "memory_id \<Rightarrow> nat \<Rightarrow> episode_row" where
  "hi_row mid rowid = (remember_row sample_env None ''hi'' sample_episode rowid)\<lparr>er_memory_id := mid\<rparr>"

definition three_db :: db where
  "three_db = empty_db\<lparr>episodes := [hi_row 5 1, hi_row 6 2, hi_row 7 3], ep_seq := 3,
     embeddings := [embedding_row_of sample_env 5 1 unit_vector]\<rparr>"

definition two_clusters :: derived where
  "two_clusters =
     \<lparr>clusters = [\<lparr>cl_id = 10, cl_centroid = Some unit_vector, cl_coherence = 0x3F800000, cl_created_at_ms = 0\<rparr>,
                  \<lparr>cl_id = 20, cl_centroid = Some unit_vector, cl_coherence = 0x3F800000, cl_created_at_ms = 0\<rparr>],
      links = [(10, 5), (10, 7), (20, 6)],
      abstractions = [\<lparr>sa_id = 1, sa_cluster_id = 10, sa_content = ''a'', sa_created_at_ms = 0\<rparr>,
                      \<lparr>sa_id = 2, sa_cluster_id = 20, sa_content = ''b'', sa_created_at_ms = 0\<rparr>],
      triples = []\<rparr>"

definition no_clusters :: derived where
  "no_clusters = \<lparr>clusters = [], links = [], abstractions = [], triples = []\<rparr>"

definition single_config :: StewardConfig where
  "single_config = steward_default\<lparr>cluster_min_size := 1\<rparr>"

definition sample_cenv :: consolidation_env where
  "sample_cenv = \<lparr>steward_config = Some single_config, steward_vars = \<lparr>var = (\<lambda>_. None), parse_f32 = (\<lambda>_. None)\<rparr>,
     refuse_stub = False, embedder_dims = (\<lambda>_. Some 1), hash_groups = id, fresh_ids = (\<lambda>i. 900 + i)\<rparr>"

definition whole_scope :: ConsolidationScope where
  "whole_scope = \<lparr>window_days = None, force_merge = True\<rparr>"

abbreviation three_writer :: "HnswIndex writer" where
  "three_writer \<equiv> sample_writer\<lparr>wdb := three_db\<rparr>"

lemma one_values:
  "f32_mul 0x3F800000 0x3F800000 = 0x3F800000" "f32_add 0 0x3F800000 = 0x3F800000" "f32_div 0x3F800000 0x3F800000 = 0x3F800000"
  "\<not> f32_le 0x3F800000 0x34000000" "f32_lt 0x34000000 0x3F800000" "\<not> f32_le 0x3F800000 0" "f32_lit 1 0 = 0x3F800000"
  "f32_of_nat 1 = 0x3F800000" "\<not> f32_is_nan 0x3F800000" "f32_le (f32_lit 55 2) 0x3F800000" "f32_mul 0 0x3F800000 = 0"
  "f32_clamp 0xBF800000 0x3F800000 0x3F800000 = 0x3F800000" "f32_neg 0x3F800000 = 0xBF800000"
  by (simp_all add: f32_eval)

lemma unit_cosine: "cosine_similarity_f32 [0x3F800000] [0x3F800000] = 0x3F800000"
  by (simp add: cosine_similarity_f32_def f32_epsilon_def example_roots one_values del: One_nat_def)

lemma unit_bytes: "length (data (embedding_of d [x])) = 4" "dtype unit_vector = F32" "dim unit_vector = 1"
  by (simp_all add: embedding_of_def bytes_of_f32_eq unit_vector_def)

lemma find_loops: "uf_find_loop [0] 0 = Some (0, [0])" "uf_find_loop [0, Suc 0] 0 = Some (0, [0, Suc 0])"
    "uf_find_loop [0, Suc 0] (Suc 0) = Some (Suc 0, [0, Suc 0])" "uf_find_loop [0, 0] 0 = Some (0, [0, 0])"
  by (subst uf_find_loop.simps, simp)+

lemma find_halved: "uf_find_loop [0, 0] (Suc 0) = Some (0, [0, 0])"
  by (subst uf_find_loop.simps) (simp add: find_loops)

lemma one_group: "similarity_groups sim 1 = Some [(0, [0])]"
  by (simp add: similarity_groups_def position_pairs_def uf_new_def uf_find_def find_loops find_halved)

lemma two_groups: "sim 0 1 \<Longrightarrow> similarity_groups sim 2 = Some [(0, [0, 1])]"
  by (simp add: similarity_groups_def position_pairs_def uf_new_def uf_union_def uf_find_def find_loops find_halved link_roots_def upt_conv_Cons numeral_2_eq_2)

definition clustered_one :: "(Episode \<times> Embedding) list" where
  "clustered_one = [(sample_episode\<lparr>source_type := ''chat'', tier := Hot\<rparr>, unit_vector)]"

lemma cluster_candidates: "\<not> fails e SCandidates \<Longrightarrow> consolidation_candidates e three_db no_clusters 1 None = Inr clustered_one"
  by (simp add: consolidation_candidates_def candidate_rows_def three_db_def empty_db_def hi_row_def remember_row_def sample_episode_def
    sample_env_def no_clusters_def since_def embedding_row_of_def candidate_of_def clustered_one_def unit_vector_def confidence_ok_def f32_eval stmt_def)

lemma cluster_episodes_valid:
  assumes "inputs = (ep, emb) # rest" "dtype emb = F32"
    "bind_r (check_inputs (dim emb) inputs) (\<lambda>_. views al (map snd inputs)) = Inr vs"
    "concat_opt (map (bucket_members order cfg inputs vs) (day_buckets inputs)) = Some ms"
  shows "cluster_episodes al order fresh inputs cfg = Some (Inr (sort_key (earliest inputs)
     (map (\<lambda>(i, global). build_cluster (fresh i) global inputs vs (dim emb)) (List.enumerate 0 ms))))"
  using assms(2-4) unfolding cluster_episodes_def by (simp add: assms(1))

lemma single_cluster: "cluster_episodes (\<lambda>_. True) id (\<lambda>i. 900 + i) clustered_one single_config =
   Some (Inr [\<lparr>cluster_id = 900, episode_ids = [5], centroid = Some unit_vector, coherence = 0x3F800000\<rparr>])"
proof -
  have v: "bind_r (check_inputs 1 clustered_one) (\<lambda>_. views (\<lambda>_. True) (map snd clustered_one)) = Inr [[0x3F800000]]"
    by (simp add: clustered_one_def unit_vector_def embedding_view validate_def bytes_for_dim_def bytes_per_element_def unit_bytes)
  have "split_component_by_time [0] [0] clustered_one single_config = Some [[0]]"
    by (simp add: split_component_by_time_def single_config_def steward_default_def Let_def slice_chunks.simps)
  then have b: "bucket_members id single_config clustered_one [[0x3F800000]] [0] = Some [[0]]"
    by (simp add: one_group [unfolded One_nat_def] bucket_members_def single_config_def steward_default_def)
  have d: "day_buckets clustered_one = [[0]]" by (simp add: day_buckets_def day_of_def clustered_one_def)
  have c: "build_cluster 900 [0] clustered_one [[0x3F800000]] 1 =
      \<lparr>cluster_id = 900, episode_ids = [5], centroid = Some unit_vector, coherence = 0x3F800000\<rparr>"
    by (simp add: build_cluster_def clustered_one_def sample_episode_def unit_vector_def mean_coherence_def position_pairs_def Let_def
      add_normalized_weighted_def norm_f32_def normalize_in_place_def f32_epsilon_def example_roots one_values [unfolded One_nat_def])
  have o: "clustered_one = (sample_episode\<lparr>source_type := ''chat'', tier := Hot\<rparr>, unit_vector) # []" by (simp add: clustered_one_def)
  show ?thesis
    by (subst cluster_episodes_valid [OF o, where ms = "[[0]]" and vs = "[[0x3F800000]]"]) (simp_all add: v b d c unit_bytes del: One_nat_def)
qed

lemma single_merge: "length cs < 2 \<Longrightarrow> merge_clusters_by_centroid al cs cfg = Some (Inr 0, cs)"
  by (simp add: merge_clusters_by_centroid_def compute_merge_plan_def)

definition one_cluster :: derived where
  "one_cluster = \<lparr>clusters = [\<lparr>cl_id = 900, cl_centroid = Some unit_vector, cl_coherence = 0x3F800000, cl_created_at_ms = 1000\<rparr>],
     links = [(900, 5)], abstractions = [], triples = []\<rparr>"

definition late_env :: "(sql_step \<Rightarrow> bool) \<Rightarrow> env" where
  "late_env f = sample_env\<lparr>fails := f\<rparr>"

definition first_report :: ConsolidationReport where
  "first_report = \<lparr>cn_episodes_seen = 1, cn_clusters_built = 1, cn_episodes_clustered = 1, cn_clusters_merged = 0,
     cn_clusters_absorbed = 0, cn_existing_merged = 0\<rparr>"

text \<open>A run over the one memory, in which at most the last read fails.\<close>

lemma first_run:
  assumes "\<And>s. s \<noteq> SFullClusters \<Longrightarrow> \<not> f s"
  shows "handle_consolidate_impl (late_env f) sample_cenv whole_scope (Some 1) three_db no_clusters =
     Some (if f SFullClusters then Inl Storage else Inr first_report, one_cluster)"
proof -
  let ?e = "late_env f"
  have sel: "aligned ?e = (\<lambda>_. True)" "fails ?e = f" "now_ms ?e = 1000" by (simp_all add: late_env_def sample_env_def)
  have only: "f s = (f SFullClusters \<and> s = SFullClusters)" for s by (cases "s = SFullClusters") (simp_all add: assms)
  have "fails ?e s = (f SFullClusters \<and> s = SFullClusters)" for s unfolding sel by (rule only)
  note a = sel(1,3) this
  let ?c = "\<lparr>cluster_id = 900, episode_ids = [5], centroid = Some unit_vector, coherence = 0x3F800000\<rparr>"
  have cands: "consolidation_candidates ?e three_db no_clusters 1 None = Inr clustered_one"
    by (rule cluster_candidates) (simp add: a)
  have tx: "consolidate_tx ?e three_db [] [?c] no_clusters = Inr one_cluster"
    by (simp add: consolidate_tx_def stmt_def a insert_cluster_def new_cluster_row_def absorbed_by_new_def no_clusters_def insert_link_def
      one_values one_cluster_def three_db_def empty_db_def hi_row_def remember_row_def sample_episode_def)
  have m: "merge_phase ?e sample_cenv single_config None 1 r one_cluster =
      Some (if f SFullClusters then Inl Storage else Inr (r\<lparr>cn_existing_merged := 0\<rparr>), one_cluster)" for r
    by (simp add: merge_phase_def existing_merge_plan_def a Let_def fetch_existing_clusters_full_def one_cluster_def comparable_def
      unit_bytes since_def absorbed_count_def sample_cenv_def)
  have p: "persist_phase ?e sample_cenv single_config None 1 three_db clustered_one 0 [?c] no_clusters =
      Some (if f SFullClusters then Inl Storage else Inr first_report, one_cluster)"
    using tx m by (simp add: persist_phase_def expected_dimension_def clustered_one_def absorb_plan_def stmt_def a
      fetch_existing_cluster_summaries_def no_clusters_def unit_bytes first_report_def)
  show ?thesis
    using p by (simp add: handle_consolidate_impl_def cands [unfolded One_nat_def] whole_scope_def cutoff_ms_def sample_cenv_def a
      single_cluster single_merge)
qed


section \<open>What is left behind\<close>

text \<open>
  The transaction that merges clusters of the database changes nothing in what the batch picks up:
  a survivor takes over the members of others and keeps the abstraction of its old ones, although
  the report says that it is built anew.
\<close>

theorem merge_drops_no_surviving_abstraction:
  assumes "merge_tx e ms t = Inr t'" "derived_ok d t" "\<And>m. m \<in> set ms \<Longrightarrow> survivor_id m \<notin> set (loser_ids m)"
    and "r' \<in> set (clusters t')" "cl_id r' = cl_id r"
  shows "needs_abstraction t' r' = needs_abstraction t r"
proof -
  have run: "apply_merges e 0 ms t = Inr t'" using assms(1) by (auto simp: merge_tx_def result_simps)
  note a = apply_merges_ok [OF run assms(2,3)]
  have "cl_id r' \<in> set (map cl_id (clusters t'))" using assms(4) by simp
  then have alive: "\<forall>m \<in> set ms. cl_id r' \<notin> set (loser_ids m)" using a by simp
  have "x \<in> set (abstractions t') \<longleftrightarrow> x \<in> set (abstractions t)" if "sa_cluster_id x = cl_id r'" for x
    using a alive that by simp
  then show ?thesis using assms(5) by (auto simp: needs_abstraction_def image_iff)
qed

definition two_existing :: "Cluster list" where
  "two_existing = [\<lparr>cluster_id = 10, episode_ids = [5, 7], centroid = Some unit_vector, coherence = 0x3F800000\<rparr>,
     \<lparr>cluster_id = 20, episode_ids = [6], centroid = Some unit_vector, coherence = 0x3F800000\<rparr>]"

lemma two_full: "fetch_existing_clusters_full two_clusters None 1 = two_existing"
  by (simp add: fetch_existing_clusters_full_def two_clusters_def comparable_def unit_bytes since_def members_of_def two_existing_def)

lemma two_plan: "compute_merge_plan (\<lambda>_. True) two_existing single_config = Some (Inr [merge_op two_existing [[0x3F800000], [0x3F800000]] 1 [0, 1]])"
proof -
  have v: "bind_r (check_centroids 1 two_existing) (\<lambda>_. views (\<lambda>_. True) (map (\<lambda>c. the (centroid c)) two_existing)) = Inr [[0x3F800000], [0x3F800000]]"
    by (simp add: two_existing_def unit_vector_def embedding_view unit_bytes)
  have g: "similarity_groups (\<lambda>a b. f32_le (cluster_cosine_threshold single_config)
      (cosine_similarity_f32 ([[0x3F800000], [0x3F800000]] ! a) ([[0x3F800000], [0x3F800000]] ! b))) 2 = Some [(0, [0, 1])]"
    by (rule two_groups) (simp add: unit_cosine single_config_def steward_default_def one_values)
  have c: "length two_existing = 2" "centroid (two_existing ! 0) = Some unit_vector" "mergeable single_config two_existing [0, 1]"
    by (simp_all add: two_existing_def mergeable_def single_config_def steward_default_def)
  show ?thesis unfolding compute_merge_plan_def
    using v g c by (simp add: unit_bytes)
qed


lemma two_coherence: "weighted_coherence two_existing [0, 1] = 0x3F800000"
proof -
  have "f32_mul 0x3F800000 0x40000000 = 0x40000000" "f32_add 0 0x40000000 = 0x40000000" "f32_add 0x40000000 0x3F800000 = 0x40400000"
    "f32_lt 0 0x40400000" "f32_div 0x40400000 0x40400000 = 0x3F800000" "f32_of_nat 2 = 0x40000000"
    by (simp_all add: f32_eval)
  then show ?thesis
    by (simp add: weighted_coherence_def two_existing_def weight_of_def one_values one_values [unfolded One_nat_def] numeral_2_eq_2)
qed

definition merged_report :: ConsolidationReport where
  "merged_report = nothing_clustered\<lparr>cn_existing_merged := 1\<rparr>"

lemma merge_run:
  obtains t' where "handle_consolidate_impl sample_env sample_cenv whole_scope (Some 1) three_db two_clusters = Some (Inr merged_report, t')"
    "map cl_id (clusters t') = [10]" "members_of 10 t' = [5, 7, 6]"
    "abstractions t' = [\<lparr>sa_id = 1, sa_cluster_id = 10, sa_content = ''a'', sa_created_at_ms = 0\<rparr>]"
proof -
  let ?e = sample_env
  have a: "aligned ?e = (\<lambda>_. True)" "\<And>s. \<not> fails ?e s" by (simp_all add: sample_env_def)
  define op where "op = merge_op two_existing [[0x3F800000], [0x3F800000]] 1 [0, 1]"
  have op: "survivor_id op = 10" "loser_ids op = [20]" "merged_coherence op = 0x3F800000"
    using two_coherence by (simp_all add: op_def merge_op_def Let_def two_existing_def survivor_key_def less_eq_prod_def)
  have cands: "consolidation_candidates ?e three_db two_clusters 1 None = Inr []"
    by (simp add: consolidation_candidates_def stmt_def a candidate_rows_def three_db_def empty_db_def hi_row_def remember_row_def
      sample_episode_def two_clusters_def)
  define t' where "t' = two_clusters\<lparr>clusters := [\<lparr>cl_id = 10, cl_centroid = Some \<lparr>dtype = F32, dim = dim (merged_centroid op),
      data = data (merged_centroid op)\<rparr>, cl_coherence = 0x3F800000, cl_created_at_ms = 0\<rparr>], links := [(10, 5), (10, 7), (10, 6)],
      abstractions := [\<lparr>sa_id = 1, sa_cluster_id = 10, sa_content = ''a'', sa_created_at_ms = 0\<rparr>]\<rparr>"
  have tx: "merge_tx ?e [op] two_clusters = Inr t'"
    by (simp add: merge_tx_def stmt_def a op move_links_def members_of_def two_clusters_def refresh_cluster_def one_values
      delete_cluster_def delete_triples_def delete_abstractions_def t'_def) auto
  have p: "persist_phase ?e sample_cenv single_config None 1 three_db [] 0 [] two_clusters = Some (Inr merged_report, t')"
  proof -
    have s: "fetch_existing_cluster_summaries two_clusters None 1 \<noteq> []"
      by (simp add: fetch_existing_cluster_summaries_def two_clusters_def comparable_def unit_bytes since_def members_of_def)
    have d: "expected_dimension ?e sample_cenv 1 [] = Inr 1" by (simp add: expected_dimension_def stmt_def a sample_cenv_def)
    have ab: "absorb_plan ?e single_config None 1 [] two_clusters = Inr []"
      using s by (simp add: absorb_plan_def stmt_def a absorb_into_existing_def)
    have c: "consolidate_tx ?e three_db [] [] two_clusters = Inr two_clusters" by (simp add: consolidate_tx_def stmt_def a)
    have "existing_merge_plan ?e sample_cenv single_config None 1 two_clusters = Some (Inr [op])"
      unfolding existing_merge_plan_def two_full op_def
      using two_plan by (simp add: a sample_cenv_def two_existing_def)
    then show ?thesis
      unfolding persist_phase_def d
      by (simp add: ab [unfolded One_nat_def] c merge_phase_def tx absorbed_count_def op merged_report_def nothing_clustered_def Let_def)
  qed
  have "handle_consolidate_impl ?e sample_cenv whole_scope (Some 1) three_db two_clusters = Some (Inr merged_report, t')"
    using p by (simp add: handle_consolidate_impl_def cands [unfolded One_nat_def] whole_scope_def cutoff_ms_def sample_cenv_def a
      cluster_episodes_def single_merge)
  then show ?thesis by (rule that) (simp_all add: t'_def members_of_def)
qed


lemma sample_dispatch:
  assumes "handle_consolidate_impl e sample_cenv scope (Some 1) three_db t = Some (r, t')"
  obtains w' where "dispatch_consolidate e sample_cenv scope None three_writer t = Some (r, w', t')"
    "\<And>er. r = Inl er \<Longrightarrow> events w' = []"
proof -
  have f: "refuse_stub sample_cenv = False" by (simp add: sample_cenv_def)
  have w: "embedder_id three_writer = Some 1" "wdb three_writer = three_db" "events three_writer = []" by (simp_all add: sample_writer_def)
  have "\<exists>w'. dispatch_consolidate e sample_cenv scope None three_writer t = Some (r, w', t') \<and> (\<forall>er. r = Inl er \<longrightarrow> events w' = [])"
    unfolding dispatch_consolidate_def handle_consolidate_def f w assms using w(3)
    by (cases r) (simp_all add: emit_audit_best_effort_def)
  then show ?thesis using that by blast
qed

lemma sample_world:
  "wf_db (wdb three_writer)" "embeddings_unique (wdb three_writer)" "derived_ok (wdb three_writer) no_clusters"
  "derived_ok (wdb three_writer) two_clusters"
  "length (clusters no_clusters) + length (episodes (wdb three_writer)) < 2 ^ 64"
  "length (clusters two_clusters) + length (episodes (wdb three_writer)) < 2 ^ 64"
  "mset (hash_groups sample_cenv gs) = mset gs" "inj (fresh_ids sample_cenv)" "pred_option steward_ok (steward_config sample_cenv)"
  using threshold_default
  by (simp_all add: three_db_def empty_db_def hi_row_def remember_row_def wf_db_def embeddings_unique_def embedding_row_of_def
    derived_ok_def no_clusters_def two_clusters_def sample_cenv_def inj_def steward_ok_def single_config_def steward_default_def)

text \<open>
  Merging the two clusters of the database leaves the survivor with the abstraction of its old
  members, and the batch finds nothing to build.
\<close>

theorem merged_cluster_stays_stale:
  "\<exists>rep w' t'. dispatch_consolidate sample_env sample_cenv whole_scope None three_writer two_clusters = Some (Inr rep, w', t') \<and>
     cn_existing_merged rep = 1 \<and> members_of 10 two_clusters = [5, 7] \<and> members_of 10 t' = [5, 7, 6] \<and>
     count_clusters_without_abstractions t' = 0"
proof -
  obtain t' where t': "handle_consolidate_impl sample_env sample_cenv whole_scope (Some 1) three_db two_clusters = Some (Inr merged_report, t')"
    "map cl_id (clusters t') = [10]" "members_of 10 t' = [5, 7, 6]"
    "abstractions t' = [\<lparr>sa_id = 1, sa_cluster_id = 10, sa_content = ''a'', sa_created_at_ms = 0\<rparr>]"
    by (rule merge_run)
  obtain w' where w': "dispatch_consolidate sample_env sample_cenv whole_scope None three_writer two_clusters = Some (Inr merged_report, w', t')"
    by (rule sample_dispatch [OF t'(1)])
  have "\<not> is_low_signal_abstraction ''a''" by code_simp
  then have "\<not> needs_abstraction t' r" if "cl_id r = 10" for r using that t'(4) by (simp add: needs_abstraction_def)
  moreover have "cl_id r = 10" if "r \<in> set (clusters t')" for r using t'(2) that by (metis empty_iff empty_set imageI insert_iff list.set_map list.simps(15))
  ultimately have "count_clusters_without_abstractions t' = 0" by (simp add: count_clusters_without_abstractions_def filter_empty_conv)
  moreover have "members_of 10 two_clusters = [5, 7]" by (simp add: two_clusters_def members_of_def)
  ultimately show ?thesis using w' t'(3) by (auto simp: merged_report_def)
qed

text \<open>
  An error after the first transaction is reported as a failure of the whole command, and no client is told
  to reload, although the new cluster is in the table.
\<close>

theorem late_error_hides_clusters:
  "\<exists>w'. dispatch_consolidate (late_env (\<lambda>s. s = SFullClusters)) sample_cenv whole_scope None three_writer no_clusters
       = Some (Inl Storage, w', one_cluster) \<and> events w' = [] \<and> clusters no_clusters = [] \<and> members_of 900 one_cluster = [5]"
proof -
  have "handle_consolidate_impl (late_env (\<lambda>s. s = SFullClusters)) sample_cenv whole_scope (Some 1) three_db no_clusters
      = Some (Inl Storage, one_cluster)"
    using first_run [of "\<lambda>s. s = SFullClusters"] by simp
  then obtain w' where "dispatch_consolidate (late_env (\<lambda>s. s = SFullClusters)) sample_cenv whole_scope None three_writer no_clusters
       = Some (Inl Storage, w', one_cluster)" "events w' = []"
    by (rule sample_dispatch) simp
  then show ?thesis by (simp add: no_clusters_def one_cluster_def members_of_def)
qed

section \<open>Witnesses\<close>

lemma sample_first:
  obtains w' where "dispatch_consolidate (late_env (\<lambda>_. False)) sample_cenv whole_scope None three_writer no_clusters = Some (Inr first_report, w', one_cluster)"
  by (rule sample_dispatch [of "late_env (\<lambda>_. False)" whole_scope no_clusters "Inr first_report" one_cluster])
    (simp_all only: first_run [of "\<lambda>_. False"] if_False simp_thms not_False_eq_True)

theorem consolidation_keeps_partition_witness:
  "\<exists>r w' t'. dispatch_consolidate sample_env sample_cenv whole_scope None three_writer two_clusters = Some (r, w', t') \<and>
     derived_ok (wdb w') t'"
  using consolidation_keeps_partition [OF sample_world(4,1,2,6,7-9), of sample_env whole_scope None] by blast

theorem consolidation_report_witness:
  "\<exists>w'. dispatch_consolidate (late_env (\<lambda>_. False)) sample_cenv whole_scope None three_writer no_clusters = Some (Inr first_report, w', one_cluster) \<and>
     length (links one_cluster) = 1 \<and> cn_episodes_clustered first_report = 1"
proof -
  obtain w' where run: "dispatch_consolidate (late_env (\<lambda>_. False)) sample_cenv whole_scope None three_writer no_clusters = Some (Inr first_report, w', one_cluster)"
    by (rule sample_first)
  from consolidation_report [OF run sample_world(3,1,2,5,7-9)] run show ?thesis
    by (simp add: no_clusters_def first_report_def)
qed

theorem changed_clusters_are_rebuilt_witness:
  "\<exists>w' t'. dispatch_consolidate (late_env (\<lambda>_. False)) sample_cenv whole_scope None three_writer no_clusters = Some (Inr first_report, w', t') \<and>
     needs_abstraction t' (hd (clusters t'))"
proof -
  obtain w' where run: "dispatch_consolidate (late_env (\<lambda>_. False)) sample_cenv whole_scope None three_writer no_clusters = Some (Inr first_report, w', one_cluster)"
    by (rule sample_first)
  have "needs_abstraction one_cluster (hd (clusters one_cluster))"
    by (rule changed_clusters_are_rebuilt [OF run _ sample_world(3,1,2,5,7-9)])
      (simp_all add: first_report_def one_cluster_def no_clusters_def members_of_def)
  with run show ?thesis by blast
qed

end
