(* ===== verification/Reembed.thy ===== *)
theory Reembed
  imports WriterMemory
begin

text \<open>
  The command of the writer actor that embeds the memories again with the current model
  (\<open>crates/solo-storage/src/writer.rs\<close>, \<open>handle_reembed\<close>). The rows of the table \<open>embedders\<close> are a
  parameter: a name, a version and the id.
\<close>

record ReembedScope =
  rs_from :: "(string \<times> string) option"
  rs_dry_run :: bool
  rs_gc :: bool

record ReembedReport =
  re_seen :: nat
  re_reembedded :: nat
  re_failed :: nat
  re_gc_deleted :: nat
  re_dry_run :: bool

text \<open>\<open>Embedder::embed\<close> by its default.\<close>

definition embed :: "(string list \<Rightarrow> Embedding list result) \<Rightarrow> string \<Rightarrow> Embedding result" where
  "embed embed_batch txt =
     bind_r (embed_batch [txt]) (\<lambda>results. if results = [] then Inl EmbedderProtocol else Inr (last results))"

definition reembed_from ::
  "env \<Rightarrow> ((string \<times> string) \<times> nat) list \<Rightarrow> nat \<Rightarrow> (string \<times> string) option \<Rightarrow> nat option result" where
  "reembed_from e registry current_id source =
     (case source of
        None \<Rightarrow> Inr None
      | Some nv \<Rightarrow>
          bind_r (stmt e SReembedFrom (Inr (map_of registry nv))) (\<lambda>found.
          case found of
            None \<Rightarrow> Inl NotFound
          | Some fid \<Rightarrow> if fid = current_id then Inl Other else Inr (Some fid)))"

definition stale_id :: "nat \<Rightarrow> nat option \<Rightarrow> nat \<Rightarrow> bool" where
  "stale_id current_id from_id eid = (case from_id of None \<Rightarrow> eid \<noteq> current_id | Some fid \<Rightarrow> eid = fid)"

text \<open>\<open>SELECT DISTINCT\<close> over the join, by rowid.\<close>

definition reembed_candidates :: "db \<Rightarrow> nat \<Rightarrow> nat option \<Rightarrow> (memory_id \<times> string) list" where
  "reembed_candidates d current_id from_id =
     remdups (concat (map (\<lambda>r. map (\<lambda>m. (er_memory_id r, er_content r))
         (filter (\<lambda>m. em_memory_id m = er_memory_id r \<and> stale_id current_id from_id (em_embedder_id m)) (embeddings d)))
       (sort_key er_rowid (filter (\<lambda>r. er_status r = Active) (episodes d)))))"

definition is_stale_row :: "memory_id \<Rightarrow> nat \<Rightarrow> embedding_row \<Rightarrow> bool" where
  "is_stale_row mid current_id m = (em_memory_id m = mid \<and> em_embedder_id m \<noteq> current_id)"

definition delete_stale :: "memory_id \<Rightarrow> nat \<Rightarrow> db \<Rightarrow> db" where
  "delete_stale mid current_id d = d\<lparr>embeddings := filter (\<lambda>m. \<not> is_stale_row mid current_id m) (embeddings d)\<rparr>"

definition count_stale :: "memory_id \<Rightarrow> nat \<Rightarrow> db \<Rightarrow> nat" where
  "count_stale mid current_id d = length (filter (is_stale_row mid current_id) (embeddings d))"

text \<open>
  One memory: its transaction, with the number of rows the collection deleted. An error is a
  memory that failed, whose transaction rolls back.
\<close>

definition reembed_one ::
  "env \<Rightarrow> (string list \<Rightarrow> Embedding list result) \<Rightarrow> EmbeddingDtype \<Rightarrow> nat \<Rightarrow> bool \<Rightarrow> nat \<Rightarrow> memory_id \<times> string
     \<Rightarrow> db \<Rightarrow> (db \<times> nat) result" where
  "reembed_one e embed_batch dt current_id gc i c d =
     (case c of (mid, txt) \<Rightarrow>
        bind_r (embed embed_batch txt) (\<lambda>emb.
        bind_r (validate emb) (\<lambda>_.
        bind_r (stmt e (SReembedBegin i) (Inr ())) (\<lambda>_.
        bind_r (stmt e (SReembedInsert i)
                  (Inr (upsert_embedding \<lparr>em_memory_id = mid, em_embedder_id = current_id, em_dtype = dt,
                          em_dim = dim emb, em_vector = data emb, em_created_at_ms = now_ms e\<rparr> d))) (\<lambda>d1.
        bind_r (if gc then stmt e (SReembedGc i) (Inr (delete_stale mid current_id d1, count_stale mid current_id d1))
                else Inr (d1, 0)) (\<lambda>(d2, n).
        bind_r (stmt e (SReembedCommit i) (Inr d2)) (\<lambda>d3. Inr (d3, n))))))))"

fun reembed_loop ::
  "env \<Rightarrow> (string list \<Rightarrow> Embedding list result) \<Rightarrow> EmbeddingDtype \<Rightarrow> nat \<Rightarrow> bool \<Rightarrow> nat
     \<Rightarrow> (memory_id \<times> string) list \<Rightarrow> db \<times> ReembedReport \<Rightarrow> db \<times> ReembedReport" where
  "reembed_loop e f dt cid gc i [] s = s"
| "reembed_loop e f dt cid gc i (c # cs) (d, rep) =
     reembed_loop e f dt cid gc (Suc i) cs
       (case reembed_one e f dt cid gc i c d of
          Inl _ \<Rightarrow> (d, rep\<lparr>re_failed := re_failed rep + 1\<rparr>)
        | Inr (d', n) \<Rightarrow>
            (d', rep\<lparr>re_reembedded := re_reembedded rep + 1, re_gc_deleted := re_gc_deleted rep + n\<rparr>))"

definition handle_reembed_impl ::
  "env \<Rightarrow> ((string \<times> string) \<times> nat) list \<Rightarrow> ReembedScope \<Rightarrow> 'i writer \<Rightarrow> ReembedReport result \<times> 'i writer" where
  "handle_reembed_impl e registry scope w =
     (case bind_r (ok_or (embedder_id w) Other) (\<lambda>current_id.
           bind_r (ok_or (embedder w) Other) (\<lambda>(embed_batch, dt).
           bind_r (require (runtime w) Other) (\<lambda>_.
           bind_r (reembed_from e registry current_id (rs_from scope)) (\<lambda>from_id.
           bind_r (stmt e SReembedSelect (Inr (reembed_candidates (wdb w) current_id from_id))) (\<lambda>cs.
           Inr (current_id, embed_batch, dt, cs)))))) of
        Inl er \<Rightarrow> (Inl er, w)
      | Inr (current_id, embed_batch, dt, cs) \<Rightarrow>
          let rep0 = \<lparr>re_seen = length cs, re_reembedded = 0, re_failed = 0, re_gc_deleted = 0,
                      re_dry_run = rs_dry_run scope\<rparr>
          in if rs_dry_run scope then (Inr rep0, w)
             else (case reembed_loop e embed_batch dt current_id (rs_gc scope) 0 cs (wdb w, rep0) of
                     (d, rep) \<Rightarrow> (Inr rep, w\<lparr>wdb := d\<rparr>)))"

definition handle_reembed ::
  "env \<Rightarrow> ((string \<times> string) \<times> nat) list \<Rightarrow> ReembedScope \<Rightarrow> string option \<Rightarrow> 'i writer
     \<Rightarrow> ReembedReport result \<times> 'i writer" where
  "handle_reembed e registry scope p w =
     (case handle_reembed_impl e registry scope w of
        (Inl er, w1) \<Rightarrow> (Inl er, emit_audit_best_effort e 0 MemoryReembed None AuditError p (Some (DError er)) w1)
      | (Inr rep, w1) \<Rightarrow>
          (Inr rep, emit_audit_best_effort e 0 MemoryReembed None AuditOk p
             (Some (DReembedded (re_seen rep) (re_reembedded rep) (re_failed rep) (re_gc_deleted rep) (re_dry_run rep))) w1))"

definition dispatch_reembed ::
  "env \<Rightarrow> ((string \<times> string) \<times> nat) list \<Rightarrow> ReembedScope \<Rightarrow> string option \<Rightarrow> 'i writer
     \<Rightarrow> ReembedReport result \<times> 'i writer" where
  "dispatch_reembed e registry scope p w =
     (case handle_reembed e registry scope p w of
        (Inl er, w1) \<Rightarrow> (Inl er, w1)
      | (Inr rep, w1) \<Rightarrow> (Inr rep, emit_invalidate e MemoryReembed ''episode'' w1))"

end
