(* ===== verification/ReembedProps.thy ===== *)
theory ReembedProps
  imports Reembed RecoveryProps
begin

text \<open>
  What embedding the memories again leaves in the tables, and what the next startup, which rebuilds
  the index from them, makes of it.
\<close>

section \<open>One memory\<close>

definition rows_of :: "memory_id \<Rightarrow> db \<Rightarrow> embedding_row set" where
  "rows_of mid d = {m \<in> set (embeddings d). em_memory_id m = mid}"

definition fresh_row :: "env \<Rightarrow> EmbeddingDtype \<Rightarrow> nat \<Rightarrow> memory_id \<Rightarrow> Embedding \<Rightarrow> embedding_row" where
  "fresh_row e dt cid mid emb =
     \<lparr>em_memory_id = mid, em_embedder_id = cid, em_dtype = dt, em_dim = dim emb, em_vector = data emb,
      em_created_at_ms = now_ms e\<rparr>"

text \<open>The memory has the vector of its text for the current model, and with \<open>gc\<close> no other.\<close>

definition reembedded ::
  "env \<Rightarrow> (string list \<Rightarrow> Embedding list result) \<Rightarrow> EmbeddingDtype \<Rightarrow> nat \<Rightarrow> bool \<Rightarrow> db \<Rightarrow> memory_id \<times> string \<Rightarrow> db \<Rightarrow> bool"
where
  "reembedded e f dt cid gc d c d' =
     (case c of (mid, txt) \<Rightarrow> \<exists>emb. embed f txt = Inr emb \<and> validate emb = Inr () \<and>
        rows_of mid d' = insert (fresh_row e dt cid mid emb)
          (if gc then {} else {m \<in> rows_of mid d. em_embedder_id m \<noteq> cid}))"

lemma reembedded_from:
  "rows_of (fst b) d1 = rows_of (fst b) d \<Longrightarrow> reembedded e f dt cid gc d1 b d' = reembedded e f dt cid gc d b d'"
  by (cases b) (simp only: reembedded_def prod.case fst_conv)

lemma upsert_embedding_set:
  "set (embeddings (upsert_embedding row d)) =
     insert row {m \<in> set (embeddings d). \<not> (em_memory_id m = em_memory_id row \<and> em_embedder_id m = em_embedder_id row)}"
  by (auto simp: upsert_embedding_def Let_def)

lemma upsert_embedding_frame: "upsert_embedding row d = d\<lparr>embeddings := embeddings (upsert_embedding row d)\<rparr>"
  by (simp add: upsert_embedding_def Let_def)

lemma delete_stale_set: "set (embeddings (delete_stale mid cid d)) = {m \<in> set (embeddings d). \<not> is_stale_row mid cid m}"
  by (auto simp: delete_stale_def)

lemma count_stale_upsert:
  assumes "em_embedder_id row = cid"
  shows "count_stale j cid (upsert_embedding row d) = count_stale j cid d"
proof -
  let ?same = "\<lambda>r. em_memory_id r = em_memory_id row \<and> em_embedder_id r = em_embedder_id row"
  have "length (filter (is_stale_row j cid) (map (\<lambda>r. if ?same r then row else r) xs)) = length (filter (is_stale_row j cid) xs)" for xs
    using assms by (induction xs) (auto simp: is_stale_row_def)
  then show ?thesis using assms by (simp add: count_stale_def upsert_embedding_def Let_def is_stale_row_def)
qed

lemma count_stale_delete: "j \<noteq> k \<Longrightarrow> count_stale j cid (delete_stale k cid d) = count_stale j cid d"
proof -
  assume "j \<noteq> k"
  then have "filter (is_stale_row j cid) (filter (\<lambda>m. \<not> is_stale_row k cid m) xs) = filter (is_stale_row j cid) xs" for xs
    by (induction xs) (auto simp: is_stale_row_def)
  then show ?thesis by (simp add: count_stale_def delete_stale_def)
qed

text \<open>
  The memories whose re-embedding works: their text has a valid vector and no statement of their own
  transaction fails. \<open>i\<close> is the place of the first memory of the list in the run.
\<close>

definition works :: "env \<Rightarrow> (string list \<Rightarrow> Embedding list result) \<Rightarrow> bool \<Rightarrow> nat \<Rightarrow> string \<Rightarrow> bool" where
  "works e f gc i s =
     ((case embed f s of Inl _ \<Rightarrow> False | Inr emb \<Rightarrow> validate emb = Inr ()) \<and> \<not> fails e (SReembedBegin i) \<and>
      \<not> fails e (SReembedInsert i) \<and> (gc \<longrightarrow> \<not> fails e (SReembedGc i)) \<and> \<not> fails e (SReembedCommit i))"

fun redone ::
  "env \<Rightarrow> (string list \<Rightarrow> Embedding list result) \<Rightarrow> bool \<Rightarrow> nat \<Rightarrow> (memory_id \<times> string) list \<Rightarrow> memory_id set" where
  "redone e f gc i [] = {}"
| "redone e f gc i ((mid, s) # cs) = (if works e f gc i s then {mid} else {}) \<union> redone e f gc (Suc i) cs"

lemma redone_sub: "redone e f gc i cs \<subseteq> fst ` set cs"
  by (induction e f gc i cs rule: redone.induct) auto

lemma finite_redone: "finite (redone e f gc i cs)"
  by (rule finite_subset [OF redone_sub]) simp

lemma reembed_one_Inl:
  "reembed_one e f dt cid gc i c d = Inl er \<Longrightarrow> \<not> works e f gc i (snd c)"
  by (auto simp: works_def reembed_one_def bind_r_def stmt_def split: prod.splits sum.splits if_splits)

lemma reembed_one_Inr:
  "reembed_one e f dt cid gc i c d = Inr x \<Longrightarrow> works e f gc i (snd c)"
  by (auto simp: works_def reembed_one_def result_simps split: prod.splits sum.splits if_splits)

lemma reembed_one_ok:
  assumes "reembed_one e f dt cid gc i c d = Inr (d', n)"
  shows "d' = d\<lparr>embeddings := embeddings d'\<rparr>" "reembedded e f dt cid gc d c d'"
    "mid \<noteq> fst c \<Longrightarrow> rows_of mid d' = rows_of mid d" "n = (if gc then count_stale (fst c) cid d else 0)"
    "mid \<noteq> fst c \<Longrightarrow> count_stale mid cid d' = count_stale mid cid d"
proof -
  obtain k s where c: "c = (k, s)" by (cases c)
  obtain emb where emb: "embed f s = Inr emb" "validate emb = Inr ()"
    and d': "d' = (if gc then delete_stale k cid (upsert_embedding (fresh_row e dt cid k emb) d)
                   else upsert_embedding (fresh_row e dt cid k emb) d)"
    and n: "n = (if gc then count_stale k cid (upsert_embedding (fresh_row e dt cid k emb) d) else 0)"
    using assms by (auto simp: reembed_one_def c result_simps fresh_row_def split: if_splits)
  have up: "count_stale j cid (upsert_embedding (fresh_row e dt cid k emb) d) = count_stale j cid d" for j
    by (rule count_stale_upsert) (simp add: fresh_row_def)
  show "n = (if gc then count_stale (fst c) cid d else 0)" by (simp add: n c up)
  show "count_stale mid cid d' = count_stale mid cid d" if "mid \<noteq> fst c"
    using that by (simp add: d' up c count_stale_delete)
  show "d' = d\<lparr>embeddings := embeddings d'\<rparr>"
    by (simp add: d' delete_stale_def upsert_embedding_def Let_def)
  show "reembedded e f dt cid gc d c d'"
    using emb by (auto simp: reembedded_def c d' rows_of_def delete_stale_set upsert_embedding_set is_stale_row_def fresh_row_def)
  show "rows_of mid d' = rows_of mid d" if "mid \<noteq> fst c"
    using that by (auto simp: c d' rows_of_def delete_stale_set upsert_embedding_set is_stale_row_def fresh_row_def)
qed

section \<open>The loop\<close>

lemma embeddings_again: "d' = d1\<lparr>embeddings := E\<rparr> \<Longrightarrow> d1 = d\<lparr>embeddings := F\<rparr> \<Longrightarrow> d' = d\<lparr>embeddings := E\<rparr>"
  by simp

text \<open>What became of the candidates \<open>cs\<close>, of which those of \<open>did\<close> worked.\<close>

definition loop_outcome ::
  "env \<Rightarrow> (string list \<Rightarrow> Embedding list result) \<Rightarrow> EmbeddingDtype \<Rightarrow> nat \<Rightarrow> bool \<Rightarrow> (memory_id \<times> string) list \<Rightarrow> memory_id set
     \<Rightarrow> db \<Rightarrow> db \<Rightarrow> bool"
where
  "loop_outcome e f dt cid gc cs did d d' =
     ((\<forall>c \<in> set cs. fst c \<in> did \<longrightarrow> reembedded e f dt cid gc d c d') \<and>
      (\<forall>mid. mid \<notin> did \<longrightarrow> rows_of mid d' = rows_of mid d))"

lemma loop_outcome_skip:
  assumes "loop_outcome e f dt cid gc cs did d d'" "fst c \<notin> did"
  shows "loop_outcome e f dt cid gc (c # cs) did d d'"
  using assms unfolding loop_outcome_def by auto

lemma loop_outcome_cons:
  assumes "loop_outcome e f dt cid gc cs did d1 d'" "fst c \<notin> did" "fst c \<notin> fst ` set cs"
    "reembedded e f dt cid gc d c d1" "\<And>mid. mid \<noteq> fst c \<Longrightarrow> rows_of mid d1 = rows_of mid d"
  shows "loop_outcome e f dt cid gc (c # cs) (insert (fst c) did) d d'"
proof -
  have "rows_of (fst c) d' = rows_of (fst c) d1" using assms(1,2) unfolding loop_outcome_def by blast
  then have c: "reembedded e f dt cid gc d c d'" using assms(4) by (auto simp: reembedded_def split: prod.splits)
  have same: "reembedded e f dt cid gc d b d'" if "b \<in> set cs" "fst b \<in> did" for b
  proof -
    have "fst b \<noteq> fst c" using that assms(2) by metis
    then have "rows_of (fst b) d1 = rows_of (fst b) d" by (rule assms(5))
    note eq = reembedded_from [OF this, of e f dt cid gc d']
    show ?thesis by (rule iffD1 [OF eq]) (use assms(1) that in \<open>unfold loop_outcome_def, blast\<close>)
  qed
  have other: "fst b \<noteq> fst c" if "b \<in> set cs" for b using that assms(3) by (metis image_eqI)
  show ?thesis unfolding loop_outcome_def
  proof (intro conjI ballI allI impI)
    fix b assume "b \<in> set (c # cs)" "fst b \<in> insert (fst c) did"
    then show "reembedded e f dt cid gc d b d'" using c same [of b] other [of b] by auto
  next
    fix mid assume "mid \<notin> insert (fst c) did"
    then show "rows_of mid d' = rows_of mid d" using assms(1,5) unfolding loop_outcome_def by auto
  qed
qed

lemma reembed_loop_ok:
  "reembed_loop e f dt cid gc i cs (d, rep) = (d', rep') \<Longrightarrow> distinct (map fst cs) \<Longrightarrow>
   d' = d\<lparr>embeddings := embeddings d'\<rparr> \<and> re_seen rep' = re_seen rep \<and>
   loop_outcome e f dt cid gc cs (redone e f gc i cs) d d' \<and>
   re_reembedded rep' = re_reembedded rep + card (redone e f gc i cs) \<and>
   re_failed rep' = re_failed rep + card (fst ` set cs - redone e f gc i cs) \<and>
   re_gc_deleted rep' = re_gc_deleted rep + (if gc then \<Sum>mid \<in> redone e f gc i cs. count_stale mid cid d else 0)"
proof (induction cs arbitrary: i d rep)
  case Nil
  then show ?case by (auto simp: loop_outcome_def)
next
  case (Cons c cs)
  let ?did = "redone e f gc (Suc i) cs"
  have ds: "distinct (map fst cs)" "fst c \<notin> fst ` set cs" using Cons.prems(2) by auto
  have out: "fst c \<notin> ?did" using ds(2) redone_sub [of e f gc "Suc i" cs] by blast
  note fin = finite_redone [of e f gc "Suc i" cs]
  show ?case
  proof (cases "reembed_one e f dt cid gc i c d")
    case (Inl er)
    have run: "reembed_loop e f dt cid gc (Suc i) cs (d, rep\<lparr>re_failed := re_failed rep + 1\<rparr>) = (d', rep')"
      using Cons.prems(1) Inl by simp
    note ih = Cons.IH [OF run ds(1)]
    have red: "redone e f gc i (c # cs) = ?did" using reembed_one_Inl [OF Inl] by (cases c) simp
    have "fst ` set (c # cs) - ?did = insert (fst c) (fst ` set cs - ?did)" using out by auto
    then have "card (fst ` set (c # cs) - ?did) = Suc (card (fst ` set cs - ?did))" using ds(2) by simp
    moreover have "loop_outcome e f dt cid gc (c # cs) ?did d d'"
      by (rule loop_outcome_skip [OF _ out]) (use ih in blast)
    ultimately show ?thesis unfolding red using ih by simp
  next
    case (Inr x)
    obtain d1 n where x: "x = (d1, n)" by (cases x)
    note one = reembed_one_ok [OF Inr [unfolded x]]
    have run: "reembed_loop e f dt cid gc (Suc i) cs (d1, rep\<lparr>re_reembedded := re_reembedded rep + 1, re_gc_deleted := re_gc_deleted rep + n\<rparr>) = (d', rep')"
      using Cons.prems(1) Inr x by simp
    note ih = Cons.IH [OF run ds(1)]
    have red: "redone e f gc i (c # cs) = insert (fst c) ?did" using reembed_one_Inr [OF Inr] by (cases c) simp
    have rest: "fst ` set (c # cs) - insert (fst c) ?did = fst ` set cs - ?did" using ds(2) by auto
    have "count_stale mid cid d1 = count_stale mid cid d" if "mid \<in> ?did" for mid
      by (rule one(5)) (use that out in metis)
    then have "(\<Sum>mid \<in> ?did. count_stale mid cid d1) = (\<Sum>mid \<in> ?did. count_stale mid cid d)" by (rule sum.cong [OF refl])
    then have gc: "re_gc_deleted rep' = re_gc_deleted rep + (if gc then \<Sum>mid \<in> insert (fst c) ?did. count_stale mid cid d else 0)"
      using ih one(4) out fin by (cases gc) simp_all
    have lo: "loop_outcome e f dt cid gc (c # cs) (insert (fst c) ?did) d d'"
      by (rule loop_outcome_cons [OF _ out ds(2) one(2,3)]) (use ih in blast)
    have fr: "d' = d\<lparr>embeddings := embeddings d'\<rparr>" by (rule embeddings_again [OF _ one(1)]) (use ih in blast)
    show ?thesis unfolding red rest
      by (intro conjI fr lo gc) (use ih out fin in simp_all)
  qed
qed

section \<open>The candidates\<close>

definition has_stale :: "nat \<Rightarrow> nat option \<Rightarrow> db \<Rightarrow> memory_id \<Rightarrow> bool" where
  "has_stale cid from_id d mid = (\<exists>m \<in> rows_of mid d. stale_id cid from_id (em_embedder_id m))"

lemma has_stale_list:
  "has_stale cid from_id d mid = list_ex (\<lambda>m. em_memory_id m = mid \<and> stale_id cid from_id (em_embedder_id m)) (embeddings d)"
  by (auto simp: has_stale_def rows_of_def list_ex_iff)

lemma candidates_set:
  "set (reembed_candidates d cid from_id) =
     (\<lambda>r. (er_memory_id r, er_content r)) ` {r \<in> set (episodes d). er_status r = Active \<and> has_stale cid from_id d (er_memory_id r)}"
  by (auto simp: reembed_candidates_def has_stale_def rows_of_def)

lemma memory_ids_unique:
  "wf_db d \<Longrightarrow> r \<in> set (episodes d) \<Longrightarrow> s \<in> set (episodes d) \<Longrightarrow> er_memory_id r = er_memory_id s \<Longrightarrow> r = s"
  by (auto simp: wf_db_def distinct_map dest: inj_onD)

lemma candidates_distinct:
  assumes "wf_db d"
  shows "distinct (map fst (reembed_candidates d cid from_id))"
proof -
  have "inj_on fst (set (reembed_candidates d cid from_id))"
    unfolding candidates_set by (rule inj_onI) (clarsimp; metis memory_ids_unique [OF assms])
  then show ?thesis by (simp add: distinct_map reembed_candidates_def)
qed

lemma candidate_iff:
  assumes "wf_db d" "r \<in> set (episodes d)"
  shows "er_memory_id r \<in> fst ` set (reembed_candidates d cid from_id) \<longleftrightarrow>
    er_status r = Active \<and> has_stale cid from_id d (er_memory_id r)"
proof -
  have "fst ` set (reembed_candidates d cid from_id) =
      er_memory_id ` {r \<in> set (episodes d). er_status r = Active \<and> has_stale cid from_id d (er_memory_id r)}"
    by (simp add: candidates_set image_image)
  then show ?thesis using assms(2) by (auto dest: memory_ids_unique [OF assms(1) assms(2)])
qed

section \<open>The command\<close>

lemma handle_reembed_impl_ok:
  assumes "handle_reembed_impl e registry scope w = (Inr rep, w')" "\<not> rs_dry_run scope"
  obtains cid f dt from_id d where "embedder_id w = Some cid" "embedder w = Some (f, dt)"
    "reembed_from e registry cid (rs_from scope) = Inr from_id" "w' = w\<lparr>wdb := d\<rparr>"
    "reembed_loop e f dt cid (rs_gc scope) 0 (reembed_candidates (wdb w) cid from_id)
       (wdb w, \<lparr>re_seen = length (reembed_candidates (wdb w) cid from_id), re_reembedded = 0, re_failed = 0,
                re_gc_deleted = 0, re_dry_run = rs_dry_run scope\<rparr>) = (d, rep)"
  using assms that
  by (auto simp: handle_reembed_impl_def result_simps Let_def split: sum.splits prod.splits option.splits)

lemma dispatch_reembed_ok:
  assumes "dispatch_reembed e registry scope p w = (Inr rep, w')"
  obtains w1 where "handle_reembed_impl e registry scope w = (Inr rep, w1)" "hnsw w' = hnsw w1"
    "same_tables (wdb w1) (wdb w')"
proof -
  obtain w1 where w1: "handle_reembed_impl e registry scope w = (Inr rep, w1)"
      "w' = emit_invalidate e MemoryReembed ''episode'' (emit_audit_best_effort e 0 MemoryReembed None AuditOk p
         (Some (DReembedded (re_seen rep) (re_reembedded rep) (re_failed rep) (re_gc_deleted rep) (re_dry_run rep))) w1)"
    using assms by (auto simp: dispatch_reembed_def handle_reembed_def split: prod.splits sum.splits)
  show ?thesis
    by (rule that [OF w1(1)]) (simp_all add: w1(2) frame_simps same_tables_def insert_audit_def emit_audit_best_effort_def)
qed

section \<open>The rebuild that follows\<close>

context vector_index
begin

lemma rebuild_from_rows:
  assumes "rebuild_hnsw_from_sql ops e d eid i = Inr (i', rep)"
  shows "live i' \<subseteq> live i \<union> (\<lambda>x. episode_hnsw_id (of_nat (fst x))) ` set (rebuild_episode_rows d eid)
    \<union> (\<lambda>x. chunk_hnsw_id (of_nat (fst x))) ` set (rebuild_chunk_rows d eid)"
proof -
  obtain i1 rep1 where 1: "fold (rebuild_episode ops e) (rebuild_episode_rows d eid) (i, empty_rebuild) = (i1, rep1)"
    and 2: "(has_documents e \<and> fold (rebuild_chunk ops e) (rebuild_chunk_rows d eid) (i1, rep1) = (i', rep)) \<or>
         (\<not> has_documents e \<and> (i', rep) = (i1, rep1))"
    using rebuild_split [OF assms] by metis
  have eps: "live i1 \<subseteq> (\<lambda>x. episode_hnsw_id (of_nat (fst x))) ` set (rebuild_episode_rows d eid) \<union> live i"
    using fold_rebuild [of "rebuild_episode ops e" "\<lambda>x. episode_hnsw_id (of_nat (fst x))", OF _ 1]
      rebuild_episode_step by (simp add: empty_rebuild_def)
  have chs: "live i' \<subseteq> (\<lambda>x. chunk_hnsw_id (of_nat (fst x))) ` set (rebuild_chunk_rows d eid) \<union> live i1"
    using 2 fold_rebuild [of "rebuild_chunk ops e" "\<lambda>x. chunk_hnsw_id (of_nat (fst x))"
        "rebuild_chunk_rows d eid" i1 rep1 i' rep] rebuild_chunk_step by auto
  show ?thesis using eps chs by blast
qed

end

lemma fresh_startup:
  assumes "startup_index ops e dm eid (Inl er) (Inl er') fresh d = Inr out" "pending d = []"
  obtains rep where "rebuild_hnsw_from_sql ops e d eid fresh = Inr (so_hnsw out, rep)"
  using assms that
  by (auto simp: startup_index_def load_hnsw_with_fallback_def Let_def result_simps replay_pending_index_def
      pending_episode_rows_def pending_chunk_rows_def replay_rows_def split: prod.splits if_splits)

text \<open>The vectors the rebuild gives to the index.\<close>

lemma fold_inner:
  fixes step :: "nat \<times> bytes \<times> nat \<Rightarrow> HnswIndex \<times> RebuildReport \<Rightarrow> HnswIndex \<times> RebuildReport"
  assumes step: "\<And>x i rep i' rep'. step x (i, rep) = (i', rep') \<Longrightarrow> set (inner i) \<subseteq> set (inner i') \<and> hdim i' = hdim i"
    and adds: "\<And>x i rep i' rep'. step x (i, rep) = (i', rep') \<Longrightarrow> ok x \<Longrightarrow> hdim i = dm \<Longrightarrow> entry x \<in> set (inner i')"
  shows "fold step rows (i, rep) = (i', rep') \<Longrightarrow> hdim i = dm \<Longrightarrow>
    set (inner i) \<subseteq> set (inner i') \<and> hdim i' = dm \<and> (\<forall>x \<in> set rows. ok x \<longrightarrow> entry x \<in> set (inner i'))"
proof (induction rows arbitrary: i rep)
  case (Cons x rows)
  obtain i1 rep1 where 1: "step x (i, rep) = (i1, rep1)" by fastforce
  then have rest: "fold step rows (i1, rep1) = (i', rep')" using Cons.prems by simp
  have "hdim i1 = dm" using step [OF 1] Cons.prems by simp
  note ih = Cons.IH [OF rest this]
  have "ok x \<longrightarrow> entry x \<in> set (inner i')" using adds [OF 1] ih Cons.prems(2) by blast
  then show ?case using ih step [OF 1] by auto
qed simp

lemma add_row_inner: "add_rebuild_row (hnsw_vindex lib) e hid blob n i = Some i' \<Longrightarrow> set (inner i) \<subseteq> set (inner i') \<and> hdim i' = hdim i"
  by (auto simp: add_rebuild_row_def ok_opt_def hnsw_add_Inr_iff split: if_splits option.splits sum.splits)

lemma add_row_entry:
  "good_vector e (hdim i) blob n \<Longrightarrow> 0 \<le> sint hid \<Longrightarrow>
   \<exists>i'. add_rebuild_row (hnsw_vindex lib) e hid blob n i = Some i' \<and> (hid, f32s_of_bytes blob) \<in> set (inner i')"
  by (auto simp: add_rebuild_row_def good_vector_def cast_f32_def length_f32s hnsw_add_def ok_opt_def)

lemma rebuild_entries:
  assumes run: "rebuild_hnsw_from_sql (hnsw_vindex lib) e d eid (hnsw_new dm params) = Inr (i', rep)" and clean: "rebuild_clean e"
    and row: "(rowid, blob, n) \<in> set (rebuild_episode_rows d eid)" "good_vector e dm blob n" "rowid < 2 ^ 62"
  shows "(episode_hnsw_id (of_nat rowid), f32s_of_bytes blob) \<in> set (inner i')"
proof -
  let ?entry = "\<lambda>x::nat \<times> bytes \<times> nat. (episode_hnsw_id (of_nat (fst x)), f32s_of_bytes (fst (snd x)))"
  let ?ok = "\<lambda>x::nat \<times> bytes \<times> nat. fst x < 2 ^ 62 \<and> good_vector e dm (fst (snd x)) (snd (snd x))"
  obtain i1 rep1 where 1: "fold (rebuild_episode (hnsw_vindex lib) e) (rebuild_episode_rows d eid) (hnsw_new dm params, empty_rebuild) = (i1, rep1)"
    and 2: "(has_documents e \<and> fold (rebuild_chunk (hnsw_vindex lib) e) (rebuild_chunk_rows d eid) (i1, rep1) = (i', rep)) \<or>
         (\<not> has_documents e \<and> (i', rep) = (i1, rep1))"
    using hnsw.rebuild_split [OF run] by metis
  have step1: "set (inner i) \<subseteq> set (inner i2) \<and> hdim i2 = hdim i" if "rebuild_episode (hnsw_vindex lib) e x (i, r) = (i2, r2)" for x i r i2 r2
    using that add_row_inner by (fastforce simp: rebuild_episode_def Let_def split: prod.splits option.splits if_splits)
  have step2: "set (inner i) \<subseteq> set (inner i2) \<and> hdim i2 = hdim i" if "rebuild_chunk (hnsw_vindex lib) e x (i, r) = (i2, r2)" for x i r i2 r2
    using that add_row_inner by (fastforce simp: rebuild_chunk_def Let_def split: prod.splits option.splits if_splits)
  have adds: "?entry x \<in> set (inner i2)" if st: "rebuild_episode (hnsw_vindex lib) e x (i, r) = (i2, r2)" "?ok x" "hdim i = dm" for x i r i2 r2
  proof -
    have "0 \<le> sint (episode_hnsw_id (of_nat (fst x)))" using st(2) by (simp add: episode_hnsw_id_def sint_of_nat_rowid)
    then obtain i3 where "add_rebuild_row (hnsw_vindex lib) e (episode_hnsw_id (of_nat (fst x))) (fst (snd x)) (snd (snd x)) i = Some i3"
        "?entry x \<in> set (inner i3)"
      using add_row_entry [of e i "fst (snd x)" "snd (snd x)"] st(2,3) by metis
    then show ?thesis using st(1) clean by (auto simp: rebuild_episode_def Let_def rebuild_clean_def split: prod.splits)
  qed
  have new: "hdim (hnsw_new dm params) = dm" by (simp add: hnsw_new_def)
  have eps: "set (inner (hnsw_new dm params)) \<subseteq> set (inner i1) \<and> hdim i1 = dm \<and>
      (\<forall>x \<in> set (rebuild_episode_rows d eid). ?ok x \<longrightarrow> ?entry x \<in> set (inner i1))"
    by (rule fold_inner [OF _ _ 1 new]) (erule step1, erule (2) adds)
  have chs: "set (inner i1) \<subseteq> set (inner i') \<and> hdim i' = dm \<and> (\<forall>x \<in> set (rebuild_chunk_rows d eid). False \<longrightarrow> x \<in> {})"
    if "fold (rebuild_chunk (hnsw_vindex lib) e) (rebuild_chunk_rows d eid) (i1, rep1) = (i', rep)"
    using fold_inner [where ok = "\<lambda>_. False" and entry = ?entry, OF _ _ that] step2 eps by blast
  have "?entry (rowid, blob, n) \<in> set (inner i1)" using eps row by (metis fst_conv snd_conv)
  moreover have "set (inner i1) \<subseteq> set (inner i')" using 2 chs by auto
  ultimately show ?thesis by auto
qed

section \<open>Properties\<close>

lemma same_tables_expand: "same_tables d d' \<Longrightarrow> d' = d\<lparr>audit := audit d'\<rparr>"
  by (cases d; cases d') (simp add: same_tables_def)

lemma dispatch_reembed_outcome:
  assumes run: "dispatch_reembed e registry scope p w = (Inr rep, w')" and wf: "wf_db (wdb w)" and real: "\<not> rs_dry_run scope"
    and w: "embedder_id w = Some cid" "embedder w = Some (f, dt)" "reembed_from e registry cid (rs_from scope) = Inr from_id"
    and did: "did = redone e f (rs_gc scope) 0 (reembed_candidates (wdb w) cid from_id)"
    and cands: "cands = {r \<in> set (episodes (wdb w)). er_status r = Active \<and> has_stale cid from_id (wdb w) (er_memory_id r)}"
  shows "same_tables ((wdb w)\<lparr>embeddings := embeddings (wdb w')\<rparr>) (wdb w')" "hnsw w' = hnsw w"
    "re_seen rep = card cands" "re_reembedded rep = card did" "re_failed rep = card (er_memory_id ` cands - did)"
    "re_gc_deleted rep = (if rs_gc scope then \<Sum>mid \<in> did. count_stale mid cid (wdb w) else 0)"
    "did \<subseteq> er_memory_id ` cands"
    "\<And>r. r \<in> cands \<Longrightarrow> er_memory_id r \<in> did \<Longrightarrow>
       reembedded e f dt cid (rs_gc scope) (wdb w) (er_memory_id r, er_content r) (wdb w')"
    "\<And>mid. mid \<notin> did \<Longrightarrow> rows_of mid (wdb w') = rows_of mid (wdb w)"
proof -
  let ?cs = "reembed_candidates (wdb w) cid from_id"
  obtain w1 where w1: "handle_reembed_impl e registry scope w = (Inr rep, w1)" "hnsw w' = hnsw w1" "same_tables (wdb w1) (wdb w')"
    by (rule dispatch_reembed_ok [OF run])
  obtain d where d: "w1 = w\<lparr>wdb := d\<rparr>"
      "reembed_loop e f dt cid (rs_gc scope) 0 ?cs (wdb w, \<lparr>re_seen = length ?cs, re_reembedded = 0, re_failed = 0,
         re_gc_deleted = 0, re_dry_run = rs_dry_run scope\<rparr>) = (d, rep)"
    by (rule handle_reembed_impl_ok [OF w1(1) real]) (use w in simp)
  note loop = reembed_loop_ok [OF d(2) candidates_distinct [OF wf], folded did]
  have emb: "embeddings (wdb w') = embeddings d"
    using w1(3) by (auto simp: d(1) same_tables_def dest: arg_cong [where f = embeddings])
  then have rows: "rows_of mid (wdb w') = rows_of mid d" for mid by (simp add: rows_of_def)
  have cs: "set ?cs = (\<lambda>r. (er_memory_id r, er_content r)) ` cands" by (simp add: candidates_set cands)
  then have ids: "fst ` set ?cs = er_memory_id ` cands" by (simp add: image_image)
  have "inj_on er_memory_id cands" by (rule inj_onI) (auto simp: cands intro: memory_ids_unique [OF wf])
  then have "card cands = card (fst ` set ?cs)" by (simp add: ids card_image)
  also have "\<dots> = length ?cs" using distinct_card [OF candidates_distinct [OF wf, of cid from_id]] by simp
  finally show "re_seen rep = card cands" using loop by simp
  show "same_tables ((wdb w)\<lparr>embeddings := embeddings (wdb w')\<rparr>) (wdb w')"
    using loop w1(3) by (simp add: emb d(1))
  show "hnsw w' = hnsw w" by (simp add: w1(2) d(1))
  show "re_reembedded rep = card did" "re_failed rep = card (er_memory_id ` cands - did)"
    "re_gc_deleted rep = (if rs_gc scope then \<Sum>mid \<in> did. count_stale mid cid (wdb w) else 0)"
    using loop by (simp_all add: ids)
  show "did \<subseteq> er_memory_id ` cands" using redone_sub [of e f "rs_gc scope" 0 ?cs] by (simp add: ids did)
  show "reembedded e f dt cid (rs_gc scope) (wdb w) (er_memory_id r, er_content r) (wdb w')"
    if "r \<in> cands" "er_memory_id r \<in> did" for r
  proof -
    have "(er_memory_id r, er_content r) \<in> set ?cs" using that(1) by (simp add: cs)
    moreover have "fst (er_memory_id r, er_content r) \<in> did" using that(2) by simp
    ultimately have "reembedded e f dt cid (rs_gc scope) (wdb w) (er_memory_id r, er_content r) d"
      using loop unfolding loop_outcome_def by blast
    then show ?thesis by (simp add: rows reembedded_def)
  qed
  show "rows_of mid (wdb w') = rows_of mid (wdb w)" if "mid \<notin> did" for mid
    using loop that by (simp add: rows loop_outcome_def)
qed

text \<open>
  C20: what a run of the re-embedding command that is not a dry run does, on a library with unique
  memory ids. It reads the active memories with a vector of a model to leave; of these, the memories
  of \<open>redone\<close> are exactly those whose text has a valid vector by the current model and whose own
  transaction has no failing statement. The report counts the memories read, those redone, the others
  as failed, and with the collection the rows it deletes. Afterwards a redone memory has the vector of
  its text by the current model (with the collection no other, without it its rows of other models
  as before), every other memory has exactly the rows it had, no table but the
  embedding rows and the audit changes and the index is not touched.
\<close>

theorem reembed_outcome:
  assumes "dispatch_reembed e registry scope p w = (Inr rep, w')" "wf_db (wdb w)" "\<not> rs_dry_run scope"
    and "embedder_id w = Some cid" "embedder w = Some (f, dt)" "reembed_from e registry cid (rs_from scope) = Inr from_id"
    and "did = redone e f (rs_gc scope) 0 (reembed_candidates (wdb w) cid from_id)"
    and "cands = {r \<in> set (episodes (wdb w)). er_status r = Active \<and> has_stale cid from_id (wdb w) (er_memory_id r)}"
  shows "same_tables ((wdb w)\<lparr>embeddings := embeddings (wdb w')\<rparr>) (wdb w') \<and> hnsw w' = hnsw w \<and>
    re_seen rep = card cands \<and> re_reembedded rep = card did \<and> re_failed rep = card (er_memory_id ` cands - did) \<and>
    re_gc_deleted rep = (if rs_gc scope then \<Sum>mid \<in> did. count_stale mid cid (wdb w) else 0) \<and>
    did \<subseteq> er_memory_id ` cands \<and>
    (\<forall>r \<in> cands. er_memory_id r \<in> did \<longrightarrow>
       reembedded e f dt cid (rs_gc scope) (wdb w) (er_memory_id r, er_content r) (wdb w')) \<and>
    (\<forall>mid. mid \<notin> did \<longrightarrow> rows_of mid (wdb w') = rows_of mid (wdb w))"
  using dispatch_reembed_outcome [OF assms] by blast

text \<open>Vectors of a size the index takes and in memory that is aligned.\<close>

definition embeds_well :: "renv \<Rightarrow> nat \<Rightarrow> (string list \<Rightarrow> Embedding list result) \<Rightarrow> bool" where
  "embeds_well e dm f = (\<forall>s emb. embed f s = Inr emb \<longrightarrow> good_vector e dm (data emb) (dim emb))"

lemma rows_of_sub: "m \<in> rows_of mid d \<Longrightarrow> m \<in> set (embeddings d) \<and> em_memory_id m = mid"
  by (simp add: rows_of_def)

text \<open>
  C21: after a re-embedding of everything in which nothing failed, a startup that rebuilds the index
  finds exactly the active memories and chunks, and each memory that had a vector of another
  model is in it with the vector the current model gives its text. The chunks need their
  vectors of the current model from elsewhere.
\<close>

theorem reembed_then_rebuild:
  assumes "dispatch_reembed e registry scope p w = (Inr rep, w')" "re_failed rep = 0"
    and "wf_db (wdb w)" "rowids_fit (wdb w)" "pending (wdb w) = []"
    and "\<not> rs_dry_run scope" "rs_from scope = None" "embedder_id w = Some cid" "embedder w = Some (f, dt)"
    and "\<forall>r \<in> set (episodes (wdb w)). er_status r = Active \<longrightarrow> rows_of (er_memory_id r) (wdb w) \<noteq> {}"
    and "\<forall>m \<in> set (embeddings (wdb w)). em_embedder_id m = cid \<longrightarrow> good_vector re dm (em_vector m) (em_dim m)"
    and "\<forall>c \<in> set (chunks (wdb w)). doc_active (wdb w) (cr_doc_id c) \<longrightarrow>
        (\<exists>m \<in> set (chunk_embeddings (wdb w)). ce_chunk_id m = cr_chunk_id c \<and> ce_embedder_id m = cid \<and>
           good_vector re dm (ce_vector m) (ce_dim m))"
    and "embeds_well re dm f" "rebuild_clean re"
    and "startup_index (hnsw_vindex lib) re dm cid (Inl er) (Inl er') (hnsw_new dm params) (wdb w') = Inr out"
  shows "hnsw_live (so_hnsw out) = active_ids (wdb w) \<and>
    (\<forall>r \<in> set (episodes (wdb w)). er_status r = Active \<and> has_stale cid None (wdb w) (er_memory_id r) \<longrightarrow>
       (\<exists>emb. embed f (er_content r) = Inr emb \<and> (ep_id r, f32s_of_bytes (data emb)) \<in> set (inner (so_hnsw out))))"
proof -
  have fr: "reembed_from e registry cid (rs_from scope) = Inr None" by (simp add: reembed_from_def assms(7))
  note out = dispatch_reembed_outcome [OF assms(1,3,6,8,9) fr refl refl]
  obtain E A where w': "wdb w' = (wdb w)\<lparr>embeddings := E, audit := A\<rparr>"
    using same_tables_expand [OF out(1)] by simp
  have redone: "reembedded e f dt cid (rs_gc scope) (wdb w) (er_memory_id r, er_content r) (wdb w')"
    if "r \<in> set (episodes (wdb w))" "er_status r = Active" "has_stale cid None (wdb w) (er_memory_id r)" for r
  proof (rule out(8))
    show "r \<in> {r \<in> set (episodes (wdb w)). er_status r = Active \<and> has_stale cid None (wdb w) (er_memory_id r)}" using that by simp
    then show "er_memory_id r \<in> redone e f (rs_gc scope) 0 (reembed_candidates (wdb w) cid None)"
      using out(5) assms(2) by auto
  qed
  have current: "\<exists>m \<in> set E. em_memory_id m = er_memory_id r \<and> em_embedder_id m = cid \<and> good_vector re dm (em_vector m) (em_dim m)"
    if r: "r \<in> set (episodes (wdb w))" "er_status r = Active" for r
  proof (cases "has_stale cid None (wdb w) (er_memory_id r)")
    case True
    obtain emb where emb: "embed f (er_content r) = Inr emb" "fresh_row e dt cid (er_memory_id r) emb \<in> rows_of (er_memory_id r) (wdb w')"
      using redone [OF r True] by (auto simp: reembedded_def)
    with assms(13) show ?thesis
      by (intro bexI [of _ "fresh_row e dt cid (er_memory_id r) emb"]) (auto simp: embeds_well_def fresh_row_def rows_of_def w')
  next
    case False
    obtain m where m: "m \<in> rows_of (er_memory_id r) (wdb w)" using assms(10) r by blast
    then have "em_embedder_id m = cid" using False by (auto simp: has_stale_def stale_id_def)
    moreover have "m \<in> rows_of (er_memory_id r) (wdb w')"
    proof -
      have "er_memory_id r \<notin> redone e f (rs_gc scope) 0 (reembed_candidates (wdb w) cid None)" using out(7) False by auto
      then show ?thesis using m out(9) by simp
    qed
    ultimately show ?thesis using m assms(11) by (intro bexI [of _ m]) (auto simp: rows_of_def w')
  qed
  have same: "episodes (wdb w') = episodes (wdb w)" "chunks (wdb w') = chunks (wdb w)" "embeddings (wdb w') = E"
    "pending (wdb w') = []" "active_ids (wdb w') = active_ids (wdb w)" "wf_db (wdb w')" "rowids_fit (wdb w')"
    using assms(3-5) by (simp_all add: w' active_ids_def doc_active_def wf_db_def rowids_fit_def)
  have ready: "rebuildable re cid dm (wdb w')"
    unfolding rebuildable_def using current assms(12) by (simp add: w' doc_active_def)
  obtain rb where rb: "rebuild_hnsw_from_sql (hnsw_vindex lib) re (wdb w') cid (hnsw_new dm params) = Inr (so_hnsw out, rb)"
    by (rule fresh_startup [OF assms(15) same(4)])
  have "outbox_ok (hnsw_live (so_hnsw out)) (wdb w')"
    by (rule hnsw_full.rebuild_complete [OF rb assms(14) same(6,7)]) (use ready in \<open>simp add: hnsw_new_def\<close>)
  then have "active_ids (wdb w) \<subseteq> hnsw_live (so_hnsw out)"
    using hnsw_full.outbox_drained [OF _ same(4)] same(5) by blast
  moreover have "hnsw_live (so_hnsw out) \<subseteq> active_ids (wdb w)" using hnsw.rebuild_inv(2) [OF rb] same(5) by simp
  moreover have "\<exists>emb. embed f (er_content r) = Inr emb \<and> (ep_id r, f32s_of_bytes (data emb)) \<in> set (inner (so_hnsw out))"
    if r: "r \<in> set (episodes (wdb w))" "er_status r = Active" "has_stale cid None (wdb w) (er_memory_id r)" for r
  proof -
    obtain emb where emb: "embed f (er_content r) = Inr emb" "fresh_row e dt cid (er_memory_id r) emb \<in> rows_of (er_memory_id r) (wdb w')"
      using redone [OF r] by (auto simp: reembedded_def)
    have row: "(er_rowid r, data emb, dim emb) \<in> set (rebuild_episode_rows (wdb w') cid)"
      using rebuild_episode_rowsI [of r "wdb w'" "fresh_row e dt cid (er_memory_id r) emb" cid] r same emb(2)
      by (simp add: rows_of_def fresh_row_def)
    have "good_vector re dm (data emb) (dim emb)" using emb(1) assms(13) by (simp add: embeds_well_def)
    moreover have "er_rowid r < 2 ^ 62" by (rule row_fits [OF assms(3,4) r(1)])
    ultimately show ?thesis
      using rebuild_entries [OF rb assms(14) row] emb(1) by (auto simp: ep_id_def)
  qed
  ultimately show ?thesis by blast
qed

text \<open>
  What the re-embedding leaves behind: it reads the memories only, so a chunk of a document whose vectors
  are all of another model keeps them, and the index that the next startup rebuilds for the current
  model does not find it, although its document is active.
\<close>

theorem reembed_loses_documents:
  assumes "dispatch_reembed e registry scope p w = (Inr rep, w')" "wf_db (wdb w)" "rowids_fit (wdb w)" "pending (wdb w) = []"
    and "\<not> rs_dry_run scope" "rs_from scope = None" "embedder_id w = Some cid" "embedder w = Some (f, dt)"
    and "c \<in> set (chunks (wdb w))" "doc_active (wdb w) (cr_doc_id c)"
    and "\<forall>m \<in> set (chunk_embeddings (wdb w)). ce_chunk_id m = cr_chunk_id c \<longrightarrow> ce_embedder_id m \<noteq> cid"
    and "startup_index (hnsw_vindex lib) re dm cid (Inl er) (Inl er') (hnsw_new dm params) (wdb w') = Inr out"
  shows "ch_id c \<in> active_ids (wdb w') \<and> ch_id c \<notin> hnsw_live (so_hnsw out)"
proof -
  have fr: "reembed_from e registry cid (rs_from scope) = Inr None" by (simp add: reembed_from_def assms(6))
  note out = dispatch_reembed_outcome [OF assms(1,2,5,7,8) fr refl refl]
  obtain E A where w': "wdb w' = (wdb w)\<lparr>embeddings := E, audit := A\<rparr>" using same_tables_expand [OF out(1)] by simp
  have same: "wf_db (wdb w')" "rowids_fit (wdb w')" "pending (wdb w') = []"
    using assms(2-4) by (simp_all add: w' wf_db_def rowids_fit_def)
  obtain rb where rb: "rebuild_hnsw_from_sql (hnsw_vindex lib) re (wdb w') cid (hnsw_new dm params) = Inr (so_hnsw out, rb)"
    by (rule fresh_startup [OF assms(12) same(3)])
  have mem: "c \<in> set (chunks (wdb w'))" using assms(9) by (simp add: w')
  have "ch_id c \<notin> (\<lambda>x. episode_hnsw_id (of_nat (fst x))) ` set (rebuild_episode_rows (wdb w') cid)"
    using ep_ne_ch [OF same(1,2)] unfolding ep_id_def by (auto simp: rebuild_episode_rows_def) metis
  moreover have "ch_id c \<notin> (\<lambda>x. chunk_hnsw_id (of_nat (fst x))) ` set (rebuild_chunk_rows (wdb w') cid)"
  proof
    assume "ch_id c \<in> (\<lambda>x. chunk_hnsw_id (of_nat (fst x))) ` set (rebuild_chunk_rows (wdb w') cid)"
    then obtain k m where km: "k \<in> set (chunks (wdb w'))" "m \<in> set (chunk_embeddings (wdb w'))" "ce_chunk_id m = cr_chunk_id k"
        "ce_embedder_id m = cid" "ch_id c = ch_id k"
      by (auto simp: rebuild_chunk_rows_def ch_id_def)
    have "k = c" using ch_id_eq [OF same(1,2) mem km(1)] km(5) by simp
    then show False using km assms(11) by (simp add: w')
  qed
  ultimately have "ch_id c \<notin> hnsw_live (so_hnsw out)" using hnsw.rebuild_from_rows [OF rb] by auto
  moreover have "ch_id c \<in> active_ids (wdb w')" using assms(9,10) by (auto simp: active_ids_def w' doc_active_def)
  ultimately show ?thesis by blast
qed

section \<open>A concrete run\<close>

text \<open>
  Two memories: the first has a vector of the model 0, the second of the current model 1; a document
  with one chunk has a vector of the model 1, in \<open>lost_db\<close> of the model 0.
\<close>

definition stale_db :: db where
  "stale_db = recovery_db\<lparr>pending := [],
     embeddings := [embedding_row_of sample_env 5 0 sample_embedding, embedding_row_of sample_env 6 1 sample_embedding],
     documents := [\<lparr>dr_doc_id = 70, dr_source = ''a.txt'', dr_title = ''a'', dr_mime_type = ''text/plain'', dr_ingested_at_ms = 1,
        dr_modified_at_ms = None, dr_status = Active, dr_chunk_count = 1, dr_content_hash = ''h'', dr_byte_size = 2\<rparr>],
     chunks := [\<lparr>cr_rowid = 1, cr_chunk_id = 100, cr_doc_id = 70, cr_chunk_index = 0, cr_content = ''hi'', cr_token_count = 1,
        cr_start_offset = 0, cr_end_offset = 2, cr_created_at_ms = 1, cr_principal = None\<rparr>], chunk_seq := 1,
     chunk_embeddings := [\<lparr>ce_chunk_id = 100, ce_embedder_id = 1, ce_dtype = F32, ce_dim = 1, ce_vector = ''abcd'', ce_created_at_ms = 1\<rparr>]\<rparr>"

definition lost_db :: db where
  "lost_db = stale_db\<lparr>chunk_embeddings := [\<lparr>ce_chunk_id = 100, ce_embedder_id = 0, ce_dtype = F32, ce_dim = 1,
     ce_vector = ''abcd'', ce_created_at_ms = 1\<rparr>]\<rparr>"

definition reembed_all :: ReembedScope where
  "reembed_all = \<lparr>rs_from = None, rs_dry_run = False, rs_gc = True\<rparr>"

lemmas reembed_eval = dispatch_reembed_def handle_reembed_def handle_reembed_impl_def reembed_from_def
  reembed_candidates_def stale_id_def reembed_one_def embed_def upsert_embedding_def delete_stale_def count_stale_def
  is_stale_row_def emit_audit_best_effort_def emit_invalidate_def reembed_all_def stale_db_def lost_db_def recovery_db_def
  empty_db_def sample_row_def remember_row_def embedding_row_of_def sample_embedding_def sample_episode_def sample_env_def
  sample_writer_def validate_def bytes_for_dim_def bytes_per_element_def stmt_def

lemma stale_wf: "wf_db stale_db" "rowids_fit stale_db" "wf_db lost_db" "rowids_fit lost_db"
  by (simp_all add: stale_db_def lost_db_def recovery_db_def sample_row_def remember_row_def wf_db_def rowids_fit_def empty_db_def)

lemma stale_run:
  "\<exists>rep w'. dispatch_reembed sample_env [] reembed_all None (sample_writer\<lparr>wdb := stale_db\<rparr>) = (Inr rep, w') \<and>
     re_failed rep = 0 \<and> re_reembedded rep = 1 \<and> re_gc_deleted rep = 1"
  "\<exists>rep w'. dispatch_reembed sample_env [] reembed_all None (sample_writer\<lparr>wdb := lost_db\<rparr>) = (Inr rep, w')"
  by (simp_all add: reembed_eval)

lemma fresh_startup_returns:
  obtains out where "startup_index ops sample_renv dm eid (Inl er) (Inl er') fresh d = Inr out"
proof -
  have "\<exists>out. startup_index ops sample_renv dm eid (Inl er) (Inl er') fresh d = Inr out"
  by (simp add: startup_index_def load_hnsw_with_fallback_def rebuild_hnsw_from_sql_def documents_tables_present_def
      replay_pending_index_def detect_drift_def Let_def sample_renv_def split: prod.splits)
  with that show ?thesis by blast
qed

lemma stale_premises:
  "embedder_id (sample_writer\<lparr>wdb := d\<rparr>) = Some 1"
  "embedder (sample_writer\<lparr>wdb := d\<rparr>) = Some (\<lambda>ts. Inr (map (\<lambda>_. sample_embedding) ts), F32)"
  "reembed_from sample_env [] 1 (rs_from reembed_all) = Inr None" "\<not> rs_dry_run reembed_all" "rs_from reembed_all = None"
  by (simp_all add: sample_writer_def reembed_from_def reembed_all_def)

theorem reembed_outcome_witness:
  "\<exists>rep w'. dispatch_reembed sample_env [] reembed_all None (sample_writer\<lparr>wdb := stale_db\<rparr>) = (Inr rep, w') \<and>
     re_seen rep = 1 \<and> re_reembedded rep = 1 \<and> re_failed rep = 0 \<and> re_gc_deleted rep = 1 \<and>
     rows_of 6 (wdb w') = rows_of 6 stale_db"
proof -
  obtain rep w' where run: "dispatch_reembed sample_env [] reembed_all None (sample_writer\<lparr>wdb := stale_db\<rparr>) = (Inr rep, w')"
    using stale_run(1) by blast
  have wf: "wf_db (wdb (sample_writer\<lparr>wdb := stale_db\<rparr>))" using stale_wf by simp
  have did: "redone sample_env (\<lambda>ts. Inr (map (\<lambda>_. sample_embedding) ts)) (rs_gc reembed_all) 0
      (reembed_candidates (wdb (sample_writer\<lparr>wdb := stale_db\<rparr>)) 1 None) = {5}"
    by (simp add: works_def reembed_eval)
  have cands: "{r \<in> set (episodes (wdb (sample_writer\<lparr>wdb := stale_db\<rparr>))). er_status r = Active \<and>
      has_stale 1 None (wdb (sample_writer\<lparr>wdb := stale_db\<rparr>)) (er_memory_id r)} = {hd (episodes stale_db)}"
  proof -
    have eps: "set (episodes stale_db) = {hd (episodes stale_db), hd (tl (episodes stale_db))}"
      by (simp add: stale_db_def recovery_db_def)
    have ids: "er_memory_id (hd (episodes stale_db)) = 5" "er_memory_id (hd (tl (episodes stale_db))) = 6"
      "er_status (hd (episodes stale_db)) = Active"
      by (simp_all add: stale_db_def recovery_db_def sample_row_def remember_row_def)
    have "has_stale 1 None stale_db 5" "\<not> has_stale 1 None stale_db 6"
      by (simp_all add: has_stale_list stale_id_def stale_db_def embedding_row_of_def)
    then show ?thesis using eps ids by auto
  qed
  have five: "er_memory_id (hd (episodes stale_db)) = 5" "count_stale 5 1 stale_db = 1"
    by (simp_all add: stale_db_def recovery_db_def empty_db_def sample_row_def remember_row_def embedding_row_of_def
      count_stale_def is_stale_row_def)
  from reembed_outcome [OF run wf stale_premises(4,1,2,3) did [symmetric] cands [symmetric]] run five show ?thesis
    by (auto simp: reembed_all_def)
qed

theorem reembed_then_rebuild_witness:
  "\<exists>rep w' out. dispatch_reembed sample_env [] reembed_all None (sample_writer\<lparr>wdb := stale_db\<rparr>) = (Inr rep, w') \<and>
     startup_index sample_ops sample_renv 1 1 (Inl Storage) (Inl Storage) (hnsw_new 1 default_params) (wdb w') = Inr out \<and>
     hnsw_live (so_hnsw out) = active_ids stale_db"
proof -
  obtain rep w' where run: "dispatch_reembed sample_env [] reembed_all None (sample_writer\<lparr>wdb := stale_db\<rparr>) = (Inr rep, w')"
    and ok: "re_failed rep = 0"
    using stale_run(1) by blast
  obtain out where out: "startup_index sample_ops sample_renv 1 1 (Inl Storage) (Inl Storage) (hnsw_new 1 default_params) (wdb w') = Inr out"
    by (rule fresh_startup_returns)
  have "hnsw_live (so_hnsw out) = active_ids (wdb (sample_writer\<lparr>wdb := stale_db\<rparr>))"
    by (rule conjunct1 [OF reembed_then_rebuild [OF run ok _ _ _ stale_premises(4,5,1,2) _ _ _ _ _ out]])
      (simp_all add: stale_wf, auto simp: ex_disj_distrib conj_disj_distribR stale_db_def recovery_db_def empty_db_def embedding_row_of_def sample_row_def remember_row_def
        sample_episode_def sample_embedding_def rows_of_def good_vector_def sample_renv_def embeds_well_def embed_def rebuild_clean_def)
  with run out show ?thesis by auto
qed

theorem reembed_loses_documents_witness:
  "\<exists>rep w' out. dispatch_reembed sample_env [] reembed_all None (sample_writer\<lparr>wdb := lost_db\<rparr>) = (Inr rep, w') \<and>
     startup_index sample_ops sample_renv 1 1 (Inl Storage) (Inl Storage) (hnsw_new 1 default_params) (wdb w') = Inr out \<and>
     ch_id (hd (chunks lost_db)) \<notin> hnsw_live (so_hnsw out)"
proof -
  obtain rep w' where run: "dispatch_reembed sample_env [] reembed_all None (sample_writer\<lparr>wdb := lost_db\<rparr>) = (Inr rep, w')"
    using stale_run(2) by blast
  obtain out where out: "startup_index sample_ops sample_renv 1 1 (Inl Storage) (Inl Storage) (hnsw_new 1 default_params) (wdb w') = Inr out"
    by (rule fresh_startup_returns)
  have "ch_id (hd (chunks lost_db)) \<notin> hnsw_live (so_hnsw out)"
    by (rule conjunct2 [OF reembed_loses_documents [OF run _ _ _ stale_premises(4,5,1,2) _ _ _ out]])
      (simp_all add: stale_wf, simp_all add: lost_db_def stale_db_def recovery_db_def empty_db_def doc_active_def)
  with run out show ?thesis by auto
qed

end
