(* ===== verification/LibraryDb.thy ===== *)
theory LibraryDb
  imports DerivedDb
begin

text \<open>
  The tables of the library that hold what was derived from memories and documents and the
  originals of the documents (\<open>crates/solo-storage/src/migrations\<close>: \<open>0012\<close> assets and attachments, \<open>0014\<close>
  extractions, \<open>0015\<close> triple reviews, \<open>0017\<close> entities, relationships and their evidence, \<open>0018\<close> claims),
  each row with the columns that tie it to other rows, and the deletions with their cascades,
  their \<open>SET NULL\<close> and the trigger on the evidence. The foreign keys are on.
\<close>

section \<open>Rows\<close>

record claim_row =
  cm_id :: string
  cm_triple_id :: "memory_id option"
  cm_source_episode_id :: "nat option"
  cm_doc_id :: "document_id option"
  cm_chunk_id :: "chunk_id option"

record triple_review_row =
  tv_id :: string
  tv_triple_id :: "memory_id option"
  tv_source_episode_id :: "nat option"

record entity_row =
  en_id :: string
  en_canonical_name :: string

record edge_row =
  eg_id :: uuid
  eg_subject :: string
  eg_object :: "string option"
  eg_evidence_count :: nat
  eg_updated_at_ms :: int

record evidence_row =
  vd_id :: uuid
  vd_edge_id :: uuid
  vd_triple_id :: memory_id
  vd_memory_id :: "memory_id option"
  vd_source_episode_id :: "nat option"
  vd_doc_id :: "document_id option"
  vd_chunk_id :: "chunk_id option"

record asset_row =
  as_id :: uuid
  as_sha256 :: string
  as_storage_path :: string
  as_created_by :: "string option"

text \<open>An attachment is to a document or to an asset, never to both (its \<open>CHECK\<close>).\<close>

datatype attach_target = ADocument document_id | AAsset uuid

record attachment_row =
  at_id :: uuid
  at_memory_id :: memory_id
  at_target :: attach_target

record extraction_row =
  ax_id :: uuid
  ax_asset_id :: uuid

record related =
  claims :: "claim_row list"
  triple_reviews :: "triple_review_row list"
  entities :: "entity_row list"
  edges :: "edge_row list"
  evidence :: "evidence_row list"
  assets :: "asset_row list"
  document_assets :: "(document_id \<times> uuid) list"
  attachments :: "attachment_row list"
  extractions :: "extraction_row list"

record library =
  core :: db
  der :: derived
  rel :: related

section \<open>Deletions\<close>

definition null_out :: "'a set \<Rightarrow> 'a option \<Rightarrow> 'a option" where
  "null_out gone x = (case x of None \<Rightarrow> None | Some k \<Rightarrow> if k \<in> gone then None else Some k)"

definition null_episode :: "memory_id set \<Rightarrow> nat set \<Rightarrow> related \<Rightarrow> related" where
  "null_episode mids rids r =
     r\<lparr>claims := map (\<lambda>c. c\<lparr>cm_source_episode_id := null_out rids (cm_source_episode_id c)\<rparr>) (claims r),
       triple_reviews := map (\<lambda>v. v\<lparr>tv_source_episode_id := null_out rids (tv_source_episode_id v)\<rparr>) (triple_reviews r),
       evidence := map (\<lambda>v. v\<lparr>vd_memory_id := null_out mids (vd_memory_id v),
                             vd_source_episode_id := null_out rids (vd_source_episode_id v)\<rparr>) (evidence r)\<rparr>"

definition null_chunk :: "chunk_id set \<Rightarrow> related \<Rightarrow> related" where
  "null_chunk cids r =
     r\<lparr>claims := map (\<lambda>c. c\<lparr>cm_chunk_id := null_out cids (cm_chunk_id c)\<rparr>) (claims r),
       evidence := map (\<lambda>v. v\<lparr>vd_chunk_id := null_out cids (vd_chunk_id v)\<rparr>) (evidence r)\<rparr>"

definition null_document :: "document_id set \<Rightarrow> related \<Rightarrow> related" where
  "null_document dids r =
     r\<lparr>claims := map (\<lambda>c. c\<lparr>cm_doc_id := null_out dids (cm_doc_id c)\<rparr>) (claims r),
       evidence := map (\<lambda>v. v\<lparr>vd_doc_id := null_out dids (vd_doc_id v)\<rparr>) (evidence r)\<rparr>"

text \<open>
  \<open>DELETE FROM episodes\<close>: the embeddings, the outbox rows, the review, the links to clusters and the
  attachments go with it; what was derived from it loses the reference.
\<close>

definition delete_episodes :: "(episode_row \<Rightarrow> bool) \<Rightarrow> library \<Rightarrow> library" where
  "delete_episodes P l =
     (let d = core l; gone = filter P (episodes d);
          mids = er_memory_id ` set gone; rids = er_rowid ` set gone
      in \<lparr>core = d\<lparr>episodes := filter (\<lambda>r. \<not> P r) (episodes d),
                   embeddings := filter (\<lambda>m. em_memory_id m \<notin> mids) (embeddings d),
                   pending := filter (\<lambda>q. pe_target q \<notin> PEpisode ` mids) (pending d),
                   reviews := filter (\<lambda>v. rv_memory_id v \<notin> mids) (reviews d)\<rparr>,
          der = (der l)\<lparr>links := filter (\<lambda>k. snd k \<notin> mids) (links (der l)),
                        triples := map (\<lambda>t. t\<lparr>tr_source_episode_id := null_out rids (tr_source_episode_id t)\<rparr>) (triples (der l))\<rparr>,
          rel = (let r = null_episode mids rids (rel l)
                 in r\<lparr>attachments := filter (\<lambda>a. at_memory_id a \<notin> mids) (attachments r)\<rparr>)\<rparr>)"

definition delete_chunks :: "(chunk_row \<Rightarrow> bool) \<Rightarrow> library \<Rightarrow> library" where
  "delete_chunks P l =
     (let d = core l; cids = cr_chunk_id ` set (filter P (chunks d))
      in l\<lparr>core := d\<lparr>chunks := filter (\<lambda>c. \<not> P c) (chunks d),
                     chunk_embeddings := filter (\<lambda>m. ce_chunk_id m \<notin> cids) (chunk_embeddings d),
                     pending := filter (\<lambda>q. pe_target q \<notin> PChunk ` cids) (pending d)\<rparr>,
           rel := null_chunk cids (rel l)\<rparr>)"

definition delete_documents :: "document_id set \<Rightarrow> library \<Rightarrow> library" where
  "delete_documents dids l =
     (let l1 = delete_chunks (\<lambda>c. cr_doc_id c \<in> dids) l; r = null_document dids (rel l1)
      in l1\<lparr>core := (core l1)\<lparr>documents := filter (\<lambda>x. dr_doc_id x \<notin> dids) (documents (core l1))\<rparr>,
            rel := r\<lparr>document_assets := filter (\<lambda>k. fst k \<notin> dids) (document_assets r),
                     attachments := filter (\<lambda>a. at_target a \<notin> ADocument ` dids) (attachments r)\<rparr>\<rparr>)"

definition delete_assets :: "uuid set \<Rightarrow> library \<Rightarrow> library" where
  "delete_assets aids l =
     (let r = rel l
      in l\<lparr>rel := r\<lparr>assets := filter (\<lambda>a. as_id a \<notin> aids) (assets r),
                    document_assets := filter (\<lambda>k. snd k \<notin> aids) (document_assets r),
                    attachments := filter (\<lambda>a. at_target a \<notin> AAsset ` aids) (attachments r),
                    extractions := filter (\<lambda>x. ax_asset_id x \<notin> aids) (extractions r)\<rparr>\<rparr>)"

text \<open>
  Deleting a row of the evidence fires the trigger \<open>relationship_evidence_after_delete\<close>, which counts
  what is left for the relationship and deletes it when nothing is; \<open>ts\<close> is the time it reads.
\<close>

definition evidence_count :: "uuid \<Rightarrow> related \<Rightarrow> nat" where
  "evidence_count eid r = length (filter (\<lambda>v. vd_edge_id v = eid) (evidence r))"

definition delete_evidence :: "int \<Rightarrow> evidence_row \<Rightarrow> related \<Rightarrow> related" where
  "delete_evidence ts v r =
     (let r1 = r\<lparr>evidence := filter (\<lambda>x. vd_id x \<noteq> vd_id v) (evidence r)\<rparr>; eid = vd_edge_id v
      in r1\<lparr>edges := filter (\<lambda>g. eg_id g \<noteq> eid \<or> evidence_count eid r1 > 0)
              (map (\<lambda>g. if eg_id g = eid
                        then g\<lparr>eg_evidence_count := evidence_count eid r1, eg_updated_at_ms := ts\<rparr> else g) (edges r1))\<rparr>)"

definition delete_facts :: "int \<Rightarrow> memory_id set \<Rightarrow> library \<Rightarrow> library" where
  "delete_facts ts tids l =
     l\<lparr>der := (der l)\<lparr>triples := filter (\<lambda>t. tr_id t \<notin> tids) (triples (der l))\<rparr>,
       rel := fold (delete_evidence ts) (filter (\<lambda>v. vd_triple_id v \<in> tids \<inter> tr_id ` set (triples (der l))) (evidence (rel l))) (rel l)\<rparr>"

definition delete_unsupported_edges :: "uuid set \<Rightarrow> related \<Rightarrow> related" where
  "delete_unsupported_edges eids r =
     r\<lparr>edges := filter (\<lambda>g. \<not> (eg_id g \<in> eids \<and> evidence_count (eg_id g) r = 0)) (edges r)\<rparr>"

definition recount_edges :: "uuid set \<Rightarrow> related \<Rightarrow> related" where
  "recount_edges eids r =
     r\<lparr>edges := map (\<lambda>g. if eg_id g \<in> eids then g\<lparr>eg_evidence_count := evidence_count (eg_id g) r\<rparr> else g) (edges r)\<rparr>"

section \<open>The constraints\<close>

definition opt_in :: "'a option \<Rightarrow> 'a set \<Rightarrow> bool" where
  "opt_in x S = (case x of None \<Rightarrow> True | Some k \<Rightarrow> k \<in> S)"

definition target_ok :: "library \<Rightarrow> attach_target \<Rightarrow> bool" where
  "target_ok l t =
     (case t of ADocument did \<Rightarrow> did \<in> dr_doc_id ` set (documents (core l))
              | AAsset aid \<Rightarrow> aid \<in> as_id ` set (assets (rel l)))"

text \<open>What refers to a memory, a chunk, a document: the rows exist.\<close>

definition core_refs_ok :: "library \<Rightarrow> bool" where
  "core_refs_ok l =
     (em_memory_id ` set (embeddings (core l)) \<subseteq> er_memory_id ` set (episodes (core l)) \<and>
      rv_memory_id ` set (reviews (core l)) \<subseteq> er_memory_id ` set (episodes (core l)) \<and>
      ce_chunk_id ` set (chunk_embeddings (core l)) \<subseteq> cr_chunk_id ` set (chunks (core l)) \<and>
      pe_target ` set (pending (core l)) \<subseteq>
        PEpisode ` er_memory_id ` set (episodes (core l)) \<union> PChunk ` cr_chunk_id ` set (chunks (core l)))"

definition source_refs_ok :: "library \<Rightarrow> bool" where
  "source_refs_ok l =
     ((\<forall>t \<in> set (triples (der l)). opt_in (tr_source_episode_id t) (er_rowid ` set (episodes (core l)))) \<and>
      (\<forall>c \<in> set (claims (rel l)). opt_in (cm_source_episode_id c) (er_rowid ` set (episodes (core l))) \<and>
         opt_in (cm_doc_id c) (dr_doc_id ` set (documents (core l))) \<and> opt_in (cm_chunk_id c) (cr_chunk_id ` set (chunks (core l)))) \<and>
      (\<forall>v \<in> set (triple_reviews (rel l)). opt_in (tv_source_episode_id v) (er_rowid ` set (episodes (core l)))) \<and>
      (\<forall>v \<in> set (evidence (rel l)). opt_in (vd_memory_id v) (er_memory_id ` set (episodes (core l))) \<and>
         opt_in (vd_source_episode_id v) (er_rowid ` set (episodes (core l))) \<and>
         opt_in (vd_doc_id v) (dr_doc_id ` set (documents (core l))) \<and> opt_in (vd_chunk_id v) (cr_chunk_id ` set (chunks (core l)))))"

definition graph_ok :: "library \<Rightarrow> bool" where
  "graph_ok l =
     (distinct (map eg_id (edges (rel l))) \<and> distinct (map vd_id (evidence (rel l))) \<and>
      vd_edge_id ` set (evidence (rel l)) \<subseteq> eg_id ` set (edges (rel l)) \<and>
      vd_triple_id ` set (evidence (rel l)) \<subseteq> tr_id ` set (triples (der l)) \<and>
      (\<forall>g \<in> set (edges (rel l)). eg_subject g \<in> en_id ` set (entities (rel l)) \<and>
         opt_in (eg_object g) (en_id ` set (entities (rel l))) \<and> eg_evidence_count g = evidence_count (eg_id g) (rel l)))"

definition asset_refs_ok :: "library \<Rightarrow> bool" where
  "asset_refs_ok l =
     (fst ` set (document_assets (rel l)) \<subseteq> dr_doc_id ` set (documents (core l)) \<and>
      snd ` set (document_assets (rel l)) \<subseteq> as_id ` set (assets (rel l)) \<and>
      (\<forall>a \<in> set (attachments (rel l)). at_memory_id a \<in> er_memory_id ` set (episodes (core l)) \<and> target_ok l (at_target a)) \<and>
      ax_asset_id ` set (extractions (rel l)) \<subseteq> as_id ` set (assets (rel l)) \<and>
      distinct (map as_id (assets (rel l))) \<and> distinct (map as_storage_path (assets (rel l))))"

definition library_ok :: "library \<Rightarrow> bool" where
  "library_ok l =
     (wf_db (core l) \<and> derived_ok (core l) (der l) \<and> core_refs_ok l \<and> source_refs_ok l \<and> graph_ok l \<and> asset_refs_ok l)"

section \<open>Facts about the deletions\<close>

lemma null_out_id: "opt_in x (- gone) \<Longrightarrow> null_out gone x = x"
  by (auto simp: null_out_def opt_in_def split: option.splits)

lemma opt_in_simps [simp]: "opt_in None S" "opt_in (Some k) S \<longleftrightarrow> k \<in> S"
  by (simp_all add: opt_in_def)

lemma opt_in_not: "opt_in x (- S) \<longleftrightarrow> (\<forall>k. x = Some k \<longrightarrow> k \<notin> S)"
  by (cases x) auto

lemma opt_in_keep: "opt_in x (f ` A) \<Longrightarrow> opt_in x (- (f ` B)) \<Longrightarrow> opt_in x (f ` (A - B))"
  by (cases x) auto

end
