(* ===== verification/AssetPaths.thy ===== *)
theory AssetPaths
  imports Files
begin

text \<open>Where a retained original may lie: the checks of \<open>crates/solo-storage/src/asset_files.rs\<close>.\<close>

definition normalize_sha256_hex :: "string \<Rightarrow> string result" where
  "normalize_sha256_hex v =
     (let v' = to_ascii_lowercase (trim v)
      in if length v' \<noteq> 64 \<or> \<not> list_all is_ascii_hexdigit v' then Inl InvalidInput else Inr v')"

text \<open>
  \<open>Path::components\<close> of a relative path: empty components and \<open>.\<close> are dropped, except a leading
  \<open>.\<close>, which like \<open>..\<close> is not a normal component.
\<close>

definition normal_components :: "string \<Rightarrow> string list option" where
  "normal_components s =
     (let cs = split_on (CHR ''/'') s; ns = filter (\<lambda>c. c \<noteq> [] \<and> c \<noteq> ''.'') cs
      in if hd cs = ''.'' \<or> ''..'' \<in> set ns then None else Some ns)"

definition safe_asset_storage_path :: "path \<Rightarrow> string \<Rightarrow> path result" where
  "safe_asset_storage_path root sp =
     (if starts_with ''/'' sp then Inl Storage
      else case normal_components sp of
        None \<Rightarrow> Inl Storage
      | Some parts \<Rightarrow>
          if length parts \<noteq> 4 \<or> parts ! 0 \<noteq> ''assets'' \<or> parts ! 1 \<noteq> ''blobs'' then Inl Storage
          else bind_r (normalize_sha256_hex (parts ! 3)) (\<lambda>sha.
            if length (parts ! 2) \<noteq> 2 \<or> parts ! 2 \<noteq> take 2 sha then Inl Storage
            else Inr (rev parts @ root)))"

end
