(* ===== verification/Erasure.thy ===== *)
theory Erasure
  imports LibraryDb AssetPaths WriterBase Recovery
begin

text \<open>
  The erasure of everything attributed to a principal: \<open>crates/solo-storage/src/gdpr.rs\<close>,
  \<open>gdpr_assets.rs\<close> and the command \<open>ForgetPrincipalRows\<close> of the writer.
  The rows go in one transaction; the files of the originals are removed inside it, before the
  commit, and a rollback does not bring them back. A statement the code runs is \<open>SErase k\<close>, in the
  order of the code; the file operations fail as the plan of \<^theory_text>\<open>Files\<close> says. The data directory holds
  no symbolic links, so the canonical form of a path is the path, when it exists.
\<close>

record erase_env =
  io_plan :: plan
  snapshot_dir :: "path option"
  queue_busy :: bool

definition sql :: "env \<Rightarrow> nat \<Rightarrow> 'a result \<Rightarrow> (error, 'a) op" where
  "sql e k r = lift_r (stmt e (SErase k) r)"

section \<open>What is erased\<close>

definition of_principal :: "string \<Rightarrow> episode_row \<Rightarrow> bool" where
  "of_principal p r = (er_principal r = Some p)"

definition chunk_of_principal :: "string \<Rightarrow> chunk_row \<Rightarrow> bool" where
  "chunk_of_principal p c = (cr_principal c = Some p)"

text \<open>\<open>solo_forget_docs\<close>: a chunk or an original of the principal, and no chunk and no attachment of others.\<close>

definition forget_docs :: "string \<Rightarrow> library \<Rightarrow> document_id list" where
  "forget_docs p l =
     map dr_doc_id (filter (\<lambda>x.
        (list_ex (\<lambda>c. cr_doc_id c = dr_doc_id x \<and> cr_principal c = Some p) (chunks (core l)) \<or>
         list_ex (\<lambda>k. fst k = dr_doc_id x \<and>
            list_ex (\<lambda>a. as_id a = snd k \<and> as_created_by a = Some p) (assets (rel l))) (document_assets (rel l))) \<and>
        \<not> list_ex (\<lambda>c. cr_doc_id c = dr_doc_id x \<and> cr_principal c \<noteq> Some p) (chunks (core l)) \<and>
        \<not> list_ex (\<lambda>t. at_target t = ADocument (dr_doc_id x) \<and>
            list_ex (\<lambda>r. er_memory_id r = at_memory_id t \<and> er_principal r \<noteq> Some p) (episodes (core l))) (attachments (rel l)))
       (documents (core l)))"

text \<open>\<open>solo_forget_assets\<close>.\<close>

definition forget_assets :: "string \<Rightarrow> document_id list \<Rightarrow> library \<Rightarrow> asset_row list" where
  "forget_assets p docs l =
     filter (\<lambda>a. as_created_by a = Some p \<or>
        list_ex (\<lambda>k. snd k = as_id a \<and> fst k \<in> set docs) (document_assets (rel l)) \<or>
        list_ex (\<lambda>t. at_target t = AAsset (as_id a) \<and>
            list_ex (\<lambda>r. er_memory_id r = at_memory_id t \<and> er_principal r = Some p) (episodes (core l))) (attachments (rel l)))
       (assets (rel l))"

definition shared_asset :: "string \<Rightarrow> document_id list \<Rightarrow> library \<Rightarrow> asset_row \<Rightarrow> bool" where
  "shared_asset p docs l a =
     (as_created_by a \<noteq> None \<and> as_created_by a \<noteq> Some p \<or>
      list_ex (\<lambda>k. snd k = as_id a \<and> fst k \<notin> set docs) (document_assets (rel l)) \<or>
      list_ex (\<lambda>t. at_target t = AAsset (as_id a) \<and>
        list_ex (\<lambda>r. er_memory_id r = at_memory_id t \<and> er_principal r \<noteq> Some p) (episodes (core l))) (attachments (rel l)))"

text \<open>\<open>solo_forget_triples\<close> and \<open>solo_forget_edges\<close>.\<close>

definition erased_rowids :: "string \<Rightarrow> library \<Rightarrow> nat set" where
  "erased_rowids p l = er_rowid ` set (filter (of_principal p) (episodes (core l)))"

definition erased_memories :: "string \<Rightarrow> library \<Rightarrow> memory_id set" where
  "erased_memories p l = er_memory_id ` set (filter (of_principal p) (episodes (core l)))"

definition erased_chunks :: "string \<Rightarrow> library \<Rightarrow> chunk_id set" where
  "erased_chunks p l = cr_chunk_id ` set (filter (chunk_of_principal p) (chunks (core l)))"

definition opt_hits :: "'a option \<Rightarrow> 'a set \<Rightarrow> bool" where
  "opt_hits x S = (case x of None \<Rightarrow> False | Some k \<Rightarrow> k \<in> S)"

definition evidence_hits :: "string \<Rightarrow> document_id list \<Rightarrow> library \<Rightarrow> evidence_row \<Rightarrow> bool" where
  "evidence_hits p docs l v =
     (opt_hits (vd_source_episode_id v) (erased_rowids p l) \<or> opt_hits (vd_memory_id v) (erased_memories p l) \<or>
      opt_hits (vd_chunk_id v) (erased_chunks p l) \<or> opt_hits (vd_doc_id v) (set docs))"

definition forget_triples :: "string \<Rightarrow> document_id list \<Rightarrow> library \<Rightarrow> memory_id set" where
  "forget_triples p docs l =
     tr_id ` set (filter (\<lambda>t. opt_hits (tr_source_episode_id t) (erased_rowids p l)) (triples (der l))) \<union>
     vd_triple_id ` set (filter (evidence_hits p docs l) (evidence (rel l)))"

definition forget_edges :: "memory_id set \<Rightarrow> library \<Rightarrow> uuid set" where
  "forget_edges tids l = vd_edge_id ` set (filter (\<lambda>v. vd_triple_id v \<in> tids) (evidence (rel l)))"

definition claim_hits :: "string \<Rightarrow> document_id list \<Rightarrow> memory_id set \<Rightarrow> library \<Rightarrow> claim_row \<Rightarrow> bool" where
  "claim_hits p docs tids l c =
     (opt_hits (cm_source_episode_id c) (erased_rowids p l) \<or> opt_hits (cm_chunk_id c) (erased_chunks p l) \<or>
      opt_hits (cm_doc_id c) (set docs) \<or> opt_hits (cm_triple_id c) tids)"

definition review_hits :: "string \<Rightarrow> memory_id set \<Rightarrow> library \<Rightarrow> triple_review_row \<Rightarrow> bool" where
  "review_hits p tids l v = (opt_hits (tv_source_episode_id v) (erased_rowids p l) \<or> opt_hits (tv_triple_id v) tids)"

definition erased_clusters :: "string \<Rightarrow> library \<Rightarrow> memory_id set" where
  "erased_clusters p l = fst ` set (filter (\<lambda>k. snd k \<in> erased_memories p l) (links (der l)))"

definition delete_claims :: "(claim_row \<Rightarrow> bool) \<Rightarrow> library \<Rightarrow> library" where
  "delete_claims P l = l\<lparr>rel := (rel l)\<lparr>claims := filter (\<lambda>c. \<not> P c) (claims (rel l))\<rparr>\<rparr>"

definition delete_triple_reviews :: "(triple_review_row \<Rightarrow> bool) \<Rightarrow> library \<Rightarrow> library" where
  "delete_triple_reviews P l = l\<lparr>rel := (rel l)\<lparr>triple_reviews := filter (\<lambda>v. \<not> P v) (triple_reviews (rel l))\<rparr>\<rparr>"

definition delete_abstractions_of :: "memory_id set \<Rightarrow> library \<Rightarrow> library" where
  "delete_abstractions_of cids l =
     l\<lparr>der := (der l)\<lparr>abstractions := filter (\<lambda>a. sa_cluster_id a \<notin> cids) (abstractions (der l))\<rparr>\<rparr>"

section \<open>Originals\<close>

definition canonicalize :: "plan \<Rightarrow> path \<Rightarrow> path io" where
  "canonicalize o' p s =
     (if o' (clock s) \<noteq> Fine then (Inl OtherIo, tick s)
      else if files s p = None \<and> p \<notin> dirs s then (Inl EntryNotFound, tick s)
      else (Inr p, tick s))"

definition under :: "path \<Rightarrow> path \<Rightarrow> bool" where
  "under root p = (drop (length p - length root) p = root)"

text \<open>One original before the erasure; \<open>None\<close> is one an interrupted erasure has removed already.\<close>

definition inspect_original :: "erase_env \<Rightarrow> string \<times> string \<Rightarrow> (error, path option) op" where
  "inspect_original x row =
     (case row of (storage_path, sha256) \<Rightarrow>
        bind_io (lift_r (ok_or (snapshot_dir x) Storage)) (\<lambda>root.
        bind_io (lift_r (safe_asset_storage_path root storage_path)) (\<lambda>p.
        if hd p \<noteq> sha256 then raise Storage
        else bind_io (attempt (canonicalize (io_plan x) p)) (\<lambda>r.
          case r of
            Inr resolved \<Rightarrow>
              bind_io (map_err (\<lambda>_. Storage) (canonicalize (io_plan x) root)) (\<lambda>root'. \<lambda>s.
              if \<not> under root' resolved \<or> \<not> is_file resolved s then (Inl Storage, s) else (Inr (Some p), s))
          | Inl EntryNotFound \<Rightarrow> ret None
          | Inl _ \<Rightarrow> raise Storage))))"

fun inspect_originals :: "erase_env \<Rightarrow> (string \<times> string) list \<Rightarrow> (error, path list) op" where
  "inspect_originals x [] = ret []"
| "inspect_originals x (row # rows) =
     bind_io (inspect_original x row) (\<lambda>q.
     bind_io (inspect_originals x rows) (\<lambda>qs. ret (case q of None \<Rightarrow> qs | Some p \<Rightarrow> p # qs)))"

record AssetErasure =
  ae_docs :: "document_id list"
  ae_assets :: "asset_row list"
  ae_paths :: "path list"

definition prepare_assets :: "env \<Rightarrow> erase_env \<Rightarrow> string \<Rightarrow> library \<Rightarrow> (error, AssetErasure) op" where
  "prepare_assets e x p l =
     bind_io (sql e 1 (Inr ())) (\<lambda>_.
     bind_io (sql e 2 (Inr (forget_docs p l))) (\<lambda>docs.
     bind_io (sql e 3 (Inr (forget_assets p docs l))) (\<lambda>as.
     bind_io (sql e 4 (Inr (list_ex (shared_asset p docs l) as))) (\<lambda>shared.
     if shared then raise InvalidInput
     else bind_io (sql e 5 (Inr (map (\<lambda>a. (as_storage_path a, as_sha256 a)) as))) (\<lambda>rows.
       bind_io (inspect_originals x rows) (\<lambda>paths.
       bind_io (sql e 6 (Inr ())) (\<lambda>_.
       ret \<lparr>ae_docs = docs, ae_assets = as, ae_paths = paths\<rparr>)))))))"

fun remove_originals :: "erase_env \<Rightarrow> path list \<Rightarrow> (error, unit) op" where
  "remove_originals x [] = ret ()"
| "remove_originals x (p # ps) =
     bind_io (attempt (remove_file (io_plan x) p)) (\<lambda>r.
     case r of
       Inr _ \<Rightarrow> remove_originals x ps
     | Inl EntryNotFound \<Rightarrow> remove_originals x ps
     | Inl _ \<Rightarrow> raise Storage)"

definition erase_assets :: "env \<Rightarrow> erase_env \<Rightarrow> AssetErasure \<Rightarrow> library \<Rightarrow> (error, library) op" where
  "erase_assets e x ae l =
     bind_io (sql e 18 (Inr (delete_assets (as_id ` set (ae_assets ae)) (delete_documents (set (ae_docs ae)) l)))) (\<lambda>l'.
     bind_io (remove_originals x (ae_paths ae)) (\<lambda>_. ret l'))"

section \<open>The transaction\<close>

record DeleteOutcome =
  do_episodes_deleted :: nat
  do_triples_deleted :: nat
  do_triples_orphan :: nat
  do_chunks_deleted :: nat
  do_documents_deleted :: nat
  do_assets_deleted :: nat
  do_episode_rowids :: "nat list"
  do_chunk_rowids :: "nat list"

definition orphan_triples :: "string \<Rightarrow> library \<Rightarrow> triple_row list" where
  "orphan_triples p l =
     filter (\<lambda>t. tr_source_episode_id t = None \<and> opt_hits (tr_cluster_id t) (erased_clusters p l)) (triples (der l))"

definition now_secs_ms :: "env \<Rightarrow> int" where
  "now_secs_ms e = now_ms e div 1000 * 1000"

text \<open>The state of the transaction is passed from statement to statement; an error rolls it back.\<close>

definition delete_principal_rows_with_assets ::
  "env \<Rightarrow> erase_env \<Rightarrow> string \<Rightarrow> library \<Rightarrow> (error, DeleteOutcome \<times> library) op"
where
  "delete_principal_rows_with_assets e x p l =
     (if trim p = [] then raise InvalidInput
      else bind_io (sql e 0 (Inr ())) (\<lambda>_.
       bind_io (prepare_assets e x p l) (\<lambda>ae.
       bind_io (sql e 7 (Inr (map cr_rowid (filter (chunk_of_principal p) (chunks (core l)))))) (\<lambda>chunk_rowids.
       bind_io (sql e 20 (Inr ())) (\<lambda>_.
       bind_io (sql e 8 (Inr (forget_triples p (ae_docs ae) l))) (\<lambda>tids.
       bind_io (sql e 9 (Inr (forget_edges tids l))) (\<lambda>eids.
       bind_io (sql e 10 (Inr (delete_claims (claim_hits p (ae_docs ae) tids l) l))) (\<lambda>l1.
       bind_io (sql e 11 (Inr (delete_triple_reviews (review_hits p tids l1) l1))) (\<lambda>l2.
       bind_io (sql e 12 (Inr (delete_abstractions_of (erased_clusters p l2) l2))) (\<lambda>l3.
       bind_io (sql e 13 (Inr (sort (map er_rowid (filter (of_principal p) (episodes (core l3))))))) (\<lambda>rowids.
       bind_io (sql e 14 (Inr (delete_facts (now_secs_ms e) tids l3))) (\<lambda>l4.
       bind_io (sql e 15 (Inr (l4\<lparr>rel := recount_edges eids (delete_unsupported_edges eids (rel l4))\<rparr>))) (\<lambda>l5.
       bind_io (sql e 16 (Inr (length (orphan_triples p l5)))) (\<lambda>orphans.
       bind_io (sql e 17 (Inr (delete_episodes (of_principal p) l5))) (\<lambda>l6.
       bind_io (sql e 21 (Inr (delete_chunks (chunk_of_principal p) l6))) (\<lambda>l7.
       bind_io (erase_assets e x ae l7) (\<lambda>l8.
       bind_io (sql e 19 (Inr ())) (\<lambda>_.
       ret (\<lparr>do_episodes_deleted = length (filter (of_principal p) (episodes (core l5))),
             do_triples_deleted = length (filter (\<lambda>t. tr_id t \<in> tids) (triples (der l3))),
             do_triples_orphan = orphans,
             do_chunks_deleted = length (filter (chunk_of_principal p) (chunks (core l6))),
             do_documents_deleted = length (ae_docs ae),
             do_assets_deleted = length (ae_assets ae),
             do_episode_rowids = rowids, do_chunk_rowids = chunk_rowids\<rparr>, l8)))))))))))))))))))"

section \<open>The command of the writer\<close>

definition lib_of :: "'i writer \<Rightarrow> derived \<Rightarrow> related \<Rightarrow> library" where
  "lib_of w t r = \<lparr>core = wdb w, der = t, rel = r\<rparr>"

fun invalidate_ids :: "('i, 'd) vindex \<Rightarrow> i64 list \<Rightarrow> 'i \<Rightarrow> 'i" where
  "invalidate_ids ops [] i = i"
| "invalidate_ids ops (r # rs) i =
     invalidate_ids ops rs (case vi_remove ops i r of Inl _ \<Rightarrow> i | Inr i' \<Rightarrow> i')"

definition outcome_ids :: "DeleteOutcome \<Rightarrow> i64 list" where
  "outcome_ids out =
     map (\<lambda>n. episode_hnsw_id (of_nat n)) (do_episode_rowids out) @ map (\<lambda>n. chunk_hnsw_id (of_nat n)) (do_chunk_rowids out)"

definition invalidate_vectors :: "('i, 'd) vindex \<Rightarrow> DeleteOutcome \<Rightarrow> 'i \<Rightarrow> 'i" where
  "invalidate_vectors ops out = invalidate_ids ops (outcome_ids out)"

type_synonym 'i vault = "'i writer \<times> derived \<times> related \<times> disk"

definition dispatch_forget_principal_rows ::
  "('i, 'd) vindex \<Rightarrow> env \<Rightarrow> erase_env \<Rightarrow> string \<Rightarrow> 'i vault \<Rightarrow> DeleteOutcome result \<times> 'i vault"
where
  "dispatch_forget_principal_rows ops e x p v =
     (case v of (w, t, r, s) \<Rightarrow>
        case delete_principal_rows_with_assets e x p (lib_of w t r) s of
          (Inl er, s') \<Rightarrow> (Inl er, (w, t, r, s'))
        | (Inr (out, l'), s') \<Rightarrow>
            (Inr out, (w\<lparr>wdb := core l', hnsw := invalidate_vectors ops out (hnsw w)\<rparr>, der l', rel l', s')))"

section \<open>The operation\<close>

record ForgetReport =
  fr_episodes_deleted :: nat
  fr_triples_deleted :: nat
  fr_chunks_deleted :: nat
  fr_documents_deleted :: nat
  fr_assets_deleted :: nat
  fr_triples_orphan_null_source :: nat
  fr_hnsw_rebuilt :: bool

record admin_row =
  ad_ts_ms :: int
  ad_principal :: "string option"
  ad_operation :: AuditOperation
  ad_target_tenant :: "string option"
  ad_result :: AuditResult
  ad_subject :: string
  ad_report :: ForgetReport

definition report_of :: "DeleteOutcome \<Rightarrow> bool \<Rightarrow> ForgetReport" where
  "report_of out rebuilt =
     \<lparr>fr_episodes_deleted = do_episodes_deleted out, fr_triples_deleted = do_triples_deleted out,
      fr_chunks_deleted = do_chunks_deleted out, fr_documents_deleted = do_documents_deleted out,
      fr_assets_deleted = do_assets_deleted out, fr_triples_orphan_null_source = do_triples_orphan out,
      fr_hnsw_rebuilt = rebuilt\<rparr>"

definition total_deleted :: "DeleteOutcome \<Rightarrow> nat" where
  "total_deleted out =
     do_episodes_deleted out + do_triples_deleted out + do_chunks_deleted out + do_documents_deleted out + do_assets_deleted out"

text \<open>
  \<open>forget_principal\<close>: the command, the rebuild of the index when something was deleted, the row of the
  administrative trail. The rebuild runs on a second connection while the index is shared; here no
  other command comes between. The ids of the trail count its rows, which are never deleted. \<open>eid\<close> is the handle's embedder, \<open>tid\<close> its tenant id.
\<close>

definition forget_principal ::
  "('i, 'd) vindex \<Rightarrow> env \<Rightarrow> renv \<Rightarrow> erase_env \<Rightarrow> nat \<Rightarrow> string \<Rightarrow> string option \<Rightarrow> string
     \<Rightarrow> 'i vault \<times> admin_row list \<Rightarrow> (ForgetReport \<times> nat) result \<times> 'i vault \<times> admin_row list"
where
  "forget_principal ops e re x eid tid actor p st =
     (case st of (v, trail) \<Rightarrow>
      if queue_busy x then (Inl Storage, v, trail)
      else case dispatch_forget_principal_rows ops e x p v of
        (Inl er, v1) \<Rightarrow> (Inl er, v1, trail)
      | (Inr out, (w, t, r, s)) \<Rightarrow>
          if fails e SEraseOpen then (Inl Storage, (w, t, r, s), trail)
          else case (if total_deleted out > 0
                     then map_sum id fst (rebuild_hnsw_from_sql ops re (wdb w) eid (hnsw w)) else Inr (hnsw w)) of
            Inl er \<Rightarrow> (Inl er, (w, t, r, s), trail)
          | Inr i \<Rightarrow>
              let rep = report_of out (total_deleted out > 0); w' = w\<lparr>hnsw := i\<rparr> in
              if fails e SEraseAdminOpen \<or> fails e SEraseAdmin then (Inl Storage, (w', t, r, s), trail)
              else (Inr (rep, Suc (length trail)),
                (if total_deleted out > 0
                 then w'\<lparr>events := events w' @ [\<lparr>ev_reason = GdprForgetUser, ev_tenant_id = tid, ev_ts_ms = event_ms e, ev_kind = ''tenant''\<rparr>]\<rparr>
                 else w', t, r, s),
                trail @ [\<lparr>ad_ts_ms = event_ms e, ad_principal = actor, ad_operation = GdprForgetUser, ad_target_tenant = Some tid,
                   ad_result = AuditOk, ad_subject = p, ad_report = rep\<rparr>]))"

section \<open>What can be said beforehand\<close>

text \<open>\<open>audit_attribution\<close> and \<open>estimate_forget_scope\<close> on an open connection.\<close>

record AttributionReport =
  ar_episodes_total :: nat
  ar_episodes_unattributed :: nat
  ar_chunks_total :: nat
  ar_chunks_unattributed :: nat

text \<open>SQL's \<open>trim\<close> strips spaces only.\<close>

definition sql_blank :: "string option \<Rightarrow> bool" where
  "sql_blank x = (case x of None \<Rightarrow> True | Some s \<Rightarrow> list_all (\<lambda>c. c = CHR '' '') s)"

definition attribution_report :: "db \<Rightarrow> AttributionReport" where
  "attribution_report d =
     \<lparr>ar_episodes_total = length (episodes d),
      ar_episodes_unattributed = length (filter (\<lambda>r. sql_blank (er_principal r)) (episodes d)),
      ar_chunks_total = length (chunks d),
      ar_chunks_unattributed = length (filter (\<lambda>c. sql_blank (cr_principal c)) (chunks d))\<rparr>"

definition estimate_forget_scope :: "string \<Rightarrow> db \<Rightarrow> nat \<times> nat" where
  "estimate_forget_scope p d = (length (filter (of_principal p) (episodes d)), length (filter (chunk_of_principal p) (chunks d)))"

end
