(* ===== verification/ErasureFacts.thy ===== *)
theory ErasureFacts
  imports Erasure FileRuns
begin

text \<open>
  The erasure as one filter on the library: what its twelve deletions, with their cascades, the
  trigger and the \<open>SET NULL\<close> of the schema, amount to; and what it does to the files.
\<close>

section \<open>The result\<close>

definition edges_after :: "int \<Rightarrow> memory_id set \<Rightarrow> related \<Rightarrow> edge_row list" where
  "edges_after ts tids r =
     (let left = (\<lambda>g. length (filter (\<lambda>v. vd_edge_id v = eg_id g \<and> vd_triple_id v \<notin> tids) (evidence r)));
          hit = (\<lambda>g. list_ex (\<lambda>v. vd_edge_id v = eg_id g \<and> vd_triple_id v \<in> tids) (evidence r))
      in map (\<lambda>g. if hit g then g\<lparr>eg_evidence_count := left g, eg_updated_at_ms := ts\<rparr> else g)
           (filter (\<lambda>g. hit g \<longrightarrow> left g > 0) (edges r)))"

definition erased_core :: "string \<Rightarrow> library \<Rightarrow> db" where
  "erased_core p l =
     (let d = core l in
      d\<lparr>episodes := filter (\<lambda>r. \<not> of_principal p r) (episodes d),
        embeddings := filter (\<lambda>m. em_memory_id m \<notin> erased_memories p l) (embeddings d),
        documents := filter (\<lambda>x. dr_doc_id x \<notin> set (forget_docs p l)) (documents d),
        chunks := filter (\<lambda>c. \<not> chunk_of_principal p c) (chunks d),
        chunk_embeddings := filter (\<lambda>m. ce_chunk_id m \<notin> erased_chunks p l) (chunk_embeddings d),
        pending := filter (\<lambda>q. pe_target q \<notin> PEpisode ` erased_memories p l \<and> pe_target q \<notin> PChunk ` erased_chunks p l) (pending d),
        reviews := filter (\<lambda>v. rv_memory_id v \<notin> erased_memories p l) (reviews d)\<rparr>)"

definition erased_der :: "string \<Rightarrow> library \<Rightarrow> derived" where
  "erased_der p l =
     (let t = der l in
      t\<lparr>links := filter (\<lambda>k. snd k \<notin> erased_memories p l) (links t),
        abstractions := filter (\<lambda>a. sa_cluster_id a \<notin> erased_clusters p l) (abstractions t),
        triples := filter (\<lambda>x. tr_id x \<notin> forget_triples p (forget_docs p l) l) (triples t)\<rparr>)"

definition erased_rel :: "int \<Rightarrow> string \<Rightarrow> library \<Rightarrow> related" where
  "erased_rel ts p l =
     (let r = rel l; docs = forget_docs p l; tids = forget_triples p docs l; aids = as_id ` set (forget_assets p docs l) in
      r\<lparr>claims := filter (\<lambda>c. \<not> claim_hits p docs tids l c) (claims r),
        triple_reviews := filter (\<lambda>v. \<not> review_hits p tids l v) (triple_reviews r),
        edges := edges_after ts tids r,
        evidence := filter (\<lambda>v. vd_triple_id v \<notin> tids) (evidence r),
        assets := filter (\<lambda>a. as_id a \<notin> aids) (assets r),
        document_assets := filter (\<lambda>k. fst k \<notin> set docs \<and> snd k \<notin> aids) (document_assets r),
        attachments := filter (\<lambda>a. at_memory_id a \<notin> erased_memories p l \<and> at_target a \<notin> ADocument ` set docs \<and>
          at_target a \<notin> AAsset ` aids) (attachments r),
        extractions := filter (\<lambda>x. ax_asset_id x \<notin> aids) (extractions r)\<rparr>)"

definition erased_library :: "int \<Rightarrow> string \<Rightarrow> library \<Rightarrow> library" where
  "erased_library ts p l = \<lparr>core = erased_core p l, der = erased_der p l, rel = erased_rel ts p l\<rparr>"

section \<open>The trigger\<close>

lemma fold_evidence_frame:
  "fold (delete_evidence ts) vs r = r\<lparr>evidence := evidence (fold (delete_evidence ts) vs r), edges := edges (fold (delete_evidence ts) vs r)\<rparr>"
proof (induction vs arbitrary: r)
  case (Cons v vs)
  show ?case by (simp, subst Cons.IH) (simp add: delete_evidence_def Let_def)
qed simp

lemma delete_evidence_left: "evidence (delete_evidence ts v r) = filter (\<lambda>x. vd_id x \<noteq> vd_id v) (evidence r)"
  by (simp add: delete_evidence_def Let_def)

lemma fold_evidence_left:
  "evidence (fold (delete_evidence ts) vs r) = filter (\<lambda>v. vd_id v \<notin> vd_id ` set vs) (evidence r)"
proof (induction vs arbitrary: r)
  case (Cons v vs)
  show ?case by (auto simp: Cons.IH delete_evidence_left intro: filter_cong)
qed simp

definition trigger_edges :: "int \<Rightarrow> uuid set \<Rightarrow> (uuid \<Rightarrow> nat) \<Rightarrow> edge_row list \<Rightarrow> edge_row list" where
  "trigger_edges ts hit left gs =
     map (\<lambda>g. if eg_id g \<in> hit then g\<lparr>eg_evidence_count := left (eg_id g), eg_updated_at_ms := ts\<rparr> else g)
       (filter (\<lambda>g. eg_id g \<in> hit \<longrightarrow> left (eg_id g) > 0) gs)"

lemma evidence_count_mono:
  "set (evidence r') \<subseteq> set (evidence r) \<Longrightarrow> evidence_count k r = 0 \<Longrightarrow> evidence_count k r' = 0"
  by (auto simp: evidence_count_def filter_empty_conv)

lemma trigger_edges_one:
  "edges (delete_evidence ts v r) =
     trigger_edges ts {vd_edge_id v} (\<lambda>k. evidence_count k (delete_evidence ts v r)) (edges r)"
  by (simp add: delete_evidence_def Let_def trigger_edges_def filter_map evidence_count_def o_def)

lemma trigger_edges_compose:
  assumes "\<And>k. left k = 0 \<Longrightarrow> left' k = 0" "\<And>k. k \<notin> hit' \<Longrightarrow> left' k = left k"
  shows "trigger_edges ts hit' left' (trigger_edges ts hit left gs) = trigger_edges ts (hit \<union> hit') left' gs"
  unfolding trigger_edges_def filter_map map_map
proof (rule map_cong)
  show "filter ((\<lambda>g. eg_id g \<in> hit' \<longrightarrow> 0 < left' (eg_id g)) \<circ>
            (\<lambda>g. if eg_id g \<in> hit then g\<lparr>eg_evidence_count := left (eg_id g), eg_updated_at_ms := ts\<rparr> else g))
          (filter (\<lambda>g. eg_id g \<in> hit \<longrightarrow> 0 < left (eg_id g)) gs) =
        filter (\<lambda>g. eg_id g \<in> hit \<union> hit' \<longrightarrow> 0 < left' (eg_id g)) gs"
    unfolding filter_filter
  proof (rule filter_cong)
    fix g show "((eg_id g \<in> hit \<longrightarrow> 0 < left (eg_id g)) \<and>
        ((\<lambda>g. eg_id g \<in> hit' \<longrightarrow> 0 < left' (eg_id g)) \<circ>
           (\<lambda>g. if eg_id g \<in> hit then g\<lparr>eg_evidence_count := left (eg_id g), eg_updated_at_ms := ts\<rparr> else g)) g) =
       (eg_id g \<in> hit \<union> hit' \<longrightarrow> 0 < left' (eg_id g))"
      using assms(1) [of "eg_id g"] assms(2) [of "eg_id g"]
      by (cases "eg_id g \<in> hit'"; cases "eg_id g \<in> hit"; cases "left (eg_id g) = 0") auto
  qed simp
  fix g assume "g \<in> set (filter (\<lambda>g. eg_id g \<in> hit \<union> hit' \<longrightarrow> 0 < left' (eg_id g)) gs)"
  show "((\<lambda>g. if eg_id g \<in> hit' then g\<lparr>eg_evidence_count := left' (eg_id g), eg_updated_at_ms := ts\<rparr> else g) \<circ>
         (\<lambda>g. if eg_id g \<in> hit then g\<lparr>eg_evidence_count := left (eg_id g), eg_updated_at_ms := ts\<rparr> else g)) g =
        (if eg_id g \<in> hit \<union> hit' then g\<lparr>eg_evidence_count := left' (eg_id g), eg_updated_at_ms := ts\<rparr> else g)"
    using assms(2) [of "eg_id g"] by auto
qed

lemma trigger_edges_cong: "(\<And>k. k \<in> hit \<Longrightarrow> left k = left' k) \<Longrightarrow> trigger_edges ts hit left gs = trigger_edges ts hit left' gs"
  unfolding trigger_edges_def by (rule map_cong) (auto intro: filter_cong)

lemma fold_evidence_edges:
  "distinct (map vd_id (evidence r)) \<Longrightarrow> set vs \<subseteq> set (evidence r) \<Longrightarrow> distinct (map vd_id vs) \<Longrightarrow>
   edges (fold (delete_evidence ts) vs r) =
     trigger_edges ts (vd_edge_id ` set vs) (\<lambda>k. evidence_count k (fold (delete_evidence ts) vs r)) (edges r)"
proof (induction vs arbitrary: r)
  case Nil
  show ?case by (simp add: trigger_edges_def)
next
  case (Cons v vs)
  let ?r1 = "delete_evidence ts v r" and ?r' = "fold (delete_evidence ts) vs (delete_evidence ts v r)"
  have ev1: "evidence ?r1 = filter (\<lambda>x. vd_id x \<noteq> vd_id v) (evidence r)" by (rule delete_evidence_left)
  have "vd_id v \<notin> vd_id ` set vs" using Cons.prems(3) by simp
  then have sub: "set vs \<subseteq> set (evidence ?r1)" using Cons.prems(2) by (auto simp: ev1 intro: rev_image_eqI)
  have d1: "distinct (map vd_id (evidence ?r1))" using Cons.prems(1) by (simp add: ev1 distinct_map_filter)
  have ih: "edges ?r' = trigger_edges ts (vd_edge_id ` set vs) (\<lambda>k. evidence_count k ?r') (edges ?r1)"
    by (rule Cons.IH [OF d1 sub]) (use Cons.prems in simp)
  have same: "evidence_count k ?r' = evidence_count k ?r1" if "k \<notin> vd_edge_id ` set vs" for k
  proof -
    have "vd_id x \<notin> vd_id ` set vs" if x: "x \<in> set (evidence ?r1)" "vd_edge_id x = k" for x
    proof
      assume "vd_id x \<in> vd_id ` set vs"
      then obtain y where "y \<in> set vs" "vd_id y = vd_id x" by auto
      then have "y = x" using sub x(1) d1 by (auto simp: distinct_map dest: inj_onD)
      with \<open>y \<in> set vs\<close> x(2) \<open>k \<notin> vd_edge_id ` set vs\<close> show False by auto
    qed
    then have "filter (\<lambda>x. vd_edge_id x = k) (evidence ?r') = filter (\<lambda>x. vd_edge_id x = k) (evidence ?r1)"
      unfolding fold_evidence_left filter_filter by (intro filter_cong) auto
    then show ?thesis by (simp add: evidence_count_def)
  qed
  have zero: "evidence_count k ?r1 = 0 \<Longrightarrow> evidence_count k ?r' = 0" for k
    by (rule evidence_count_mono) (auto simp: fold_evidence_left)
  have "edges ?r' = trigger_edges ts ({vd_edge_id v} \<union> vd_edge_id ` set vs) (\<lambda>k. evidence_count k ?r') (edges r)"
    unfolding ih trigger_edges_one by (rule trigger_edges_compose) (erule zero, erule same)
  then show ?case by simp
qed

section \<open>The facts\<close>

lemma opt_hits_iff: "opt_hits x S \<longleftrightarrow> (\<exists>k. x = Some k \<and> k \<in> S)"
  by (cases x) (auto simp: opt_hits_def)

lemma null_out_miss: "\<not> opt_hits x S \<Longrightarrow> null_out S x = x"
  by (cases x) (auto simp: opt_hits_def null_out_def)

lemma null_out_empty [simp]: "null_out {} x = x"
  by (cases x) (auto simp: null_out_def)

lemma evidence_after:
  fixes tids :: "memory_id set"
  assumes "graph_ok l"
  defines "vs \<equiv> filter (\<lambda>v. vd_triple_id v \<in> tids) (evidence (rel l))"
  shows "evidence (fold (delete_evidence ts) vs (rel l)) = filter (\<lambda>v. vd_triple_id v \<notin> tids) (evidence (rel l))"
    and "edges (fold (delete_evidence ts) vs (rel l)) = edges_after ts tids (rel l)"
proof -
  let ?r' = "fold (delete_evidence ts) vs (rel l)"
  have ds: "distinct (map vd_id (evidence (rel l)))" using assms(1) by (simp add: graph_ok_def)
  have hit: "vd_id v \<in> vd_id ` set vs \<longleftrightarrow> vd_triple_id v \<in> tids" if "v \<in> set (evidence (rel l))" for v
    using that ds by (auto simp: vs_def distinct_map dest: inj_onD)
  show ev: "evidence ?r' = filter (\<lambda>v. vd_triple_id v \<notin> tids) (evidence (rel l))"
    unfolding fold_evidence_left by (rule filter_cong) (simp_all add: hit)
  have cnt: "evidence_count k ?r' = length (filter (\<lambda>v. vd_edge_id v = k \<and> vd_triple_id v \<notin> tids) (evidence (rel l)))" for k
    by (simp add: evidence_count_def ev conj_commute)
  have "edges ?r' = trigger_edges ts (vd_edge_id ` set vs) (\<lambda>k. evidence_count k ?r') (edges (rel l))"
    by (rule fold_evidence_edges) (use ds in \<open>auto simp: vs_def distinct_map_filter\<close>)
  also have "\<dots> = edges_after ts tids (rel l)"
    unfolding trigger_edges_def edges_after_def Let_def cnt
    by (intro map_cong filter_cong) (auto simp: vs_def list_ex_iff image_iff)
  finally show "edges ?r' = edges_after ts tids (rel l)" .
qed

text \<open>The two statements on the relationships that follow find nothing left to do.\<close>

lemma edges_after_settled:
  assumes "graph_ok l" "evidence r = filter (\<lambda>v. vd_triple_id v \<notin> tids) (evidence (rel l))" "edges r = edges_after ts tids (rel l)"
  shows "recount_edges (forget_edges tids l) (delete_unsupported_edges (forget_edges tids l) r) = r"
proof -
  have cnt: "evidence_count k r = length (filter (\<lambda>v. vd_edge_id v = k \<and> vd_triple_id v \<notin> tids) (evidence (rel l)))" for k
    by (simp add: evidence_count_def assms(2) conj_commute)
  have hit: "k \<in> forget_edges tids l \<longleftrightarrow> list_ex (\<lambda>v. vd_edge_id v = k \<and> vd_triple_id v \<in> tids) (evidence (rel l))" for k
    by (auto simp: forget_edges_def list_ex_iff)
  have g: "evidence_count (eg_id g) r > 0 \<and> eg_evidence_count g = evidence_count (eg_id g) r"
    if "g \<in> set (edges r)" "eg_id g \<in> forget_edges tids l" for g
    using that unfolding assms(3) edges_after_def Let_def cnt hit by (auto split: if_splits)
  have "delete_unsupported_edges (forget_edges tids l) r = r"
    unfolding delete_unsupported_edges_def using g by (subst filter_True) auto
  moreover have "recount_edges (forget_edges tids l) r = r"
    unfolding recount_edges_def using g by (subst map_idI) auto
  ultimately show ?thesis by simp
qed

lemma facts_erased:
  fixes ts :: int
  assumes "graph_ok l" "l3 = l\<lparr>der := t, rel := (rel l)\<lparr>claims := cs, triple_reviews := vs\<rparr>\<rparr>" "triples t = triples (der l)"
    and "tids = forget_triples p docs l"
  defines "l4 \<equiv> delete_facts ts tids l3"
  shows "l4\<lparr>rel := recount_edges (forget_edges tids l) (delete_unsupported_edges (forget_edges tids l) (rel l4))\<rparr> =
    l\<lparr>der := t\<lparr>triples := filter (\<lambda>x. tr_id x \<notin> tids) (triples t)\<rparr>,
      rel := (rel l)\<lparr>claims := cs, triple_reviews := vs, edges := edges_after ts tids (rel l),
                     evidence := filter (\<lambda>v. vd_triple_id v \<notin> tids) (evidence (rel l))\<rparr>\<rparr>"
proof -
  have ok: "graph_ok l3"
    using assms(1-3) by (simp add: graph_ok_def evidence_count_def)
  have fk: "filter (\<lambda>v. vd_triple_id v \<in> tids \<inter> tr_id ` set (triples (der l3))) (evidence (rel l3)) =
      filter (\<lambda>v. vd_triple_id v \<in> tids) (evidence (rel l3))"
    using ok by (intro filter_cong) (auto simp: graph_ok_def)
  have ea: "edges_after ts tids (rel l3) = edges_after ts tids (rel l)"
    by (simp add: assms(2) edges_after_def)
  have rel4: "rel l4 = fold (delete_evidence ts) (filter (\<lambda>v. vd_triple_id v \<in> tids) (evidence (rel l3))) (rel l3)"
    by (simp add: l4_def delete_facts_def fk [simplified])
  have ev: "evidence (rel l4) = filter (\<lambda>v. vd_triple_id v \<notin> tids) (evidence (rel l))"
    "edges (rel l4) = edges_after ts tids (rel l)"
    using evidence_after [OF ok, of ts tids] by (simp_all add: rel4 ea) (simp add: assms(2))
  have settled: "recount_edges (forget_edges tids l) (delete_unsupported_edges (forget_edges tids l) (rel l4)) = rel l4"
    by (rule edges_after_settled [OF assms(1) ev])
  have "rel l4 = (rel l3)\<lparr>evidence := evidence (rel l4), edges := edges (rel l4)\<rparr>"
    unfolding rel4 by (rule fold_evidence_frame)
  then have "rel l4 = (rel l)\<lparr>claims := cs, triple_reviews := vs, edges := edges_after ts tids (rel l),
      evidence := filter (\<lambda>v. vd_triple_id v \<notin> tids) (evidence (rel l))\<rparr>"
    using ev by (simp add: assms(2))
  moreover have "l4 = l3\<lparr>der := t\<lparr>triples := filter (\<lambda>x. tr_id x \<notin> tids) (triples t)\<rparr>, rel := rel l4\<rparr>"
    by (simp add: l4_def delete_facts_def assms(2))
  ultimately show ?thesis unfolding settled by (simp add: assms(2))
qed

section \<open>The cascades\<close>

lemma null_episode_clean:
  assumes "\<forall>c \<in> set (claims r). \<not> opt_hits (cm_source_episode_id c) rids"
    and "\<forall>v \<in> set (triple_reviews r). \<not> opt_hits (tv_source_episode_id v) rids"
    and "\<forall>v \<in> set (evidence r). \<not> opt_hits (vd_memory_id v) mids \<and> \<not> opt_hits (vd_source_episode_id v) rids"
  shows "null_episode mids rids r = r"
proof -
  have "map (\<lambda>c. c\<lparr>cm_source_episode_id := null_out rids (cm_source_episode_id c)\<rparr>) (claims r) = claims r"
    using assms(1) by (intro map_idI) (simp add: null_out_miss)
  moreover have "map (\<lambda>v. v\<lparr>tv_source_episode_id := null_out rids (tv_source_episode_id v)\<rparr>) (triple_reviews r) = triple_reviews r"
    using assms(2) by (intro map_idI) (simp add: null_out_miss)
  moreover have "map (\<lambda>v. v\<lparr>vd_memory_id := null_out mids (vd_memory_id v), vd_source_episode_id := null_out rids (vd_source_episode_id v)\<rparr>)
      (evidence r) = evidence r"
    using assms(3) by (intro map_idI) (simp add: null_out_miss)
  ultimately show ?thesis by (simp add: null_episode_def)
qed

lemma null_chunk_clean:
  assumes "\<forall>c \<in> set (claims r). \<not> opt_hits (cm_chunk_id c) cids" "\<forall>v \<in> set (evidence r). \<not> opt_hits (vd_chunk_id v) cids"
  shows "null_chunk cids r = r"
proof -
  have "map (\<lambda>c. c\<lparr>cm_chunk_id := null_out cids (cm_chunk_id c)\<rparr>) (claims r) = claims r"
    using assms(1) by (intro map_idI) (simp add: null_out_miss)
  moreover have "map (\<lambda>v. v\<lparr>vd_chunk_id := null_out cids (vd_chunk_id v)\<rparr>) (evidence r) = evidence r"
    using assms(2) by (intro map_idI) (simp add: null_out_miss)
  ultimately show ?thesis by (simp add: null_chunk_def)
qed

lemma null_document_clean:
  assumes "\<forall>c \<in> set (claims r). \<not> opt_hits (cm_doc_id c) dids" "\<forall>v \<in> set (evidence r). \<not> opt_hits (vd_doc_id v) dids"
  shows "null_document dids r = r"
proof -
  have "map (\<lambda>c. c\<lparr>cm_doc_id := null_out dids (cm_doc_id c)\<rparr>) (claims r) = claims r"
    using assms(1) by (intro map_idI) (simp add: null_out_miss)
  moreover have "map (\<lambda>v. v\<lparr>vd_doc_id := null_out dids (vd_doc_id v)\<rparr>) (evidence r) = evidence r"
    using assms(2) by (intro map_idI) (simp add: null_out_miss)
  ultimately show ?thesis by (simp add: null_document_def)
qed

lemma docs_exclusive:
  "c \<in> set (chunks (core l)) \<Longrightarrow> cr_doc_id c \<in> set (forget_docs p l) \<Longrightarrow> chunk_of_principal p c"
  by (auto simp: forget_docs_def chunk_of_principal_def list_ex_iff)

text \<open>The library once the facts are gone and nothing refers to what is deleted next.\<close>

definition facts_gone :: "int \<Rightarrow> string \<Rightarrow> library \<Rightarrow> library" where
  "facts_gone ts p l =
     (let docs = forget_docs p l; tids = forget_triples p docs l in
      l\<lparr>der := (der l)\<lparr>abstractions := filter (\<lambda>a. sa_cluster_id a \<notin> erased_clusters p l) (abstractions (der l)),
                      triples := filter (\<lambda>x. tr_id x \<notin> tids) (triples (der l))\<rparr>,
        rel := (rel l)\<lparr>claims := filter (\<lambda>c. \<not> claim_hits p docs tids l c) (claims (rel l)),
          triple_reviews := filter (\<lambda>v. \<not> review_hits p tids l v) (triple_reviews (rel l)),
          edges := edges_after ts tids (rel l), evidence := filter (\<lambda>v. vd_triple_id v \<notin> tids) (evidence (rel l))\<rparr>\<rparr>)"

lemma facts_gone_untied:
  "\<forall>c \<in> set (claims (rel (facts_gone ts p l))). \<not> opt_hits (cm_source_episode_id c) (erased_rowids p l) \<and>
     \<not> opt_hits (cm_chunk_id c) (erased_chunks p l) \<and> \<not> opt_hits (cm_doc_id c) (set (forget_docs p l))"
  "\<forall>v \<in> set (triple_reviews (rel (facts_gone ts p l))). \<not> opt_hits (tv_source_episode_id v) (erased_rowids p l)"
  "\<forall>v \<in> set (evidence (rel (facts_gone ts p l))). \<not> opt_hits (vd_memory_id v) (erased_memories p l) \<and>
     \<not> opt_hits (vd_source_episode_id v) (erased_rowids p l) \<and> \<not> opt_hits (vd_chunk_id v) (erased_chunks p l) \<and>
     \<not> opt_hits (vd_doc_id v) (set (forget_docs p l))"
  "\<forall>t \<in> set (triples (der (facts_gone ts p l))). \<not> opt_hits (tr_source_episode_id t) (erased_rowids p l)"
  by (auto simp: facts_gone_def Let_def claim_hits_def review_hits_def evidence_hits_def forget_triples_def)

lemma episodes_erased:
  "delete_episodes (of_principal p) (facts_gone ts p l) =
     (facts_gone ts p l)\<lparr>core := (core l)\<lparr>episodes := filter (\<lambda>r. \<not> of_principal p r) (episodes (core l)),
          embeddings := filter (\<lambda>m. em_memory_id m \<notin> erased_memories p l) (embeddings (core l)),
          pending := filter (\<lambda>q. pe_target q \<notin> PEpisode ` erased_memories p l) (pending (core l)),
          reviews := filter (\<lambda>v. rv_memory_id v \<notin> erased_memories p l) (reviews (core l))\<rparr>,
        der := (der (facts_gone ts p l))\<lparr>links := filter (\<lambda>k. snd k \<notin> erased_memories p l) (links (der l))\<rparr>,
        rel := (rel (facts_gone ts p l))\<lparr>attachments := filter (\<lambda>a. at_memory_id a \<notin> erased_memories p l) (attachments (rel l))\<rparr>\<rparr>"
proof -
  have r: "null_episode (erased_memories p l) (erased_rowids p l) (rel (facts_gone ts p l)) = rel (facts_gone ts p l)"
    using facts_gone_untied [where ts = ts and p = p and l = l] by (intro null_episode_clean) blast+
  have t: "map (\<lambda>t. t\<lparr>tr_source_episode_id := null_out (erased_rowids p l) (tr_source_episode_id t)\<rparr>) (triples (der (facts_gone ts p l))) =
      triples (der (facts_gone ts p l))"
    using facts_gone_untied(4) [of ts p l] by (intro map_idI) (simp add: null_out_miss)
  have sel: "core (facts_gone ts p l) = core l" "links (der (facts_gone ts p l)) = links (der l)"
    "attachments (rel (facts_gone ts p l)) = attachments (rel l)"
    by (simp_all add: facts_gone_def Let_def)
  show ?thesis
    unfolding delete_episodes_def Let_def sel erased_memories_def [symmetric] erased_rowids_def [symmetric] r t
    by (simp add: sel)
qed

lemma delete_chunks_none:
  assumes "\<forall>c \<in> set (chunks (core x)). \<not> P c"
  shows "delete_chunks P x = x"
proof -
  have e: "filter P (chunks (core x)) = []" "filter (\<lambda>c. \<not> P c) (chunks (core x)) = chunks (core x)"
    using assms by (auto simp: filter_empty_conv intro: filter_True)
  show ?thesis unfolding delete_chunks_def Let_def e by (simp add: null_chunk_def)
qed

lemma rows_erased:
  "delete_assets (as_id ` set (forget_assets p (forget_docs p l) l))
     (delete_documents (set (forget_docs p l)) (delete_chunks (chunk_of_principal p) (delete_episodes (of_principal p) (facts_gone ts p l)))) =
   erased_library ts p l"
proof -
  let ?l5 = "facts_gone ts p l" and ?docs = "set (forget_docs p l)"
  let ?l6 = "delete_episodes (of_principal p) ?l5"
  let ?l7 = "delete_chunks (chunk_of_principal p) ?l6"
  note un = facts_gone_untied [where ts = ts and p = p and l = l]
  have c6: "chunks (core ?l6) = chunks (core l)" "claims (rel ?l6) = claims (rel ?l5)" "evidence (rel ?l6) = evidence (rel ?l5)"
    by (simp_all add: episodes_erased)
  have n7: "null_chunk (erased_chunks p l) (rel ?l6) = rel ?l6"
    by (rule null_chunk_clean) (use un(1,3) c6 in simp_all)
  have l7: "?l7 = ?l6\<lparr>core := (core ?l6)\<lparr>chunks := filter (\<lambda>c. \<not> chunk_of_principal p c) (chunks (core l)),
        chunk_embeddings := filter (\<lambda>m. ce_chunk_id m \<notin> erased_chunks p l) (chunk_embeddings (core ?l6)),
        pending := filter (\<lambda>q. pe_target q \<notin> PChunk ` erased_chunks p l) (pending (core ?l6))\<rparr>\<rparr>"
    unfolding delete_chunks_def Let_def c6(1) erased_chunks_def [symmetric] n7 by simp
  have d8: "delete_chunks (\<lambda>c. cr_doc_id c \<in> ?docs) ?l7 = ?l7"
    by (rule delete_chunks_none) (auto simp: l7 dest: docs_exclusive)
  have n8: "null_document ?docs (rel ?l7) = rel ?l7"
    by (rule null_document_clean) (use un(1,3) c6 in \<open>simp_all add: l7\<close>)
  have core7: "core ?l7 = (erased_core p l)\<lparr>documents := documents (core l)\<rparr>"
    unfolding l7 unfolding episodes_erased by (simp add: erased_core_def Let_def)
  have der7: "der ?l7 = erased_der p l"
    unfolding l7 unfolding episodes_erased by (simp add: erased_der_def facts_gone_def Let_def)
  have rel7: "rel ?l7 = (erased_rel ts p l)\<lparr>assets := assets (rel l), document_assets := document_assets (rel l),
      attachments := filter (\<lambda>a. at_memory_id a \<notin> erased_memories p l) (attachments (rel l)), extractions := extractions (rel l)\<rparr>"
    unfolding l7 unfolding episodes_erased by (simp add: erased_rel_def facts_gone_def Let_def)
  have docs8: "delete_documents ?docs ?l7 = ?l7\<lparr>core := (core ?l7)\<lparr>documents := filter (\<lambda>x. dr_doc_id x \<notin> ?docs) (documents (core ?l7))\<rparr>,
      rel := (rel ?l7)\<lparr>document_assets := filter (\<lambda>k. fst k \<notin> ?docs) (document_assets (rel ?l7)),
        attachments := filter (\<lambda>a. at_target a \<notin> ADocument ` ?docs) (attachments (rel ?l7))\<rparr>\<rparr>"
    unfolding delete_documents_def Let_def d8 n8 by (rule refl)
  show ?thesis
  proof (rule library.equality)
    show "core (delete_assets (as_id ` set (forget_assets p (forget_docs p l) l)) (delete_documents ?docs ?l7)) =
        core (erased_library ts p l)"
      unfolding docs8 by (simp add: delete_assets_def Let_def core7 erased_library_def erased_core_def)
    show "der (delete_assets (as_id ` set (forget_assets p (forget_docs p l) l)) (delete_documents ?docs ?l7)) =
        der (erased_library ts p l)"
      unfolding docs8 by (simp add: delete_assets_def Let_def der7 erased_library_def)
    show "rel (delete_assets (as_id ` set (forget_assets p (forget_docs p l) l)) (delete_documents ?docs ?l7)) =
        rel (erased_library ts p l)"
      unfolding docs8 by (simp add: delete_assets_def Let_def rel7 erased_library_def erased_rel_def)
  qed simp
qed

section \<open>The statements of the transaction\<close>

lemma sql_Inr [run_simps]: "sql e k r s = (Inr x, s') \<longleftrightarrow> \<not> fails e (SErase k) \<and> r = Inr x \<and> s' = s"
  by (auto simp: sql_def lift_r_def stmt_def)

lemma prepare_ok:
  assumes "prepare_assets e x p l s = (Inr ae, s')"
  shows "ae_docs ae = forget_docs p l" "ae_assets ae = forget_assets p (forget_docs p l) l"
    "\<not> list_ex (shared_asset p (forget_docs p l) l) (forget_assets p (forget_docs p l) l)"
    "inspect_originals x (map (\<lambda>a. (as_storage_path a, as_sha256 a)) (ae_assets ae)) s = (Inr (ae_paths ae), s')"
  using assms by (auto simp: prepare_assets_def run_simps split: if_splits)

definition outcome_of :: "string \<Rightarrow> library \<Rightarrow> DeleteOutcome" where
  "outcome_of p l =
     (let docs = forget_docs p l; tids = forget_triples p docs l in
      \<lparr>do_episodes_deleted = length (filter (of_principal p) (episodes (core l))),
       do_triples_deleted = length (filter (\<lambda>t. tr_id t \<in> tids) (triples (der l))),
       do_triples_orphan = length (filter (\<lambda>t. tr_source_episode_id t = None \<and> tr_id t \<notin> tids \<and>
          opt_hits (tr_cluster_id t) (erased_clusters p l)) (triples (der l))),
       do_chunks_deleted = length (filter (chunk_of_principal p) (chunks (core l))),
       do_documents_deleted = length docs,
       do_assets_deleted = length (forget_assets p docs l),
       do_episode_rowids = sort (map er_rowid (filter (of_principal p) (episodes (core l)))),
       do_chunk_rowids = map cr_rowid (filter (chunk_of_principal p) (chunks (core l)))\<rparr>)"

definition reviews_gone :: "string \<Rightarrow> library \<Rightarrow> library" where
  "reviews_gone p l =
     (let docs = forget_docs p l; tids = forget_triples p docs l in
      l\<lparr>der := (der l)\<lparr>abstractions := filter (\<lambda>a. sa_cluster_id a \<notin> erased_clusters p l) (abstractions (der l))\<rparr>,
        rel := (rel l)\<lparr>claims := filter (\<lambda>c. \<not> claim_hits p docs tids l c) (claims (rel l)),
          triple_reviews := filter (\<lambda>v. \<not> review_hits p tids l v) (triple_reviews (rel l))\<rparr>\<rparr>)"

lemma derived_gone:
  fixes l :: library and p :: string
  defines "docs \<equiv> forget_docs p l" and "tids \<equiv> forget_triples p (forget_docs p l) l"
  defines "l1 \<equiv> delete_claims (claim_hits p docs tids l) l"
  defines "l2 \<equiv> delete_triple_reviews (review_hits p tids l1) l1"
  shows "delete_abstractions_of (erased_clusters p l2) l2 = reviews_gone p l"
  by (simp add: l2_def l1_def docs_def tids_def delete_claims_def delete_triple_reviews_def delete_abstractions_of_def
      reviews_gone_def erased_clusters_def erased_memories_def review_hits_def erased_rowids_def Let_def)

lemma facts_after_reviews:
  fixes p :: string and ts :: int
  assumes "graph_ok l"
  defines "eids \<equiv> forget_edges (forget_triples p (forget_docs p l) l) l"
  defines "l4 \<equiv> delete_facts ts (forget_triples p (forget_docs p l) l) (reviews_gone p l)"
  shows "l4\<lparr>rel := recount_edges eids (delete_unsupported_edges eids (rel l4))\<rparr> = facts_gone ts p l"
  unfolding l4_def eids_def reviews_gone_def Let_def
  by (subst facts_erased [OF assms(1) refl _ refl]) (simp_all add: facts_gone_def Let_def)

lemma reviews_gone_sel: "core (reviews_gone p l) = core l" "triples (der (reviews_gone p l)) = triples (der l)"
  by (simp_all add: reviews_gone_def Let_def)

lemma facts_gone_sel: "core (facts_gone ts p l) = core l"
  by (simp add: facts_gone_def Let_def)

lemma orphans_after:
  "length (orphan_triples p (facts_gone ts p l)) = do_triples_orphan (outcome_of p l)"
proof -
  have "erased_clusters p (facts_gone ts p l) = erased_clusters p l"
    by (simp add: erased_clusters_def erased_memories_def facts_gone_def Let_def)
  then show ?thesis
    by (simp add: orphan_triples_def outcome_of_def facts_gone_def Let_def conj_ac)
qed

lemma delete_rows_ok:
  assumes "graph_ok l" "delete_principal_rows_with_assets e x p l s = (Inr (out, l'), s')"
  obtains ae s1 where "trim p \<noteq> []" "prepare_assets e x p l s = (Inr ae, s1)"
    "l' = erased_library (now_secs_ms e) p l" "out = outcome_of p l" "remove_originals x (ae_paths ae) s1 = (Inr (), s')"
proof -
  let ?docs = "forget_docs p l" and ?ts = "now_secs_ms e"
  let ?tids = "forget_triples p ?docs l"
  let ?eids = "forget_edges ?tids l"
  let ?l1 = "delete_claims (claim_hits p ?docs ?tids l) l"
  let ?l2 = "delete_triple_reviews (review_hits p ?tids ?l1) ?l1"
  let ?l3 = "delete_abstractions_of (erased_clusters p ?l2) ?l2"
  let ?l4 = "delete_facts ?ts ?tids ?l3"
  let ?l5 = "?l4\<lparr>rel := recount_edges ?eids (delete_unsupported_edges ?eids (rel ?l4))\<rparr>"
  let ?l6 = "delete_episodes (of_principal p) ?l5"
  let ?l7 = "delete_chunks (chunk_of_principal p) ?l6"
  have l3: "?l3 = reviews_gone p l" by (rule derived_gone)
  have p: "trim p \<noteq> []" using assms(2) by (auto simp: delete_principal_rows_with_assets_def run_simps split: if_splits)
  obtain ae s1 where prep: "prepare_assets e x p l s = (Inr ae, s1)"
    using assms(2) by (auto simp: delete_principal_rows_with_assets_def run_simps split: if_splits)
  note ae = prepare_ok [OF prep]
  have "erase_assets e x ae ?l7 s1 = (Inr l', s') \<and>
      out = \<lparr>do_episodes_deleted = length (filter (of_principal p) (episodes (core ?l5))),
             do_triples_deleted = length (filter (\<lambda>t. tr_id t \<in> ?tids) (triples (der ?l3))),
             do_triples_orphan = length (orphan_triples p ?l5),
             do_chunks_deleted = length (filter (chunk_of_principal p) (chunks (core ?l6))),
             do_documents_deleted = length ?docs, do_assets_deleted = length (forget_assets p ?docs l),
             do_episode_rowids = sort (map er_rowid (filter (of_principal p) (episodes (core ?l3)))),
             do_chunk_rowids = map cr_rowid (filter (chunk_of_principal p) (chunks (core l)))\<rparr>"
    using assms(2) p unfolding delete_principal_rows_with_assets_def run_simps
    by (auto simp: prep run_simps ae(1,2))
  then have er: "erase_assets e x ae ?l7 s1 = (Inr l', s')" and out: "out = outcome_of p l"
    unfolding l3 unfolding facts_after_reviews [OF assms(1)]
    by (simp_all add: reviews_gone_sel facts_gone_sel orphans_after episodes_erased) (simp add: outcome_of_def Let_def)
  from er have "l' = erased_library ?ts p l" "remove_originals x (ae_paths ae) s1 = (Inr (), s')"
    unfolding l3 unfolding facts_after_reviews [OF assms(1)] by (simp_all add: erase_assets_def run_simps ae(1,2) rows_erased)
  with p prep out show thesis using that by blast
qed

end
