(* ===== verification/ErasureFiles.thy ===== *)
theory ErasureFiles
  imports ErasureFacts
begin

text \<open>
  What an erasure does to the files, whatever fails: it removes originals it has selected and
  nothing else, a success leaves none of them, and what an interrupted one leaves can be erased again.
\<close>

section \<open>Originals\<close>

definition original_path :: "erase_env \<Rightarrow> string \<Rightarrow> path option" where
  "original_path x sp = (case snapshot_dir x of None \<Rightarrow> None | Some root \<Rightarrow> ok_opt (safe_asset_storage_path root sp))"

definition original_paths :: "erase_env \<Rightarrow> string \<Rightarrow> library \<Rightarrow> path set" where
  "original_paths x p l = {q. \<exists>a \<in> set (forget_assets p (forget_docs p l) l). original_path x (as_storage_path a) = Some q}"

text \<open>Some of the files of \<open>T\<close> are gone, everything else is as it was.\<close>

definition removed :: "disk \<Rightarrow> path set \<Rightarrow> disk \<Rightarrow> bool" where
  "removed s0 T s = (dirs s = dirs s0 \<and> (\<forall>q. files s q = files s0 q \<or> q \<in> T \<and> files s q = None))"

lemma removed_refl [simp]: "removed s T s"
  by (simp add: removed_def)

lemma removed_tick [simp]: "removed s0 T (tick s) = removed s0 T s"
  by (simp add: removed_def)

lemma removed_set: "removed s0 T s \<Longrightarrow> q \<in> T \<Longrightarrow> removed s0 T (set_file q None s)"
  by (auto simp: removed_def)

lemma inspect_cases:
  assumes "inspect_original x (sp, sha) s = (r, s')"
  shows "files s' = files s" "dirs s' = dirs s"
    "r = Inr q \<Longrightarrow> \<exists>p. original_path x sp = Some p \<and>
       (q = Some p \<and> files s p \<noteq> None \<or> q = None \<and> files s p = None)"
proof -
  have "files s' = files s \<and> dirs s' = dirs s \<and> (r = Inr q \<longrightarrow> (\<exists>p. original_path x sp = Some p \<and>
       (q = Some p \<and> files s p \<noteq> None \<or> q = None \<and> files s p = None)))"
    using assms
    by (auto simp: inspect_original_def bind_io_def lift_r_def raise_def ret_def attempt_def map_err_def canonicalize_def
        original_path_def is_file_def ok_or_def ok_opt_def split: option.splits sum.splits prod.splits if_splits io_error.splits)
  then show "files s' = files s" "dirs s' = dirs s" "r = Inr q \<Longrightarrow> \<exists>p. original_path x sp = Some p \<and>
       (q = Some p \<and> files s p \<noteq> None \<or> q = None \<and> files s p = None)" by blast+
qed

lemma inspect_all_keeps: "inspect_originals x rows s = (r, s') \<Longrightarrow> files s' = files s \<and> dirs s' = dirs s"
proof (induction rows arbitrary: r s s')
  case Nil
  then show ?case by (auto simp: ret_def)
next
  case (Cons row rows)
  obtain sp sha where row: "row = (sp, sha)" by (cases row)
  obtain r1 s1 where one: "inspect_original x row s = (r1, s1)" by (cases "inspect_original x row s")
  note keep = inspect_cases(1,2) [OF one [unfolded row]]
  obtain r2 s2 where two: "inspect_originals x rows s1 = (r2, s2)" by (cases "inspect_originals x rows s1")
  have "s' = s1 \<or> s' = s2"
    using Cons.prems one two by (auto simp: bind_io_def ret_def split: sum.splits)
  with Cons.IH [OF two] keep show ?case by auto
qed

lemma inspect_all_ok:
  "inspect_originals x rows s = (Inr ps, s') \<Longrightarrow>
   (\<forall>row \<in> set rows. \<exists>q. original_path x (fst row) = Some q \<and> (q \<in> set ps \<or> files s q = None)) \<and>
   set ps \<subseteq> {q. \<exists>row \<in> set rows. original_path x (fst row) = Some q}"
proof (induction rows arbitrary: ps s)
  case Nil
  then show ?case by (simp add: ret_def)
next
  case (Cons row rows)
  obtain sp sha where row: "row = (sp, sha)" by (cases row)
  from Cons.prems obtain q s1 qs where one: "inspect_original x row s = (Inr q, s1)"
    and two: "inspect_originals x rows s1 = (Inr qs, s')" and ps: "ps = (case q of None \<Rightarrow> qs | Some p \<Rightarrow> p # qs)"
    by (auto simp: run_simps)
  note keep = inspect_cases [OF one [unfolded row]] and ih = Cons.IH [OF two]
  from keep(3) [OF refl] obtain p where "original_path x sp = Some p"
    "q = Some p \<and> files s p \<noteq> None \<or> q = None \<and> files s p = None" by blast
  then show ?case using ih keep(1) by (auto simp: ps row)
qed

section \<open>Removal\<close>

lemma remove_originals_frame: "remove_originals x ps s = (r, s') \<Longrightarrow> removed s (set ps) s'"
proof -
  have "triple (removed s0 T) (remove_originals x ps) (\<lambda>_. removed s0 T) (removed s0 T)" if "set ps \<subseteq> T" for s0 T
    using that
  proof (induction ps)
    case (Cons p ps)
    have ps: "triple (removed s0 T) (remove_originals x ps) (\<lambda>_. removed s0 T) (removed s0 T)" using Cons by simp
    have "triple (removed s0 T) (attempt (remove_file (io_plan x) p)) (\<lambda>_. removed s0 T) (removed s0 T)"
      by (rule triple_attempt, rule remove_file_triple) (use Cons.prems in \<open>auto intro: removed_set\<close>)
    then show ?case
      unfolding remove_originals.simps
      by (rule triple_bind) (auto split: sum.split io_error.split intro: ps triple_raise)
  qed (simp add: triple_ret)
  then show "remove_originals x ps s = (r, s') \<Longrightarrow> removed s (set ps) s'"
    using triple_cases [of "removed s (set ps)" "remove_originals x ps"] by (metis order_refl removed_refl)
qed

lemma remove_originals_ok: "remove_originals x ps s = (Inr u, s') \<Longrightarrow> q \<in> set ps \<Longrightarrow> files s' q = None"
proof (induction ps arbitrary: s)
  case (Cons p ps)
  obtain r s1 where one: "remove_file (io_plan x) p s = (r, s1)" by fastforce
  with Cons.prems(1) have two: "remove_originals x ps s1 = (Inr u, s')" "r = Inr () \<or> r = Inl EntryNotFound"
    by (auto simp: run_simps split: sum.splits io_error.splits)
  have "files s1 p = None" using one two(2) by (auto simp: remove_file_def split: fault.splits option.splits)
  moreover have "removed s1 (set ps) s'" by (rule remove_originals_frame [OF two(1)])
  ultimately have "files s' p = None" by (metis removed_def)
  then show ?case using Cons.IH [OF two(1)] Cons.prems(2) by auto
qed simp

section \<open>The whole run\<close>

lemma sql_triple: "(\<And>s. P s \<Longrightarrow> E s) \<Longrightarrow> triple P (sql e k r) (\<lambda>_. P) E"
  unfolding sql_def by (rule triple_lift) auto

lemma prepare_triple:
  "triple (removed s0 T) (prepare_assets e x p l)
     (\<lambda>ae s. removed s0 T s \<and> set (ae_paths ae) \<subseteq> original_paths x p l) (removed s0 T)"
  unfolding triple_def
proof (intro allI impI)
  fix s assume s: "removed s0 T s"
  obtain r s' where run: "prepare_assets e x p l s = (r, s')" by fastforce
  have keep: "files s' = files s \<and> dirs s' = dirs s"
    using run by (auto simp: prepare_assets_def bind_io_def sql_def lift_r_def raise_def ret_def
        split: sum.splits prod.splits if_splits dest: inspect_all_keeps)
  then have k: "removed s0 T s'" using s by (simp add: removed_def)
  have "set (ae_paths ae) \<subseteq> original_paths x p l" if "r = Inr ae" for ae
    using inspect_all_ok [OF prepare_ok(4) [OF run [unfolded that]]] prepare_ok(2) [OF run [unfolded that]]
    by (fastforce simp: original_paths_def)
  with k run show "case prepare_assets e x p l s of (Inl _, s') \<Rightarrow> removed s0 T s' | (Inr ae, s') \<Rightarrow>
      removed s0 T s' \<and> set (ae_paths ae) \<subseteq> original_paths x p l"
    by (cases r) auto
qed

lemma erase_assets_triple:
  "triple (\<lambda>s. removed s0 T s \<and> set (ae_paths ae) \<subseteq> T) (erase_assets e x ae l) (\<lambda>_. removed s0 T) (removed s0 T)"
  unfolding triple_def
proof (intro allI impI)
  fix s assume s: "removed s0 T s \<and> set (ae_paths ae) \<subseteq> T"
  obtain r s' where run: "erase_assets e x ae l s = (r, s')" by fastforce
  have "s' = s \<or> (\<exists>r1. remove_originals x (ae_paths ae) s = (r1, s'))"
    using run by (auto simp: erase_assets_def bind_io_def sql_def lift_r_def ret_def split: sum.splits prod.splits)
  then have "removed s0 T s'"
  proof
    assume "\<exists>r1. remove_originals x (ae_paths ae) s = (r1, s')"
    then have "removed s (set (ae_paths ae)) s'" using remove_originals_frame by blast
    then show ?thesis using s unfolding removed_def by (metis subsetD)
  qed (use s in simp)
  then show "case erase_assets e x ae l s of (Inl _, s') \<Rightarrow> removed s0 T s' | (Inr _, s') \<Rightarrow> removed s0 T s'"
    using run by (cases r) auto
qed

lemma delete_rows_files:
  assumes "delete_principal_rows_with_assets e x p l s = (r, s')"
  shows "removed s (original_paths x p l) s'"
proof -
  let ?T = "original_paths x p l"
  have "triple (removed s ?T) (delete_principal_rows_with_assets e x p l) (\<lambda>_. removed s ?T) (removed s ?T)"
    unfolding delete_principal_rows_with_assets_def
    by (cases "trim p = []", simp add: triple_raise, simp only: if_False,
        rule triple_bind [OF sql_triple], assumption, rule triple_bind [OF prepare_triple],
        (rule triple_bind [OF sql_triple], blast)+,
        rule triple_bind [OF erase_assets_triple], rule triple_bind [OF sql_triple], assumption, rule triple_ret, assumption)
  from triple_cases [OF this removed_refl assms] show ?thesis by blast
qed

section \<open>A run without faults\<close>

definition fault_free :: "env \<Rightarrow> erase_env \<Rightarrow> bool" where
  "fault_free e x = ((\<forall>k. \<not> fails e (SErase k)) \<and> (\<forall>n. io_plan x n = Fine))"

text \<open>The original has a path in the store that is the one of its hash and is no directory.\<close>

definition original_ok :: "erase_env \<Rightarrow> disk \<Rightarrow> string \<times> string \<Rightarrow> bool" where
  "original_ok x s row =
     (case snapshot_dir x of None \<Rightarrow> False
      | Some root \<Rightarrow> (case safe_asset_storage_path root (fst row) of Inl _ \<Rightarrow> False
          | Inr q \<Rightarrow> hd q = snd row \<and> q \<notin> dirs s \<and> (files s q \<noteq> None \<longrightarrow> root \<in> dirs s)))"

definition erasable :: "erase_env \<Rightarrow> string \<Rightarrow> library \<Rightarrow> disk \<Rightarrow> bool" where
  "erasable x p l s =
     (let as = forget_assets p (forget_docs p l) l in
      trim p \<noteq> [] \<and> \<not> list_ex (shared_asset p (forget_docs p l) l) as \<and>
      list_all (\<lambda>a. original_ok x s (as_storage_path a, as_sha256 a)) as)"

lemma original_ok_keep:
  "original_ok x s row \<Longrightarrow> dirs s' = dirs s \<Longrightarrow> (\<And>q. files s q = None \<Longrightarrow> files s' q = None) \<Longrightarrow> original_ok x s' row"
  by (auto simp: original_ok_def split: option.splits sum.splits)

lemma erasable_keep: "erasable x p l s \<Longrightarrow> removed s T s' \<Longrightarrow> erasable x p l s'"
  unfolding erasable_def Let_def removed_def list_all_iff by (metis original_ok_keep)

lemma safe_path_under:
  "safe_asset_storage_path root sp = Inr q \<Longrightarrow> under root q"
  by (auto simp: safe_asset_storage_path_def under_def result_simps split: if_splits option.splits)

lemma inspect_run:
  assumes "fault_free e x" "original_ok x s row"
  shows "\<exists>q s'. inspect_original x row s = (Inr q, s')"
proof -
  obtain sp sha where row: "row = (sp, sha)" by (cases row)
  obtain root q where q: "snapshot_dir x = Some root" "safe_asset_storage_path root sp = Inr q" "hd q = sha" "q \<notin> dirs s"
    "files s q \<noteq> None \<Longrightarrow> root \<in> dirs s"
    using assms(2) by (auto simp: original_ok_def row split: option.splits sum.splits)
  have fine: "io_plan x n = Fine" for n using assms(1) by (simp add: fault_free_def)
  note un = safe_path_under [OF q(2)]
  show ?thesis
  proof (cases "files s q")
    case None
    then show ?thesis using q fine
      by (simp add: row inspect_original_def bind_io_def lift_r_def attempt_def canonicalize_def ret_def ok_or_def)
  next
    case (Some c)
    then show ?thesis using q fine un
      by (simp add: row inspect_original_def bind_io_def lift_r_def attempt_def canonicalize_def ret_def map_err_def is_file_def ok_or_def)
  qed
qed

lemma inspect_all_run:
  "fault_free e x \<Longrightarrow> list_all (original_ok x s) rows \<Longrightarrow> \<exists>ps s'. inspect_originals x rows s = (Inr ps, s')"
proof (induction rows arbitrary: s)
  case (Cons row rows)
  have "original_ok x s row" using Cons.prems(2) by simp
  from inspect_run [OF Cons.prems(1) this] obtain q s1 where one: "inspect_original x row s = (Inr q, s1)" by blast
  obtain sp sha where row: "row = (sp, sha)" by (cases row)
  note keep = inspect_cases(1,2) [OF one [unfolded row]]
  have "list_all (original_ok x s1) rows"
    using Cons.prems(2) keep by (auto simp: list_all_iff intro: original_ok_keep)
  from Cons.IH [OF Cons.prems(1) this] obtain ps s2 where "inspect_originals x rows s1 = (Inr ps, s2)" by blast
  then show ?case using one by (simp add: bind_io_def ret_def)
qed (simp add: ret_def)

lemma remove_all_run: "fault_free e x \<Longrightarrow> \<exists>s'. remove_originals x ps s = (Inr (), s')"
proof (induction ps arbitrary: s)
  case (Cons p ps)
  obtain r s1 where one: "remove_file (io_plan x) p s = (r, s1)" by fastforce
  have "r = Inr () \<or> r = Inl EntryNotFound"
    using one Cons.prems by (auto simp: remove_file_def fault_free_def split: option.splits)
  with one Cons.IH [OF Cons.prems, of s1] show ?case by (auto simp: bind_io_def attempt_def)
qed (simp add: ret_def)

lemma sql_run: "fault_free e x \<Longrightarrow> sql e k r s = (r, s)"
  by (simp add: sql_def lift_r_def stmt_def fault_free_def)

lemma bind_sql_run: "fault_free e x \<Longrightarrow> bind_io (sql e k (Inr y)) f s = f y s"
  by (simp add: bind_io_def sql_run)

lemma prepare_run:
  assumes "fault_free e x" "erasable x p l s"
  shows "\<exists>ae s'. prepare_assets e x p l s = (Inr ae, s')"
proof -
  let ?as = "forget_assets p (forget_docs p l) l"
  have "list_all (original_ok x s) (map (\<lambda>a. (as_storage_path a, as_sha256 a)) ?as)"
    using assms(2) by (simp add: erasable_def Let_def list_all_iff)
  from inspect_all_run [OF assms(1) this] obtain ps s' where
    "inspect_originals x (map (\<lambda>a. (as_storage_path a, as_sha256 a)) ?as) s = (Inr ps, s')" by blast
  moreover have "\<not> list_ex (shared_asset p (forget_docs p l) l) ?as" using assms(2) by (simp add: erasable_def Let_def)
  ultimately show ?thesis
    by (simp add: prepare_assets_def bind_sql_run [OF assms(1)] sql_run [OF assms(1)] bind_io_def ret_def)
qed

lemma delete_rows_run:
  assumes "fault_free e x" "erasable x p l s"
  shows "\<exists>out l' s'. delete_principal_rows_with_assets e x p l s = (Inr (out, l'), s')"
proof -
  obtain ae s1 where prep: "prepare_assets e x p l s = (Inr ae, s1)" using prepare_run [OF assms] by blast
  obtain s2 where "remove_originals x (ae_paths ae) s1 = (Inr (), s2)" using remove_all_run [OF assms(1)] by blast
  then have er: "erase_assets e x ae l0 s1 =
      (Inr (delete_assets (as_id ` set (ae_assets ae)) (delete_documents (set (ae_docs ae)) l0)), s2)" for l0
    unfolding erase_assets_def bind_sql_run [OF assms(1)] by (simp add: bind_io_def ret_def)
  have p: "trim p \<noteq> []" using assms(2) by (simp add: erasable_def Let_def)
  have pr: "bind_io (prepare_assets e x p l) f s = f ae s1" for f :: "AssetErasure \<Rightarrow> (error, DeleteOutcome \<times> library) op"
    by (simp add: bind_io_def prep)
  have st: "bind_io (erase_assets e x ae l0) f s1 =
      f (delete_assets (as_id ` set (ae_assets ae)) (delete_documents (set (ae_docs ae)) l0)) s2"
    for f :: "library \<Rightarrow> (error, DeleteOutcome \<times> library) op" and l0
    by (simp add: bind_io_def er)
  show ?thesis
    unfolding delete_principal_rows_with_assets_def
    by (simp only: p if_False bind_sql_run [OF assms(1)] pr st) (simp add: ret_def)
qed

text \<open>After a success no original is left, and nothing else is touched.\<close>

lemma delete_rows_blobs:
  assumes "graph_ok l" "delete_principal_rows_with_assets e x p l s = (Inr (out, l'), s')"
  shows "files s' q = (if q \<in> original_paths x p l then None else files s q)"
proof -
  obtain ae s1 where prep: "prepare_assets e x p l s = (Inr ae, s1)" and rm: "remove_originals x (ae_paths ae) s1 = (Inr (), s')"
    using delete_rows_ok [OF assms] by metis
  note ae = prepare_ok [OF prep]
  have fr: "removed s (original_paths x p l) s'" by (rule delete_rows_files [OF assms(2)])
  show ?thesis
  proof (cases "q \<in> original_paths x p l")
    case True
    then obtain a where a: "a \<in> set (ae_assets ae)" "original_path x (as_storage_path a) = Some q"
      by (auto simp: original_paths_def ae(2))
    have "q \<in> set (ae_paths ae) \<or> files s q = None"
      using inspect_all_ok [OF ae(4)] a by force
    then have "files s' q = None"
      using remove_originals_ok [OF rm] fr by (metis removed_def)
    with True show ?thesis by simp
  qed (use fr in \<open>auto simp: removed_def\<close>)
qed

end
