(* ===== verification/ErasureSchema.thy ===== *)
theory ErasureSchema
  imports ErasureFiles
begin

text \<open>The constraints of the schema survive an erasure, table by table.\<close>

section \<open>What is left of each table\<close>

lemma erased_sel [simp]:
  "core (erased_library ts p l) = erased_core p l" "der (erased_library ts p l) = erased_der p l"
  "rel (erased_library ts p l) = erased_rel ts p l"
  by (simp_all add: erased_library_def)

lemma erased_core_sel:
  "episodes (erased_core p l) = filter (\<lambda>r. \<not> of_principal p r) (episodes (core l))"
  "chunks (erased_core p l) = filter (\<lambda>c. \<not> chunk_of_principal p c) (chunks (core l))"
  "documents (erased_core p l) = filter (\<lambda>x. dr_doc_id x \<notin> set (forget_docs p l)) (documents (core l))"
  "embeddings (erased_core p l) = filter (\<lambda>m. em_memory_id m \<notin> erased_memories p l) (embeddings (core l))"
  "chunk_embeddings (erased_core p l) = filter (\<lambda>m. ce_chunk_id m \<notin> erased_chunks p l) (chunk_embeddings (core l))"
  "reviews (erased_core p l) = filter (\<lambda>v. rv_memory_id v \<notin> erased_memories p l) (reviews (core l))"
  "ep_seq (erased_core p l) = ep_seq (core l)" "chunk_seq (erased_core p l) = chunk_seq (core l)"
  by (simp_all add: erased_core_def Let_def)

lemma erased_pending:
  "pending (erased_core p l) = filter (\<lambda>q. pe_target q \<notin> PEpisode ` erased_memories p l \<and> pe_target q \<notin> PChunk ` erased_chunks p l) (pending (core l))"
  by (simp add: erased_core_def Let_def)

lemma kept_episode:
  "wf_db (core l) \<Longrightarrow> r \<in> set (episodes (core l)) \<Longrightarrow>
     (er_memory_id r \<in> erased_memories p l \<longleftrightarrow> of_principal p r) \<and> (er_rowid r \<in> erased_rowids p l \<longleftrightarrow> of_principal p r)"
  by (auto simp: erased_memories_def erased_rowids_def wf_db_def distinct_map dest: inj_onD)

lemma kept_chunk:
  "wf_db (core l) \<Longrightarrow> c \<in> set (chunks (core l)) \<Longrightarrow> cr_chunk_id c \<in> erased_chunks p l \<longleftrightarrow> chunk_of_principal p c"
  by (auto simp: erased_chunks_def wf_db_def distinct_map dest: inj_onD)

lemma kept_ids:
  assumes "wf_db (core l)"
  shows "er_memory_id ` set (episodes (erased_core p l)) = er_memory_id ` set (episodes (core l)) - erased_memories p l"
    "er_rowid ` set (episodes (erased_core p l)) = er_rowid ` set (episodes (core l)) - erased_rowids p l"
    "cr_chunk_id ` set (chunks (erased_core p l)) = cr_chunk_id ` set (chunks (core l)) - erased_chunks p l"
    "dr_doc_id ` set (documents (erased_core p l)) = dr_doc_id ` set (documents (core l)) - set (forget_docs p l)"
  using kept_episode [OF assms, of _ p] kept_chunk [OF assms, of _ p] by (auto simp: erased_core_sel)

lemma kept_doc: "c \<in> set (chunks (erased_core p l)) \<Longrightarrow> cr_doc_id c \<notin> set (forget_docs p l)"
  using docs_exclusive by (auto simp: erased_core_sel)

lemma erased_wf:
  assumes "wf_db (core l)"
  shows "wf_db (erased_core p l)"
  using assms kept_ids(4) [OF assms, of p] kept_doc [of _ p l]
  unfolding wf_db_def by (simp add: erased_core_sel(1,2,7,8) erased_pending distinct_map_filter) (simp add: erased_core_sel distinct_map_filter)

lemma erased_derived:
  assumes "wf_db (core l)" "derived_ok (core l) (der l)"
  shows "derived_ok (erased_core p l) (erased_der p l)"
  using assms(2) kept_ids(1) [OF assms(1), of p]
  unfolding derived_ok_def erased_der_def Let_def
  by (simp add: distinct_map_filter image_subset_iff) auto

lemma erased_pending_refs:
  assumes "wf_db (core l)" "pe_target ` set (pending (core l)) \<subseteq>
        PEpisode ` er_memory_id ` set (episodes (core l)) \<union> PChunk ` cr_chunk_id ` set (chunks (core l))"
  shows "pe_target ` set (pending (erased_core p l)) \<subseteq>
        PEpisode ` er_memory_id ` set (episodes (erased_core p l)) \<union> PChunk ` cr_chunk_id ` set (chunks (erased_core p l))"
proof
  fix t assume "t \<in> pe_target ` set (pending (erased_core p l))"
  then have t: "t \<in> pe_target ` set (pending (core l))" "t \<notin> PEpisode ` erased_memories p l" "t \<notin> PChunk ` erased_chunks p l"
    by (auto simp: erased_pending)
  have u: "t \<in> PEpisode ` er_memory_id ` set (episodes (core l)) \<union> PChunk ` cr_chunk_id ` set (chunks (core l))"
    by (rule subsetD [OF assms(2) t(1)])
  consider mid where "t = PEpisode mid" "mid \<in> er_memory_id ` set (episodes (core l))"
    | cid where "t = PChunk cid" "cid \<in> cr_chunk_id ` set (chunks (core l))"
    by (rule UnE [OF u]; erule imageE) (simp_all only: that)
  then show "t \<in> PEpisode ` er_memory_id ` set (episodes (erased_core p l)) \<union> PChunk ` cr_chunk_id ` set (chunks (erased_core p l))"
  proof cases
    case 1
    moreover have "mid \<notin> erased_memories p l" using t(2) 1(1) by blast
    ultimately have "mid \<in> er_memory_id ` set (episodes (erased_core p l))" unfolding kept_ids [OF assms(1)] by simp
    then show ?thesis unfolding 1(1) by (intro UnI1 imageI)
  next
    case 2
    moreover have "cid \<notin> erased_chunks p l" using t(3) 2(1) by blast
    ultimately have "cid \<in> cr_chunk_id ` set (chunks (erased_core p l))" unfolding kept_ids [OF assms(1)] by simp
    then show ?thesis unfolding 2(1) by (intro UnI2 imageI)
  qed
qed

lemma erased_core_refs:
  assumes "wf_db (core l)" "core_refs_ok l"
  shows "core_refs_ok (erased_library ts p l)"
proof -
  have "em_memory_id ` set (embeddings (erased_core p l)) \<subseteq> er_memory_id ` set (episodes (core l)) - erased_memories p l"
    "rv_memory_id ` set (reviews (erased_core p l)) \<subseteq> er_memory_id ` set (episodes (core l)) - erased_memories p l"
    "ce_chunk_id ` set (chunk_embeddings (erased_core p l)) \<subseteq> cr_chunk_id ` set (chunks (core l)) - erased_chunks p l"
    using assms(2) by (auto simp: core_refs_ok_def erased_core_sel)
  moreover have "pe_target ` set (pending (erased_core p l)) \<subseteq>
      PEpisode ` er_memory_id ` set (episodes (erased_core p l)) \<union> PChunk ` cr_chunk_id ` set (chunks (erased_core p l))"
    by (rule erased_pending_refs [OF assms(1)]) (use assms(2) in \<open>simp only: core_refs_ok_def\<close>)
  ultimately show ?thesis
    unfolding core_refs_ok_def erased_sel by (simp only: kept_ids [OF assms(1)] simp_thms)
qed

lemma opt_keep_all:
  assumes "\<And>c. c \<in> A \<Longrightarrow> opt_in (f c) (g ` B)" "\<And>c. c \<in> A' \<Longrightarrow> \<not> opt_hits (f c) S" "A' \<subseteq> A"
  shows "\<forall>c \<in> A'. opt_in (f c) (g ` B - S)"
proof
  fix c assume "c \<in> A'"
  with assms have "opt_in (f c) (g ` B)" "\<not> opt_hits (f c) S" by blast+
  then show "opt_in (f c) (g ` B - S)" by (cases "f c") (auto simp: opt_hits_def)
qed

lemma erased_untied:
  "c \<in> set (claims (erased_rel ts p l)) \<Longrightarrow> \<not> opt_hits (cm_source_episode_id c) (erased_rowids p l) \<and>
     \<not> opt_hits (cm_chunk_id c) (erased_chunks p l) \<and> \<not> opt_hits (cm_doc_id c) (set (forget_docs p l))"
  "v \<in> set (triple_reviews (erased_rel ts p l)) \<Longrightarrow> \<not> opt_hits (tv_source_episode_id v) (erased_rowids p l)"
  "y \<in> set (evidence (erased_rel ts p l)) \<Longrightarrow> \<not> opt_hits (vd_memory_id y) (erased_memories p l) \<and>
     \<not> opt_hits (vd_source_episode_id y) (erased_rowids p l) \<and> \<not> opt_hits (vd_chunk_id y) (erased_chunks p l) \<and>
     \<not> opt_hits (vd_doc_id y) (set (forget_docs p l))"
  "t \<in> set (triples (erased_der p l)) \<Longrightarrow> \<not> opt_hits (tr_source_episode_id t) (erased_rowids p l)"
  by (auto simp: erased_rel_def erased_der_def Let_def claim_hits_def review_hits_def evidence_hits_def forget_triples_def)

lemma erased_subsets:
  "set (claims (erased_rel ts p l)) \<subseteq> set (claims (rel l))" "set (triple_reviews (erased_rel ts p l)) \<subseteq> set (triple_reviews (rel l))"
  "set (evidence (erased_rel ts p l)) \<subseteq> set (evidence (rel l))" "set (triples (erased_der p l)) \<subseteq> set (triples (der l))"
  "set (assets (erased_rel ts p l)) \<subseteq> set (assets (rel l))"
  by (auto simp: erased_rel_def erased_der_def Let_def)

lemma erased_source_refs:
  assumes "wf_db (core l)" "source_refs_ok l"
  shows "source_refs_ok (erased_library ts p l)"
proof -
  note ok = assms(2) [unfolded source_refs_ok_def] and sub = erased_subsets(1-3) [of ts p l] erased_subsets(4) [of p l]
  have "\<forall>t \<in> set (triples (erased_der p l)). opt_in (tr_source_episode_id t) (er_rowid ` set (episodes (core l)) - erased_rowids p l)"
    by (rule opt_keep_all [OF _ _ sub(4)]) (use ok in \<open>auto dest: erased_untied\<close>)
  moreover have "\<forall>c \<in> set (claims (erased_rel ts p l)). opt_in (cm_source_episode_id c) (er_rowid ` set (episodes (core l)) - erased_rowids p l)"
    "\<forall>c \<in> set (claims (erased_rel ts p l)). opt_in (cm_doc_id c) (dr_doc_id ` set (documents (core l)) - set (forget_docs p l))"
    "\<forall>c \<in> set (claims (erased_rel ts p l)). opt_in (cm_chunk_id c) (cr_chunk_id ` set (chunks (core l)) - erased_chunks p l)"
    by (rule opt_keep_all [OF _ _ sub(1)]; use ok in \<open>auto dest: erased_untied\<close>)+
  moreover have "\<forall>v \<in> set (triple_reviews (erased_rel ts p l)). opt_in (tv_source_episode_id v) (er_rowid ` set (episodes (core l)) - erased_rowids p l)"
    by (rule opt_keep_all [OF _ _ sub(2)]) (use ok in \<open>auto dest: erased_untied\<close>)
  moreover have "\<forall>v \<in> set (evidence (erased_rel ts p l)). opt_in (vd_memory_id v) (er_memory_id ` set (episodes (core l)) - erased_memories p l)"
    "\<forall>v \<in> set (evidence (erased_rel ts p l)). opt_in (vd_source_episode_id v) (er_rowid ` set (episodes (core l)) - erased_rowids p l)"
    "\<forall>v \<in> set (evidence (erased_rel ts p l)). opt_in (vd_doc_id v) (dr_doc_id ` set (documents (core l)) - set (forget_docs p l))"
    "\<forall>v \<in> set (evidence (erased_rel ts p l)). opt_in (vd_chunk_id v) (cr_chunk_id ` set (chunks (core l)) - erased_chunks p l)"
    by (rule opt_keep_all [OF _ _ sub(3)]; use ok in \<open>auto dest: erased_untied\<close>)+
  ultimately show ?thesis unfolding source_refs_ok_def erased_sel kept_ids [OF assms(1)] by (simp only: simp_thms ball_conj_distrib)
qed

lemma erased_graph:
  assumes "graph_ok l"
  shows "graph_ok (erased_library ts p l)"
proof -
  let ?tids = "forget_triples p (forget_docs p l) l" and ?r = "rel l" and ?r' = "erased_rel ts p l"
  have ev: "evidence ?r' = filter (\<lambda>v. vd_triple_id v \<notin> ?tids) (evidence ?r)" and ed: "edges ?r' = edges_after ts ?tids ?r"
    and en: "entities ?r' = entities ?r"
    by (simp_all add: erased_rel_def Let_def)
  have cnt: "evidence_count k ?r' = length (filter (\<lambda>v. vd_edge_id v = k \<and> vd_triple_id v \<notin> ?tids) (evidence ?r))" for k
    by (simp add: evidence_count_def ev conj_commute)
  have ids: "map eg_id (edges ?r') =
      map eg_id (filter (\<lambda>g. list_ex (\<lambda>v. vd_edge_id v = eg_id g \<and> vd_triple_id v \<in> ?tids) (evidence ?r) \<longrightarrow> 0 < evidence_count (eg_id g) ?r') (edges ?r))"
    unfolding ed edges_after_def Let_def cnt by simp
  have edge: "\<exists>g0 \<in> set (edges ?r). eg_id g = eg_id g0 \<and> eg_subject g = eg_subject g0 \<and> eg_object g = eg_object g0 \<and>
      eg_evidence_count g = evidence_count (eg_id g) ?r'" if g: "g \<in> set (edges ?r')" for g
  proof -
    from g obtain g0 where g0: "g0 \<in> set (edges ?r)" "g = (if list_ex (\<lambda>v. vd_edge_id v = eg_id g0 \<and> vd_triple_id v \<in> ?tids) (evidence ?r)
        then g0\<lparr>eg_evidence_count := evidence_count (eg_id g0) ?r', eg_updated_at_ms := ts\<rparr> else g0)"
      unfolding ed edges_after_def Let_def cnt by auto
    have "evidence_count (eg_id g0) ?r' = evidence_count (eg_id g0) ?r"
      if "\<not> list_ex (\<lambda>v. vd_edge_id v = eg_id g0 \<and> vd_triple_id v \<in> ?tids) (evidence ?r)"
      using that unfolding cnt unfolding evidence_count_def by (intro arg_cong [where f = length] filter_cong) (auto simp: list_ex_iff)
    moreover have "eg_evidence_count g0 = evidence_count (eg_id g0) ?r" using assms g0(1) by (simp add: graph_ok_def)
    ultimately show ?thesis using g0 by (intro bexI [of _ g0]) auto
  qed
  have "vd_edge_id v \<in> eg_id ` set (edges ?r')" if v: "v \<in> set (evidence ?r')" for v
  proof -
    have "v \<in> set (evidence ?r)" "vd_triple_id v \<notin> ?tids" using v by (auto simp: ev)
    moreover from this have "0 < evidence_count (vd_edge_id v) ?r'" unfolding cnt by (auto simp: filter_empty_conv)
    moreover have "vd_edge_id v \<in> eg_id ` set (edges ?r)" using assms calculation(1) by (auto simp: graph_ok_def)
    ultimately have "vd_edge_id v \<in> set (map eg_id (edges ?r'))" unfolding ids by auto
    then show ?thesis by simp
  qed
  moreover have "distinct (map eg_id (edges ?r'))" "distinct (map vd_id (evidence ?r'))"
    using assms unfolding ids ev by (simp_all add: graph_ok_def distinct_map_filter)
  moreover have "vd_triple_id ` set (evidence ?r') \<subseteq> tr_id ` set (triples (erased_der p l))"
    using assms by (auto simp: ev erased_der_def Let_def graph_ok_def)
  moreover have "eg_subject g \<in> en_id ` set (entities ?r) \<and> opt_in (eg_object g) (en_id ` set (entities ?r))"
    if "g \<in> set (edges ?r')" for g
    using edge [OF that] assms unfolding graph_ok_def by metis
  ultimately show ?thesis unfolding graph_ok_def erased_sel en using edge by blast
qed

lemma erased_assets:
  assumes "wf_db (core l)" "asset_refs_ok l"
  shows "asset_refs_ok (erased_library ts p l)"
proof -
  let ?docs = "set (forget_docs p l)" and ?aids = "as_id ` set (forget_assets p (forget_docs p l) l)"
  have sel: "assets (erased_rel ts p l) = filter (\<lambda>a. as_id a \<notin> ?aids) (assets (rel l))"
    "document_assets (erased_rel ts p l) = filter (\<lambda>k. fst k \<notin> ?docs \<and> snd k \<notin> ?aids) (document_assets (rel l))"
    "attachments (erased_rel ts p l) = filter (\<lambda>a. at_memory_id a \<notin> erased_memories p l \<and> at_target a \<notin> ADocument ` ?docs \<and>
          at_target a \<notin> AAsset ` ?aids) (attachments (rel l))"
    "extractions (erased_rel ts p l) = filter (\<lambda>x. ax_asset_id x \<notin> ?aids) (extractions (rel l))"
    by (simp_all add: erased_rel_def Let_def)
  have aid: "as_id ` set (assets (erased_rel ts p l)) = as_id ` set (assets (rel l)) - ?aids"
    by (auto simp: sel)
  note ok = assms(2) [unfolded asset_refs_ok_def]
  have tgt: "target_ok (erased_library ts p l) (at_target a)" if "a \<in> set (attachments (erased_rel ts p l))" for a
  proof -
    have a: "target_ok l (at_target a)" "at_target a \<notin> ADocument ` ?docs" "at_target a \<notin> AAsset ` ?aids"
      using ok that by (auto simp: sel)
    show ?thesis unfolding target_ok_def erased_sel aid kept_ids(4) [OF assms(1)]
      using a by (cases "at_target a") (auto simp: target_ok_def)
  qed
  have "fst ` set (document_assets (erased_rel ts p l)) \<subseteq> dr_doc_id ` set (documents (core l)) - ?docs"
    "snd ` set (document_assets (erased_rel ts p l)) \<subseteq> as_id ` set (assets (rel l)) - ?aids"
    "ax_asset_id ` set (extractions (erased_rel ts p l)) \<subseteq> as_id ` set (assets (rel l)) - ?aids"
    using ok unfolding sel by auto
  moreover have "at_memory_id a \<in> er_memory_id ` set (episodes (core l)) - erased_memories p l"
    if "a \<in> set (attachments (erased_rel ts p l))" for a
    using ok that by (auto simp: sel)
  moreover have "distinct (map as_id (assets (erased_rel ts p l)))" "distinct (map as_storage_path (assets (erased_rel ts p l)))"
    using ok by (simp_all add: sel distinct_map_filter)
  ultimately show ?thesis
    unfolding asset_refs_ok_def erased_sel aid kept_ids(1,4) [OF assms(1)] using tgt by blast
qed

lemma erased_library_ok: "library_ok l \<Longrightarrow> library_ok (erased_library ts p l)"
  by (simp add: library_ok_def erased_wf erased_derived erased_core_refs erased_source_refs erased_graph erased_assets)

end
