(* ===== verification/ErasureProps.thy ===== *)
theory ErasureProps
  imports ErasureSchema RecoveryProps
begin

text \<open>
  The promises of the erasure: what is left of the principal, what stays of the others, the
  constraints of the schema, the index, and what a failed erasure leaves to its retry.
\<close>

section \<open>The index\<close>

context total_remove_index
begin

lemma invalidate_live: "live (invalidate_ids ops ids i) = live i - set ids"
proof (induction ids arbitrary: i)
  case (Cons r rs)
  obtain i' where "vi_remove ops i r = Inr i'" "live i' = live i - {r}" by (rule remove_obtain)
  then show ?case by (auto simp: Cons.IH)
qed simp

end

definition erased_ids :: "string \<Rightarrow> library \<Rightarrow> i64 set" where
  "erased_ids p l =
     ep_id ` {r \<in> set (episodes (core l)). of_principal p r} \<union> ch_id ` {c \<in> set (chunks (core l)). chunk_of_principal p c}"

lemma outcome_ids_set: "set (outcome_ids (outcome_of p l)) = erased_ids p l"
  by (auto simp: outcome_ids_def outcome_of_def erased_ids_def ep_id_def ch_id_def Let_def)

lemma doc_active_kept: "did \<notin> set (forget_docs p l) \<Longrightarrow> doc_active (erased_core p l) did = doc_active (core l) did"
  by (auto simp: doc_active_def erased_core_sel)

lemma doc_active_mono: "doc_active (erased_core p l) did \<Longrightarrow> doc_active (core l) did"
  by (auto simp: doc_active_def erased_core_sel)

lemma active_ids_erased: "active_ids (core l) - erased_ids p l \<subseteq> active_ids (erased_core p l)"
proof
  fix x assume x: "x \<in> active_ids (core l) - erased_ids p l"
  then consider r where "r \<in> set (episodes (core l))" "er_status r = Active" "x = ep_id r"
    | c where "c \<in> set (chunks (core l))" "doc_active (core l) (cr_doc_id c)" "x = ch_id c"
    by (auto simp: active_ids_def)
  then show "x \<in> active_ids (erased_core p l)"
  proof cases
    case 1
    then have "\<not> of_principal p r" using x by (auto simp: erased_ids_def)
    with 1 have "r \<in> set (episodes (erased_core p l))" by (simp add: erased_core_sel)
    then show ?thesis using 1 by (simp add: active_ids_epI)
  next
    case 2
    then have "\<not> chunk_of_principal p c" using x by (auto simp: erased_ids_def)
    with 2 have c: "c \<in> set (chunks (erased_core p l))" by (simp add: erased_core_sel)
    then have "doc_active (erased_core p l) (cr_doc_id c)" using 2 kept_doc [OF c] by (simp add: doc_active_kept)
    then show ?thesis using 2 c by (simp add: active_ids_chI)
  qed
qed

lemma outbox_erased:
  assumes "wf_db (core l)" "rowids_fit (core l)" "outbox_ok L (core l)"
  shows "outbox_ok (L - erased_ids p l) (erased_core p l)"
proof -
  have ep: "ep_id r \<in> L - erased_ids p l \<or> PEpisode (er_memory_id r) \<in> pending_targets (erased_core p l)"
    if r: "r \<in> set (episodes (erased_core p l))" "er_status r = Active" for r
  proof -
    have r': "r \<in> set (episodes (core l))" "\<not> of_principal p r" using r(1) by (auto simp: erased_core_sel)
    have "ep_id r \<notin> erased_ids p l"
      using r' ep_id_eq [OF assms(1,2) r'(1)] ep_ne_ch [OF assms(1,2) r'(1)] by (auto simp: erased_ids_def)
    moreover have "er_memory_id r \<notin> erased_memories p l" using kept_episode [OF assms(1) r'(1)] r'(2) by blast
    then have "PEpisode (er_memory_id r) \<in> pending_targets (core l) \<Longrightarrow> PEpisode (er_memory_id r) \<in> pending_targets (erased_core p l)"
      by (auto simp: pending_targets_def erased_pending)
    moreover have "ep_id r \<in> L \<or> PEpisode (er_memory_id r) \<in> pending_targets (core l)"
      using assms(3) r'(1) r(2) by (simp add: outbox_ok_def)
    ultimately show ?thesis by blast
  qed
  have ch: "ch_id c \<in> L - erased_ids p l \<or> PChunk (cr_chunk_id c) \<in> pending_targets (erased_core p l)"
    if c: "c \<in> set (chunks (erased_core p l))" "doc_active (erased_core p l) (cr_doc_id c)" for c
  proof -
    have c': "c \<in> set (chunks (core l))" "\<not> chunk_of_principal p c" using c(1) by (auto simp: erased_core_sel)
    have "ch_id c \<notin> erased_ids p l"
    proof
      assume "ch_id c \<in> erased_ids p l"
      then consider r where "r \<in> set (episodes (core l))" "ch_id c = ep_id r"
        | c2 where "c2 \<in> set (chunks (core l))" "chunk_of_principal p c2" "ch_id c = ch_id c2"
        by (auto simp: erased_ids_def)
      then show False using ep_ne_ch [OF assms(1,2)] ch_id_eq [OF assms(1,2) c'(1)] c'(2) by cases metis+
    qed
    moreover have "cr_chunk_id c \<notin> erased_chunks p l" using kept_chunk [OF assms(1) c'(1)] c'(2) by blast
    then have "PChunk (cr_chunk_id c) \<in> pending_targets (core l) \<Longrightarrow> PChunk (cr_chunk_id c) \<in> pending_targets (erased_core p l)"
      by (auto simp: pending_targets_def erased_pending)
    moreover have "ch_id c \<in> L \<or> PChunk (cr_chunk_id c) \<in> pending_targets (core l)"
      using assms(3) c'(1) doc_active_mono [OF c(2)] by (simp add: outbox_ok_def)
    ultimately show ?thesis by blast
  qed
  show ?thesis unfolding outbox_ok_def using ep ch by blast
qed

section \<open>The command\<close>

lemma dispatch_forget_cases:
  assumes "graph_ok (lib_of w t r)" "dispatch_forget_principal_rows ops e x p (w, t, r, s) = (res, w', t', r', s')"
  obtains er where "res = Inl er" "w' = w" "t' = t" "r' = r" "removed s (original_paths x p (lib_of w t r)) s'"
    | "res = Inr (outcome_of p (lib_of w t r))"
      "delete_principal_rows_with_assets e x p (lib_of w t r) s =
         (Inr (outcome_of p (lib_of w t r), erased_library (now_secs_ms e) p (lib_of w t r)), s')"
      "w' = w\<lparr>wdb := erased_core p (lib_of w t r), hnsw := invalidate_vectors ops (outcome_of p (lib_of w t r)) (hnsw w)\<rparr>"
      "lib_of w' t' r' = erased_library (now_secs_ms e) p (lib_of w t r)"
proof -
  let ?l = "lib_of w t r"
  obtain y s1 where run: "delete_principal_rows_with_assets e x p ?l s = (y, s1)" by fastforce
  note rm = delete_rows_files [OF run]
  show thesis
  proof (cases y)
    case (Inl er)
    then have "res = Inl er \<and> w' = w \<and> t' = t \<and> r' = r \<and> s' = s1"
      using assms(2) run by (auto simp: dispatch_forget_principal_rows_def)
    with rm show thesis by (intro that(1)) auto
  next
    case (Inr z)
    obtain out l' where z: "z = (out, l')" by (cases z)
    note ok = delete_rows_ok [OF assms(1) run [unfolded Inr z]]
    have l': "l' = erased_library (now_secs_ms e) p ?l" "out = outcome_of p ?l" using ok by metis+
    then show thesis using assms(2) run that(2)
      by (simp add: dispatch_forget_principal_rows_def Inr z lib_of_def erased_library_def)
  qed
qed

lemma lib_of_sel [simp]: "core (lib_of w t r) = wdb w" "der (lib_of w t r) = t" "rel (lib_of w t r) = r"
  by (simp_all add: lib_of_def)

definition index_invs :: "('i \<Rightarrow> i64 set) \<Rightarrow> 'i writer \<Rightarrow> bool" where
  "index_invs live w = (live_inv live w \<and> outbox_inv live w)"

context total_remove_index
begin

lemma dispatch_forget_invs:
  assumes "graph_ok (lib_of w t r)" "rowids_fit (wdb w)" "index_invs live w"
    and "dispatch_forget_principal_rows ops e x p (w, t, r, s) = (res, w', t', r', s')"
  shows "index_invs live w'"
  using assms(1,4)
proof (cases rule: dispatch_forget_cases)
  case (1 er)
  then show ?thesis using assms(3) by simp
next
  case 2
  let ?l = "lib_of w t r"
  have wf: "wf_db (core ?l)" and lv: "live (hnsw w) \<subseteq> active_ids (core ?l)" and ob: "outbox_ok (live (hnsw w)) (core ?l)"
    using assms(3) by (auto simp: index_invs_def live_inv_def outbox_inv_def)
  have live': "live (hnsw w') = live (hnsw w) - erased_ids p ?l"
    by (simp add: 2(3) invalidate_vectors_def invalidate_live outcome_ids_set)
  have db': "wdb w' = erased_core p ?l" by (simp add: 2(3))
  have "live (hnsw w') \<subseteq> active_ids (wdb w')"
    unfolding live' db' using lv active_ids_erased [of ?l p] by blast
  moreover have "outbox_ok (live (hnsw w')) (wdb w')"
    unfolding live' db' by (rule outbox_erased) (use wf assms(2) ob in simp_all)
  ultimately show ?thesis using erased_wf [OF wf, of p] by (simp add: index_invs_def live_inv_def outbox_inv_def db')
qed

lemma rebuild_invs:
  assumes "index_invs live w" "rebuild_hnsw_from_sql ops re (wdb w) eid (hnsw w) = Inr (i, rep)"
  shows "index_invs live (w\<lparr>hnsw := i\<rparr>)"
  using assms(1) rebuild_inv(1,2) [OF assms(2)] outbox_mono
  by (auto simp: index_invs_def live_inv_def outbox_inv_def)

lemma forget_principal_invs:
  assumes "graph_ok (lib_of w t r)" "rowids_fit (wdb w)" "index_invs live w"
    and "forget_principal ops e re x eid tid actor p ((w, t, r, s), trail) = (res, (w', t', r', s'), trail')"
  shows "index_invs live w'"
proof (cases "queue_busy x")
  case True
  then show ?thesis using assms(3,4) by (simp add: forget_principal_def)
next
  case False
  obtain y w1 t1 r1 s1 where run: "dispatch_forget_principal_rows ops e x p (w, t, r, s) = (y, w1, t1, r1, s1)"
    by (metis prod.exhaust)
  note inv = dispatch_forget_invs [OF assms(1-3) run]
  have events: "index_invs live (v\<lparr>events := es\<rparr>) = index_invs live v" for v es
    by (simp add: index_invs_def live_inv_def outbox_inv_def)
  let ?rb = "map_sum id fst (rebuild_hnsw_from_sql ops re (wdb w1) eid (hnsw w1))"
  have "w' = w1 \<or> (\<exists>i es. ?rb = Inr i \<and> (w' = w1\<lparr>hnsw := i\<rparr> \<or> w' = w1\<lparr>hnsw := i, events := es\<rparr>))"
    using assms(4) False run
    by (auto simp: forget_principal_def Let_def split: sum.splits prod.splits if_splits)
  moreover have "\<exists>rep. rebuild_hnsw_from_sql ops re (wdb w1) eid (hnsw w1) = Inr (i, rep)" if "?rb = Inr i" for i
    using that by (cases "rebuild_hnsw_from_sql ops re (wdb w1) eid (hnsw w1)") auto
  ultimately show ?thesis using inv rebuild_invs [OF inv] events by auto
qed

end

section \<open>Others\<close>

text \<open>
  Nothing that names the principal is left, no row of a memory or chunk that was erased, no fact with a
  source in the erased data and nothing that refers to one of those facts.
\<close>

definition core_left :: "string \<Rightarrow> library \<Rightarrow> db \<Rightarrow> bool" where
  "core_left p l d' =
     ((\<forall>r \<in> set (episodes d'). er_principal r \<noteq> Some p) \<and> (\<forall>c \<in> set (chunks d'). cr_principal c \<noteq> Some p) \<and>
      (\<forall>m \<in> set (embeddings d'). em_memory_id m \<notin> erased_memories p l) \<and>
      (\<forall>m \<in> set (chunk_embeddings d'). ce_chunk_id m \<notin> erased_chunks p l) \<and>
      (\<forall>q \<in> set (pending d'). pe_target q \<notin> PEpisode ` erased_memories p l \<union> PChunk ` erased_chunks p l) \<and>
      (\<forall>v \<in> set (reviews d'). rv_memory_id v \<notin> erased_memories p l) \<and>
      (\<forall>x \<in> set (documents d'). dr_doc_id x \<notin> set (forget_docs p l)))"

definition nothing_left :: "string \<Rightarrow> library \<Rightarrow> library \<Rightarrow> bool" where
  "nothing_left p l l' =
     (core_left p l (core l') \<and>
      (\<forall>a \<in> set (assets (rel l')). as_created_by a \<noteq> Some p) \<and>
      (\<forall>k \<in> set (links (der l')). snd k \<notin> erased_memories p l) \<and>
      (\<forall>a \<in> set (abstractions (der l')). sa_cluster_id a \<notin> erased_clusters p l) \<and>
      (\<forall>t \<in> set (triples (der l')). tr_id t \<notin> forget_triples p (forget_docs p l) l \<and>
         \<not> opt_hits (tr_source_episode_id t) (erased_rowids p l)) \<and>
      (\<forall>c \<in> set (claims (rel l')). \<not> claim_hits p (forget_docs p l) (forget_triples p (forget_docs p l) l) l c) \<and>
      (\<forall>v \<in> set (triple_reviews (rel l')). \<not> review_hits p (forget_triples p (forget_docs p l) l) l v) \<and>
      (\<forall>v \<in> set (evidence (rel l')). vd_triple_id v \<notin> forget_triples p (forget_docs p l) l \<and>
         \<not> evidence_hits p (forget_docs p l) l v) \<and>
      (\<forall>a \<in> set (attachments (rel l')). at_memory_id a \<notin> erased_memories p l \<and>
         at_target a \<notin> ADocument ` set (forget_docs p l)))"

text \<open>
  No reference of a fact that stays is set to \<open>NULL\<close> and nothing is added; of the relationships only the
  count of the evidence and the time change.
\<close>

definition rows_verbatim :: "library \<Rightarrow> library \<Rightarrow> bool" where
  "rows_verbatim l l' =
     (set (claims (rel l')) \<subseteq> set (claims (rel l)) \<and> set (triple_reviews (rel l')) \<subseteq> set (triple_reviews (rel l)) \<and>
      set (evidence (rel l')) \<subseteq> set (evidence (rel l)) \<and> set (triples (der l')) \<subseteq> set (triples (der l)) \<and>
      (\<forall>g' \<in> set (edges (rel l')). \<exists>g \<in> set (edges (rel l)).
         g' = g\<lparr>eg_evidence_count := eg_evidence_count g', eg_updated_at_ms := eg_updated_at_ms g'\<rparr>))"

lemma erased_nothing_left:
  assumes "wf_db (core l)"
  shows "nothing_left p l (erased_library ts p l)"
proof -
  have "as_created_by a \<noteq> Some p" if a: "a \<in> set (assets (erased_rel ts p l))" for a
  proof
    assume "as_created_by a = Some p"
    moreover have "a \<in> set (assets (rel l))" "as_id a \<notin> as_id ` set (forget_assets p (forget_docs p l) l)"
      using a by (auto simp: erased_rel_def Let_def)
    ultimately show False by (auto simp: forget_assets_def)
  qed
  moreover have "core_left p l (erased_core p l)"
    by (auto simp: core_left_def erased_core_def Let_def of_principal_def chunk_of_principal_def)
  moreover have "vd_triple_id v \<in> forget_triples p (forget_docs p l) l" if "v \<in> set (evidence (rel l))" "evidence_hits p (forget_docs p l) l v" for v
    using that by (auto simp: forget_triples_def)
  moreover have "tr_id t \<in> forget_triples p (forget_docs p l) l" if "t \<in> set (triples (der l))" "opt_hits (tr_source_episode_id t) (erased_rowids p l)" for t
    using that by (auto simp: forget_triples_def)
  ultimately show ?thesis
    unfolding nothing_left_def erased_library_def by (auto simp: erased_der_def erased_rel_def Let_def)
qed

lemma edge_kept: "g\<lparr>eg_evidence_count := eg_evidence_count g, eg_updated_at_ms := eg_updated_at_ms g\<rparr> = g"
  by (cases g) simp

lemma edge_changed:
  "eg_evidence_count (g\<lparr>eg_evidence_count := n, eg_updated_at_ms := t\<rparr>) = n"
  "eg_updated_at_ms (g\<lparr>eg_evidence_count := n, eg_updated_at_ms := t\<rparr>) = t"
  by simp_all

lemma mapped_filter: "x \<in> set (map f (filter P xs)) \<Longrightarrow> \<exists>g \<in> set xs. x = f g"
  by auto

lemma erased_rows_verbatim: "rows_verbatim l (erased_library ts p l)"
proof -
  have "\<exists>g \<in> set (edges (rel l)). g' = g\<lparr>eg_evidence_count := eg_evidence_count g', eg_updated_at_ms := eg_updated_at_ms g'\<rparr>"
    if g': "g' \<in> set (edges (erased_rel ts p l))" for g'
  proof -
    have sel: "edges (erased_rel ts p l) = edges_after ts (forget_triples p (forget_docs p l) l) (rel l)"
      by (simp add: erased_rel_def Let_def)
    obtain g where g: "g \<in> set (edges (rel l))" "g' = (if list_ex (\<lambda>v. vd_edge_id v = eg_id g \<and>
          vd_triple_id v \<in> forget_triples p (forget_docs p l) l) (evidence (rel l))
        then g\<lparr>eg_evidence_count := length (filter (\<lambda>v. vd_edge_id v = eg_id g \<and>
          vd_triple_id v \<notin> forget_triples p (forget_docs p l) l) (evidence (rel l))), eg_updated_at_ms := ts\<rparr> else g)"
      using mapped_filter [OF g' [unfolded sel edges_after_def Let_def]] by blast
    have "g' = g \<or> (\<exists>n. g' = g\<lparr>eg_evidence_count := n, eg_updated_at_ms := ts\<rparr>)"
      unfolding g(2) by (rule if_split [THEN iffD2]) blast
    then have "g' = g\<lparr>eg_evidence_count := eg_evidence_count g', eg_updated_at_ms := eg_updated_at_ms g'\<rparr>"
    proof (elim disjE exE)
      assume "g' = g"
      show ?thesis unfolding \<open>g' = g\<close> by (rule edge_kept [symmetric])
    next
      fix n assume e: "g' = g\<lparr>eg_evidence_count := n, eg_updated_at_ms := ts\<rparr>"
      show ?thesis unfolding e edge_changed by (rule refl)
    qed
    with g(1) show ?thesis by blast
  qed
  then show ?thesis unfolding rows_verbatim_def erased_sel
    by (intro conjI erased_subsets ballI)
qed

text \<open>
  What is not the principal's stays as it is, table by table. A fact, a claim, a review or an evidence
  counts as the principal's when it has a source in the erased data; an abstraction goes with the
  first erased member of its cluster, and a relationship keeps its row, with another count, as long as
  it has other evidence.
\<close>

definition core_kept :: "string \<Rightarrow> library \<Rightarrow> db \<Rightarrow> bool" where
  "core_kept p l d' =
     ((\<forall>r \<in> set (episodes (core l)). \<not> of_principal p r \<longrightarrow> r \<in> set (episodes d')) \<and>
      (\<forall>m \<in> set (embeddings (core l)). em_memory_id m \<notin> erased_memories p l \<longrightarrow> m \<in> set (embeddings d')) \<and>
      (\<forall>v \<in> set (reviews (core l)). rv_memory_id v \<notin> erased_memories p l \<longrightarrow> v \<in> set (reviews d')) \<and>
      (\<forall>c \<in> set (chunks (core l)). \<not> chunk_of_principal p c \<longrightarrow> c \<in> set (chunks d') \<and>
         (\<forall>x \<in> set (documents (core l)). dr_doc_id x = cr_doc_id c \<longrightarrow> x \<in> set (documents d'))) \<and>
      (\<forall>x \<in> set (documents (core l)). dr_doc_id x \<notin> set (forget_docs p l) \<longrightarrow> x \<in> set (documents d')) \<and>
      (\<forall>m \<in> set (chunk_embeddings (core l)). ce_chunk_id m \<notin> erased_chunks p l \<longrightarrow> m \<in> set (chunk_embeddings d')) \<and>
      (\<forall>q \<in> set (pending (core l)). pe_target q \<notin> PEpisode ` erased_memories p l \<union> PChunk ` erased_chunks p l \<longrightarrow> q \<in> set (pending d')))"

definition derived_kept :: "string \<Rightarrow> library \<Rightarrow> derived \<Rightarrow> bool" where
  "derived_kept p l t' =
     (clusters t' = clusters (der l) \<and>
      (\<forall>k \<in> set (links (der l)). snd k \<notin> erased_memories p l \<longrightarrow> k \<in> set (links t')) \<and>
      (\<forall>a \<in> set (abstractions (der l)). sa_cluster_id a \<notin> erased_clusters p l \<longrightarrow> a \<in> set (abstractions t')) \<and>
      (\<forall>t \<in> set (triples (der l)). tr_id t \<notin> forget_triples p (forget_docs p l) l \<longrightarrow> t \<in> set (triples t')))"

definition facts_kept :: "string \<Rightarrow> library \<Rightarrow> related \<Rightarrow> bool" where
  "facts_kept p l r' =
     (let docs = forget_docs p l; tids = forget_triples p docs l in
      (\<forall>c \<in> set (claims (rel l)). \<not> claim_hits p docs tids l c \<longrightarrow> c \<in> set (claims r')) \<and>
      (\<forall>v \<in> set (triple_reviews (rel l)). \<not> review_hits p tids l v \<longrightarrow> v \<in> set (triple_reviews r')) \<and>
      (\<forall>v \<in> set (evidence (rel l)). vd_triple_id v \<notin> tids \<longrightarrow> v \<in> set (evidence r') \<and>
         (\<forall>g \<in> set (edges (rel l)). eg_id g = vd_edge_id v \<longrightarrow>
            (\<exists>g' \<in> set (edges r'). eg_id g' = vd_edge_id v \<and> eg_subject g' = eg_subject g \<and> eg_object g' = eg_object g))) \<and>
      (\<forall>g \<in> set (edges (rel l)). eg_id g \<notin> forget_edges tids l \<longrightarrow> g \<in> set (edges r')) \<and>
      entities r' = entities (rel l))"

definition originals_kept :: "string \<Rightarrow> library \<Rightarrow> related \<Rightarrow> bool" where
  "originals_kept p l r' =
     (let docs = forget_docs p l in
      (\<forall>a \<in> set (assets (rel l)). as_created_by a \<noteq> None \<and> as_created_by a \<noteq> Some p \<or> a \<notin> set (forget_assets p docs l) \<longrightarrow>
         a \<in> set (assets r') \<and> (\<forall>x \<in> set (extractions (rel l)). ax_asset_id x = as_id a \<longrightarrow> x \<in> set (extractions r'))) \<and>
      (\<forall>k \<in> set (document_assets (rel l)). fst k \<notin> set docs \<longrightarrow> k \<in> set (document_assets r')) \<and>
      (\<forall>t \<in> set (attachments (rel l)). at_memory_id t \<notin> erased_memories p l \<longrightarrow> t \<in> set (attachments r')))"

definition others_kept :: "string \<Rightarrow> library \<Rightarrow> library \<Rightarrow> bool" where
  "others_kept p l l' =
     (core_kept p l (core l') \<and> derived_kept p l (der l') \<and> facts_kept p l (rel l') \<and> originals_kept p l (rel l'))"

lemma others_kept_refl: "others_kept p l l"
  by (auto simp: others_kept_def core_kept_def derived_kept_def facts_kept_def originals_kept_def Let_def)

lemma erased_core_kept: "core_kept p l (erased_core p l)"
proof -
  have "x \<in> set (documents (erased_core p l))" if "c \<in> set (chunks (core l))" "\<not> chunk_of_principal p c"
      "x \<in> set (documents (core l))" "dr_doc_id x = cr_doc_id c" for c x
    using docs_exclusive [of c l p] that by (auto simp: erased_core_sel)
  then show ?thesis unfolding core_kept_def by (auto simp: erased_core_def Let_def)
qed

lemma erased_derived_kept: "derived_kept p l (erased_der p l)"
  by (simp add: derived_kept_def erased_der_def Let_def)

lemma erased_facts_kept: "facts_kept p l (erased_rel ts p l)"
proof -
  let ?tids = "forget_triples p (forget_docs p l) l"
  have edge: "\<exists>g' \<in> set (edges_after ts ?tids (rel l)). eg_id g' = vd_edge_id v \<and> eg_subject g' = eg_subject g \<and> eg_object g' = eg_object g"
    if v: "v \<in> set (evidence (rel l))" "vd_triple_id v \<notin> ?tids" and g: "g \<in> set (edges (rel l))" "eg_id g = vd_edge_id v" for v g
  proof -
    let ?left = "length (filter (\<lambda>v. vd_edge_id v = eg_id g \<and> vd_triple_id v \<notin> ?tids) (evidence (rel l)))"
    let ?hit = "list_ex (\<lambda>v. vd_edge_id v = eg_id g \<and> vd_triple_id v \<in> ?tids) (evidence (rel l))"
    have "v \<in> set (filter (\<lambda>v. vd_edge_id v = eg_id g \<and> vd_triple_id v \<notin> ?tids) (evidence (rel l)))" using v g by simp
    then have "?left > 0" by (rule length_pos_if_in_set)
    then have "(if ?hit then g\<lparr>eg_evidence_count := ?left, eg_updated_at_ms := ts\<rparr> else g) \<in> set (edges_after ts ?tids (rel l))"
      using g(1) by (auto simp: edges_after_def Let_def)
    then show ?thesis by (rule rev_bexI) (simp add: g(2))
  qed
  have same: "g \<in> set (edges_after ts ?tids (rel l))" if g: "g \<in> set (edges (rel l))" "eg_id g \<notin> forget_edges ?tids l" for g
  proof -
    have "vd_edge_id v \<in> forget_edges ?tids l" if "v \<in> set (evidence (rel l))" "vd_triple_id v \<in> ?tids" for v
      using that by (simp add: forget_edges_def)
    then have "\<not> list_ex (\<lambda>v. vd_edge_id v = eg_id g \<and> vd_triple_id v \<in> ?tids) (evidence (rel l))"
      using g(2) unfolding list_ex_iff by metis
    then show ?thesis using g(1) by (force simp: edges_after_def Let_def)
  qed
  show ?thesis unfolding facts_kept_def Let_def
    by (intro conjI ballI impI) (simp_all add: erased_rel_def Let_def edge same)
qed

lemma erased_originals_kept:
  assumes "asset_refs_ok l" "\<not> list_ex (shared_asset p (forget_docs p l) l) (forget_assets p (forget_docs p l) l)"
  shows "originals_kept p l (erased_rel ts p l)"
proof -
  let ?docs = "forget_docs p l"
  let ?as = "forget_assets p ?docs l"
  have unshared: "\<not> shared_asset p ?docs l b" if "b \<in> set ?as" for b using assms(2) that by (auto simp: list_ex_iff)
  have mine: "as_id a \<notin> as_id ` set ?as"
    if a: "a \<in> set (assets (rel l))" "as_created_by a \<noteq> None \<and> as_created_by a \<noteq> Some p \<or> a \<notin> set ?as" for a
  proof
    assume "as_id a \<in> as_id ` set ?as"
    then obtain b where b: "b \<in> set ?as" "as_id a = as_id b" by blast
    have "b \<in> set (assets (rel l))" using b by (auto simp: forget_assets_def)
    then have "a = b" using assms(1) a(1) b(2) by (auto simp: asset_refs_ok_def distinct_map dest: inj_onD)
    with a(2) b(1) have "shared_asset p ?docs l b" by (auto simp: shared_asset_def)
    with unshared [OF b(1)] show False ..
  qed
  have doc: "snd k \<notin> as_id ` set ?as" if k: "k \<in> set (document_assets (rel l))" "fst k \<notin> set ?docs" for k
  proof
    assume "snd k \<in> as_id ` set ?as"
    then obtain b where b: "b \<in> set ?as" "snd k = as_id b" by blast
    have "shared_asset p ?docs l b" using k b(2) unfolding shared_asset_def list_ex_iff by blast
    with unshared [OF b(1)] show False ..
  qed
  have att: "at_target t \<notin> ADocument ` set ?docs \<and> at_target t \<notin> AAsset ` as_id ` set ?as"
    if t: "t \<in> set (attachments (rel l))" "at_memory_id t \<notin> erased_memories p l" for t
  proof -
    obtain r where r: "r \<in> set (episodes (core l))" "er_memory_id r = at_memory_id t"
      using assms(1) t(1) unfolding asset_refs_ok_def by (metis imageE)
    have pr: "er_principal r \<noteq> Some p"
    proof
      assume "er_principal r = Some p"
      then have "er_memory_id r \<in> erased_memories p l" using r(1) by (simp add: erased_memories_def of_principal_def)
      with t(2) r(2) show False by simp
    qed
    have "at_target t \<notin> ADocument ` set ?docs"
    proof
      assume "at_target t \<in> ADocument ` set ?docs"
      then obtain x where x: "at_target t = ADocument x" "x \<in> set ?docs" by blast
      have "\<not> list_ex (\<lambda>t. at_target t = ADocument x \<and>
            list_ex (\<lambda>r. er_memory_id r = at_memory_id t \<and> er_principal r \<noteq> Some p) (episodes (core l))) (attachments (rel l))"
        using x(2) by (auto simp: forget_docs_def)
      then show False using t(1) x(1) r pr unfolding list_ex_iff by blast
    qed
    moreover have "at_target t \<notin> AAsset ` as_id ` set ?as"
    proof
      assume "at_target t \<in> AAsset ` as_id ` set ?as"
      then obtain b where b: "b \<in> set ?as" "at_target t = AAsset (as_id b)" by blast
      have "shared_asset p ?docs l b" using t(1) b(2) r pr unfolding shared_asset_def list_ex_iff by blast
      with unshared [OF b(1)] show False ..
    qed
    ultimately show ?thesis ..
  qed
  have sel: "set (assets (erased_rel ts p l)) = {a \<in> set (assets (rel l)). as_id a \<notin> as_id ` set ?as}"
    "set (extractions (erased_rel ts p l)) = {x \<in> set (extractions (rel l)). ax_asset_id x \<notin> as_id ` set ?as}"
    "set (document_assets (erased_rel ts p l)) = {k \<in> set (document_assets (rel l)). fst k \<notin> set ?docs \<and> snd k \<notin> as_id ` set ?as}"
    "set (attachments (erased_rel ts p l)) = {a \<in> set (attachments (rel l)). at_memory_id a \<notin> erased_memories p l \<and>
       at_target a \<notin> ADocument ` set ?docs \<and> at_target a \<notin> AAsset ` as_id ` set ?as}"
    by (simp_all add: erased_rel_def Let_def)
  show ?thesis unfolding originals_kept_def Let_def sel
    by (intro conjI ballI impI CollectI) (use mine doc att in metis)+
qed

lemma erased_others_kept:
  assumes "asset_refs_ok l" "\<not> list_ex (shared_asset p (forget_docs p l) l) (forget_assets p (forget_docs p l) l)"
  shows "others_kept p l (erased_library ts p l)"
  using erased_originals_kept [OF assms] erased_core_kept erased_derived_kept erased_facts_kept
  by (simp add: others_kept_def erased_library_def)

end
