(* ===== verification/ErasureRuns.thy ===== *)
theory ErasureRuns
  imports ErasureProps
begin

text \<open>The theorems on the erasure, and the erasure of a concrete library.\<close>

section \<open>A library of two principals\<close>

text \<open>
  Alice and Bob have one memory each in the same cluster, one document each with its original, and
  one fact each.
\<close>

abbreviation sha_a :: string where "sha_a \<equiv> replicate 64 (CHR ''a'')"
abbreviation sha_b :: string where "sha_b \<equiv> replicate 64 (CHR ''b'')"

definition owned_row :: "nat \<Rightarrow> nat \<Rightarrow> string \<Rightarrow> episode_row" where
  "owned_row mid rowid who = (sample_row mid rowid)\<lparr>er_principal := Some who\<rparr>"

definition owned_chunk :: "nat \<Rightarrow> nat \<Rightarrow> nat \<Rightarrow> string \<Rightarrow> chunk_row" where
  "owned_chunk cid rowid did who =
     \<lparr>cr_rowid = rowid, cr_chunk_id = cid, cr_doc_id = did, cr_chunk_index = 0, cr_content = ''text'', cr_token_count = 1,
      cr_start_offset = 0, cr_end_offset = 4, cr_created_at_ms = 1, cr_principal = Some who\<rparr>"

definition owned_document :: "nat \<Rightarrow> document_row" where
  "owned_document did =
     \<lparr>dr_doc_id = did, dr_source = ''f.txt'', dr_title = ''f'', dr_mime_type = ''text/plain'', dr_ingested_at_ms = 1,
      dr_modified_at_ms = None, dr_status = Active, dr_chunk_count = 1, dr_content_hash = ''h'', dr_byte_size = 4\<rparr>"

definition shared_db :: db where
  "shared_db = empty_db\<lparr>episodes := [owned_row 5 1 ''alice'', owned_row 6 2 ''bob''], ep_seq := 2,
     embeddings := [embedding_row_of sample_env 5 1 sample_embedding, embedding_row_of sample_env 6 1 sample_embedding],
     documents := [owned_document 70, owned_document 71],
     chunks := [owned_chunk 100 1 70 ''alice'', owned_chunk 101 2 71 ''bob''], chunk_seq := 2,
     pending := [pending_row_of sample_env (PEpisode 5) sample_embedding]\<rparr>"

definition shared_derived :: derived where
  "shared_derived =
     \<lparr>clusters = [\<lparr>cl_id = 9, cl_centroid = Some sample_embedding, cl_coherence = 0, cl_created_at_ms = 1\<rparr>],
      links = [(9, 5), (9, 6)],
      abstractions = [\<lparr>sa_id = 50, sa_cluster_id = 9, sa_content = ''both'', sa_created_at_ms = 1\<rparr>],
      triples = [\<lparr>tr_id = 20, tr_cluster_id = Some 9, tr_source_episode_id = Some 1\<rparr>,
                 \<lparr>tr_id = 21, tr_cluster_id = Some 9, tr_source_episode_id = Some 2\<rparr>]\<rparr>"

definition shared_related :: related where
  "shared_related =
     \<lparr>claims = [\<lparr>cm_id = ''c1'', cm_triple_id = Some 20, cm_source_episode_id = None, cm_doc_id = Some 70, cm_chunk_id = Some 100\<rparr>,
                \<lparr>cm_id = ''c2'', cm_triple_id = Some 21, cm_source_episode_id = Some 2, cm_doc_id = None, cm_chunk_id = None\<rparr>],
      triple_reviews = [\<lparr>tv_id = ''r1'', tv_triple_id = None, tv_source_episode_id = Some 1\<rparr>],
      entities = [\<lparr>en_id = ''alice'', en_canonical_name = ''Alice''\<rparr>, \<lparr>en_id = ''bob'', en_canonical_name = ''Bob''\<rparr>],
      edges = [\<lparr>eg_id = 30, eg_subject = ''alice'', eg_object = None, eg_evidence_count = 1, eg_updated_at_ms = 1\<rparr>,
               \<lparr>eg_id = 31, eg_subject = ''bob'', eg_object = None, eg_evidence_count = 1, eg_updated_at_ms = 1\<rparr>],
      evidence = [\<lparr>vd_id = 40, vd_edge_id = 30, vd_triple_id = 20, vd_memory_id = Some 5, vd_source_episode_id = Some 1,
                   vd_doc_id = None, vd_chunk_id = None\<rparr>,
                  \<lparr>vd_id = 41, vd_edge_id = 31, vd_triple_id = 21, vd_memory_id = Some 6, vd_source_episode_id = Some 2,
                   vd_doc_id = None, vd_chunk_id = None\<rparr>],
      assets = [\<lparr>as_id = 80, as_sha256 = sha_a, as_storage_path = ''assets/blobs/aa/'' @ sha_a, as_created_by = Some ''alice''\<rparr>,
                \<lparr>as_id = 81, as_sha256 = sha_b, as_storage_path = ''assets/blobs/bb/'' @ sha_b, as_created_by = Some ''bob''\<rparr>],
      document_assets = [(70, 80), (71, 81)],
      attachments = [\<lparr>at_id = 90, at_memory_id = 5, at_target = AAsset 80\<rparr>],
      extractions = [\<lparr>ax_id = 95, ax_asset_id = 80\<rparr>]\<rparr>"

definition shared_library :: library where
  "shared_library = \<lparr>core = shared_db, der = shared_derived, rel = shared_related\<rparr>"

definition data_root :: path where
  "data_root = [''data'']"

definition blob_a :: path where "blob_a = [sha_a, ''aa'', ''blobs'', ''assets'', ''data'']"
definition blob_b :: path where "blob_b = [sha_b, ''bb'', ''blobs'', ''assets'', ''data'']"

definition shared_disk :: disk where
  "shared_disk =
     \<lparr>files = (\<lambda>q. if q = blob_a then Some ''A'' else if q = blob_b then Some ''B'' else None),
      dirs = {data_root}, locks = (\<lambda>_. None), clock = 0\<rparr>"

definition erase_all_env :: erase_env where
  "erase_all_env = \<lparr>io_plan = (\<lambda>_. Fine), snapshot_dir = Some data_root, queue_busy = False\<rparr>"

definition broken_erase_env :: erase_env where
  "broken_erase_env = erase_all_env\<lparr>io_plan := (\<lambda>n. if n < 2 then Fine else Refused)\<rparr>"

definition shared_writer :: "HnswIndex writer" where
  "shared_writer = sample_writer\<lparr>wdb := shared_db\<rparr>"

lemma shared_parts:
  "wf_db shared_db" "core_refs_ok shared_library" "source_refs_ok shared_library" "graph_ok shared_library"
  "asset_refs_ok shared_library" "rowids_fit shared_db"
  by code_simp+

lemma shared_derived_ok: "derived_ok shared_db shared_derived"
  by (simp add: derived_ok_def shared_db_def shared_derived_def owned_row_def sample_row_def remember_row_def sample_episode_def)

lemma shared_ok: "library_ok shared_library"
  unfolding library_ok_def using shared_parts shared_derived_ok by (simp add: shared_library_def)

lemma shared_graph: "graph_ok shared_library" "wf_db (core shared_library)"
  using shared_ok by (simp_all add: library_ok_def)

lemma shared_lib_of: "lib_of shared_writer shared_derived shared_related = shared_library"
  by (simp add: lib_of_def shared_writer_def shared_library_def)

lemma forget_assets_alice: "map as_id (forget_assets ''alice'' (forget_docs ''alice'' shared_library) shared_library) = [80]"
  by code_simp

lemma alice_erasable: "erasable erase_all_env ''alice'' shared_library shared_disk"
  by code_simp

lemma erase_env_free: "fault_free sample_env erase_all_env"
  by (simp add: fault_free_def sample_env_def erase_all_env_def)

lemma original_paths_list:
  "original_paths x p l = set (List.map_filter (\<lambda>a. original_path x (as_storage_path a)) (forget_assets p (forget_docs p l) l))"
  by (force simp: original_paths_def List.map_filter_def image_iff)

lemma alice_originals: "original_paths erase_all_env ''alice'' shared_library = {blob_a}"
  unfolding original_paths_list by code_simp

lemma alice_result:
  "map er_memory_id (episodes (erased_core ''alice'' shared_library)) = [6] \<and>
   map cr_chunk_id (chunks (erased_core ''alice'' shared_library)) = [101] \<and>
   map tr_id (triples (erased_der ''alice'' shared_library)) = [21] \<and>
   abstractions (erased_der ''alice'' shared_library) = [] \<and>
   map eg_id (edges (erased_rel 0 ''alice'' shared_library)) = [31] \<and>
   map as_id (assets (erased_rel 0 ''alice'' shared_library)) = [81]"
  by code_simp

section \<open>One filter\<close>

text \<open>
  C18: an erasure that succeeds, with its twelve deletions, their cascades, the trigger on the evidence
  and the references that are set to \<open>NULL\<close>, leaves the library filtered by what is attributed to the
  principal, and its report counts what went.
\<close>

theorem erasure_is_one_filter:
  assumes "graph_ok l" "delete_principal_rows_with_assets e x p l s = (Inr (out, l'), s')"
  shows "l' = erased_library (now_secs_ms e) p l \<and> out = outcome_of p l"
  using delete_rows_ok [OF assms] by metis

lemma alice_run:
  obtains out l' s' where
    "delete_principal_rows_with_assets sample_env erase_all_env ''alice'' shared_library shared_disk = (Inr (out, l'), s')"
  using delete_rows_run [OF erase_env_free alice_erasable] by blast

theorem erasure_is_one_filter_witness:
  "\<exists>out l' s'. delete_principal_rows_with_assets sample_env erase_all_env ''alice'' shared_library shared_disk = (Inr (out, l'), s') \<and>
     map er_memory_id (episodes (core l')) = [6] \<and> do_episodes_deleted out = 1"
proof -
  obtain out l' s' where
    run: "delete_principal_rows_with_assets sample_env erase_all_env ''alice'' shared_library shared_disk = (Inr (out, l'), s')"
    by (rule alice_run)
  have "l' = erased_library (now_secs_ms sample_env) ''alice'' shared_library \<and> out = outcome_of ''alice'' shared_library"
    by (rule erasure_is_one_filter [OF shared_graph(1) run])
  moreover have "do_episodes_deleted (outcome_of ''alice'' shared_library) = 1" by code_simp
  ultimately show ?thesis using run alice_result by auto
qed

section \<open>Completeness\<close>

text \<open>
  C15: after an erasure that succeeds, on a library that satisfies the constraints of its schema:
  no memory, chunk or original is attributed to the principal; no embedding, outbox row, review, link or
  attachment of an erased memory or chunk is left, nor an abstraction of a cluster with an erased
  member, nor a fact with a source in the erased data, its claims, reviews and evidence; every fact,
  claim, review and evidence that stays is unchanged, and a relationship that stays has another count of its
  evidence and another time at most; the library satisfies the constraints, and no original selected is on
  the disk. Entities and clusters with their centroids stay, and facts without a source.
\<close>

theorem erasure_complete:
  assumes "library_ok l" "delete_principal_rows_with_assets e x p l s = (Inr (out, l'), s')"
  shows "nothing_left p l l' \<and> rows_verbatim l l' \<and> library_ok l' \<and> (\<forall>q \<in> original_paths x p l. files s' q = None)"
proof -
  have g: "graph_ok l" and wf: "wf_db (core l)" using assms(1) by (simp_all add: library_ok_def)
  have l': "l' = erased_library (now_secs_ms e) p l" using delete_rows_ok [OF g assms(2)] by metis
  have "rows_verbatim l l'" unfolding l' by (rule erased_rows_verbatim)
  then show ?thesis
    using erased_nothing_left [OF wf] erased_library_ok [OF assms(1)] delete_rows_blobs [OF g assms(2)] by (simp add: l')
qed

theorem erasure_complete_witness:
  "\<exists>out l' s'. delete_principal_rows_with_assets sample_env erase_all_env ''alice'' shared_library shared_disk = (Inr (out, l'), s') \<and>
     nothing_left ''alice'' shared_library l' \<and> files s' blob_a = None"
proof -
  obtain out l' s' where
    run: "delete_principal_rows_with_assets sample_env erase_all_env ''alice'' shared_library shared_disk = (Inr (out, l'), s')"
    by (rule alice_run)
  show ?thesis using run erasure_complete [OF shared_ok run] by (auto simp: alice_originals)
qed

section \<open>Others\<close>

text \<open>
  C17: whatever fails, the command of the writer removes no file but originals it has selected, and keeps
  unchanged, table by table: the memories and chunks that are not the principal's, with their vectors,
  outbox rows and reviews, links and attachments; the documents with a chunk of someone else and
  those not selected; the clusters and the abstractions of those without an erased member; the
  facts without a source in the erased data, with their claims, reviews and evidence; the relationships
  without evidence from an erased fact, and the row of each that has other evidence; the entities; the
  originals uploaded by someone else with their extractions, and the ties of the other
  documents to their originals. When it fails it changes neither a row nor the index.
\<close>

theorem erasure_spares_others:
  assumes "library_ok (lib_of w t r)" "dispatch_forget_principal_rows ops e x p (w, t, r, s) = (res, w', t', r', s')"
  shows "dirs s' = dirs s \<and> (\<forall>q. q \<notin> original_paths x p (lib_of w t r) \<longrightarrow> files s' q = files s q) \<and>
    others_kept p (lib_of w t r) (lib_of w' t' r') \<and> (\<not> is_ok res \<longrightarrow> w' = w \<and> t' = t \<and> r' = r)"
proof -
  have g: "graph_ok (lib_of w t r)" and a: "asset_refs_ok (lib_of w t r)" using assms(1) by (simp_all add: library_ok_def)
  show ?thesis
    using g assms(2)
  proof (cases rule: dispatch_forget_cases)
    case (1 er)
    then show ?thesis by (auto simp: removed_def others_kept_refl)
  next
    case 2
    obtain ae s1 where prep: "prepare_assets e x p (lib_of w t r) s = (Inr ae, s1)" using delete_rows_ok [OF g 2(2)] by metis
    note shared = prepare_ok(2,3) [OF prep]
    have "removed s (original_paths x p (lib_of w t r)) s'" by (rule delete_rows_files [OF 2(2)])
    then show ?thesis using erased_others_kept [OF a shared(2)] by (auto simp: 2(1,4) removed_def)
  qed
qed

theorem erasure_spares_others_witness:
  "files (snd (snd (snd (snd (dispatch_forget_principal_rows sample_ops sample_env broken_erase_env ''alice''
     (shared_writer, shared_derived, shared_related, shared_disk)))))) blob_b = Some ''B''"
proof -
  obtain res w' t' r' s' where run: "dispatch_forget_principal_rows sample_ops sample_env broken_erase_env ''alice''
     (shared_writer, shared_derived, shared_related, shared_disk) = (res, w', t', r', s')" by (metis prod.exhaust)
  have "original_paths broken_erase_env ''alice'' shared_library = {blob_a}"
    unfolding original_paths_list by code_simp
  moreover have "blob_b \<noteq> blob_a" by code_simp
  moreover have "files shared_disk blob_b = Some ''B''" by code_simp
  ultimately have "files s' blob_b = Some ''B''"
    using erasure_spares_others [of shared_writer shared_derived shared_related, unfolded shared_lib_of, OF shared_ok run] by auto
  then show ?thesis by (simp add: run)
qed

section \<open>Retry\<close>

text \<open>
  C16: where an erasure is possible (the principal is not blank, no selected original is shared with
  others, and each has a valid path to a file or to nothing), whatever stops it, after its
  transaction was rolled back and with some of the originals already removed, a retry without faults
  succeeds, and leaves the library and the files as an erasure that had never been stopped.
\<close>

theorem erasure_can_be_retried:
  assumes "graph_ok l" "erasable x p l s" "delete_principal_rows_with_assets e x p l s = (Inl er, s1)"
    and "fault_free e' x'" "snapshot_dir x' = snapshot_dir x"
  shows "\<exists>s2. delete_principal_rows_with_assets e' x' p l s1 = (Inr (outcome_of p l, erased_library (now_secs_ms e') p l), s2) \<and>
    (\<forall>q. files s2 q = (if q \<in> original_paths x p l then None else files s q))"
proof -
  have rm: "removed s (original_paths x p l) s1" by (rule delete_rows_files [OF assms(3)])
  have paths: "original_paths x' p l = original_paths x p l"
    by (simp add: original_paths_def original_path_def assms(5))
  have "erasable x' p l s1"
    using erasable_keep [OF assms(2) rm] by (simp add: erasable_def original_ok_def assms(5))
  from delete_rows_run [OF assms(4) this] obtain out l' s2 where
    run: "delete_principal_rows_with_assets e' x' p l s1 = (Inr (out, l'), s2)" by blast
  have res: "l' = erased_library (now_secs_ms e') p l" "out = outcome_of p l" using delete_rows_ok [OF assms(1) run] by metis+
  have "files s2 q = (if q \<in> original_paths x p l then None else files s q)" for q
    using delete_rows_blobs [OF assms(1) run, of q] rm by (auto simp: paths removed_def)
  with run show ?thesis unfolding res by blast
qed

text \<open>The commit fails: the original is gone, the rows are not.\<close>

definition no_commit_env :: env where
  "no_commit_env = sample_env\<lparr>fails := (\<lambda>st. st = SErase 19)\<rparr>"

theorem erasure_can_be_retried_witness:
  "\<exists>s1 s2. delete_principal_rows_with_assets no_commit_env erase_all_env ''alice'' shared_library shared_disk = (Inl Storage, s1) \<and>
     files s1 blob_a = None \<and> delete_principal_rows_with_assets sample_env erase_all_env ''alice'' shared_library s1 =
       (Inr (outcome_of ''alice'' shared_library, erased_library 1000 ''alice'' shared_library), s2) \<and> files s2 blob_b = Some ''B''"
proof -
  have fails: "case delete_principal_rows_with_assets no_commit_env erase_all_env ''alice'' shared_library shared_disk of
      (Inl er, s1) \<Rightarrow> er = Storage \<and> files s1 blob_a = None | (Inr _, _) \<Rightarrow> False"
    by code_simp
  then obtain s1 where run: "delete_principal_rows_with_assets no_commit_env erase_all_env ''alice'' shared_library shared_disk = (Inl Storage, s1)"
      "files s1 blob_a = None"
    by (auto split: prod.splits sum.splits)
  have "now_secs_ms sample_env = 1000" "blob_b \<noteq> blob_a" "files shared_disk blob_b = Some ''B''" by code_simp+
  then show ?thesis
    using run erasure_can_be_retried [OF shared_graph(1) alice_erasable run(1) erase_env_free refl] by (auto simp: alice_originals)
qed

section \<open>The index\<close>

text \<open>
  C19: the erasure with the rebuild that follows keeps both invariants of the writer on the index of the
  repository, wherever it stops: every vector a search may return belongs to an active row, so none
  to an erased one, and every active row is in the index or in the outbox.
\<close>

theorem erasure_keeps_index:
  assumes "graph_ok (lib_of w t r)" "rowids_fit (wdb w)" "index_invs hnsw_live w"
    and "forget_principal (hnsw_vindex lib) e re x eid tid actor p ((w, t, r, s), trail) = (res, (w', t', r', s'), trail')"
  shows "index_invs hnsw_live w'"
  using assms by (rule hnsw_total.forget_principal_invs)

lemma active_ids_list:
  "active_ids d = set (map ep_id (filter (\<lambda>r. er_status r = Active) (episodes d))) \<union>
     set (map ch_id (filter (\<lambda>c. doc_active d (cr_doc_id c)) (chunks d)))"
  by (simp add: active_ids_def)

definition indexed_writer :: "HnswIndex writer" where
  "indexed_writer = shared_writer\<lparr>hnsw := from_inner [(1, [0]), (2, [0]), (chunk_hnsw_id 1, [0]), (chunk_hnsw_id 2, [0])] 1\<rparr>"

theorem erasure_keeps_index_witness:
  "index_invs hnsw_live indexed_writer \<and>
   (\<exists>res w' t' r' s' trail'. forget_principal sample_ops sample_env sample_renv erase_all_env 1 ''default'' None ''alice''
     ((indexed_writer, shared_derived, shared_related, shared_disk), []) = (res, (w', t', r', s'), trail') \<and>
     index_invs hnsw_live w')"
proof -
  have ids: "hnsw_live (hnsw indexed_writer) = {1, 2, chunk_hnsw_id 1, chunk_hnsw_id 2}"
    by (simp add: hnsw_live_def indexed_writer_def from_inner_def insert_commute)
  have act: "active_ids shared_db = {1, 2, chunk_hnsw_id 1, chunk_hnsw_id 2}"
  proof -
    have "map ep_id (filter (\<lambda>r. er_status r = Active) (episodes shared_db)) = [1, 2]"
      "map ch_id (filter (\<lambda>c. doc_active shared_db (cr_doc_id c)) (chunks shared_db)) = [chunk_hnsw_id 1, chunk_hnsw_id 2]"
      by (simp_all add: shared_db_def owned_row_def sample_row_def remember_row_def sample_episode_def owned_chunk_def
          owned_document_def ep_id_def ch_id_def doc_active_def episode_hnsw_id_def)
    then show ?thesis unfolding active_ids_list by auto
  qed
  have "outbox_ok {1, 2, chunk_hnsw_id 1, chunk_hnsw_id 2} shared_db"
    unfolding act [symmetric] outbox_ok_def by (auto intro: active_ids_epI active_ids_chI)
  then have inv: "index_invs hnsw_live indexed_writer"
    unfolding index_invs_def live_inv_def outbox_inv_def ids using act shared_parts(1)
    by (simp add: indexed_writer_def shared_writer_def)
  obtain res w' t' r' s' trail' where run: "forget_principal sample_ops sample_env sample_renv erase_all_env 1 ''default'' None ''alice''
     ((indexed_writer, shared_derived, shared_related, shared_disk), []) = (res, (w', t', r', s'), trail')"
    by (metis prod.exhaust)
  have "lib_of indexed_writer shared_derived shared_related = shared_library"
    by (simp add: lib_of_def indexed_writer_def shared_writer_def shared_library_def)
  then have g: "graph_ok (lib_of indexed_writer shared_derived shared_related)" using shared_graph(1) by (simp only:)
  have fit: "rowids_fit (wdb indexed_writer)" using shared_parts(6) by (simp add: indexed_writer_def shared_writer_def)
  have "index_invs hnsw_live w'" by (rule erasure_keeps_index [OF g fit inv run])
  with inv run show ?thesis by (intro conjI exI)
qed

section \<open>What an erasure keeps\<close>

text \<open>The entities and the clusters stay, with the names and the centroids they have from the erased content.\<close>

lemma erasure_keeps_names:
  assumes "graph_ok l" "delete_principal_rows_with_assets e x p l s = (Inr (out, l'), s')"
  shows "entities (rel l') = entities (rel l)" "clusters (der l') = clusters (der l)"
proof -
  have "l' = erased_library (now_secs_ms e) p l" using delete_rows_ok [OF assms] by metis
  then show "entities (rel l') = entities (rel l)" "clusters (der l') = clusters (der l)"
    by (simp_all add: erased_rel_def erased_der_def Let_def)
qed

text \<open>
  When the administrative database cannot be opened after the commit the caller gets an error and the
  rows are gone, but no row of the trail tells of it; and what a retry then reports and records
  is that nothing was erased.
\<close>

lemma erasure_without_trace:
  assumes "graph_ok (lib_of w t r)" "fails e SEraseAdminOpen"
    and "dispatch_forget_principal_rows ops e x p (w, t, r, s) = (Inr out, v)" "\<not> queue_busy x"
    and "forget_principal ops e re x eid tid actor p ((w, t, r, s), trail) = (res, (w', t', r', s'), trail')"
  shows "\<not> is_ok res \<and> trail' = trail \<and> lib_of w' t' r' = erased_library (now_secs_ms e) p (lib_of w t r)"
proof -
  obtain w1 t1 r1 s1 where v: "v = (w1, t1, r1, s1)" by (metis prod.exhaust)
  have lib: "lib_of w1 t1 r1 = erased_library (now_secs_ms e) p (lib_of w t r)"
    using assms(1) assms(3) [unfolded v] by (cases rule: dispatch_forget_cases) auto
  have "\<not> is_ok res \<and> trail' = trail \<and> wdb w' = wdb w1 \<and> t' = t1 \<and> r' = r1"
    using assms(2-5) v by (auto simp: forget_principal_def Let_def split: sum.splits if_splits)
  then show ?thesis using lib by (simp add: lib_of_def)
qed

lemma erased_again:
  assumes "wf_db (core l)"
  shows "total_deleted (outcome_of p (erased_library ts p l)) = 0"
proof -
  let ?l' = "erased_library ts p l"
  note nl = erased_nothing_left [OF assms, of p ts, unfolded nothing_left_def]
  have eps: "filter (of_principal p) (episodes (core ?l')) = []" "filter (chunk_of_principal p) (chunks (core ?l')) = []"
    using nl by (auto simp: core_left_def filter_empty_conv of_principal_def chunk_of_principal_def)
  have docs: "forget_docs p ?l' = []" using nl by (auto simp: core_left_def forget_docs_def list_ex_iff filter_empty_conv)
  have assets: "forget_assets p [] ?l' = []"
    using nl by (auto simp: core_left_def forget_assets_def list_ex_iff filter_empty_conv)
  have sets: "erased_rowids p ?l' = {}" "erased_memories p ?l' = {}" "erased_chunks p ?l' = {}"
    using eps by (simp_all only: erased_rowids_def erased_memories_def erased_chunks_def list.set image_empty)
  have "forget_triples p [] ?l' = {}"
    unfolding forget_triples_def evidence_hits_def sets by (simp add: opt_hits_iff)
  then show ?thesis by (simp add: total_deleted_def outcome_of_def Let_def docs assets) (use eps in \<open>simp add: filter_empty_conv\<close>)
qed

end
