(* ===== verification/Spec2Isabelle.thy ===== *)
theory Spec2Isabelle
  imports RecoveryProps SnapshotProps UploadProps DocSearchProps Stream Dispatch ConsolidateRuns ReembedProps ErasureRuns
begin

text \<open>
  Solo is a local memory store. Memories and documents live in one SQLite database per tenant;
  their embeddings live in an HNSW index beside it; an HTTP and MCP server lets agents write,
  recall and upload; a steward groups the memories into clusters. The program is Rust, under
  \<open>src/crates\<close>. This library models the parts in which its own logic lies and proves what makes
  them correct.

  \<^bold>\<open>How the program works, and where it is modelled.\<close>

  One writer task owns the tables and the index. A command is a message to it; the handler runs
  a transaction that writes the rows, their audit row and a row of the outbox
  \<open>pending_index\<close> for each vector, commits, applies the outbox to the index, and publishes an
  invalidation event. A startup loads the last snapshot of the index (or rebuilds it from the stored
  embeddings), replays the outbox, restores the tombstones and reports the drift. Readers ask the
  index for candidates and join them with the tables. The server's sessions carry the events to the
  clients, and its task store runs tools in the background.

  \<^item> \<open>Prelude\<close>: the error type of \<open>solo-core/src/error.rs\<close>, results with \<open>?\<close>, maps as tables, the
    list and word lemmas and the collections the other theories share.
  \<^item> \<open>CoreTypes\<close>: \<open>solo-core/src/types.rs\<close> (embeddings, episodes, document status, events).
  \<^item> \<open>HnswId\<close>: \<open>solo-storage/src/hnsw_id.rs\<close>, the 64-bit ids with their kind bit.
  \<^item> \<open>VectorIndexModel\<close>: \<open>HnswIndex\<close> of \<open>solo-storage/src/vector_index.rs\<close>: the vectors by id, the
    tombstones, add, remove and search. The search of the graph is a parameter. The locale of the
    contract \<open>VectorIndex\<close> is interpreted on it.
  \<^item> \<open>ChunkText\<close>: \<open>solo-storage/src/document/chunk.rs\<close> on UTF-8 bytes, with every slice that can
    panic as an option.
  \<^item> \<open>Db\<close>, \<open>DbFacts\<close>: the tables of \<open>migrations\<close> that the writer touches, one definition per SQL
    statement, with the constraints a statement can violate.
  \<^item> \<open>WriterBase\<close>, \<open>WriterMemory\<close>, \<open>WriterDocuments\<close>: the handlers of \<open>solo-storage/src/writer.rs\<close>
    (remember, remember batch, forget, update, review, ingest, forget document) with their
    audit rows, quotas, error paths before and after the commit, and the events of the dispatcher.
    \<open>WriterFacts\<close> and \<open>WriterProps\<close> hold their lemmas and properties, \<open>Visibility\<close> what no
    command undoes.
  \<^item> \<open>Reembed\<close>: the command of the same file that embeds the memories again with the current model;
    \<open>ReembedProps\<close> composes it with the rebuild at the next startup.
  \<^item> \<open>Recovery\<close>: \<open>recovery.rs\<close>, \<open>hnsw_rebuild.rs\<close> and their order in \<open>startup.rs\<close>;
    \<open>RecoveryFacts\<close>, \<open>ReplayFacts\<close>, \<open>RecoveryProps\<close> what a startup leaves.
  \<^item> \<open>Files\<close>: files and directories; an operation may succeed, fail, stop half-way, or be the
    last one before the machine stops. \<open>Snapshot\<close> (\<open>snapshot.rs\<close>, with \<open>SnapshotProps\<close>) and the
    \<open>Upload\<close> theories (\<open>solo-api/src/document_upload.rs\<close>) run on it.
  \<^item> \<open>Session\<close>, \<open>Stream\<close>: \<open>mcp_session.rs\<close>, \<open>mcp_notify.rs\<close>, \<open>mcp_progress.rs\<close> and the
    resumable event stream of \<open>http.rs\<close>, with publishers that interleave.
  \<^item> \<open>Tasks\<close>, \<open>Dispatch\<close>: \<open>mcp_task.rs\<close>, the enqueueing of \<open>mcp.rs\<close> and the methods of
    \<open>mcp_dispatch.rs\<close>.
  \<^item> \<open>Float32\<close>: \<open>f32\<close> as bit patterns with round to nearest, ties to even, for the operations the
    readers and the steward use.
  \<^item> \<open>Recall\<close>, \<open>DocSearch\<close>: \<open>solo-query/src/recall.rs\<close>, \<open>retrieval.rs\<close>, \<open>doc_search.rs\<close>,
    \<open>inbox.rs\<close>, \<open>inspect.rs\<close>; \<open>RecallProps\<close> and \<open>DocSearchProps\<close> compose them with the writer.
  \<^item> \<open>UnionFind\<close>, \<open>Clusters\<close>, \<open>ClusterMerge\<close>: \<open>solo-steward/src/cluster.rs\<close> and the configuration
    of its \<open>lib.rs\<close>; \<open>ClusterFacts\<close>, \<open>ClusterProps\<close>, \<open>ClusterMergeProps\<close>, \<open>AbsorbProps\<close> their
    lemmas and properties.
  \<^item> \<open>DerivedDb\<close>, \<open>Consolidate\<close>: the tables of clusters, links, abstractions and triples, and the
    consolidation of \<open>writer.rs\<close> with its two transactions, and what the batch of
    \<open>triples_batch.rs\<close> picks up afterwards; \<open>ConsolidateFacts\<close>, \<open>ConsolidateProps\<close>, \<open>ConsolidateRuns\<close>
    their lemmas and properties.
  \<^item> \<open>LibraryDb\<close>, \<open>AssetPaths\<close>, \<open>Erasure\<close>: the tables of claims, relationships, evidence and originals with the
    cascades and triggers of \<open>migrations\<close>, the paths of the originals (\<open>asset_blob.rs\<close>), and the erasure of a principal of \<open>gdpr.rs\<close> and
    \<open>gdpr_assets.rs\<close> on them and on \<open>Files\<close>; \<open>ErasureFacts\<close>, \<open>ErasureFiles\<close>, \<open>ErasureSchema\<close>,
    \<open>ErasureProps\<close>, \<open>ErasureRuns\<close> their lemmas and properties. \<open>FileRuns\<close> holds what the programs
    on the disk share.

  \<^bold>\<open>What the lemmas show.\<close>

  The outbox invariant (\<open>DbFacts\<close>, \<open>WriterFacts\<close>): every active episode and chunk is in the
  index or in the outbox, whatever statement fails and wherever a command stops. The startup theories
  start from it and show that a replay in which nothing fails leaves exactly the active ids
  in the index. The readers rest on \<open>Visibility\<close>: a forgotten row stays forgotten. The file
  theories show crash safety: every state in which a save, a manifest write or an append can stop is
  one the next start can use, with the exceptions named in the findings. \<open>Session\<close>, \<open>Stream\<close>,
  \<open>Tasks\<close> and \<open>Dispatch\<close> show that a client that resumes misses nothing that was kept for it as long
  as publications do not overlap, that a cancellation stops a call at its next check, that an ended
  task stays ended and that every request gets its answer. The steward theories show
  that the groups are the connected components of the similarity graph, that no episode is lost
  or doubled by clustering and merging, and that sizes stay within their bounds; the consolidation
  theories carry this to the tables: every memory is in one cluster at most, whatever fails. The
  erasure theories show that its deletions amount to one filter of the library, table by table what
  goes and what stays, and that an interrupted one can be repeated.

  \<^bold>\<open>Interfaces.\<close> The contract of the vector index is the locale \<open>vector_index\<close>; the writer and
  the startup are proved against it and used through its interpretation on \<open>HnswIndex\<close>. Results are
  sums with the error variant, panics are \<open>None\<close>, and a statement of SQL or an operation on files
  that can fail asks its environment.

  \<^bold>\<open>Bounds and fuel.\<close> There is no fuel: every loop is structural or has a measure. The find loop of
  the union-find terminates because a parent has a larger rank; ranks are 8-bit words and stay
  at most 63 for fewer than \<open>2 ^ 64\<close> elements. Row ids must stay below \<open>2 ^ 62\<close> for the kind bit. The chunker's
  progress is the byte offset. Integers are words where they wrap and natural numbers or
  integers where the code saturates or cannot reach the bound.

  \<^bold>\<open>Parameters.\<close> Third-party code is a parameter: the HNSW graph search and its files, the embedder and
  the language model, the full-text index, the parsers of document formats, JSON and SHA-256,
  UUIDs, clocks, the iteration order of \<open>HashMap\<close>, \<open>str::parse::<f32>\<close> and the tools of the MCP server.
  What is assumed of one is a premise of the theorem that needs it.

  \<^bold>\<open>Not modelled.\<close> The HTTP routing and the JSON shapes of \<open>http.rs\<close> and \<open>mcp.rs\<close> (only the event
  stream and the task enqueueing are); the queries over the derived tables (\<open>derived.rs\<close>,
  \<open>context.rs\<close>); the prompts to language models and the reading of their answers; the document parsers; the embedders' and
  model clients' network calls; backup, restore and migration, which copy files and run SQL
  scripts; the command line, the tray application and the benchmarks. Of the writer, the asset
  commands, the attaching of abstractions, the repair of derived data and the review of claims are
  not modelled; of the tables, those only these commands use.
\<close>

end
